(* ===== verification/Base.thy ===== *)
theory Base
  imports
    Main
    "HOL-Library.AList"
    "HOL-Library.List_Lexorder"
    "HOL-Library.Char_ord"
    "HOL-Library.Product_Lexorder"
begin

text \<open>
  The prelude of the development: the names of the model's basic types, outcomes of code that may
  raise, the operations of a database table seen as a list of rows, Python's \<open>dict.fromkeys\<close>
  and \<open>sorted\<close>, and the generic facts about them.  The interface \<open>service\<close> is
  stated here (every operation of a service keeps an invariant of the database, so every history of
  calls does), and \<open>forward_service\<close>, which adds that every call only moves forward.
\<close>

section \<open>Basic types\<close>

text \<open>An instant in microseconds (an aware \<open>datetime\<close>) and the 128-bit value of a UUID.\<close>

type_synonym instant = int
type_synonym uuid = nat

text \<open>What happened to an element between two architectures (core/architecture_ir/diff.py).\<close>

datatype change_kind = ADDED | REMOVED | MODIFIED

text \<open>The simplification rules a group of proofs shares.\<close>

named_theorems row_simps \<open>reading a table after it was written\<close>
named_theorems outcome_simps \<open>outcomes of code that may raise\<close>

section \<open>Outcomes and transactions\<close>

text \<open>
  Code that may raise returns \<open>'e + 'a\<close>, with \<open>Inl\<close> for the exception.  \<open>rbind\<close> is
  sequencing: an exception skips the rest.  \<open>ensure\<close> is \<open>if not c: raise e\<close>.
\<close>

fun rbind :: "'e + 'a \<Rightarrow> ('a \<Rightarrow> 'e + 'b) \<Rightarrow> 'e + 'b" where
  "rbind (Inl e) f = Inl e"
| "rbind (Inr x) f = f x"

definition ensure :: "bool \<Rightarrow> 'e \<Rightarrow> 'e + unit" where
  "ensure c e = (if c then Inr () else Inl e)"

definition require_some :: "'a option \<Rightarrow> 'e \<Rightarrow> 'e + 'a" where
  "require_some x e = (case x of None \<Rightarrow> Inl e | Some v \<Rightarrow> Inr v)"

text \<open>
  \<open>async with self._uow as uow:\<close> commits when the block ends normally and rolls back when it
  raises (persistence/unit_of_work.py): the caller sees the outcome, the database either the
  block's final state or the state before it.
\<close>

definition transaction :: "('s \<Rightarrow> 'e + ('r \<times> 's)) \<Rightarrow> 's \<Rightarrow> ('e + 'r) \<times> 's" where
  "transaction block s =
     (case block s of Inl e \<Rightarrow> (Inl e, s) | Inr (r, s') \<Rightarrow> (Inr r, s'))"

text \<open>A block whose own result is an outcome: the exception is raised after the commit.\<close>

definition raise_after :: "('e + ('e + 'r)) \<times> 's \<Rightarrow> ('e + 'r) \<times> 's" where
  "raise_after p = (case fst p of Inl e \<Rightarrow> Inl e | Inr r \<Rightarrow> r, snd p)"

lemma snd_raise_after [simp]: "snd (raise_after p) = snd p"
  by (simp add: raise_after_def)

lemma rbind_Inr [outcome_simps]: "rbind m f = Inr y \<longleftrightarrow> (\<exists>x. m = Inr x \<and> f x = Inr y)"
  by (cases m) auto

lemma rbind_Inl [outcome_simps]:
  "rbind m f = Inl e \<longleftrightarrow> m = Inl e \<or> (\<exists>x. m = Inr x \<and> f x = Inl e)"
  by (cases m) auto

lemma ensure_Inr [outcome_simps]: "ensure c e = Inr u \<longleftrightarrow> c"
  by (simp add: ensure_def)

lemma ensure_Inl [outcome_simps]: "ensure c e = Inl e' \<longleftrightarrow> \<not> c \<and> e' = e"
  by (auto simp: ensure_def)

lemma require_some_Inr [outcome_simps]: "require_some x e = Inr v \<longleftrightarrow> x = Some v"
  by (cases x) (auto simp: require_some_def)

lemma require_some_Inl [outcome_simps]: "require_some x e = Inl e' \<longleftrightarrow> x = None \<and> e' = e"
  by (cases x) (auto simp: require_some_def)

lemma transaction_Inr:
  "transaction block s = (Inr r, s') \<longleftrightarrow> block s = Inr (r, s')"
  by (auto simp: transaction_def split: sum.splits)

lemma transaction_Inl:
  "transaction block s = (Inl e, s') \<longleftrightarrow> block s = Inl e \<and> s' = s"
  by (auto simp: transaction_def split: sum.splits)

lemma fst_transaction_Inl: "fst (transaction block s) = Inl e \<longleftrightarrow> block s = Inl e"
  by (auto simp: transaction_def split: sum.splits)

text \<open>
  \<open>on_return Q m\<close>: if \<open>m\<close> does not raise, its value satisfies \<open>Q\<close>.  It turns a block of
  code into the conditions its steps must meet, one step at a time.
\<close>

definition on_return :: "('a \<Rightarrow> bool) \<Rightarrow> 'e + 'a \<Rightarrow> bool" where
  "on_return Q m \<longleftrightarrow> (\<forall>x. m = Inr x \<longrightarrow> Q x)"

named_theorems on_return_simps \<open>weakest preconditions of the building blocks\<close>

lemma on_return_Inr [on_return_simps, simp]: "on_return Q (Inr x) = Q x"
  by (simp add: on_return_def)

lemma on_return_Inl [on_return_simps, simp]: "on_return Q (Inl e)"
  by (simp add: on_return_def)

lemma on_return_rbind [on_return_simps]:
  "on_return Q (rbind m f) = on_return (\<lambda>x. on_return Q (f x)) m"
  by (cases m) (simp_all add: on_return_def)

lemma on_return_ensure [on_return_simps]: "on_return Q (ensure c e) = (c \<longrightarrow> Q ())"
  by (simp add: ensure_def)

lemma on_return_require [on_return_simps]:
  "on_return Q (require_some x e) = (\<forall>v. x = Some v \<longrightarrow> Q v)"
  by (cases x) (auto simp: require_some_def)

lemma on_return_if [on_return_simps]:
  "on_return Q (if c then a else b) = ((c \<longrightarrow> on_return Q a) \<and> (\<not> c \<longrightarrow> on_return Q b))"
  by simp

lemma on_returnI: "(\<And>x. m = Inr x \<Longrightarrow> Q x) \<Longrightarrow> on_return Q m"
  by (simp add: on_return_def)

lemma on_return_bindI:
  "(\<And>x. m = Inr x \<Longrightarrow> on_return Q (f x)) \<Longrightarrow> on_return Q (rbind m f)"
  by (cases m) simp_all

lemma on_return_bind2I:
  "(\<And>x y. m = Inr (x, y) \<Longrightarrow> on_return Q (f x y)) \<Longrightarrow> on_return Q (rbind m (\<lambda>(x, y). f x y))"
  by (cases m) auto

lemma on_return_sumI:
  "(\<And>a. m = Inl a \<Longrightarrow> on_return Q (f a)) \<Longrightarrow> (\<And>b. m = Inr b \<Longrightarrow> on_return Q (g b)) \<Longrightarrow>
   on_return Q (case m of Inl a \<Rightarrow> f a | Inr b \<Rightarrow> g b)"
  by (cases m) simp_all

lemma on_return_optionI:
  "(m = None \<Longrightarrow> on_return Q a) \<Longrightarrow> (\<And>b. m = Some b \<Longrightarrow> on_return Q (g b)) \<Longrightarrow>
   on_return Q (case m of None \<Rightarrow> a | Some b \<Rightarrow> g b)"
  by (cases m) simp_all

lemma on_return_ifI:
  "(c \<Longrightarrow> on_return Q a) \<Longrightarrow> (\<not> c \<Longrightarrow> on_return Q b) \<Longrightarrow> on_return Q (if c then a else b)"
  by simp

lemma on_return_pairI: "(\<And>a b. p = (a, b) \<Longrightarrow> on_return Q (f a b)) \<Longrightarrow> on_return Q (case p of (a, b) \<Rightarrow> f a b)"
  by (cases p) simp

lemmas on_return_intros = on_return_bind2I on_return_bindI on_return_sumI on_return_optionI
  on_return_ifI on_return_pairI

lemma on_return_weaken: "on_return Q m \<Longrightarrow> (\<And>x. Q x \<Longrightarrow> R x) \<Longrightarrow> on_return R m"
  by (simp add: on_return_def)

lemma on_returnD: "on_return Q m \<Longrightarrow> m = Inr x \<Longrightarrow> Q x"
  by (simp add: on_return_def)

lemma transaction_keeps:
  assumes "P s" and "on_return (\<lambda>(r, s'). P s') (block s)"
  shows "P (snd (transaction block s))"
  using assms by (auto simp: transaction_def on_return_def split: sum.splits)

section \<open>Database tables as lists of rows\<close>

definition update_where :: "('r \<Rightarrow> bool) \<Rightarrow> ('r \<Rightarrow> 'r) \<Rightarrow> 'r list \<Rightarrow> 'r list" where
  "update_where p f rows = map (\<lambda>r. if p r then f r else r) rows"

definition delete_where :: "('r \<Rightarrow> bool) \<Rightarrow> 'r list \<Rightarrow> 'r list" where
  "delete_where p rows = filter (\<lambda>r. \<not> p r) rows"

definition count_where :: "('r \<Rightarrow> bool) \<Rightarrow> 'r list \<Rightarrow> nat" where
  "count_where p rows = length (filter p rows)"

text \<open>A unique index: the rows the (partial) index covers have distinct keys.\<close>

definition unique_on :: "('r \<Rightarrow> bool) \<Rightarrow> ('r \<Rightarrow> 'k) \<Rightarrow> 'r list \<Rightarrow> bool" where
  "unique_on p key rows \<longleftrightarrow> distinct (map key (filter p rows))"

lemma set_update_where [row_simps]:
  "set (update_where p f rows) = {if p r then f r else r | r. r \<in> set rows}"
  by (auto simp: update_where_def)

lemma set_delete_where [row_simps]: "set (delete_where p rows) = {r \<in> set rows. \<not> p r}"
  by (auto simp: delete_where_def)

lemma update_where_kept: "r \<in> set rows \<Longrightarrow> \<not> p r \<Longrightarrow> r \<in> set (update_where p f rows)"
  by (force simp: update_where_def)

lemma update_where_changed: "r \<in> set rows \<Longrightarrow> p r \<Longrightarrow> f r \<in> set (update_where p f rows)"
  by (force simp: update_where_def)

lemma ball_update_where:
  assumes "\<forall>r \<in> set rows. P r" and "\<And>r. r \<in> set rows \<Longrightarrow> P r \<Longrightarrow> p r \<Longrightarrow> P (f r)"
  shows "\<forall>r \<in> set (update_where p f rows). P r"
  using assms by (auto simp: update_where_def)

lemma map_update_where:
  assumes "\<And>r. p r \<Longrightarrow> key (f r) = key r"
  shows "map key (update_where p f rows) = map key rows"
  using assms by (induction rows) (auto simp: update_where_def)

lemma length_update_where [simp]: "length (update_where p f rows) = length rows"
  by (simp add: update_where_def)

lemma filter_update_where:
  assumes "\<And>r. r \<in> set rows \<Longrightarrow> p r \<Longrightarrow> q (f r) = q r"
  shows "filter q (update_where p f rows) = update_where p f (filter q rows)"
  using assms by (induction rows) (auto simp: update_where_def)

lemma unique_on_delete_where: "unique_on q key rows \<Longrightarrow> unique_on q key (delete_where p rows)"
  by (induction rows) (auto simp: unique_on_def delete_where_def)

lemma unique_on_update_where:
  assumes u: "unique_on q key rows"
    and k: "\<And>r. r \<in> set rows \<Longrightarrow> p r \<Longrightarrow> key (f r) = key r \<and> (q (f r) \<longrightarrow> q r)"
  shows "unique_on q key (update_where p f rows)"
  using assms
proof (induction rows)
  case Nil
  then show ?case by (simp add: unique_on_def update_where_def)
next
  case (Cons r rows)
  have IH: "unique_on q key (update_where p f rows)"
    using Cons by (auto simp: unique_on_def split: if_splits)
  have sub: "key ` {x \<in> set (update_where p f rows). q x} \<subseteq> key ` {x \<in> set rows. q x}"
    using Cons.prems(2) by (fastforce simp: set_update_where)
  show ?case
  proof (cases "q (if p r then f r else r)")
    case True
    then have qr: "q r" and kr: "key (if p r then f r else r) = key r"
      using Cons.prems(2)[of r] by (auto split: if_splits)
    have "key r \<notin> key ` {x \<in> set rows. q x}"
      using Cons.prems(1) qr by (simp add: unique_on_def)
    with sub have "key r \<notin> key ` {x \<in> set (update_where p f rows). q x}"
      by blast
    with IH True kr show ?thesis
      by (auto simp: unique_on_def update_where_def)
  next
    case False
    with IH show ?thesis by (simp add: unique_on_def update_where_def)
  qed
qed

lemma unique_on_append:
  "unique_on q key (rows @ [r]) \<longleftrightarrow>
     unique_on q key rows \<and> (q r \<longrightarrow> key r \<notin> key ` {x \<in> set rows. q x})"
  by (auto simp: unique_on_def)

lemma find_Some_mem: "List.find p rows = Some r \<Longrightarrow> r \<in> set rows \<and> p r"
  by (induction rows) (auto split: if_splits)

lemma find_None_iff_set: "List.find p rows = None \<longleftrightarrow> (\<forall>r \<in> set rows. \<not> p r)"
  by (auto simp: find_None_iff)

lemma unique_on_same_key:
  assumes "unique_on (\<lambda>_. True) key rows" "r \<in> set rows" "r' \<in> set rows" "key r = key r'"
  shows "r = r'"
  using assms by (auto simp: unique_on_def distinct_map inj_on_def)

lemma find_unique:
  assumes "unique_on (\<lambda>_. True) key rows" "r \<in> set rows"
  shows "List.find (\<lambda>x. key x = key r) rows = Some r"
proof (cases "List.find (\<lambda>x. key x = key r) rows")
  case None
  with assms(2) show ?thesis by (auto simp: find_None_iff_set)
next
  case (Some r')
  then have "r' \<in> set rows" and "key r' = key r" by (auto dest: find_Some_mem)
  with assms Some show ?thesis by (auto dest: unique_on_same_key)
qed

lemma update_where_none:
  "\<forall>r \<in> set rows. \<not> p r \<Longrightarrow> update_where p f rows = rows"
  by (induction rows) (auto simp: update_where_def)

lemma delete_where_none: "\<forall>r \<in> set rows. \<not> p r \<Longrightarrow> delete_where p rows = rows"
  by (simp add: delete_where_def)

lemma unique_on_Cons:
  "unique_on (\<lambda>_. True) key (r # rows) \<longleftrightarrow>
     unique_on (\<lambda>_. True) key rows \<and> (\<forall>x \<in> set rows. key x \<noteq> key r)"
  by (auto simp: unique_on_def image_iff)

text \<open>Giving the one row with a given key a new value of another unique column.\<close>

lemma unique_on_set_one:
  assumes "unique_on (\<lambda>_. True) ident rows" "unique_on (\<lambda>_. True) key rows"
    and "\<forall>r \<in> set rows. ident r \<noteq> i \<longrightarrow> key r \<noteq> k" and k: "\<And>r. key (f r) = k"
  shows "unique_on (\<lambda>_. True) key (update_where (\<lambda>r. ident r = i) f rows)"
  using assms(1-3)
proof (induction rows)
  case (Cons a rows)
  have IH: "unique_on (\<lambda>_. True) key (update_where (\<lambda>r. ident r = i) f rows)"
    using Cons by (auto simp: unique_on_Cons)
  have up: "update_where (\<lambda>r. ident r = i) f (a # rows) =
      (if ident a = i then f a else a) # update_where (\<lambda>r. ident r = i) f rows"
    by (simp add: update_where_def)
  show ?case
  proof (cases "ident a = i")
    case True
    then have "\<forall>r \<in> set rows. ident r \<noteq> i" using Cons.prems(1) by (auto simp: unique_on_Cons)
    moreover from this have "update_where (\<lambda>r. ident r = i) f rows = rows"
      by (rule update_where_none)
    ultimately show ?thesis using IH True Cons.prems(3) by (auto simp: up unique_on_Cons k)
  next
    case False
    with IH Cons.prems show ?thesis
      by (auto simp: up unique_on_Cons set_update_where k)
  qed
qed (simp add: unique_on_def update_where_def)

text \<open>
  Rows are never lost: every row of the first table has a successor in the second.
\<close>

definition rows_progress :: "('r \<Rightarrow> 'r \<Rightarrow> bool) \<Rightarrow> 'r list \<Rightarrow> 'r list \<Rightarrow> bool" where
  "rows_progress R xs ys \<longleftrightarrow> (\<forall>x \<in> set xs. \<exists>y \<in> set ys. R x y)"

lemma rows_progress_refl: "(\<And>x. R x x) \<Longrightarrow> rows_progress R xs xs"
  by (auto simp: rows_progress_def)

lemma rows_progress_trans:
  assumes "\<And>x y z. R x y \<Longrightarrow> R y z \<Longrightarrow> R x z" "rows_progress R xs ys" "rows_progress R ys zs"
  shows "rows_progress R xs zs"
  using assms unfolding rows_progress_def by meson

lemma rows_progress_append: "(\<And>x. R x x) \<Longrightarrow> rows_progress R xs (xs @ zs)"
  by (auto simp: rows_progress_def)

lemma rows_progress_update:
  assumes "\<And>x. R x x" "\<And>x. x \<in> set xs \<Longrightarrow> p x \<Longrightarrow> R x (f x)"
  shows "rows_progress R xs (update_where p f xs)"
proof -
  have "(if p x then f x else x) \<in> set (update_where p f xs) \<and> R x (if p x then f x else x)"
    if "x \<in> set xs" for x
    using assms that by (auto simp: update_where_def)
  then show ?thesis unfolding rows_progress_def by blast
qed

lemma find_append_None: "List.find p xs = None \<Longrightarrow> List.find p (xs @ ys) = List.find p ys"
  by (induction xs) auto

lemma unique_on_Cons_p:
  "unique_on q key (r # rows) \<longleftrightarrow>
     unique_on q key rows \<and> (q r \<longrightarrow> (\<forall>x \<in> set rows. q x \<longrightarrow> key x \<noteq> key r))"
  by (auto simp: unique_on_def image_iff)

lemma unique_on_update_one:
  assumes "unique_on (\<lambda>_. True) ident rows" "unique_on q key rows"
    and "\<And>r x. r \<in> set rows \<Longrightarrow> ident r = i \<Longrightarrow> x \<in> set rows \<Longrightarrow> ident x \<noteq> i \<Longrightarrow> q (f r) \<Longrightarrow> q x \<Longrightarrow> key x \<noteq> key (f r)"
  shows "unique_on q key (update_where (\<lambda>r. ident r = i) f rows)"
  using assms
proof (induction rows)
  case (Cons a rows)
  have IH: "unique_on q key (update_where (\<lambda>r. ident r = i) f rows)"
    by (rule Cons.IH) (use Cons.prems in \<open>auto simp: unique_on_Cons unique_on_Cons_p\<close>)
  have up: "update_where (\<lambda>r. ident r = i) f (a # rows) =
      (if ident a = i then f a else a) # update_where (\<lambda>r. ident r = i) f rows"
    by (simp add: update_where_def)
  show ?case
  proof (cases "ident a = i")
    case True
    then have others: "\<forall>r \<in> set rows. ident r \<noteq> i" using Cons.prems(1) by (auto simp: unique_on_Cons)
    then have "update_where (\<lambda>r. ident r = i) f rows = rows" by (rule update_where_none)
    with IH True others Cons.prems(3)[of a] show ?thesis by (auto simp: up unique_on_Cons_p)
  next
    case False
    with Cons.prems(2) Cons.prems(3)[of _ a] have "\<forall>x \<in> set rows. ident x = i \<longrightarrow> q (f x) \<longrightarrow> q a \<longrightarrow> key (f x) \<noteq> key a"
      by (auto dest: sym)
    with False IH Cons.prems(2) show ?thesis by (auto simp: up unique_on_Cons_p set_update_where)
  qed
qed (simp add: unique_on_def update_where_def)

lemma find_progress:
  assumes "unique_on (\<lambda>_. True) ident rows" "r \<in> set rows" "\<And>x. R x x" "R r (f r)"
  shows "rows_progress R rows (update_where (\<lambda>x. ident x = ident r) f rows)"
  by (rule rows_progress_update) (use assms in \<open>auto dest: unique_on_same_key\<close>)

lemma rows_image:
  assumes "\<And>r. r \<in> set rows \<Longrightarrow> p r \<Longrightarrow> key (f r) = key r"
  shows "key ` set (update_where p f rows) = key ` set rows"
proof -
  have "key ` set (update_where p f rows) = (\<lambda>r. key (if p r then f r else r)) ` set rows"
    unfolding update_where_def set_map image_image ..
  also have "\<dots> = key ` set rows" by (rule image_cong) (use assms in auto)
  finally show ?thesis .
qed

lemma update_found:
  assumes "unique_on (\<lambda>_. True) ident rows" "List.find (\<lambda>x. ident x = i \<and> q x) rows = Some b"
  shows "update_where (\<lambda>x. ident x = i \<and> q x) f rows = update_where (\<lambda>x. ident x = ident b) f rows"
  unfolding update_where_def
proof (rule map_cong[OF refl])
  have b: "b \<in> set rows" "ident b = i" "q b" using find_Some_mem[OF assms(2)] by auto
  fix x assume "x \<in> set rows"
  then have "x = b" if "ident x = i" using b that assms(1) by (auto dest: unique_on_same_key)
  with b show "(if ident x = i \<and> q x then f x else x) = (if ident x = ident b then f x else x)" by auto
qed

text \<open>Counting after the one row with a given key was changed or deleted.\<close>

lemma count_update_unique:
  assumes "unique_on (\<lambda>_. True) key rows" "r \<in> set rows"
  shows "count_where p (update_where (\<lambda>x. key x = key r) f rows) + (if p r then 1 else 0) =
         count_where p rows + (if p (f r) then 1 else 0)"
  using assms
proof (induction rows)
  case Nil
  then show ?case by simp
next
  case (Cons a rows)
  show ?case
  proof (cases "a = r")
    case True
    then have "update_where (\<lambda>x. key x = key r) f rows = rows"
      using Cons.prems(1) by (intro update_where_none) (auto simp: unique_on_Cons)
    with True show ?thesis by (simp add: count_where_def update_where_def)
  next
    case False
    with Cons.prems have "key a \<noteq> key r" by (auto simp: unique_on_Cons)
    with Cons False show ?thesis
      by (auto simp: count_where_def update_where_def unique_on_Cons)
  qed
qed

lemma count_delete_unique:
  assumes "unique_on (\<lambda>_. True) key rows" "r \<in> set rows"
  shows "count_where p (delete_where (\<lambda>x. key x = key r) rows) + (if p r then 1 else 0) =
         count_where p rows"
  using assms
proof (induction rows)
  case Nil
  then show ?case by simp
next
  case (Cons a rows)
  show ?case
  proof (cases "a = r")
    case True
    then have "delete_where (\<lambda>x. key x = key r) rows = rows"
      using Cons.prems(1) by (intro delete_where_none) (auto simp: unique_on_Cons)
    with True show ?thesis by (simp add: count_where_def delete_where_def)
  next
    case False
    with Cons.prems have "key a \<noteq> key r" by (auto simp: unique_on_Cons)
    with Cons False show ?thesis
      by (auto simp: count_where_def delete_where_def unique_on_Cons)
  qed
qed

lemma count_where_mono: "(\<And>r. p r \<Longrightarrow> q r) \<Longrightarrow> count_where p rows \<le> count_where q rows"
  by (induction rows) (auto simp: count_where_def)

lemma count_where_pos: "0 < count_where p rows \<longleftrightarrow> (\<exists>r \<in> set rows. p r)"
  by (auto simp: count_where_def filter_empty_conv)

text \<open>A loop whose body may raise: \<open>for x in xs: body(x)\<close>.\<close>

fun rfold :: "('a \<Rightarrow> 's \<Rightarrow> 'e + 's) \<Rightarrow> 'a list \<Rightarrow> 's \<Rightarrow> 'e + 's" where
  "rfold f [] s = Inr s"
| "rfold f (x # xs) s = rbind (f x s) (rfold f xs)"

lemma rfold_invariant:
  assumes "rfold f xs s = Inr s'" and "P s"
    and "\<And>x t t'. x \<in> set xs \<Longrightarrow> P t \<Longrightarrow> f x t = Inr t' \<Longrightarrow> P t'"
  shows "P s'"
  using assms
proof (induction xs arbitrary: s)
  case Nil
  then show ?case by simp
next
  case (Cons x xs)
  from Cons.prems(1) obtain t where t: "f x s = Inr t" "rfold f xs t = Inr s'"
    by (auto simp: outcome_simps)
  moreover have "P t" by (rule Cons.prems(3)[OF _ Cons.prems(2) t(1)]) simp
  moreover have "\<And>y u u'. y \<in> set xs \<Longrightarrow> P u \<Longrightarrow> f y u = Inr u' \<Longrightarrow> P u'"
    by (rule Cons.prems(3)) auto
  ultimately show ?case by (blast intro: Cons.IH)
qed

text \<open>A list comprehension whose element may raise: the first exception ends it.\<close>

fun rmap :: "('a \<Rightarrow> 'e + 'b) \<Rightarrow> 'a list \<Rightarrow> 'e + 'b list" where
  "rmap f [] = Inr []"
| "rmap f (x # xs) = rbind (f x) (\<lambda>y. rbind (rmap f xs) (\<lambda>ys. Inr (y # ys)))"

lemma rmap_Inr: "rmap f xs = Inr ys \<longleftrightarrow> list_all2 (\<lambda>x y. f x = Inr y) xs ys"
  by (induction xs arbitrary: ys) (auto simp: outcome_simps list_all2_Cons1)

lemma rmap_total: "(\<And>x. x \<in> set xs \<Longrightarrow> f x = Inr (g x)) \<Longrightarrow> rmap f xs = Inr (map g xs)"
  by (induction xs) simp_all

definition map_error :: "('e \<Rightarrow> 'd) \<Rightarrow> 'e + 'a \<Rightarrow> 'd + 'a" where
  "map_error f m = map_sum f id m"

lemma map_error_simps [simp]: "map_error f (Inl e) = Inl (f e)" "map_error f (Inr x) = Inr x"
  by (simp_all add: map_error_def)

lemma map_error_Inr [outcome_simps, simp]: "map_error f m = Inr x \<longleftrightarrow> m = Inr x"
  by (cases m) (auto simp: map_error_def)

lemma map_error_Inl [outcome_simps]: "map_error f m = Inl d \<longleftrightarrow> (\<exists>e. m = Inl e \<and> d = f e)"
  by (cases m) (auto simp: map_error_def)

section \<open>Dicts\<close>

text \<open>
  A Python dict is the list of its entries in insertion order, with distinct keys: an assignment
  replaces the value of a key in place or appends the entry (\<open>AList.update\<close>).
  \<open>dict_of key xs\<close> is \<open>{key(x): x for x in xs}\<close>.
\<close>

definition dict_of :: "('a \<Rightarrow> 'k) \<Rightarrow> 'a list \<Rightarrow> ('k \<times> 'a) list" where
  "dict_of key xs = fold (\<lambda>x. AList.update (key x) x) xs []"

text \<open>\<open>{**a, **b}\<close>\<close>

definition dict_merge :: "('k \<times> 'a) list \<Rightarrow> ('k \<times> 'a) list \<Rightarrow> ('k \<times> 'a) list" where
  "dict_merge a b = fold (\<lambda>(k, v). AList.update k v) b a"

lemma update_new: "k \<notin> fst ` set d \<Longrightarrow> AList.update k v d = d @ [(k, v)]"
  by (induction d) auto

lemma set_update:
  "distinct (map fst d) \<Longrightarrow> set (AList.update k v d) = insert (k, v) {kv \<in> set d. fst kv \<noteq> k}"
  by (induction d) (auto simp: image_iff)

lemma update_same: "map_of d k = Some v \<Longrightarrow> AList.update k v d = d"
  by (induction d) auto

lemma fold_update_distinct:
  "distinct (map fst al) \<Longrightarrow> distinct (map fst (fold (\<lambda>x. AList.update (key x) x) xs al))"
  by (induction xs arbitrary: al) (simp_all add: distinct_update)

lemma dict_of_keys_distinct: "distinct (map fst (dict_of key xs))"
  by (simp add: dict_of_def fold_update_distinct)

lemma dict_of_distinct: "distinct (map key xs) \<Longrightarrow> dict_of key xs = map (\<lambda>x. (key x, x)) xs"
proof (induction xs rule: rev_induct)
  case (snoc x xs)
  then have "key x \<notin> fst ` set (map (\<lambda>x. (key x, x)) xs)" by auto
  with snoc show ?case by (simp add: dict_of_def update_new)
qed (simp add: dict_of_def)

lemma dict_merge_keys: "distinct (map fst a) \<Longrightarrow> distinct (map fst (dict_merge a b))"
  by (induction b arbitrary: a) (auto simp: dict_merge_def distinct_update)

lemma map_of_dict_merge: "distinct (map fst b) \<Longrightarrow> map_of (dict_merge a b) = map_of a ++ map_of b"
proof (induction b arbitrary: a)
  case (Cons kv b)
  obtain k v where kv: "kv = (k, v)" by (cases kv)
  then have "map_of (dict_merge a (kv # b)) = map_of (AList.update k v a) ++ map_of b"
    using Cons by (simp add: dict_merge_def)
  also have "\<dots> = map_of a ++ map_of ((k, v) # b)"
  proof
    fix x
    have "map_of b k = None" using Cons.prems kv by (simp add: map_of_eq_None_iff)
    then show "(map_of (AList.update k v a) ++ map_of b) x = (map_of a ++ map_of ((k, v) # b)) x"
      by (cases "x = k") (auto simp: update_conv' map_add_def split: option.split)
  qed
  finally show ?case by (simp only: kv)
qed (simp add: dict_merge_def)

lemma distinct_fst_sort: "distinct (map fst (sort_key f kvs)) = distinct (map fst kvs)"
  by (simp add: distinct_map)

lemma map_of_sort: "distinct (map fst kvs) \<Longrightarrow> map_of (sort_key f kvs) = map_of kvs"
proof
  fix k
  assume d: "distinct (map fst kvs)"
  then have "map_of (sort_key f kvs) k = Some v \<longleftrightarrow> map_of kvs k = Some v" for v
    by (simp add: distinct_fst_sort)
  then show "map_of (sort_key f kvs) k = map_of kvs k"
    by (metis option.exhaust)
qed

section \<open>Sorting\<close>

text \<open>\<open>tuple(sorted(set(value)))\<close>\<close>

definition sorted_set :: "('a :: linorder) list \<Rightarrow> 'a list" where
  "sorted_set xs = sort (remdups xs)"

lemma sort_key_sorted: "sorted (map f xs) \<Longrightarrow> sort_key f xs = xs"
  by (induction xs) (auto simp: insort_is_Cons)

lemma sort_key_idem [simp]: "sort_key f (sort_key f xs) = sort_key f xs"
  by (intro sort_key_sorted) simp

lemma sorted_set_idem [simp]: "sorted_set (sorted_set xs) = sorted_set xs"
  by (simp add: sorted_set_def distinct_remdups_id)

lemma set_sorted_set [simp]: "set (sorted_set xs) = set xs"
  by (simp add: sorted_set_def)

lemma distinct_sorted_set [simp]: "distinct (sorted_set xs)"
  by (simp add: sorted_set_def)

lemma length_sorted_set: "length (sorted_set xs) \<le> length xs"
  by (simp add: sorted_set_def length_remdups_leq)

section \<open>Services: every call keeps the database's invariant\<close>

text \<open>
  A history of calls: each one runs in its own transaction, whatever its outcome.
\<close>

definition run_calls :: "('op \<Rightarrow> 's \<Rightarrow> ('e + 'r) \<times> 's) \<Rightarrow> 'op list \<Rightarrow> 's \<Rightarrow> 's" where
  "run_calls exec ops s = fold (\<lambda>op s. snd (exec op s)) ops s"

locale service =
  fixes exec :: "'op \<Rightarrow> 's \<Rightarrow> ('e + 'r) \<times> 's"
    and inv :: "'s \<Rightarrow> bool"
  assumes exec_inv: "inv s \<Longrightarrow> inv (snd (exec op s))"
begin

lemma run_calls_inv: "inv s \<Longrightarrow> inv (run_calls exec ops s)"
  by (induction ops arbitrary: s) (auto simp: run_calls_def intro: exec_inv)

lemma run_calls_append: "run_calls exec (ops @ ops') s = run_calls exec ops' (run_calls exec ops s)"
  by (simp add: run_calls_def)

lemma every_prefix_inv: "inv s \<Longrightarrow> inv (run_calls exec (take n ops) s)"
  by (rule run_calls_inv)

end

text \<open>
  A service that only moves forward: each call takes the database to a state that is later in a
  preorder (a revoked session stays revoked, a spent token stays spent), so every history does.
\<close>

locale forward_service = service exec inv
  for exec :: "'op \<Rightarrow> 's \<Rightarrow> ('e + 'r) \<times> 's" and inv :: "'s \<Rightarrow> bool" +
  fixes le :: "'s \<Rightarrow> 's \<Rightarrow> bool"
  assumes exec_le: "inv s \<Longrightarrow> le s (snd (exec op s))"
    and le_refl: "le s s"
    and le_trans: "le s t \<Longrightarrow> le t u \<Longrightarrow> le s u"
begin

lemma run_calls_le: "inv s \<Longrightarrow> le s (run_calls exec ops s)"
proof (induction ops arbitrary: s)
  case Nil
  then show ?case by (simp add: run_calls_def le_refl)
next
  case (Cons op ops)
  have "le (snd (exec op s)) (run_calls exec ops (snd (exec op s)))"
    by (rule Cons.IH) (rule exec_inv[OF Cons.prems])
  with exec_le[OF Cons.prems, of op] show ?case
    by (simp add: run_calls_def) (rule le_trans)
qed

end

end
