(* ===== verification/Errors.thy ===== *)
theory Errors
  imports Base
begin

text \<open>
  The exceptions of the identity, organization and project domains
  (core/domain/identity/errors.py, core/domain/organizations/errors.py,
  core/domain/projects/errors.py, core/domain/errors.py), with the details a caller can read, and
  the exceptions the storage layer lets through (a violated database constraint, a row that
  vanished, a refused audit entry).
\<close>

datatype domain_error =
  \<comment> \<open>core/domain/errors.py\<close>
    NothingToUpdate
  \<comment> \<open>core/domain/identity/errors.py\<close>
  | InvalidEmail | InvalidName | WeakPassword "string list" | EmailAlreadyRegistered
  | InvalidToken | TokenExpired | InvalidCredentials | AccountDisabled | InvalidRefreshToken
  | SessionExpired | SessionRevoked | RefreshConflict | SessionNotFound | IncorrectPassword
  | InvalidAvatarUrl
  \<comment> \<open>core/domain/organizations/errors.py\<close>
  | OrganizationNotFound | PermissionDenied | EmailNotVerified | InvalidOrganizationName
  | MemberNotFound | CannotChangeOwnRole | RoleNotManageable | LastOwner
  | SoleOwnerOfOrganization "uuid list" | InvitationNotFound | InvalidInvitation
  | InvitationExpired | InvitationEmailMismatch | AlreadyMember | OwnerInvitationNotAllowed
  \<comment> \<open>core/domain/projects/errors.py\<close>
  | ProjectNotFound | ProjectArchived | ProjectNotArchived | ProjectSlugTaken
  | InvalidProjectName | InvalidProjectDescription "string option" | InvalidProjectSlug "string option"
  | InvalidProjectSettings string "string option" | InvalidArchitecturePolicy "string option" string
  \<comment> \<open>the storage layer and the audit entry's own check\<close>
  | IntegrityError | LookupError | ValueError | AssertionError

end
