(* ===== verification/Policy.thy ===== *)
theory Policy
  imports Errors
begin

text \<open>
  Who may do what in an organization: the role \<open>\<rightarrow>\<close> permission matrix
  (core/domain/organizations/permissions.py) and the rules on whose membership a member may
  change (core/domain/organizations/membership_policy.py).
\<close>

section \<open>Roles and permissions\<close>

datatype role = OWNER | ADMIN | MEMBER | VIEWER

datatype permission =
    ORGANIZATION_READ | ORGANIZATION_UPDATE | ORGANIZATION_DELETE
  | MEMBER_READ | MEMBER_INVITE | MEMBER_REMOVE | MEMBER_UPDATE_ROLE
  | AUDIT_READ
  | PRICING_MANAGE
  | PROJECT_READ | PROJECT_CREATE | PROJECT_UPDATE | PROJECT_ARCHIVE | PROJECT_DELETE
  | PROJECT_POLICY_UPDATE
  | REQUIREMENT_READ | REQUIREMENT_CREATE | REQUIREMENT_UPDATE | REQUIREMENT_DELETE
  | REQUIREMENT_SET_CREATE
  | ARCHITECTURE_READ | ARCHITECTURE_CREATE | ARCHITECTURE_UPDATE | ARCHITECTURE_DELETE
  | ARCHITECTURE_VALIDATE | ARCHITECTURE_ANALYZE | ARCHITECTURE_SIMULATE | ARCHITECTURE_EVOLVE
  | ARCHITECTURE_DISCOVER | ARCHITECTURE_DRIFT
  | MIGRATION_PLAN | MIGRATION_APPROVE

definition viewer_permissions :: "permission list" where
  "viewer_permissions =
     [ORGANIZATION_READ, MEMBER_READ, PROJECT_READ, REQUIREMENT_READ, ARCHITECTURE_READ]"

definition member_permissions :: "permission list" where
  "member_permissions = viewer_permissions @
     [PROJECT_CREATE, PROJECT_UPDATE,
      REQUIREMENT_CREATE, REQUIREMENT_UPDATE, REQUIREMENT_DELETE, REQUIREMENT_SET_CREATE,
      ARCHITECTURE_CREATE, ARCHITECTURE_UPDATE, ARCHITECTURE_VALIDATE, ARCHITECTURE_ANALYZE,
      ARCHITECTURE_SIMULATE, ARCHITECTURE_EVOLVE, ARCHITECTURE_DISCOVER, ARCHITECTURE_DRIFT,
      MIGRATION_PLAN]"

definition admin_permissions :: "permission list" where
  "admin_permissions = member_permissions @
     [ORGANIZATION_UPDATE, MEMBER_INVITE, MEMBER_REMOVE, MEMBER_UPDATE_ROLE, AUDIT_READ,
      PRICING_MANAGE, PROJECT_ARCHIVE, PROJECT_DELETE, PROJECT_POLICY_UPDATE,
      ARCHITECTURE_DELETE, MIGRATION_APPROVE]"

text \<open>\<open>frozenset(Permission)\<close>: every member of the enumeration, in its order.\<close>

definition owner_permissions :: "permission list" where
  "owner_permissions =
     [ORGANIZATION_READ, ORGANIZATION_UPDATE, ORGANIZATION_DELETE,
      MEMBER_READ, MEMBER_INVITE, MEMBER_REMOVE, MEMBER_UPDATE_ROLE,
      AUDIT_READ,
      PRICING_MANAGE,
      PROJECT_READ, PROJECT_CREATE, PROJECT_UPDATE, PROJECT_ARCHIVE, PROJECT_DELETE,
      PROJECT_POLICY_UPDATE,
      REQUIREMENT_READ, REQUIREMENT_CREATE, REQUIREMENT_UPDATE, REQUIREMENT_DELETE,
      REQUIREMENT_SET_CREATE,
      ARCHITECTURE_READ, ARCHITECTURE_CREATE, ARCHITECTURE_UPDATE, ARCHITECTURE_DELETE,
      ARCHITECTURE_VALIDATE, ARCHITECTURE_ANALYZE, ARCHITECTURE_SIMULATE, ARCHITECTURE_EVOLVE,
      ARCHITECTURE_DISCOVER, ARCHITECTURE_DRIFT,
      MIGRATION_PLAN, MIGRATION_APPROVE]"

fun role_permissions :: "role \<Rightarrow> permission list" where
  "role_permissions OWNER = owner_permissions"
| "role_permissions ADMIN = admin_permissions"
| "role_permissions MEMBER = member_permissions"
| "role_permissions VIEWER = viewer_permissions"

definition has_permission :: "role \<Rightarrow> permission \<Rightarrow> bool" where
  "has_permission r p \<longleftrightarrow> p \<in> set (role_permissions r)"

section \<open>Whose membership may be changed\<close>

fun RANK :: "role \<Rightarrow> nat" where
  "RANK VIEWER = 0"
| "RANK MEMBER = 1"
| "RANK ADMIN = 2"
| "RANK OWNER = 3"

definition outranks :: "role \<Rightarrow> role \<Rightarrow> bool" where
  "outranks actor other \<longleftrightarrow> actor = OWNER \<or> RANK actor > RANK other"

definition check_role_change ::
    "role \<Rightarrow> role \<Rightarrow> role \<Rightarrow> bool \<Rightarrow> nat \<Rightarrow> domain_error + unit" where
  "check_role_change actor target new_role is_self owner_count =
     (if \<not> has_permission actor MEMBER_UPDATE_ROLE then Inl PermissionDenied
      else if is_self then Inl CannotChangeOwnRole
      else if \<not> (outranks actor target \<and> outranks actor new_role) then Inl RoleNotManageable
      else if target = OWNER \<and> new_role \<noteq> OWNER \<and> owner_count \<le> 1 then Inl LastOwner
      else Inr ())"

definition check_removal :: "role \<Rightarrow> role \<Rightarrow> bool \<Rightarrow> nat \<Rightarrow> domain_error + unit" where
  "check_removal actor target is_self owner_count =
     (if \<not> is_self \<and> \<not> has_permission actor MEMBER_REMOVE then Inl PermissionDenied
      else if \<not> is_self \<and> \<not> outranks actor target then Inl RoleNotManageable
      else if target = OWNER \<and> owner_count \<le> 1 then Inl LastOwner
      else Inr ())"

definition check_invitation :: "role \<Rightarrow> role \<Rightarrow> domain_error + unit" where
  "check_invitation actor role =
     (if \<not> has_permission actor MEMBER_INVITE then Inl PermissionDenied
      else if role = OWNER then Inl OwnerInvitationNotAllowed
      else if \<not> outranks actor role then Inl RoleNotManageable
      else Inr ())"

lemmas permission_lists =
  viewer_permissions_def member_permissions_def admin_permissions_def owner_permissions_def

lemmas membership_checks =
  check_role_change_def check_removal_def check_invitation_def

section \<open>Properties of the matrix and the policy\<close>

lemma owner_permissions_all: "p \<in> set owner_permissions"
  by (cases p) (simp_all add: owner_permissions_def)

lemma permissions_grow:
  "set viewer_permissions \<subseteq> set member_permissions"
  "set member_permissions \<subseteq> set admin_permissions"
  "set admin_permissions \<subseteq> set owner_permissions"
  using owner_permissions_all by (auto simp: admin_permissions_def member_permissions_def)

lemma has_permission_rank_mono:
  assumes "RANK r \<le> RANK r'" and "has_permission r p"
  shows "has_permission r' p"
  using assms permissions_grow owner_permissions_all
  by (cases r; cases r') (auto simp: has_permission_def)

lemma managers_are_admins:
  "has_permission r MEMBER_UPDATE_ROLE \<longleftrightarrow> r \<in> {OWNER, ADMIN}"
  "has_permission r MEMBER_REMOVE \<longleftrightarrow> r \<in> {OWNER, ADMIN}"
  "has_permission r MEMBER_INVITE \<longleftrightarrow> r \<in> {OWNER, ADMIN}"
  by (cases r; simp add: has_permission_def permission_lists)+

end
