(* ===== verification/Py_Text.thy ===== *)
theory Py_Text
  imports Base
begin

text \<open>
  The text operations of Python the program uses.  A \<open>string\<close> is a list of code points of
  Latin-1 (U+0000 to U+00FF): on these, \<open>unicodedata.normalize("NFC", s)\<close> is the identity,
  the categories Cc and Cf are the ranges below, and \<open>len\<close> counts list elements.  Text
  beyond Latin-1 is outside the model.
\<close>

section \<open>Characters\<close>

abbreviation code :: "char \<Rightarrow> nat" where
  "code c \<equiv> of_char c"

text \<open>\<open>str.isspace\<close>: what \<open>str.split()\<close> and \<open>str.strip()\<close> remove.\<close>

definition py_space :: "char \<Rightarrow> bool" where
  "py_space c \<longleftrightarrow> code c \<in> {9, 10, 11, 12, 13, 28, 29, 30, 31, 32, 133, 160}"

text \<open>\<open>unicodedata.category(c) in {"Cc", "Cf"}\<close>; U+00AD (soft hyphen) is the only Cf.\<close>

definition control_or_format :: "char \<Rightarrow> bool" where
  "control_or_format c \<longleftrightarrow> code c < 32 \<or> (127 \<le> code c \<and> code c < 160) \<or> code c = 173"

definition is_upper_ascii :: "char \<Rightarrow> bool" where
  "is_upper_ascii c \<longleftrightarrow> 65 \<le> code c \<and> code c \<le> 90"

definition is_lower_ascii :: "char \<Rightarrow> bool" where
  "is_lower_ascii c \<longleftrightarrow> 97 \<le> code c \<and> code c \<le> 122"

definition is_digit :: "char \<Rightarrow> bool" where
  "is_digit c \<longleftrightarrow> 48 \<le> code c \<and> code c \<le> 57"

text \<open>\<open>str.lower()\<close> on one Latin-1 character.\<close>

definition lower_char :: "char \<Rightarrow> char" where
  "lower_char c =
     (if is_upper_ascii c \<or> (192 \<le> code c \<and> code c \<le> 222 \<and> code c \<noteq> 215)
      then char_of (code c + 32) else c)"

definition py_lower :: "string \<Rightarrow> string" where
  "py_lower s = map lower_char s"

definition upper_char :: "char \<Rightarrow> char" where
  "upper_char c = (if is_lower_ascii c then char_of (code c - 32) else c)"

section \<open>Splitting, joining, stripping and replacing\<close>

fun words_from :: "string \<Rightarrow> string \<Rightarrow> string list" where
  "words_from w [] = (if w = [] then [] else [rev w])"
| "words_from w (c # cs) =
     (if py_space c then (if w = [] then words_from [] cs else rev w # words_from [] cs)
      else words_from (c # w) cs)"

definition py_split :: "string \<Rightarrow> string list" where
  "py_split s = words_from [] s"

fun join :: "string \<Rightarrow> string list \<Rightarrow> string" where
  "join sep [] = []"
| "join sep [x] = x"
| "join sep (x # y # ys) = x @ sep @ join sep (y # ys)"

definition strip_chars :: "(char \<Rightarrow> bool) \<Rightarrow> string \<Rightarrow> string" where
  "strip_chars p s = rev (dropWhile p (rev (dropWhile p s)))"

definition py_strip :: "string \<Rightarrow> string" where
  "py_strip s = strip_chars py_space s"

text \<open>\<open>s.replace(old, new)\<close>, left to right; \<open>k\<close> counts the characters of a match still to skip.\<close>

fun replace_from :: "nat \<Rightarrow> string \<Rightarrow> string \<Rightarrow> string \<Rightarrow> string" where
  "replace_from k old new [] = []"
| "replace_from (Suc k) old new (c # cs) = replace_from k old new cs"
| "replace_from 0 old new (c # cs) =
     (if old \<noteq> [] \<and> take (length old) (c # cs) = old
      then new @ replace_from (length old - 1) old new cs
      else c # replace_from 0 old new cs)"

definition py_replace :: "string \<Rightarrow> string \<Rightarrow> string \<Rightarrow> string" where
  "py_replace old new s = replace_from 0 old new s"

text \<open>\<open>s.partition(sep)\<close> for a one-character separator: the text before it and after it.\<close>

fun partition_char :: "char \<Rightarrow> string \<Rightarrow> string \<times> bool \<times> string" where
  "partition_char d [] = ([], False, [])"
| "partition_char d (c # cs) =
     (if c = d then ([], True, cs)
      else let (before, found, after) = partition_char d cs in (c # before, found, after))"

fun split_char :: "char \<Rightarrow> string \<Rightarrow> string list" where
  "split_char d [] = [[]]"
| "split_char d (c # cs) =
     (if c = d then [] # split_char d cs
      else case split_char d cs of [] \<Rightarrow> [[c]] | w # ws \<Rightarrow> (c # w) # ws)"

definition starts_with :: "string \<Rightarrow> string \<Rightarrow> bool" where
  "starts_with p s \<longleftrightarrow> take (length p) s = p"

text \<open>\<open>p in s\<close>.\<close>

fun contains_text :: "string \<Rightarrow> string \<Rightarrow> bool" where
  "contains_text p [] = (p = [])"
| "contains_text p (c # cs) = (starts_with p (c # cs) \<or> contains_text p cs)"

definition remove_prefix :: "string \<Rightarrow> string \<Rightarrow> string" where
  "remove_prefix p s = (if starts_with p s then drop (length p) s else s)"

section \<open>The text rules shared by the domain\<close>

text \<open>core/domain/text.py\<close>

definition has_forbidden_characters :: "string \<Rightarrow> char list \<Rightarrow> bool" where
  "has_forbidden_characters v allowed \<longleftrightarrow>
     (\<exists>c \<in> set v. control_or_format c \<and> c \<notin> set allowed)"

text \<open>\<open>clean_line\<close> and \<open>clean_block\<close> of core/architecture_ir/values.py.\<close>

definition clean_line :: "string \<Rightarrow> string" where
  "clean_line v = join '' '' (py_split v)"

definition CRLF :: string where
  "CRLF = [CHR 0x0D, CHR 0x0A]"

definition clean_block :: "string \<Rightarrow> string" where
  "clean_block v = py_strip (py_replace CRLF [CHR 0x0A] v)"

section \<open>Numbers and identifiers as text\<close>

definition digit_char :: "nat \<Rightarrow> char" where
  "digit_char d = char_of (if d < 10 then 48 + d else 87 + d)"

fun nat_str :: "nat \<Rightarrow> string" where
  "nat_str n = (if n < 10 then [digit_char n] else nat_str (n div 10) @ [digit_char (n mod 10)])"

definition int_str :: "int \<Rightarrow> string" where
  "int_str i = (if i < 0 then ''-'' @ nat_str (nat (- i)) else nat_str (nat i))"

fun hex_pad :: "nat \<Rightarrow> nat \<Rightarrow> string" where
  "hex_pad 0 n = []"
| "hex_pad (Suc k) n = hex_pad k (n div 16) @ [digit_char (n mod 16)]"

definition uuid_hex :: "uuid \<Rightarrow> string" where
  "uuid_hex u = hex_pad 32 u"

definition uuid_str :: "uuid \<Rightarrow> string" where
  "uuid_str u =
     (let h = uuid_hex u in
      take 8 h @ ''-'' @ take 4 (drop 8 h) @ ''-'' @ take 4 (drop 12 h) @ ''-'' @
      take 4 (drop 16 h) @ ''-'' @ drop 20 h)"

definition hex_value :: "char \<Rightarrow> nat option" where
  "hex_value c =
     (if is_digit c then Some (code c - 48)
      else if 97 \<le> code c \<and> code c \<le> 102 then Some (code c - 87)
      else if 65 \<le> code c \<and> code c \<le> 70 then Some (code c - 55)
      else None)"

text \<open>
  The digits of \<open>int(s, 16)\<close>: one underscore may stand between two digits, none at the end
  (\<open>sep\<close>: the last character read was an underscore).
\<close>

fun hex_digits :: "nat \<Rightarrow> bool \<Rightarrow> string \<Rightarrow> nat option" where
  "hex_digits acc sep [] = (if sep then None else Some acc)"
| "hex_digits acc sep (c # cs) =
     (if c = CHR ''_'' then (if sep then None else hex_digits acc True cs)
      else case hex_value c of None \<Rightarrow> None | Some d \<Rightarrow> hex_digits (16 * acc + d) False cs)"

definition hex_prefix :: "string \<Rightarrow> string" where
  "hex_prefix s =
     (if length s \<ge> 2 \<and> s ! 0 = CHR ''0'' \<and> (s ! 1 = CHR ''x'' \<or> s ! 1 = CHR ''X'')
      then (case drop 2 s of c # cs \<Rightarrow> if c = CHR ''_'' then cs else c # cs | [] \<Rightarrow> [])
      else s)"

definition py_int16 :: "string \<Rightarrow> int option" where
  "py_int16 s =
     (let t = py_strip s;
          neg = (t \<noteq> [] \<and> hd t = CHR ''-'');
          u = (if t \<noteq> [] \<and> (hd t = CHR ''-'' \<or> hd t = CHR ''+'') then tl t else t);
          d = hex_prefix u
      in if d = [] \<or> hd d = CHR ''_'' then None
         else map_option (\<lambda>n. if neg then - int n else int n) (hex_digits 0 False d))"

text \<open>\<open>uuid.UUID(text)\<close>; \<open>None\<close> is the \<open>ValueError\<close>.\<close>

definition parse_uuid :: "string \<Rightarrow> uuid option" where
  "parse_uuid s =
     (let h = py_replace ''uuid:'' [] (py_replace ''urn:'' [] s);
          h = py_replace ''-'' [] (strip_chars (\<lambda>c. c = CHR ''{'' \<or> c = CHR ''}'') h)
      in if length h \<noteq> 32 then None
         else case py_int16 h of
                None \<Rightarrow> None
              | Some i \<Rightarrow> if 0 \<le> i \<and> i < 2 ^ 128 then Some (nat i) else None)"

text \<open>\<open>repr(s)\<close> of a string, as \<open>f"{s!r}"\<close> writes it.\<close>

definition SQ :: char where "SQ = CHR 0x27"
definition DQ :: char where "DQ = CHR 0x22"
definition BACKSLASH :: char where "BACKSLASH = CHR 0x5C"

definition repr_char :: "char \<Rightarrow> char \<Rightarrow> string" where
  "repr_char q c =
     (if c = q \<or> c = BACKSLASH then [BACKSLASH, c]
      else if code c = 9 then [BACKSLASH, CHR ''t'']
      else if code c = 10 then [BACKSLASH, CHR ''n'']
      else if code c = 13 then [BACKSLASH, CHR ''r'']
      else if control_or_format c \<or> code c = 160 then [BACKSLASH, CHR ''x''] @ hex_pad 2 (code c)
      else [c])"

definition py_repr :: "string \<Rightarrow> string" where
  "py_repr s =
     (let q = (if SQ \<in> set s \<and> DQ \<notin> set s then DQ else SQ)
      in [q] @ concat (map (repr_char q) s) @ [q])"

text \<open>
  The identifier patterns of the program all have the form
  \<^verbatim>\<open>^[first][rest]{0,n}$\<close> and are tested with \<open>fullmatch\<close>.
\<close>

definition ident_match :: "(char \<Rightarrow> bool) \<Rightarrow> (char \<Rightarrow> bool) \<Rightarrow> nat \<Rightarrow> string \<Rightarrow> bool" where
  "ident_match first rest n s \<longleftrightarrow>
     (case s of [] \<Rightarrow> False | c # cs \<Rightarrow> first c \<and> length cs \<le> n \<and> list_all rest cs)"

definition is_alnum :: "char \<Rightarrow> bool" where
  "is_alnum c \<longleftrightarrow> is_upper_ascii c \<or> is_lower_ascii c \<or> is_digit c"

definition is_lower_alnum :: "char \<Rightarrow> bool" where
  "is_lower_alnum c \<longleftrightarrow> is_lower_ascii c \<or> is_digit c"

declare nat_str.simps [simp del]

section \<open>Lemmas\<close>

lemma space_is_py_space: "py_space (CHR '' '')"
  by (simp add: py_space_def)

lemma words_from_nonspace:
  assumes "\<forall>c \<in> set u. \<not> py_space c"
  shows "words_from w (u @ cs) = words_from (rev u @ w) cs"
  using assms by (induction u arbitrary: w) auto

lemma words_from_props:
  assumes "\<forall>c \<in> set w. \<not> py_space c" and "v \<in> set (words_from w cs)"
  shows "v \<noteq> [] \<and> (\<forall>c \<in> set v. \<not> py_space c)"
  using assms
proof (induction cs arbitrary: w)
  case Nil
  then show ?case by (auto split: if_splits)
next
  case (Cons c cs)
  show ?case
  proof (cases "py_space c")
    case True
    then have "v = rev w \<and> w \<noteq> [] \<or> v \<in> set (words_from [] cs)"
      using Cons.prems(2) by (cases "w = []") auto
    then show ?thesis
      using Cons.prems(1) Cons.IH[of "[]"] by (metis empty_iff list.set(1) rev_is_Nil_conv set_rev)
  next
    case False
    then have "\<forall>c \<in> set (c # w). \<not> py_space c" and "v \<in> set (words_from (c # w) cs)"
      using Cons.prems by auto
    then show ?thesis by (rule Cons.IH)
  qed
qed

lemma py_split_props:
  "v \<in> set (py_split s) \<Longrightarrow> v \<noteq> [] \<and> (\<forall>c \<in> set v. \<not> py_space c)"
  unfolding py_split_def by (rule words_from_props) auto

lemma py_split_join:
  assumes "\<forall>w \<in> set ws. w \<noteq> [] \<and> (\<forall>c \<in> set w. \<not> py_space c)"
  shows "py_split (join '' '' ws) = ws"
  using assms
proof (induction "'' ''" ws rule: join.induct)
  case 1
  then show ?case by (simp add: py_split_def)
next
  case (2 x)
  then have "words_from [] (x @ []) = words_from (rev x @ []) []"
    by (intro words_from_nonspace) auto
  with 2 show ?case by (simp add: py_split_def)
next
  case (3 x y ys)
  then have "words_from [] (x @ ('' '' @ join '' '' (y # ys))) =
      words_from (rev x @ []) ('' '' @ join '' '' (y # ys))"
    by (intro words_from_nonspace) auto
  moreover have "py_split (join '' '' (y # ys)) = y # ys" using 3 by simp
  ultimately show ?case using 3
    by (simp add: py_split_def space_is_py_space)
qed

lemma clean_line_idem [simp]: "clean_line (clean_line v) = clean_line v"
proof -
  have "py_split (clean_line v) = py_split v"
    unfolding clean_line_def by (rule py_split_join) (use py_split_props in blast)
  then show ?thesis by (simp add: clean_line_def)
qed

lemma dropWhile_id: "(xs \<noteq> [] \<Longrightarrow> \<not> p (hd xs)) \<Longrightarrow> dropWhile p xs = xs"
  by (cases xs) auto

lemma strip_ends:
  assumes "strip_chars p s \<noteq> []"
  shows "\<not> p (hd (strip_chars p s))" and "\<not> p (last (strip_chars p s))"
proof -
  let ?d = "dropWhile p s"
  have ne: "dropWhile p (rev ?d) \<noteq> []" using assms by (auto simp: strip_chars_def)
  then have l: "\<not> p (hd (dropWhile p (rev ?d)))" by (rule hd_dropWhile)
  then show "\<not> p (last (strip_chars p s))"
    by (simp add: strip_chars_def last_rev)
  from ne have dne: "?d \<noteq> []" by fastforce
  then have h: "\<not> p (hd ?d)" by (rule hd_dropWhile)
  obtain t where t: "rev ?d = t @ dropWhile p (rev ?d)"
    by (metis takeWhile_dropWhile_id)
  then have "?d = strip_chars p s @ rev t"
    by (metis strip_chars_def rev_append rev_rev_ident)
  with h assms show "\<not> p (hd (strip_chars p s))"
    by (metis hd_append2)
qed

lemma strip_idem [simp]: "strip_chars p (strip_chars p s) = strip_chars p s"
proof (cases "strip_chars p s = []")
  case True
  then show ?thesis by (simp only: True) (simp add: strip_chars_def)
next
  case False
  then have "dropWhile p (strip_chars p s) = strip_chars p s"
    using strip_ends(1) by (intro dropWhile_id) auto
  moreover have "dropWhile p (rev (strip_chars p s)) = rev (strip_chars p s)"
    using False strip_ends(2) by (intro dropWhile_id) (simp add: hd_rev)
  ultimately show ?thesis by (simp add: strip_chars_def)
qed

lemma py_strip_idem [simp]: "py_strip (py_strip s) = py_strip s"
  by (simp add: py_strip_def)

lemma replace_CRLF_id:
  "CHR 0x0D \<notin> set s \<Longrightarrow> py_replace CRLF new s = s"
  unfolding py_replace_def CRLF_def
  by (induction s) auto

lemma set_strip: "set (strip_chars p s) \<subseteq> set s"
  by (auto simp: strip_chars_def dest!: set_dropWhileD)

text \<open>Cleaning a block again changes nothing, unless a carriage return was left in it.\<close>

lemma clean_block_idem:
  "CHR 0x0D \<notin> set (clean_block v) \<Longrightarrow> clean_block (clean_block v) = clean_block v"
  by (simp add: clean_block_def replace_CRLF_id)

lemma cr_forbidden:
  assumes "\<not> has_forbidden_characters v [CHR 0x0A, CHR 0x09]"
  shows "CHR 0x0D \<notin> set v"
proof
  assume "CHR 0x0D \<in> set v"
  moreover have "control_or_format (CHR 0x0D)" by (simp add: control_or_format_def)
  ultimately show False using assms by (auto simp: has_forbidden_characters_def)
qed

lemma lower_char_idem [simp]: "lower_char (lower_char c) = lower_char c"
proof (cases "is_upper_ascii c \<or> (192 \<le> code c \<and> code c \<le> 222 \<and> code c \<noteq> 215)")
  case True
  then have "code c + 32 < 256" by (auto simp: is_upper_ascii_def)
  then have "of_char (char_of (code c + 32) :: char) = (code c + 32 :: nat)"
    by (simp add: of_char_of)
  with True show ?thesis
    by (auto simp: lower_char_def is_upper_ascii_def)
next
  case False
  then have "lower_char c = c" unfolding lower_char_def by (rule if_not_P)
  then show ?thesis by simp
qed

lemma py_lower_idem [simp]: "py_lower (py_lower s) = py_lower s"
  by (simp add: py_lower_def)

end
