(* ===== verification/Store.thy ===== *)
theory Store
  imports Policy Py_Text
begin

text \<open>
  The storage of the identity and organization domains: the tables (persistence/models), the
  repositories over them (persistence/repositories) and the entities they return
  (core/domain/identity/entities.py, core/domain/organizations/entities.py).  A table is the list
  of its rows; a query is a \<open>filter\<close> or the first match, an update or delete rewrites the
  list.  Row ids, the database clock and the client of a request come in through \<open>env\<close>, so
  that every repository method is a function.  A unique index that an insert violates is
  \<open>IntegrityError\<close> (or the domain error the repository turns it into).
\<close>

section \<open>Rows\<close>

datatype user_status = ACTIVE | DISABLED | DELETED

datatype revocation_reason =
  LOGOUT | USER_REVOKED | PASSWORD_CHANGED | PASSWORD_RESET | TOKEN_REUSE | ACCOUNT_DELETED

type_synonym digest = string

record user =
  u_id :: uuid
  u_email :: string
  u_name :: string
  u_password_hash :: string
  u_avatar_url :: "string option"
  u_email_verified_at :: "instant option"
  u_status :: user_status
  u_created_at :: instant
  u_updated_at :: instant
  u_deleted_at :: "instant option"

record session =
  s_id :: uuid
  s_user_id :: uuid
  s_refresh_token_hash :: digest
  s_previous_refresh_token_hash :: "digest option"
  s_refreshed_at :: "instant option"
  s_expires_at :: instant
  s_last_used_at :: "instant option"
  s_revoked_at :: "instant option"
  s_revoked_reason :: "revocation_reason option"
  s_user_agent :: "string option"
  s_ip_address :: "string option"
  s_created_at :: instant

record single_use_token =
  t_id :: uuid
  t_user_id :: uuid
  t_token_hash :: digest
  t_expires_at :: instant
  t_consumed_at :: "instant option"
  t_revoked_at :: "instant option"
  t_created_at :: instant

record organization =
  o_id :: uuid
  o_name :: string
  o_created_at :: instant
  o_updated_at :: instant
  o_deleted_at :: "instant option"

record membership =
  m_id :: uuid
  m_organization_id :: uuid
  m_user_id :: uuid
  m_role :: role
  m_created_at :: instant

record invitation =
  i_id :: uuid
  i_organization_id :: uuid
  i_email :: string
  i_role :: role
  i_token_hash :: digest
  i_invited_by_user_id :: "uuid option"
  i_accepted_by_user_id :: "uuid option"
  i_expires_at :: instant
  i_accepted_at :: "instant option"
  i_revoked_at :: "instant option"
  i_created_at :: instant

text \<open>Audit entries (core/domain/audit/entities.py); metadata values are JSON scalars or lists of text.\<close>

datatype audit_action =
    USER_REGISTERED | USER_EMAIL_VERIFIED | USER_LOGIN | USER_LOGIN_FAILED | USER_LOGOUT
  | USER_PASSWORD_RESET | USER_PASSWORD_CHANGED | USER_PROFILE_UPDATED | USER_DELETED
  | SESSION_REVOKED | ORGANIZATION_CREATED | ORGANIZATION_UPDATED | ORGANIZATION_DELETED
  | MEMBER_INVITED | MEMBER_INVITATION_REVOKED | MEMBER_INVITATION_ACCEPTED
  | MEMBER_ROLE_CHANGED | MEMBER_REMOVED | PRICING_SNAPSHOT_CREATED | PROJECT_CREATED
  | PROJECT_UPDATED | PROJECT_ARCHIVED | PROJECT_RESTORED | PROJECT_DELETED
  | PROJECT_POLICY_UPDATED | REQUIREMENT_CREATED | REQUIREMENT_UPDATED
  | REQUIREMENT_STATUS_CHANGED | REQUIREMENT_VERSION_CREATED | REQUIREMENT_DELETED
  | REQUIREMENT_SET_CREATED | REQUIREMENT_ANALYSIS_CREATED | REQUIREMENT_PROMOTED
  | ARCHITECTURE_CREATED | ARCHITECTURE_UPDATED | ARCHITECTURE_REVISED
  | ARCHITECTURE_REVISION_RESTORED | ARCHITECTURE_ARCHIVED | ARCHITECTURE_RESTORED
  | ARCHITECTURE_DELETED | ARCHITECTURE_VALIDATED | ARCHITECTURE_CAPACITY_ANALYZED
  | ARCHITECTURE_COST_ANALYZED | ARCHITECTURE_RELIABILITY_ANALYZED
  | ARCHITECTURE_SECURITY_ANALYZED | ARCHITECTURE_OBSERVABILITY_ANALYZED
  | ARCHITECTURE_SIMULATED | ARCHITECTURE_EVOLUTION_ANALYZED | DECISION_PROPOSED
  | DECISION_ACCEPTED | DECISION_REJECTED | DECISION_SUPERSEDED | DECISION_REVISION_LINKED
  | MIGRATION_PLAN_CREATED | MIGRATION_PLAN_REGENERATED | MIGRATION_PLAN_SUBMITTED
  | MIGRATION_PLAN_APPROVED | MIGRATION_PLAN_REJECTED | MIGRATION_PLAN_ARCHIVED
  | DISCOVERY_RUN_CREATED | DISCOVERY_RUN_REVIEWED | DISCOVERY_RUN_ACCEPTED
  | DISCOVERY_RUN_DELETED | DRIFT_ANALYSIS_CREATED | DRIFT_ITEM_REVIEWED
  | DRIFT_IDENTITY_CONFIRMED

datatype meta_value = MText string | MInt int | MBool bool | MList "string list"

record audit_event =
  a_action :: audit_action
  a_actor_user_id :: "uuid option"
  a_organization_id :: "uuid option"
  a_resource_type :: "string option"
  a_resource_id :: "uuid option"
  a_metadata :: "(string \<times> meta_value) list"

record audit_entry =
  l_organization_id :: "uuid option"
  l_actor_user_id :: "uuid option"
  l_action :: audit_action
  l_resource_type :: "string option"
  l_resource_id :: "string option"
  l_metadata :: "(string \<times> meta_value) list"
  l_ip_address :: "string option"
  l_user_agent :: "string option"
  l_created_at :: instant

record db =
  users :: "user list"
  sessions :: "session list"
  email_verification_tokens :: "single_use_token list"
  password_reset_tokens :: "single_use_token list"
  organizations :: "organization list"
  memberships :: "membership list"
  invitations :: "invitation list"
  audit_log :: "audit_entry list"

text \<open>
  What one call of a service takes from its environment: the service's clock, the database's clock
  (\<open>func.now()\<close>), the ids the application generates for the rows it inserts
  (\<open>uuid.uuid7\<close>), the token \<open>generate_token()\<close> returns, and the client of the request.
\<close>

record env =
  now :: instant
  db_now :: instant
  new_id :: uuid
  new_id2 :: uuid
  new_secret :: string
  client_user_agent :: "string option"
  client_ip_address :: "string option"

text \<open>
  Code outside the repository: the SHA-256 of a token's UTF-8, Argon2 hashing and verification
  (argon2-cffi), the syntax check of email-validator (the normalized address, or \<open>None\<close> for
  \<open>EmailNotValidError\<close>), and Unicode's NFKC and case folding.
\<close>

record ext =
  hash_token :: "string \<Rightarrow> digest"
  hasher_verify :: "string \<Rightarrow> string \<Rightarrow> bool"
  hasher_hash :: "string \<Rightarrow> string"
  hasher_needs_rehash :: "string \<Rightarrow> bool"
  hasher_dummy_hash :: string
  validate_email :: "string \<Rightarrow> string option"
  nfkc :: "string \<Rightarrow> string"
  casefold :: "string \<Rightarrow> string"

section \<open>Entities\<close>

definition is_email_verified :: "user \<Rightarrow> bool" where
  "is_email_verified u \<longleftrightarrow> u_email_verified_at u \<noteq> None"

definition can_sign_in :: "user \<Rightarrow> bool" where
  "can_sign_in u \<longleftrightarrow> u_status u = ACTIVE"

definition is_spent :: "single_use_token \<Rightarrow> bool" where
  "is_spent t \<longleftrightarrow> t_consumed_at t \<noteq> None \<or> t_revoked_at t \<noteq> None"

definition is_active :: "session \<Rightarrow> instant \<Rightarrow> bool" where
  "is_active s at \<longleftrightarrow> s_revoked_at s = None \<and> at < s_expires_at s"

definition can :: "membership \<Rightarrow> permission \<Rightarrow> bool" where
  "can m p = has_permission (m_role m) p"

definition require :: "membership \<Rightarrow> permission \<Rightarrow> domain_error + unit" where
  "require m p = (if can m p then Inr () else Inl PermissionDenied)"

definition is_pending :: "invitation \<Rightarrow> bool" where
  "is_pending i \<longleftrightarrow> i_accepted_at i = None \<and> i_revoked_at i = None"

fun role_value :: "role \<Rightarrow> string" where
  "role_value OWNER = ''owner''"
| "role_value ADMIN = ''admin''"
| "role_value MEMBER = ''member''"
| "role_value VIEWER = ''viewer''"

section \<open>The audit trail\<close>

text \<open>\<open>re.compile(r"password|token|secret|hash|cookie|authorization", re.IGNORECASE).search\<close>\<close>

definition secret_key :: "string \<Rightarrow> bool" where
  "secret_key k \<longleftrightarrow>
     (\<exists>p \<in> set [''password'', ''token'', ''secret'', ''hash'', ''cookie'', ''authorization''].
        contains_text p (py_lower k))"

definition AuditEvent ::
    "audit_action \<Rightarrow> uuid option \<Rightarrow> uuid option \<Rightarrow> string option \<Rightarrow> uuid option \<Rightarrow>
     (string \<times> meta_value) list \<Rightarrow> domain_error + audit_event" where
  "AuditEvent action actor org rtype rid metadata =
     (if \<exists>k \<in> set (map fst metadata). secret_key k then Inl ValueError
      else Inr \<lparr>a_action = action, a_actor_user_id = actor, a_organization_id = org,
                a_resource_type = rtype, a_resource_id = rid, a_metadata = metadata\<rparr>)"

definition MAX_USER_AGENT_LENGTH :: nat where
  "MAX_USER_AGENT_LENGTH = 512"

definition audit_record :: "env \<Rightarrow> domain_error + audit_event \<Rightarrow> db \<Rightarrow> domain_error + db" where
  "audit_record e event d =
     rbind event (\<lambda>ev. Inr (d\<lparr>audit_log := audit_log d @
       [\<lparr>l_organization_id = a_organization_id ev, l_actor_user_id = a_actor_user_id ev,
         l_action = a_action ev, l_resource_type = a_resource_type ev,
         l_resource_id = map_option uuid_str (a_resource_id ev), l_metadata = a_metadata ev,
         l_ip_address = client_ip_address e,
         l_user_agent = (case client_user_agent e of
                           None \<Rightarrow> None
                         | Some ua \<Rightarrow> if ua = [] then None else Some (take MAX_USER_AGENT_LENGTH ua)),
         l_created_at = db_now e\<rparr>]\<rparr>))"

section \<open>Users\<close>

definition users_get :: "uuid \<Rightarrow> db \<Rightarrow> user option" where
  "users_get i d = List.find (\<lambda>u. u_id u = i) (users d)"

definition users_get_by_email :: "string \<Rightarrow> db \<Rightarrow> user option" where
  "users_get_by_email email d = List.find (\<lambda>u. py_lower (u_email u) = email) (users d)"

definition users_mark_email_verified :: "env \<Rightarrow> uuid \<Rightarrow> instant \<Rightarrow> db \<Rightarrow> db" where
  "users_mark_email_verified e i at d = d\<lparr>users :=
     update_where (\<lambda>u. u_id u = i \<and> u_email_verified_at u = None)
       (\<lambda>u. u\<lparr>u_email_verified_at := Some at, u_updated_at := db_now e\<rparr>) (users d)\<rparr>"

definition users_update_password_hash :: "env \<Rightarrow> uuid \<Rightarrow> string \<Rightarrow> db \<Rightarrow> db" where
  "users_update_password_hash e i h d = d\<lparr>users :=
     update_where (\<lambda>u. u_id u = i) (\<lambda>u. u\<lparr>u_password_hash := h, u_updated_at := db_now e\<rparr>)
       (users d)\<rparr>"

text \<open>The tombstone address must not be in use by another row (\<open>uq_users_email_lower\<close>).\<close>

definition users_soft_delete ::
    "env \<Rightarrow> uuid \<Rightarrow> string \<Rightarrow> string \<Rightarrow> string \<Rightarrow> instant \<Rightarrow> db \<Rightarrow> domain_error + db" where
  "users_soft_delete e i email name password_hash at d =
     (if \<exists>v \<in> set (users d). u_id v \<noteq> i \<and> py_lower (u_email v) = py_lower email
      then Inl IntegrityError
      else Inr (d\<lparr>users :=
        update_where (\<lambda>u. u_id u = i)
          (\<lambda>u. u\<lparr>u_status := DELETED, u_deleted_at := Some at, u_email := email, u_name := name,
                 u_password_hash := password_hash, u_avatar_url := None,
                 u_email_verified_at := None, u_updated_at := db_now e\<rparr>) (users d)\<rparr>))"

text \<open>The unique index \<open>uq_users_email_lower\<close> refuses an address already used, in any case.\<close>

definition users_add :: "env \<Rightarrow> string \<Rightarrow> string \<Rightarrow> string \<Rightarrow> db \<Rightarrow> domain_error + (user \<times> db)" where
  "users_add e email name password_hash d =
     (let u = \<lparr>u_id = new_id e, u_email = email, u_name = name, u_password_hash = password_hash,
               u_avatar_url = None, u_email_verified_at = None, u_status = ACTIVE,
               u_created_at = db_now e, u_updated_at = db_now e, u_deleted_at = None\<rparr>
      in if \<exists>v \<in> set (users d). py_lower (u_email v) = py_lower email
         then Inl EmailAlreadyRegistered
         else if \<exists>v \<in> set (users d). u_id v = new_id e then Inl IntegrityError
         else Inr (u, d\<lparr>users := users d @ [u]\<rparr>))"

section \<open>Sessions\<close>

definition sessions_get :: "uuid \<Rightarrow> db \<Rightarrow> session option" where
  "sessions_get i d = List.find (\<lambda>s. s_id s = i) (sessions d)"

definition sessions_add ::
    "env \<Rightarrow> uuid \<Rightarrow> digest \<Rightarrow> instant \<Rightarrow> instant \<Rightarrow> string option \<Rightarrow> string option \<Rightarrow> db \<Rightarrow>
     domain_error + (session \<times> db)" where
  "sessions_add e user_id hash expires_at created_at user_agent ip d =
     (let s = \<lparr>s_id = new_id e, s_user_id = user_id, s_refresh_token_hash = hash,
               s_previous_refresh_token_hash = None, s_refreshed_at = None,
               s_expires_at = expires_at, s_last_used_at = Some created_at, s_revoked_at = None,
               s_revoked_reason = None, s_user_agent = user_agent, s_ip_address = ip,
               s_created_at = created_at\<rparr>
      in if \<exists>x \<in> set (sessions d). s_id x = new_id e then Inl IntegrityError
         else Inr (s, d\<lparr>sessions := sessions d @ [s]\<rparr>))"

definition sessions_rotate :: "uuid \<Rightarrow> digest \<Rightarrow> digest \<Rightarrow> instant \<Rightarrow> db \<Rightarrow> db" where
  "sessions_rotate i new_hash previous_hash at d = d\<lparr>sessions :=
     update_where (\<lambda>s. s_id s = i)
       (\<lambda>s. s\<lparr>s_refresh_token_hash := new_hash, s_previous_refresh_token_hash := Some previous_hash,
              s_refreshed_at := Some at, s_last_used_at := Some at\<rparr>) (sessions d)\<rparr>"

definition revoke_row :: "revocation_reason \<Rightarrow> instant \<Rightarrow> session \<Rightarrow> session" where
  "revoke_row reason at s = s\<lparr>s_revoked_at := Some at, s_revoked_reason := Some reason\<rparr>"

definition sessions_revoke :: "uuid \<Rightarrow> revocation_reason \<Rightarrow> instant \<Rightarrow> db \<Rightarrow> db" where
  "sessions_revoke i reason at d = d\<lparr>sessions :=
     update_where (\<lambda>s. s_id s = i \<and> s_revoked_at s = None) (revoke_row reason at) (sessions d)\<rparr>"

text \<open>
  \<open>ORDER BY last_used_at DESC NULLS LAST, id DESC LIMIT n\<close>: the rows sorted by a key that
  grows along that order.
\<close>

definition list_active_key :: "session \<Rightarrow> bool \<times> int \<times> int" where
  "list_active_key s =
     (s_last_used_at s = None, - (case s_last_used_at s of None \<Rightarrow> 0 | Some t \<Rightarrow> t), - int (s_id s))"

definition sessions_list_active :: "uuid \<Rightarrow> instant \<Rightarrow> nat \<Rightarrow> db \<Rightarrow> session list" where
  "sessions_list_active user_id at limit d =
     take limit (sort_key list_active_key
       (filter (\<lambda>s. s_user_id s = user_id \<and> s_revoked_at s = None \<and> s_expires_at s > at)
          (sessions d)))"

definition owned_active :: "uuid \<Rightarrow> uuid \<Rightarrow> instant \<Rightarrow> session \<Rightarrow> bool" where
  "owned_active i user_id at s \<longleftrightarrow>
     s_id s = i \<and> s_user_id s = user_id \<and> s_revoked_at s = None \<and> s_expires_at s > at"

definition sessions_revoke_owned ::
    "uuid \<Rightarrow> uuid \<Rightarrow> revocation_reason \<Rightarrow> instant \<Rightarrow> db \<Rightarrow> bool \<times> db" where
  "sessions_revoke_owned i user_id reason at d =
     (count_where (owned_active i user_id at) (sessions d) = 1,
      d\<lparr>sessions := update_where (owned_active i user_id at) (revoke_row reason at) (sessions d)\<rparr>)"

definition sessions_revoke_all_for_user ::
    "uuid \<Rightarrow> revocation_reason \<Rightarrow> instant \<Rightarrow> uuid option \<Rightarrow> db \<Rightarrow> nat \<times> db" where
  "sessions_revoke_all_for_user user_id reason at keep d =
     (let p = (\<lambda>s. s_user_id s = user_id \<and> s_revoked_at s = None \<and> keep \<noteq> Some (s_id s))
      in (count_where p (sessions d),
          d\<lparr>sessions := update_where p (revoke_row reason at) (sessions d)\<rparr>))"

section \<open>Emailed single-use tokens\<close>

text \<open>
  One repository serves both token tables; \<open>tbl\<close> and \<open>set_tbl\<close> select the table in the
  database, as the \<open>model\<close> argument of \<open>SqlAlchemySingleUseTokenRepository\<close> does.
\<close>

definition tokens_outstanding :: "uuid \<Rightarrow> single_use_token \<Rightarrow> bool" where
  "tokens_outstanding user_id t \<longleftrightarrow>
     t_user_id t = user_id \<and> t_consumed_at t = None \<and> t_revoked_at t = None"

definition tokens_add ::
    "env \<Rightarrow> uuid \<Rightarrow> digest \<Rightarrow> instant \<Rightarrow> instant \<Rightarrow> single_use_token list \<Rightarrow>
     domain_error + single_use_token list" where
  "tokens_add e user_id hash expires_at created_at ts =
     (if \<exists>t \<in> set ts. t_token_hash t = hash \<or> t_id t = new_id2 e then Inl IntegrityError
      else Inr (ts @ [\<lparr>t_id = new_id2 e, t_user_id = user_id, t_token_hash = hash,
                       t_expires_at = expires_at, t_consumed_at = None, t_revoked_at = None,
                       t_created_at = created_at\<rparr>]))"

definition tokens_get_by_hash :: "digest \<Rightarrow> single_use_token list \<Rightarrow> single_use_token option" where
  "tokens_get_by_hash hash ts = List.find (\<lambda>t. t_token_hash t = hash) ts"

definition tokens_latest_outstanding_created_at ::
    "uuid \<Rightarrow> single_use_token list \<Rightarrow> instant option" where
  "tokens_latest_outstanding_created_at user_id ts =
     (case map t_created_at (filter (tokens_outstanding user_id) ts) of
        [] \<Rightarrow> None
      | x # xs \<Rightarrow> Some (fold max xs x))"

definition tokens_revoke_outstanding ::
    "uuid \<Rightarrow> instant \<Rightarrow> single_use_token list \<Rightarrow> single_use_token list" where
  "tokens_revoke_outstanding user_id at ts =
     update_where (tokens_outstanding user_id) (\<lambda>t. t\<lparr>t_revoked_at := Some at\<rparr>) ts"

definition tokens_mark_consumed :: "uuid \<Rightarrow> instant \<Rightarrow> single_use_token list \<Rightarrow> single_use_token list" where
  "tokens_mark_consumed i at ts =
     update_where (\<lambda>t. t_id t = i) (\<lambda>t. t\<lparr>t_consumed_at := Some at\<rparr>) ts"

section \<open>Organizations\<close>

definition organizations_add :: "env \<Rightarrow> string \<Rightarrow> db \<Rightarrow> domain_error + (organization \<times> db)" where
  "organizations_add e name d =
     (let o' = \<lparr>o_id = new_id e, o_name = name, o_created_at = db_now e, o_updated_at = db_now e,
                o_deleted_at = None\<rparr>
      in if \<exists>x \<in> set (organizations d). o_id x = new_id e then Inl IntegrityError
         else Inr (o', d\<lparr>organizations := organizations d @ [o']\<rparr>))"

definition organization_live :: "uuid \<Rightarrow> organization \<Rightarrow> bool" where
  "organization_live i x \<longleftrightarrow> o_id x = i \<and> o_deleted_at x = None"

definition organizations_get_active :: "uuid \<Rightarrow> db \<Rightarrow> organization option" where
  "organizations_get_active i d = List.find (organization_live i) (organizations d)"

definition organizations_rename ::
    "env \<Rightarrow> uuid \<Rightarrow> string \<Rightarrow> db \<Rightarrow> domain_error + (organization \<times> db)" where
  "organizations_rename e i name d =
     (let f = (\<lambda>x. x\<lparr>o_name := name, o_updated_at := db_now e\<rparr>)
      in case organizations_get_active i d of
           None \<Rightarrow> Inl LookupError
         | Some x \<Rightarrow> Inr (f x, d\<lparr>organizations :=
                         update_where (organization_live i) f (organizations d)\<rparr>))"

definition organizations_soft_delete :: "env \<Rightarrow> uuid \<Rightarrow> instant \<Rightarrow> db \<Rightarrow> db" where
  "organizations_soft_delete e i at d = d\<lparr>organizations :=
     update_where (organization_live i)
       (\<lambda>x. x\<lparr>o_deleted_at := Some at, o_updated_at := db_now e\<rparr>) (organizations d)\<rparr>"

definition organizations_lock_active :: "uuid \<Rightarrow> db \<Rightarrow> bool" where
  "organizations_lock_active i d \<longleftrightarrow> organizations_get_active i d \<noteq> None"

section \<open>Memberships\<close>

definition member_of :: "uuid \<Rightarrow> uuid \<Rightarrow> membership \<Rightarrow> bool" where
  "member_of org user_id m \<longleftrightarrow> m_organization_id m = org \<and> m_user_id m = user_id"

text \<open>The id a new membership row receives is \<open>new_id2\<close>; the table is unique on (organization, user).\<close>

definition memberships_add :: "env \<Rightarrow> uuid \<Rightarrow> uuid \<Rightarrow> role \<Rightarrow> db \<Rightarrow> domain_error + (membership \<times> db)" where
  "memberships_add e org user_id role d =
     (let m = \<lparr>m_id = new_id2 e, m_organization_id = org, m_user_id = user_id, m_role = role,
               m_created_at = db_now e\<rparr>
      in if \<exists>x \<in> set (memberships d). m_id x = new_id2 e \<or> member_of org user_id x
         then Inl IntegrityError
         else Inr (m, d\<lparr>memberships := memberships d @ [m]\<rparr>))"

definition memberships_get_for_user :: "uuid \<Rightarrow> uuid \<Rightarrow> db \<Rightarrow> membership option" where
  "memberships_get_for_user org user_id d = List.find (member_of org user_id) (memberships d)"

definition memberships_get :: "uuid \<Rightarrow> uuid \<Rightarrow> db \<Rightarrow> membership option" where
  "memberships_get org i d =
     List.find (\<lambda>m. m_id m = i \<and> m_organization_id m = org) (memberships d)"

definition memberships_get_in_active_organization ::
    "uuid \<Rightarrow> uuid \<Rightarrow> db \<Rightarrow> (organization \<times> membership) option" where
  "memberships_get_in_active_organization org user_id d =
     (case organizations_get_active org d of
        None \<Rightarrow> None
      | Some x \<Rightarrow> map_option (Pair x) (memberships_get_for_user org user_id d))"

text \<open>Ordered by the organization's lower-cased name, then its id.\<close>

definition memberships_list_for_user :: "uuid \<Rightarrow> db \<Rightarrow> (organization \<times> membership) list" where
  "memberships_list_for_user user_id d =
     sort_key (\<lambda>(x, m). (py_lower (o_name x), o_id x))
       [(x, m). x \<leftarrow> organizations d, m \<leftarrow> memberships d,
          m_organization_id m = o_id x \<and> m_user_id m = user_id \<and> o_deleted_at x = None]"

definition is_owner_of :: "uuid \<Rightarrow> membership \<Rightarrow> bool" where
  "is_owner_of org m \<longleftrightarrow> m_organization_id m = org \<and> m_role m = OWNER"

definition memberships_count_owners :: "uuid \<Rightarrow> db \<Rightarrow> nat" where
  "memberships_count_owners org d = count_where (is_owner_of org) (memberships d)"

definition memberships_update_role :: "uuid \<Rightarrow> role \<Rightarrow> db \<Rightarrow> domain_error + (membership \<times> db)" where
  "memberships_update_role i role d =
     (case List.find (\<lambda>m. m_id m = i) (memberships d) of
        None \<Rightarrow> Inl LookupError
      | Some m \<Rightarrow> Inr (m\<lparr>m_role := role\<rparr>, d\<lparr>memberships :=
                      update_where (\<lambda>m. m_id m = i) (\<lambda>m. m\<lparr>m_role := role\<rparr>) (memberships d)\<rparr>))"

definition memberships_delete :: "uuid \<Rightarrow> db \<Rightarrow> db" where
  "memberships_delete i d = d\<lparr>memberships := delete_where (\<lambda>m. m_id m = i) (memberships d)\<rparr>"

record owned_organization =
  oo_organization_id :: uuid
  oo_owner_count :: nat
  oo_member_count :: nat

text \<open>One row per live organization the user owns, with its counts, in id order.\<close>

definition memberships_owned_by :: "uuid \<Rightarrow> db \<Rightarrow> owned_organization list" where
  "memberships_owned_by user_id d =
     (let mine = [m_organization_id m. m \<leftarrow> memberships d,
                    m_user_id m = user_id \<and> m_role m = OWNER \<and>
                    organizations_get_active (m_organization_id m) d \<noteq> None]
      in map (\<lambda>org. \<lparr>oo_organization_id = org,
                     oo_owner_count = memberships_count_owners org d,
                     oo_member_count = count_where (\<lambda>m. m_organization_id m = org) (memberships d)\<rparr>)
           (sort (remdups mine)))"

definition memberships_delete_all_for_user :: "uuid \<Rightarrow> db \<Rightarrow> db" where
  "memberships_delete_all_for_user user_id d =
     d\<lparr>memberships := delete_where (\<lambda>m. m_user_id m = user_id) (memberships d)\<rparr>"

section \<open>Invitations\<close>

text \<open>
  Unique on the token hash, and on (organization, lower-cased email) among the pending rows
  (\<open>uq_invitations_pending_email\<close>).
\<close>

definition invitations_add ::
    "env \<Rightarrow> uuid \<Rightarrow> string \<Rightarrow> role \<Rightarrow> digest \<Rightarrow> uuid \<Rightarrow> instant \<Rightarrow> instant \<Rightarrow> db \<Rightarrow>
     domain_error + (invitation \<times> db)" where
  "invitations_add e org email role hash invited_by expires_at created_at d =
     (let i = \<lparr>i_id = new_id e, i_organization_id = org, i_email = email, i_role = role,
               i_token_hash = hash, i_invited_by_user_id = Some invited_by,
               i_accepted_by_user_id = None, i_expires_at = expires_at, i_accepted_at = None,
               i_revoked_at = None, i_created_at = created_at\<rparr>
      in if \<exists>x \<in> set (invitations d). i_id x = new_id e \<or> i_token_hash x = hash \<or>
              (is_pending x \<and> i_organization_id x = org \<and> py_lower (i_email x) = py_lower email)
         then Inl IntegrityError
         else Inr (i, d\<lparr>invitations := invitations d @ [i]\<rparr>))"

text \<open>Newest first: \<open>ORDER BY created_at DESC, id DESC\<close>.\<close>

definition invitations_list_pending :: "uuid \<Rightarrow> db \<Rightarrow> invitation list" where
  "invitations_list_pending org d =
     sort_key (\<lambda>i. (- i_created_at i, - int (i_id i)))
       (filter (\<lambda>i. i_organization_id i = org \<and> is_pending i) (invitations d))"

definition invitations_get_pending :: "uuid \<Rightarrow> uuid \<Rightarrow> db \<Rightarrow> invitation option" where
  "invitations_get_pending org i d =
     List.find (\<lambda>x. i_id x = i \<and> i_organization_id x = org \<and> is_pending x) (invitations d)"

definition invitations_get_by_hash :: "digest \<Rightarrow> db \<Rightarrow> invitation option" where
  "invitations_get_by_hash hash d = List.find (\<lambda>x. i_token_hash x = hash) (invitations d)"

definition invitations_revoke_pending_for_email :: "uuid \<Rightarrow> string \<Rightarrow> instant \<Rightarrow> db \<Rightarrow> db" where
  "invitations_revoke_pending_for_email org email at d = d\<lparr>invitations :=
     update_where (\<lambda>x. i_organization_id x = org \<and> py_lower (i_email x) = email \<and> is_pending x)
       (\<lambda>x. x\<lparr>i_revoked_at := Some at\<rparr>) (invitations d)\<rparr>"

definition invitations_revoke :: "uuid \<Rightarrow> instant \<Rightarrow> db \<Rightarrow> db" where
  "invitations_revoke i at d = d\<lparr>invitations :=
     update_where (\<lambda>x. i_id x = i \<and> is_pending x) (\<lambda>x. x\<lparr>i_revoked_at := Some at\<rparr>)
       (invitations d)\<rparr>"

definition invitations_mark_accepted :: "uuid \<Rightarrow> uuid \<Rightarrow> instant \<Rightarrow> db \<Rightarrow> db" where
  "invitations_mark_accepted i user_id at d = d\<lparr>invitations :=
     update_where (\<lambda>x. i_id x = i)
       (\<lambda>x. x\<lparr>i_accepted_at := Some at, i_accepted_by_user_id := Some user_id\<rparr>)
       (invitations d)\<rparr>"

section \<open>The constraints the tables declare\<close>

text \<open>
  Primary keys, unique indexes and the state checks (persistence/models).  That they hold is an
  invariant of every service below.
\<close>

definition user_row_ok :: "user \<Rightarrow> bool" where
  "user_row_ok u \<longleftrightarrow> (u_status u = DELETED) = (u_deleted_at u \<noteq> None)"

definition session_row_ok :: "session \<Rightarrow> bool" where
  "session_row_ok s \<longleftrightarrow>
     (s_revoked_at s = None) = (s_revoked_reason s = None) \<and>
     (s_previous_refresh_token_hash s = None) = (s_refreshed_at s = None)"

definition invitation_row_ok :: "invitation \<Rightarrow> bool" where
  "invitation_row_ok i \<longleftrightarrow>
     (i_accepted_at i = None \<or> i_revoked_at i = None) \<and>
     (i_accepted_by_user_id i = None \<or> i_accepted_at i \<noteq> None)"

definition users_ok :: "db \<Rightarrow> bool" where
  "users_ok d \<longleftrightarrow> unique_on (\<lambda>_. True) u_id (users d) \<and>
     unique_on (\<lambda>_. True) (\<lambda>u. py_lower (u_email u)) (users d) \<and>
     (\<forall>u \<in> set (users d). user_row_ok u)"

definition sessions_ok :: "db \<Rightarrow> bool" where
  "sessions_ok d \<longleftrightarrow> unique_on (\<lambda>_. True) s_id (sessions d) \<and>
     (\<forall>s \<in> set (sessions d). session_row_ok s)"

definition organizations_ok :: "db \<Rightarrow> bool" where
  "organizations_ok d \<longleftrightarrow> unique_on (\<lambda>_. True) o_id (organizations d)"

definition memberships_ok :: "db \<Rightarrow> bool" where
  "memberships_ok d \<longleftrightarrow> unique_on (\<lambda>_. True) m_id (memberships d) \<and>
     unique_on (\<lambda>_. True) (\<lambda>m. (m_organization_id m, m_user_id m)) (memberships d)"

definition invitations_ok :: "db \<Rightarrow> bool" where
  "invitations_ok d \<longleftrightarrow> unique_on (\<lambda>_. True) i_id (invitations d) \<and>
     unique_on (\<lambda>_. True) i_token_hash (invitations d) \<and>
     unique_on is_pending (\<lambda>i. (i_organization_id i, py_lower (i_email i))) (invitations d) \<and>
     (\<forall>i \<in> set (invitations d). invitation_row_ok i)"

definition token_row_ok :: "single_use_token \<Rightarrow> bool" where
  "token_row_ok t \<longleftrightarrow> t_consumed_at t = None \<or> t_revoked_at t = None"

definition tokens_ok :: "single_use_token list \<Rightarrow> bool" where
  "tokens_ok ts \<longleftrightarrow> unique_on (\<lambda>_. True) t_id ts \<and> unique_on (\<lambda>_. True) t_token_hash ts \<and>
     (\<forall>t \<in> set ts. token_row_ok t)"

text \<open>No audit entry carries a metadata key that looks like a secret.\<close>

definition audit_ok :: "db \<Rightarrow> bool" where
  "audit_ok d \<longleftrightarrow> (\<forall>l \<in> set (audit_log d). \<forall>p \<in> set (l_metadata l). \<not> secret_key (fst p))"

section \<open>What the repositories keep\<close>

lemma audit_record_Inr:
  assumes "audit_record e (AuditEvent a ac org rt ri meta) d = Inr d'"
  shows "users d' = users d" "sessions d' = sessions d"
    "email_verification_tokens d' = email_verification_tokens d"
    "password_reset_tokens d' = password_reset_tokens d"
    "organizations d' = organizations d" "memberships d' = memberships d"
    "invitations d' = invitations d" "audit_ok d \<Longrightarrow> audit_ok d'"
    "\<exists>l. audit_log d' = audit_log d @ [l] \<and> l_action l = a \<and> l_actor_user_id l = ac \<and>
       l_organization_id l = org \<and> l_metadata l = meta"
  using assms by (fastforce simp: audit_record_def AuditEvent_def audit_ok_def split: if_splits)+

lemma audit_record_keys [outcome_simps]:
  assumes "\<forall>k \<in> fst ` set meta. \<not> secret_key k"
  shows "\<exists>d'. audit_record e (AuditEvent a ac org rt ri meta) d = Inr d'"
  using assms by (auto simp: audit_record_def AuditEvent_def)

text \<open>
  The interface a service proof needs of a property of the database: writing an audit entry keeps
  it.  Then a block that ends with an audit entry, and a transaction, keep it when their steps do.
\<close>

locale audited =
  fixes P :: "db \<Rightarrow> bool"
  assumes audit: "audit_record e (AuditEvent a ac org rt ri meta) d = Inr d' \<Longrightarrow> P d \<Longrightarrow> P d'"
begin

lemma then_audit:
  assumes "P d" "\<And>d'. P d' \<Longrightarrow> on_return Q (f d')"
  shows "on_return Q (rbind (audit_record e (AuditEvent a ac org rt ri meta) d) f)"
  using assms by (auto simp: on_return_rbind intro: on_returnI audit)

lemma in_transaction:
  "P d \<Longrightarrow> on_return (\<lambda>(r, d'). P d') (block d) \<Longrightarrow> P (snd (transaction block d))"
  by (rule transaction_keeps)

end

text \<open>The metadata keys the services write are not secret-looking.\<close>

lemma audit_keys_plain [simp]:
  "\<not> secret_key ''userId''" "\<not> secret_key ''from''" "\<not> secret_key ''to''"
  "\<not> secret_key ''role''" "\<not> secret_key ''left''" "\<not> secret_key ''reason''"
  "\<not> secret_key ''email''" "\<not> secret_key ''name''" "\<not> secret_key ''fields''"
  "\<not> secret_key ''sessionsRevoked''" "\<not> secret_key ''slug''"
  by code_simp+

end
