(* ===== verification/Membership.thy ===== *)
theory Membership
  imports Store
begin

text \<open>
  Organizations and their members: creating, renaming and deleting an organization
  (core/domain/organizations/organization_service.py), changing and removing memberships
  (membership_service.py), inviting, revoking and accepting (invitation_service.py).  Each service
  method is a \<open>transaction\<close> on the database; the emails a method sends after its commit are
  part of its result.
\<close>

section \<open>Values\<close>

definition MAX_ORGANIZATION_NAME_LENGTH :: nat where
  "MAX_ORGANIZATION_NAME_LENGTH = 100"

definition normalize_organization_name :: "string \<Rightarrow> domain_error + string" where
  "normalize_organization_name raw =
     (let name = join '' '' (py_split raw)
      in if name = [] \<or> length name > MAX_ORGANIZATION_NAME_LENGTH then Inl InvalidOrganizationName
         else if \<exists>c \<in> set name. control_or_format c then Inl InvalidOrganizationName
         else Inr name)"

definition MAX_EMAIL_LENGTH :: nat where
  "MAX_EMAIL_LENGTH = 320"

definition normalize_email :: "ext \<Rightarrow> string \<Rightarrow> domain_error + string" where
  "normalize_email x raw =
     (let candidate = py_strip raw
      in if candidate = [] \<or> length candidate > MAX_EMAIL_LENGTH then Inl InvalidEmail
         else case validate_email x candidate of
                None \<Rightarrow> Inl InvalidEmail
              | Some validated \<Rightarrow> Inr (py_lower validated))"

datatype mail =
    SendEmailVerification string string string \<comment> \<open>to, name, token\<close>
  | SendAccountExists string string
  | SendPasswordReset string string string
  | SendPasswordChanged string string
  | SendInvitation string string string string string
      \<comment> \<open>to, inviter name, organization name, role, token\<close>

section \<open>Organizations\<close>

definition org_create ::
    "env \<Rightarrow> user \<Rightarrow> string \<Rightarrow> db \<Rightarrow> (domain_error + (organization \<times> membership)) \<times> db" where
  "org_create e user name d =
     (if \<not> is_email_verified user then (Inl EmailNotVerified, d)
      else case normalize_organization_name name of
        Inl err \<Rightarrow> (Inl err, d)
      | Inr clean_name \<Rightarrow> transaction (\<lambda>d.
          rbind (organizations_add e clean_name d) (\<lambda>(x, d).
          rbind (memberships_add e (o_id x) (u_id user) OWNER d) (\<lambda>(m, d).
          rbind (audit_record e
            (AuditEvent ORGANIZATION_CREATED (Some (u_id user)) (Some (o_id x))
               (Some ''organization'') (Some (o_id x)) [(''name'', MText (o_name x))]) d) (\<lambda>d.
          Inr ((x, m), d))))) d)"

definition org_resolve ::
    "uuid \<Rightarrow> uuid \<Rightarrow> db \<Rightarrow> domain_error + (organization \<times> membership)" where
  "org_resolve org user_id d =
     require_some (memberships_get_in_active_organization org user_id d) OrganizationNotFound"

definition org_rename ::
    "env \<Rightarrow> membership \<Rightarrow> string \<Rightarrow> db \<Rightarrow> (domain_error + organization) \<times> db" where
  "org_rename e m name d =
     (case require m ORGANIZATION_UPDATE of
        Inl err \<Rightarrow> (Inl err, d)
      | Inr _ \<Rightarrow>
     (case normalize_organization_name name of
        Inl err \<Rightarrow> (Inl err, d)
      | Inr clean_name \<Rightarrow> transaction (\<lambda>d.
          rbind (organizations_rename e (m_organization_id m) clean_name d) (\<lambda>(renamed, d).
          rbind (audit_record e
            (AuditEvent ORGANIZATION_UPDATED (Some (m_user_id m)) (Some (m_organization_id m))
               (Some ''organization'') (Some (m_organization_id m))
               [(''name'', MText (o_name renamed))]) d) (\<lambda>d.
          Inr (renamed, d)))) d))"

definition org_delete :: "env \<Rightarrow> membership \<Rightarrow> db \<Rightarrow> (domain_error + unit) \<times> db" where
  "org_delete e m d =
     (case require m ORGANIZATION_DELETE of
        Inl err \<Rightarrow> (Inl err, d)
      | Inr _ \<Rightarrow> transaction (\<lambda>d.
          rbind (audit_record e
            (AuditEvent ORGANIZATION_DELETED (Some (m_user_id m)) (Some (m_organization_id m))
               (Some ''organization'') (Some (m_organization_id m)) [])
            (organizations_soft_delete e (m_organization_id m) (now e) d)) (\<lambda>d.
          Inr ((), d))) d)"

section \<open>Members\<close>

definition lock_and_load ::
    "uuid \<Rightarrow> uuid \<Rightarrow> uuid \<Rightarrow> db \<Rightarrow> domain_error + (membership \<times> membership)" where
  "lock_and_load org actor_user_id member_id d =
     rbind (ensure (organizations_lock_active org d) OrganizationNotFound) (\<lambda>_.
     rbind (require_some (memberships_get_for_user org actor_user_id d) OrganizationNotFound) (\<lambda>actor.
     rbind (require_some (memberships_get org member_id d) MemberNotFound) (\<lambda>target.
     Inr (actor, target))))"

definition change_role ::
    "env \<Rightarrow> uuid \<Rightarrow> uuid \<Rightarrow> uuid \<Rightarrow> role \<Rightarrow> db \<Rightarrow> (domain_error + membership) \<times> db" where
  "change_role e org actor_user_id member_id role = transaction (\<lambda>d.
     rbind (lock_and_load org actor_user_id member_id d) (\<lambda>(actor, target).
     rbind (check_role_change (m_role actor) (m_role target) role (m_id actor = m_id target)
              (memberships_count_owners org d)) (\<lambda>_.
     if m_role target = role then Inr (target, d)
     else
       rbind (memberships_update_role (m_id target) role d) (\<lambda>(updated, d).
       rbind (audit_record e
         (AuditEvent MEMBER_ROLE_CHANGED (Some actor_user_id) (Some org) (Some ''member'')
            (Some (m_id target))
            [(''userId'', MText (uuid_str (m_user_id target))),
             (''from'', MText (role_value (m_role target))),
             (''to'', MText (role_value role))]) d) (\<lambda>d.
       Inr (updated, d))))))"

definition remove_member ::
    "env \<Rightarrow> uuid \<Rightarrow> uuid \<Rightarrow> uuid \<Rightarrow> db \<Rightarrow> (domain_error + unit) \<times> db" where
  "remove_member e org actor_user_id member_id = transaction (\<lambda>d.
     rbind (lock_and_load org actor_user_id member_id d) (\<lambda>(actor, target).
     rbind (check_removal (m_role actor) (m_role target) (m_id actor = m_id target)
              (memberships_count_owners org d)) (\<lambda>_.
     rbind (audit_record e
       (AuditEvent MEMBER_REMOVED (Some actor_user_id) (Some org) (Some ''member'')
          (Some (m_id target))
          [(''userId'', MText (uuid_str (m_user_id target))),
           (''role'', MText (role_value (m_role target))),
           (''left'', MBool (m_id actor = m_id target))])
       (memberships_delete (m_id target) d)) (\<lambda>d.
     Inr ((), d)))))"

text \<open>
  \<open>release_memberships\<close> decides on the organizations \<open>owned\<close> it read with
  \<open>owned_by\<close>, before it locks them; the two parts are separate here so that what happens
  between the reading and the locks can be stated.
\<close>

definition release_decided ::
    "owned_organization list \<Rightarrow> env \<Rightarrow> uuid \<Rightarrow> instant \<Rightarrow> db \<Rightarrow> domain_error + db" where
  "release_decided owned e user_id at d =
     (let blocking = filter (\<lambda>o'. oo_owner_count o' = 1 \<and> oo_member_count o' > 1) owned;
          solo = map oo_organization_id (filter (\<lambda>o'. oo_member_count o' = 1) owned)
      in if blocking \<noteq> [] then Inl (SoleOwnerOfOrganization (map oo_organization_id blocking))
         else
           rbind (rfold (\<lambda>org d. audit_record e
               (AuditEvent ORGANIZATION_DELETED (Some user_id) (Some org) (Some ''organization'')
                  (Some org) [(''reason'', MText ''account_deleted'')])
               (organizations_soft_delete e org at d)) (sort (remdups solo)) d) (\<lambda>d.
           rbind (rfold (\<lambda>(x, m) d.
               if o_id x \<in> set solo then Inr d
               else audit_record e
                 (AuditEvent MEMBER_REMOVED (Some user_id) (Some (o_id x)) (Some ''member'')
                    (Some (m_id m))
                    [(''userId'', MText (uuid_str user_id)),
                     (''role'', MText (role_value (m_role m))),
                     (''reason'', MText ''account_deleted'')]) d)
             (memberships_list_for_user user_id d) d) (\<lambda>d.
           Inr (memberships_delete_all_for_user user_id d))))"

definition release_memberships :: "env \<Rightarrow> uuid \<Rightarrow> instant \<Rightarrow> db \<Rightarrow> domain_error + db" where
  "release_memberships e user_id at d =
     release_decided (memberships_owned_by user_id d) e user_id at d"

section \<open>Invitations\<close>

definition INVITATION_TTL :: int where
  "INVITATION_TTL = 7 * 24 * 3600 * 1000000"

definition MAX_TOKEN_LENGTH :: nat where
  "MAX_TOKEN_LENGTH = 128"

definition invite ::
    "ext \<Rightarrow> env \<Rightarrow> user \<Rightarrow> uuid \<Rightarrow> string \<Rightarrow> role \<Rightarrow> db \<Rightarrow> (domain_error + (invitation \<times> mail)) \<times> db" where
  "invite x e inviter org email role d =
     (case normalize_email x email of
        Inl err \<Rightarrow> (Inl err, d)
      | Inr invitee_email \<Rightarrow> transaction (\<lambda>d.
          rbind (require_some (organizations_get_active org d) OrganizationNotFound) (\<lambda>organization.
          rbind (ensure (organizations_lock_active org d) OrganizationNotFound) (\<lambda>_.
          rbind (require_some (memberships_get_for_user org (u_id inviter) d) OrganizationNotFound) (\<lambda>actor.
          rbind (check_invitation (m_role actor) role) (\<lambda>_.
          rbind (ensure (case users_get_by_email invitee_email d of
                           None \<Rightarrow> True
                         | Some existing \<Rightarrow> memberships_get_for_user org (u_id existing) d = None)
                   AlreadyMember) (\<lambda>_.
          let token = new_secret e;
              d = invitations_revoke_pending_for_email org invitee_email (now e) d in
          rbind (invitations_add e org invitee_email role (hash_token x token) (u_id inviter)
                   (now e + INVITATION_TTL) (now e) d) (\<lambda>(invitation, d).
          rbind (audit_record e
            (AuditEvent MEMBER_INVITED (Some (u_id inviter)) (Some org) (Some ''invitation'')
               (Some (i_id invitation))
               [(''email'', MText invitee_email), (''role'', MText (role_value role))]) d) (\<lambda>d.
          Inr ((invitation,
                SendInvitation invitee_email (u_name inviter) (o_name organization)
                  (role_value role) token), d))))))))) d)"

definition revoke_invitation ::
    "env \<Rightarrow> uuid \<Rightarrow> uuid \<Rightarrow> uuid \<Rightarrow> db \<Rightarrow> (domain_error + unit) \<times> db" where
  "revoke_invitation e org actor_user_id invitation_id = transaction (\<lambda>d.
     rbind (ensure (organizations_lock_active org d) OrganizationNotFound) (\<lambda>_.
     rbind (require_some (memberships_get_for_user org actor_user_id d) OrganizationNotFound) (\<lambda>actor.
     rbind (require_some (invitations_get_pending org invitation_id d) InvitationNotFound) (\<lambda>invitation.
     rbind (check_invitation (m_role actor) (i_role invitation)) (\<lambda>_.
     rbind (audit_record e
       (AuditEvent MEMBER_INVITATION_REVOKED (Some actor_user_id) (Some org) (Some ''invitation'')
          (Some (i_id invitation))
          [(''email'', MText (i_email invitation)),
           (''role'', MText (role_value (i_role invitation)))])
       (invitations_revoke (i_id invitation) (now e) d)) (\<lambda>d.
     Inr ((), d)))))))"

definition accept_invitation ::
    "ext \<Rightarrow> env \<Rightarrow> user \<Rightarrow> string \<Rightarrow> db \<Rightarrow> (domain_error + (organization \<times> membership)) \<times> db" where
  "accept_invitation x e user token d =
     (if \<not> is_email_verified user then (Inl EmailNotVerified, d)
      else if token = [] \<or> length token > MAX_TOKEN_LENGTH then (Inl InvalidInvitation, d)
      else transaction (\<lambda>d.
        rbind (require_some (invitations_get_by_hash (hash_token x token) d) InvalidInvitation) (\<lambda>invitation.
        rbind (ensure (is_pending invitation) InvalidInvitation) (\<lambda>_.
        rbind (ensure (\<not> i_expires_at invitation \<le> now e) InvitationExpired) (\<lambda>_.
        rbind (ensure (organizations_lock_active (i_organization_id invitation) d) InvalidInvitation) (\<lambda>_.
        rbind (ensure (u_email user = i_email invitation) InvitationEmailMismatch) (\<lambda>_.
        rbind (ensure (memberships_get_for_user (i_organization_id invitation) (u_id user) d = None)
                 AlreadyMember) (\<lambda>_.
        rbind (memberships_add e (i_organization_id invitation) (u_id user) (i_role invitation) d) (\<lambda>(_, d).
        let d = invitations_mark_accepted (i_id invitation) (u_id user) (now e) d in
        rbind (audit_record e
          (AuditEvent MEMBER_INVITATION_ACCEPTED (Some (u_id user)) (Some (i_organization_id invitation))
             (Some ''invitation'') (Some (i_id invitation))
             [(''role'', MText (role_value (i_role invitation)))]) d) (\<lambda>d.
        rbind (require_some (memberships_get_in_active_organization (i_organization_id invitation)
                 (u_id user) d) AssertionError) (\<lambda>joined.
        Inr (joined, d)))))))))) ) d)"

end
