(* ===== verification/Accounts.thy ===== *)
theory Accounts
  imports Membership
begin

text \<open>
  Accounts and sessions: registration and email verification
  (core/domain/identity/auth_service.py), sign-in, refresh-token rotation with reuse detection,
  sign-out and the access check (session_service.py), password reset and change
  (password_service.py), account deletion (user_service.py), with the password policy
  (passwords.py), the normalized values (value_objects.py) and the refresh-token format
  (tokens.py).  As in \<open>Membership\<close>, a service method is a transaction on the database and
  the mail it sends after its commit is part of its result.
\<close>

section \<open>Tokens, names and passwords\<close>

definition format_refresh_token :: "uuid \<Rightarrow> string \<Rightarrow> string" where
  "format_refresh_token session_id secret = uuid_str session_id @ ''.'' @ secret"

definition parse_refresh_token :: "string \<Rightarrow> (uuid \<times> string) option" where
  "parse_refresh_token raw =
     (if length raw > MAX_TOKEN_LENGTH then None
      else let (session_part, dot, secret) = partition_char (CHR ''.'') raw
           in if \<not> dot \<or> secret = [] then None
              else map_option (\<lambda>i. (i, secret)) (parse_uuid session_part))"

definition MAX_NAME_LENGTH :: nat where
  "MAX_NAME_LENGTH = 80"

definition normalize_name :: "string \<Rightarrow> domain_error + string" where
  "normalize_name raw =
     (let name = join '' '' (py_split raw)
      in if name = [] \<or> length name > MAX_NAME_LENGTH then Inl InvalidName
         else if \<exists>c \<in> set name. control_or_format c then Inl InvalidName
         else Inr name)"

definition tombstone_email :: "uuid \<Rightarrow> string" where
  "tombstone_email user_id = ''deleted+'' @ uuid_hex user_id @ ''@deleted.invalid''"

definition DELETED_USER_NAME :: string where
  "DELETED_USER_NAME = ''Deleted user''"

definition UNUSABLE_PASSWORD_HASH :: string where
  "UNUSABLE_PASSWORD_HASH = ''!deleted''"

record password_policy =
  min_length :: nat
  max_length :: nat
  common_passwords :: "string list"

definition ABSOLUTE_MAX_LENGTH :: nat where
  "ABSOLUTE_MAX_LENGTH = 128"

definition PasswordPolicy :: "nat \<Rightarrow> nat \<Rightarrow> string list \<Rightarrow> domain_error + password_policy" where
  "PasswordPolicy lo hi common =
     (if 8 \<le> lo \<and> lo \<le> hi \<and> hi \<le> ABSOLUTE_MAX_LENGTH
      then Inr \<lparr>min_length = lo, max_length = hi, common_passwords = common\<rparr>
      else Inl ValueError)"

definition MIN_PERSONAL_FRAGMENT :: nat where
  "MIN_PERSONAL_FRAGMENT = 4"

definition contains_email :: "string \<Rightarrow> string \<Rightarrow> bool" where
  "contains_email password email \<longleftrightarrow>
     (let local_part = fst (partition_char (CHR ''@'') email)
      in contains_text email password \<or>
         (length local_part \<ge> MIN_PERSONAL_FRAGMENT \<and> contains_text local_part password))"

definition password_issues :: "ext \<Rightarrow> password_policy \<Rightarrow> string \<Rightarrow> string option \<Rightarrow> string list" where
  "password_issues x policy password email =
     (let candidate = nfkc x password; folded = casefold x candidate
      in (if length candidate < min_length policy then [''too_short''] else []) @
         (if length candidate > max_length policy then [''too_long''] else []) @
         (if py_strip candidate = [] then [''blank''] else []) @
         (if folded \<in> set (common_passwords policy) then [''common''] else []) @
         (case email of
            None \<Rightarrow> []
          | Some m \<Rightarrow> if m \<noteq> [] \<and> contains_email folded (casefold x m)
                      then [''contains_email''] else []))"

definition password_validate ::
    "ext \<Rightarrow> password_policy \<Rightarrow> string \<Rightarrow> string option \<Rightarrow> domain_error + unit" where
  "password_validate x policy password email =
     (let issues = password_issues x policy password email
      in if issues = [] then Inr () else Inl (WeakPassword issues))"

definition hash_password :: "ext \<Rightarrow> string \<Rightarrow> string" where
  "hash_password x password = hasher_hash x (nfkc x password)"

definition verify_password :: "ext \<Rightarrow> string \<Rightarrow> string \<Rightarrow> bool" where
  "verify_password x password_hash password = hasher_verify x password_hash (nfkc x password)"

section \<open>Registration and email verification\<close>

record settings =
  refresh_ttl :: int
  reuse_grace :: int
  verification_ttl :: int
  resend_cooldown :: int
  reset_ttl :: int
  reset_cooldown :: int
  policy :: password_policy

definition issue_verification ::
    "ext \<Rightarrow> settings \<Rightarrow> env \<Rightarrow> user \<Rightarrow> db \<Rightarrow> domain_error + (mail option \<times> db)" where
  "issue_verification x st e user d =
     (let tokens = email_verification_tokens d;
          latest = tokens_latest_outstanding_created_at (u_id user) tokens
      in if (case latest of None \<Rightarrow> False | Some l \<Rightarrow> now e - l < resend_cooldown st)
         then Inr (None, d)
         else let token = new_secret e in
           rbind (tokens_add e (u_id user) (hash_token x token) (now e + verification_ttl st) (now e)
                    (tokens_revoke_outstanding (u_id user) (now e) tokens)) (\<lambda>tokens.
           Inr (Some (SendEmailVerification (u_email user) (u_name user) token),
                d\<lparr>email_verification_tokens := tokens\<rparr>)))"

definition email_for_existing_account ::
    "ext \<Rightarrow> settings \<Rightarrow> env \<Rightarrow> user option \<Rightarrow> db \<Rightarrow> domain_error + (mail option \<times> db)" where
  "email_for_existing_account x st e existing d =
     (case existing of
        None \<Rightarrow> Inr (None, d)
      | Some u \<Rightarrow>
          if \<not> can_sign_in u then Inr (None, d)
          else if is_email_verified u then Inr (Some (SendAccountExists (u_email u) (u_name u)), d)
          else issue_verification x st e u d)"

definition register ::
    "ext \<Rightarrow> settings \<Rightarrow> env \<Rightarrow> string \<Rightarrow> string \<Rightarrow> string \<Rightarrow> db \<Rightarrow>
     (domain_error + (user option \<times> mail option)) \<times> db" where
  "register x st e email password name d =
     (case rbind (normalize_email x email) (\<lambda>normalized_email.
           rbind (normalize_name name) (\<lambda>clean_name.
           rbind (password_validate x (policy st) password (Some normalized_email)) (\<lambda>_.
           Inr (normalized_email, clean_name)))) of
        Inl err \<Rightarrow> (Inl err, d)
      | Inr (normalized_email, clean_name) \<Rightarrow>
          let password_hash = hash_password x password in
          transaction (\<lambda>d.
            case users_add e normalized_email clean_name password_hash d of
              Inr (created, d) \<Rightarrow>
                rbind (audit_record e
                  (AuditEvent USER_REGISTERED (Some (u_id created)) None (Some ''user'')
                     (Some (u_id created)) []) d) (\<lambda>d.
                rbind (issue_verification x st e created d) (\<lambda>(outgoing, d).
                Inr ((Some created, outgoing), d)))
            | Inl err \<Rightarrow>
                if err = EmailAlreadyRegistered then
                  rbind (email_for_existing_account x st e (users_get_by_email normalized_email d) d)
                    (\<lambda>(outgoing, d). Inr ((None, outgoing), d))
                else Inl err) d)"

definition resend_verification ::
    "ext \<Rightarrow> settings \<Rightarrow> env \<Rightarrow> string \<Rightarrow> db \<Rightarrow> (domain_error + mail option) \<times> db" where
  "resend_verification x st e email d =
     (case normalize_email x email of
        Inl _ \<Rightarrow> (Inr None, d)
      | Inr normalized_email \<Rightarrow> transaction (\<lambda>d.
          case users_get_by_email normalized_email d of
            None \<Rightarrow> Inr (None, d)
          | Some u \<Rightarrow> if \<not> can_sign_in u \<or> is_email_verified u then Inr (None, d)
                      else issue_verification x st e u d) d)"

text \<open>
  The checks both emailed links share: \<open>redeem\<close> finds the token row and the account behind an
  unspent, unexpired token of an account that may sign in.
\<close>

definition redeem ::
    "ext \<Rightarrow> env \<Rightarrow> string \<Rightarrow> single_use_token list \<Rightarrow> db \<Rightarrow> domain_error + (single_use_token \<times> user)" where
  "redeem x e token ts d =
     rbind (require_some (tokens_get_by_hash (hash_token x token) ts) InvalidToken) (\<lambda>stored.
     rbind (ensure (\<not> is_spent stored) InvalidToken) (\<lambda>_.
     rbind (ensure (\<not> t_expires_at stored \<le> now e) TokenExpired) (\<lambda>_.
     rbind (require_some (users_get (t_user_id stored) d) InvalidToken) (\<lambda>user.
     rbind (ensure (can_sign_in user) InvalidToken) (\<lambda>_.
     Inr (stored, user))))))"

definition verify_email :: "ext \<Rightarrow> env \<Rightarrow> string \<Rightarrow> db \<Rightarrow> (domain_error + unit) \<times> db" where
  "verify_email x e token d =
     (if token = [] \<or> length token > MAX_TOKEN_LENGTH then (Inl InvalidToken, d)
      else transaction (\<lambda>d.
        rbind (redeem x e token (email_verification_tokens d) d) (\<lambda>(stored, user).
        let d = d\<lparr>email_verification_tokens :=
              tokens_revoke_outstanding (u_id user) (now e)
                (tokens_mark_consumed (t_id stored) (now e) (email_verification_tokens d))\<rparr>
        in if is_email_verified user then Inr ((), d)
           else rbind (audit_record e
                  (AuditEvent USER_EMAIL_VERIFIED (Some (u_id user)) None (Some ''user'')
                     (Some (u_id user)) [])
                  (users_mark_email_verified e (u_id user) (now e) d)) (\<lambda>d.
                Inr ((), d)))) d)"

section \<open>Sign-in and sessions\<close>

record signed_in =
  si_user :: user
  si_session :: session
  si_refresh_token :: string

definition login ::
    "ext \<Rightarrow> settings \<Rightarrow> env \<Rightarrow> string \<Rightarrow> string \<Rightarrow> db \<Rightarrow> (domain_error + signed_in) \<times> db" where
  "login x st e email password d =
     (let normalized_email = (case normalize_email x email of Inl _ \<Rightarrow> None | Inr m \<Rightarrow> Some m)
      in raise_after (transaction (\<lambda>d.
        let user = (case normalized_email of
                      None \<Rightarrow> None
                    | Some m \<Rightarrow> if m = [] then None else users_get_by_email m d);
            password_hash = (case user of None \<Rightarrow> hasher_dummy_hash x | Some u \<Rightarrow> u_password_hash u);
            matches = verify_password x password_hash password
        in case user of
             None \<Rightarrow> Inr (Inl InvalidCredentials, d)
           | Some u \<Rightarrow>
               if \<not> matches \<or> \<not> can_sign_in u then
                 rbind (audit_record e
                   (AuditEvent USER_LOGIN_FAILED None None (Some ''user'') (Some (u_id u))
                      [(''reason'', MText (if \<not> matches then ''wrong_password''
                                           else ''account_disabled''))]) d) (\<lambda>d.
                 Inr (Inl (if \<not> matches then InvalidCredentials else AccountDisabled), d))
               else
                 let d = (if hasher_needs_rehash x (u_password_hash u)
                          then users_update_password_hash e (u_id u) (hash_password x password) d
                          else d);
                     secret = new_secret e
                 in rbind (sessions_add e (u_id u) (hash_token x secret) (now e + refresh_ttl st) (now e)
                      (case client_user_agent e of
                         None \<Rightarrow> None
                       | Some ua \<Rightarrow> if ua = [] then None else Some (take MAX_USER_AGENT_LENGTH ua))
                      (client_ip_address e) d) (\<lambda>(session, d).
                    rbind (audit_record e
                      (AuditEvent USER_LOGIN (Some (u_id u)) None (Some ''session'')
                         (Some (s_id session)) []) d) (\<lambda>d.
                    Inr (Inr \<lparr>si_user = u, si_session = session,
                              si_refresh_token = format_refresh_token (s_id session) secret\<rparr>, d)))) d))"

definition refresh ::
    "ext \<Rightarrow> settings \<Rightarrow> env \<Rightarrow> string \<Rightarrow> db \<Rightarrow> (domain_error + signed_in) \<times> db" where
  "refresh x st e refresh_token d =
     (case parse_refresh_token refresh_token of
        None \<Rightarrow> (Inl InvalidRefreshToken, d)
      | Some (session_id, secret) \<Rightarrow>
          let presented = hash_token x secret in
          raise_after (transaction (\<lambda>d.
            rbind (require_some (sessions_get session_id d) InvalidRefreshToken) (\<lambda>session.
            rbind (ensure (s_revoked_at session = None) InvalidRefreshToken) (\<lambda>_.
            rbind (ensure (\<not> now e \<ge> s_expires_at session) SessionExpired) (\<lambda>_.
            if presented = s_refresh_token_hash session then
              rbind (require_some (users_get (s_user_id session) d) InvalidRefreshToken) (\<lambda>user.
              rbind (ensure (can_sign_in user) InvalidRefreshToken) (\<lambda>_.
              let new = new_secret e;
                  d = sessions_rotate (s_id session) (hash_token x new) presented (now e) d in
              rbind (require_some (sessions_get (s_id session) d) AssertionError) (\<lambda>rotated.
              Inr (Inr \<lparr>si_user = user, si_session = rotated,
                        si_refresh_token = format_refresh_token (s_id session) new\<rparr>, d))))
            else
              rbind (ensure (s_previous_refresh_token_hash session = Some presented)
                       InvalidRefreshToken) (\<lambda>_.
              rbind (ensure (\<not> (case s_refreshed_at session of
                                   None \<Rightarrow> False
                                 | Some r \<Rightarrow> now e - r \<le> reuse_grace st)) RefreshConflict) (\<lambda>_.
              rbind (audit_record e
                (AuditEvent SESSION_REVOKED None None (Some ''session'') (Some (s_id session))
                   [(''reason'', MText ''token_reuse''),
                    (''userId'', MText (uuid_str (s_user_id session)))])
                (sessions_revoke (s_id session) TOKEN_REUSE (now e) d)) (\<lambda>d.
              Inr (Inl InvalidRefreshToken, d)))))))) d))"

definition logout ::
    "ext \<Rightarrow> env \<Rightarrow> string option \<Rightarrow> db \<Rightarrow> (domain_error + unit) \<times> db" where
  "logout x e refresh_token d =
     (case (case refresh_token of
              None \<Rightarrow> None
            | Some t \<Rightarrow> if t = [] then None else parse_refresh_token t) of
        None \<Rightarrow> (Inr (), d)
      | Some (session_id, secret) \<Rightarrow>
          let presented = hash_token x secret in
          transaction (\<lambda>d.
            case sessions_get session_id d of
              None \<Rightarrow> Inr ((), d)
            | Some session \<Rightarrow>
                if s_revoked_at session \<noteq> None then Inr ((), d)
                else if presented = s_refresh_token_hash session \<or>
                        s_previous_refresh_token_hash session = Some presented
                then rbind (audit_record e
                       (AuditEvent USER_LOGOUT (Some (s_user_id session)) None (Some ''session'')
                          (Some (s_id session)) [])
                       (sessions_revoke (s_id session) LOGOUT (now e) d)) (\<lambda>d.
                     Inr ((), d))
                else Inr ((), d)) d)"

definition MAX_LISTED_SESSIONS :: nat where
  "MAX_LISTED_SESSIONS = 100"

definition list_sessions :: "env \<Rightarrow> uuid \<Rightarrow> db \<Rightarrow> session list" where
  "list_sessions e user_id d = sessions_list_active user_id (now e) MAX_LISTED_SESSIONS d"

definition revoke_session :: "env \<Rightarrow> uuid \<Rightarrow> uuid \<Rightarrow> db \<Rightarrow> (domain_error + unit) \<times> db" where
  "revoke_session e user_id session_id = transaction (\<lambda>d.
     let (revoked, d) = sessions_revoke_owned session_id user_id USER_REVOKED (now e) d in
     rbind (ensure revoked SessionNotFound) (\<lambda>_.
     rbind (audit_record e
       (AuditEvent SESSION_REVOKED (Some user_id) None (Some ''session'') (Some session_id)
          [(''reason'', MText ''user_revoked'')]) d) (\<lambda>d.
     Inr ((), d))))"

definition authenticate :: "env \<Rightarrow> uuid \<Rightarrow> uuid \<Rightarrow> db \<Rightarrow> domain_error + (user \<times> session)" where
  "authenticate e session_id user_id d =
     rbind (require_some (sessions_get session_id d) SessionRevoked) (\<lambda>session.
     rbind (ensure (s_user_id session = user_id \<and> is_active session (now e)) SessionRevoked) (\<lambda>_.
     rbind (require_some (users_get user_id d) SessionRevoked) (\<lambda>user.
     rbind (ensure (can_sign_in user) SessionRevoked) (\<lambda>_.
     Inr (user, session)))))"

section \<open>Passwords\<close>

definition request_reset ::
    "ext \<Rightarrow> settings \<Rightarrow> env \<Rightarrow> string \<Rightarrow> db \<Rightarrow> (domain_error + mail option) \<times> db" where
  "request_reset x st e email d =
     (case normalize_email x email of
        Inl _ \<Rightarrow> (Inr None, d)
      | Inr normalized_email \<Rightarrow> transaction (\<lambda>d.
          case users_get_by_email normalized_email d of
            None \<Rightarrow> Inr (None, d)
          | Some user \<Rightarrow>
              if \<not> can_sign_in user then Inr (None, d)
              else if (case tokens_latest_outstanding_created_at (u_id user) (password_reset_tokens d) of
                         None \<Rightarrow> False
                       | Some l \<Rightarrow> now e - l < reset_cooldown st)
              then Inr (None, d)
              else let token = new_secret e in
                rbind (tokens_add e (u_id user) (hash_token x token) (now e + reset_ttl st) (now e)
                         (tokens_revoke_outstanding (u_id user) (now e) (password_reset_tokens d))) (\<lambda>ts.
                Inr (Some (SendPasswordReset (u_email user) (u_name user) token),
                     d\<lparr>password_reset_tokens := ts\<rparr>))) d)"

definition reset_password ::
    "ext \<Rightarrow> settings \<Rightarrow> env \<Rightarrow> string \<Rightarrow> string \<Rightarrow> db \<Rightarrow> (domain_error + mail) \<times> db" where
  "reset_password x st e token new_password d =
     (if token = [] \<or> length token > MAX_TOKEN_LENGTH then (Inl InvalidToken, d)
      else transaction (\<lambda>d.
        rbind (redeem x e token (password_reset_tokens d) d) (\<lambda>(stored, user).
        rbind (password_validate x (policy st) new_password (Some (u_email user))) (\<lambda>_.
        let d = users_update_password_hash e (u_id user) (hash_password x new_password) d;
            d = d\<lparr>password_reset_tokens :=
                  tokens_revoke_outstanding (u_id user) (now e)
                    (tokens_mark_consumed (t_id stored) (now e) (password_reset_tokens d))\<rparr>;
            (revoked, d) = sessions_revoke_all_for_user (u_id user) PASSWORD_RESET (now e) None d in
        rbind (audit_record e
          (AuditEvent USER_PASSWORD_RESET (Some (u_id user)) None (Some ''user'') (Some (u_id user))
             [(''sessionsRevoked'', MInt (int revoked))]) d) (\<lambda>d.
        let d = (if is_email_verified user then d
                 else users_mark_email_verified e (u_id user) (now e) d)
        in Inr (SendPasswordChanged (u_email user) (u_name user), d))))) d)"

definition change_password ::
    "ext \<Rightarrow> settings \<Rightarrow> env \<Rightarrow> uuid \<Rightarrow> uuid \<Rightarrow> string \<Rightarrow> string \<Rightarrow> db \<Rightarrow> (domain_error + mail) \<times> db" where
  "change_password x st e user_id current_session_id current_password new_password =
     transaction (\<lambda>d.
        rbind (require_some (users_get user_id d) IncorrectPassword) (\<lambda>user.
        rbind (ensure (can_sign_in user) IncorrectPassword) (\<lambda>_.
        rbind (ensure (verify_password x (u_password_hash user) current_password)
                 IncorrectPassword) (\<lambda>_.
        rbind (password_validate x (policy st) new_password (Some (u_email user))) (\<lambda>_.
        let d = users_update_password_hash e (u_id user) (hash_password x new_password) d;
            d = d\<lparr>password_reset_tokens :=
                  tokens_revoke_outstanding (u_id user) (now e) (password_reset_tokens d)\<rparr>;
            (revoked, d) = sessions_revoke_all_for_user (u_id user) PASSWORD_CHANGED (now e)
                             (Some current_session_id) d in
        rbind (audit_record e
          (AuditEvent USER_PASSWORD_CHANGED (Some (u_id user)) None (Some ''user'') (Some (u_id user))
             [(''sessionsRevoked'', MInt (int revoked))]) d) (\<lambda>d.
        Inr (SendPasswordChanged (u_email user) (u_name user), d)))))))"

section \<open>Account deletion\<close>

definition delete_account ::
    "ext \<Rightarrow> env \<Rightarrow> uuid \<Rightarrow> string \<Rightarrow> db \<Rightarrow> (domain_error + unit) \<times> db" where
  "delete_account x e user_id password = transaction (\<lambda>d.
     rbind (require_some (users_get user_id d) SessionRevoked) (\<lambda>user.
     rbind (ensure (can_sign_in user) SessionRevoked) (\<lambda>_.
     rbind (ensure (verify_password x (u_password_hash user) password) IncorrectPassword) (\<lambda>_.
     rbind (release_memberships e (u_id user) (now e) d) (\<lambda>d.
     rbind (users_soft_delete e (u_id user) (tombstone_email (u_id user)) DELETED_USER_NAME
              UNUSABLE_PASSWORD_HASH (now e) d) (\<lambda>d.
     let d = snd (sessions_revoke_all_for_user (u_id user) ACCOUNT_DELETED (now e) None d);
         d = d\<lparr>email_verification_tokens :=
               tokens_revoke_outstanding (u_id user) (now e) (email_verification_tokens d),
               password_reset_tokens :=
               tokens_revoke_outstanding (u_id user) (now e) (password_reset_tokens d)\<rparr> in
     rbind (audit_record e
       (AuditEvent USER_DELETED (Some (u_id user)) None (Some ''user'') (Some (u_id user)) []) d) (\<lambda>d.
     Inr ((), d))))))))"

end
