(* ===== verification/Membership_Props.thy ===== *)
theory Membership_Props
  imports Membership
begin

text \<open>
  What the organization services keep true of the database: the constraints of the organization,
  membership and invitation tables, an audit trail without secrets, and at least one owner in
  every live organization.  Each service method keeps it, so every history of calls does; what an
  interleaving of two account deletions does to it is shown at the end.
\<close>

section \<open>The invariant\<close>

definition owners_kept :: "db \<Rightarrow> bool" where
  "owners_kept d \<longleftrightarrow> (\<forall>x \<in> set (organizations d).
     o_deleted_at x = None \<longrightarrow> 0 < memberships_count_owners (o_id x) d)"

definition tenancy_inv :: "db \<Rightarrow> bool" where
  "tenancy_inv d \<longleftrightarrow> organizations_ok d \<and> memberships_ok d \<and> invitations_ok d \<and> audit_ok d \<and>
     owners_kept d"

lemmas tenancy_defs = tenancy_inv_def organizations_ok_def memberships_ok_def invitations_ok_def
  owners_kept_def memberships_count_owners_def

lemma tenancy_inv_cong:
  assumes "organizations d' = organizations d" "memberships d' = memberships d"
    "invitations d' = invitations d" "audit_ok d \<Longrightarrow> audit_ok d'"
  shows "tenancy_inv d \<Longrightarrow> tenancy_inv d'"
  using assms by (auto simp: tenancy_defs)

lemma audit_tenancy:
  "audit_record e (AuditEvent a ac org rt ri meta) d = Inr d' \<Longrightarrow> tenancy_inv d \<Longrightarrow> tenancy_inv d'"
  by (rule tenancy_inv_cong) (auto dest: audit_record_Inr)

section \<open>Organizations\<close>

lemma soft_delete_tenancy:
  assumes "tenancy_inv d"
  shows "tenancy_inv (organizations_soft_delete e org at d)"
proof -
  let ?d = "organizations_soft_delete e org at d"
  have "organizations_ok ?d"
    using assms by (auto simp: tenancy_defs organizations_soft_delete_def
        intro!: unique_on_update_where)
  moreover have "owners_kept ?d"
    using assms by (auto simp: tenancy_defs organizations_soft_delete_def set_update_where
        split: if_splits)
  ultimately show ?thesis
    using assms by (auto simp: tenancy_inv_def memberships_ok_def invitations_ok_def audit_ok_def
        organizations_soft_delete_def)
qed

lemma rename_tenancy:
  assumes "organizations_rename e org name d = Inr (x, d')" and "tenancy_inv d"
  shows "tenancy_inv d'"
proof -
  have d': "d' = d\<lparr>organizations := update_where (organization_live org)
      (\<lambda>x. x\<lparr>o_name := name, o_updated_at := db_now e\<rparr>) (organizations d)\<rparr>"
    using assms(1) by (auto simp: organizations_rename_def split: option.splits)
  have "organizations_ok d'"
    using assms(2) by (auto simp: tenancy_defs d' intro!: unique_on_update_where)
  moreover have "owners_kept d'"
    using assms(2) by (auto simp: tenancy_defs d' set_update_where split: if_splits)
  ultimately show ?thesis
    using assms(2) by (auto simp: tenancy_inv_def memberships_ok_def invitations_ok_def audit_ok_def d')
qed

lemma create_tenancy:
  assumes "organizations_add e name d = Inr (x, d1)"
    and "memberships_add e (o_id x) user_id OWNER d1 = Inr (m, d2)"
    and inv: "tenancy_inv d"
  shows "tenancy_inv d2"
proof -
  from assms(1) have o: "o_id x = new_id e" "\<forall>y \<in> set (organizations d). o_id y \<noteq> new_id e"
    and d1: "d1 = d\<lparr>organizations := organizations d @ [x]\<rparr>"
    by (auto simp: organizations_add_def Let_def split: if_splits)
  from assms(2) have m: "m_id m = new_id2 e" "m_organization_id m = o_id x" "m_user_id m = user_id"
      "m_role m = OWNER"
      "\<forall>y \<in> set (memberships d). m_id y \<noteq> new_id2 e \<and> \<not> member_of (o_id x) user_id y"
    and d2: "d2 = d1\<lparr>memberships := memberships d @ [m]\<rparr>"
    by (auto simp: memberships_add_def Let_def d1 split: if_splits)
  have "organizations_ok d2"
    using inv o by (auto simp: tenancy_defs d1 d2 unique_on_append)
  moreover have "memberships_ok d2"
    using inv m by (fastforce simp: tenancy_defs d1 d2 unique_on_append member_of_def)
  moreover have "owners_kept d2"
    using inv m by (fastforce simp: tenancy_defs d1 d2 count_where_pos is_owner_of_def)
  ultimately show ?thesis
    using inv by (auto simp: tenancy_inv_def invitations_ok_def audit_ok_def d1 d2)
qed

interpretation tenancy: audited tenancy_inv
  by unfold_locales (rule audit_tenancy)

lemma org_create_tenancy:
  assumes inv: "tenancy_inv d"
  shows "tenancy_inv (snd (org_create e user name d))"
proof (cases "normalize_organization_name name")
  case (Inl err)
  then show ?thesis using inv by (simp add: org_create_def)
next
  case (Inr clean)
  show ?thesis
  proof (cases "is_email_verified user")
    case True
    have "tenancy_inv (snd (transaction (\<lambda>d.
          rbind (organizations_add e clean d) (\<lambda>(x, d).
          rbind (memberships_add e (o_id x) (u_id user) OWNER d) (\<lambda>(m, d).
          rbind (audit_record e
            (AuditEvent ORGANIZATION_CREATED (Some (u_id user)) (Some (o_id x))
               (Some ''organization'') (Some (o_id x)) [(''name'', MText (o_name x))]) d) (\<lambda>d.
          Inr ((x, m), d))))) d))"
      by (rule tenancy.in_transaction[OF inv], (rule tenancy.then_audit on_return_bind2I)+)
        (auto intro: create_tenancy[OF _ _ inv])
    with Inr True show ?thesis by (simp add: org_create_def)
  qed (use inv in \<open>simp add: org_create_def\<close>)
qed

lemma org_rename_tenancy:
  assumes inv: "tenancy_inv d"
  shows "tenancy_inv (snd (org_rename e m name d))"
proof (cases "\<exists>u clean. require m ORGANIZATION_UPDATE = Inr u \<and> normalize_organization_name name = Inr clean")
  case True
  then show ?thesis
    unfolding org_rename_def
    by (elim exE conjE) (simp only: sum.case, rule tenancy.in_transaction[OF inv],
        (rule tenancy.then_audit on_return_bind2I)+, auto intro: rename_tenancy[OF _ inv])
next
  case False
  then show ?thesis using inv by (auto simp: org_rename_def split: sum.splits)
qed

lemma org_delete_tenancy:
  assumes inv: "tenancy_inv d"
  shows "tenancy_inv (snd (org_delete e m d))"
proof (cases "require m ORGANIZATION_DELETE")
  case (Inr u)
  then show ?thesis
    unfolding org_delete_def
    by (simp only: sum.case, intro tenancy.in_transaction[OF inv] tenancy.then_audit
          soft_delete_tenancy inv) simp
qed (use inv in \<open>simp add: org_delete_def\<close>)

section \<open>Members\<close>

lemma lock_and_load_Inr:
  assumes "lock_and_load org actor_user_id member_id d = Inr (actor, target)"
  shows "actor \<in> set (memberships d)" "m_organization_id actor = org" "m_user_id actor = actor_user_id"
    "target \<in> set (memberships d)" "m_organization_id target = org" "m_id target = member_id"
    "organizations_lock_active org d"
  using assms
  by (auto simp: lock_and_load_def outcome_simps memberships_get_for_user_def memberships_get_def
      member_of_def dest!: find_Some_mem)

lemma update_role_owners:
  assumes inv: "tenancy_inv d" and t: "t \<in> set (memberships d)"
    and keep: "m_role t = OWNER \<and> role \<noteq> OWNER \<Longrightarrow>
      1 < memberships_count_owners (m_organization_id t) d"
    and upd: "memberships_update_role (m_id t) role d = Inr (t', d')"
  shows "tenancy_inv d'"
proof -
  let ?f = "\<lambda>m. m\<lparr>m_role := role\<rparr>"
  have d': "d' = d\<lparr>memberships := update_where (\<lambda>m. m_id m = m_id t) ?f (memberships d)\<rparr>"
    using upd by (auto simp: memberships_update_role_def split: option.splits)
  have u: "unique_on (\<lambda>_. True) m_id (memberships d)"
    using inv by (simp add: tenancy_defs)
  have cnt: "memberships_count_owners org d' + (if is_owner_of org t then 1 else 0) =
      memberships_count_owners org d + (if is_owner_of org (?f t) then 1 else 0)" for org
    using count_update_unique[OF u t, of "is_owner_of org" ?f]
    by (simp add: memberships_count_owners_def d')
  have "0 < memberships_count_owners org d'" if "0 < memberships_count_owners org d" for org
  proof (cases "is_owner_of org t \<and> role \<noteq> OWNER")
    case True
    then have "1 < memberships_count_owners org d" using keep by (auto simp: is_owner_of_def)
    with cnt[of org] show ?thesis by (simp split: if_splits)
  next
    case False
    with cnt[of org] that show ?thesis by (auto simp: is_owner_of_def split: if_splits)
  qed
  then have "owners_kept d'"
    using inv by (simp add: tenancy_inv_def owners_kept_def d')
  moreover have "memberships_ok d'"
    using inv by (auto simp: tenancy_defs d' intro!: unique_on_update_where)
  ultimately show ?thesis
    using inv by (auto simp: tenancy_inv_def organizations_ok_def invitations_ok_def audit_ok_def d')
qed

lemma delete_member_owners:
  assumes inv: "tenancy_inv d" and t: "t \<in> set (memberships d)"
    and keep: "m_role t = OWNER \<Longrightarrow> 1 < memberships_count_owners (m_organization_id t) d"
  shows "tenancy_inv (memberships_delete (m_id t) d)"
proof -
  let ?d = "memberships_delete (m_id t) d"
  have u: "unique_on (\<lambda>_. True) m_id (memberships d)"
    using inv by (simp add: tenancy_defs)
  have cnt: "memberships_count_owners org ?d + (if is_owner_of org t then 1 else 0) =
      memberships_count_owners org d" for org
    using count_delete_unique[OF u t, of "is_owner_of org"]
    by (simp add: memberships_count_owners_def memberships_delete_def)
  have "0 < memberships_count_owners org ?d" if "0 < memberships_count_owners org d" for org
    using cnt[of org] that keep by (auto simp: is_owner_of_def split: if_splits)
  then have "owners_kept ?d"
    using inv by (simp add: tenancy_inv_def owners_kept_def memberships_delete_def)
  moreover have "memberships_ok ?d"
    using inv by (auto simp: tenancy_defs memberships_delete_def intro!: unique_on_delete_where)
  ultimately show ?thesis
    using inv by (auto simp: tenancy_inv_def organizations_ok_def invitations_ok_def audit_ok_def
        memberships_delete_def)
qed

lemma change_role_tenancy:
  assumes inv: "tenancy_inv d"
  shows "tenancy_inv (snd (change_role e org actor member role d))"
  unfolding change_role_def
proof (rule tenancy.in_transaction[OF inv], simp only: on_return_simps case_prod_unfold,
    intro on_returnI conjI impI)
  fix p u
  assume l: "lock_and_load org actor member d = Inr p"
    and c: "check_role_change (m_role (fst p)) (m_role (snd p)) role (m_id (fst p) = m_id (snd p))
      (memberships_count_owners org d) = Inr u"
  from l have l': "lock_and_load org actor member d = Inr (fst p, snd p)" by simp
  note t = lock_and_load_Inr[OF l']
  have keep: "m_role (snd p) = OWNER \<and> role \<noteq> OWNER \<Longrightarrow>
      1 < memberships_count_owners (m_organization_id (snd p)) d"
    using c t by (auto simp: check_role_change_def split: if_splits)
  show "tenancy_inv (snd (snd p, d))" using inv by simp
  fix q d'
  assume "memberships_update_role (m_id (snd p)) role d = Inr q"
  then have "tenancy_inv (snd q)"
    using update_role_owners[OF inv t(4), of role "fst q" "snd q"] keep by simp
  moreover assume "audit_record e
     (AuditEvent MEMBER_ROLE_CHANGED (Some actor) (Some org) (Some ''member'') (Some (m_id (snd p)))
        [(''userId'', MText (uuid_str (m_user_id (snd p)))),
         (''from'', MText (role_value (m_role (snd p)))),
         (''to'', MText (role_value role))]) (snd q) = Inr d'"
  ultimately show "tenancy_inv (snd (fst q, d'))" by (simp add: audit_tenancy)
qed

lemma remove_member_tenancy:
  assumes inv: "tenancy_inv d"
  shows "tenancy_inv (snd (remove_member e org actor member d))"
  unfolding remove_member_def
proof (rule tenancy.in_transaction[OF inv], simp only: on_return_simps case_prod_unfold,
    intro on_returnI conjI impI)
  fix p u d'
  assume l: "lock_and_load org actor member d = Inr p"
    and c: "check_removal (m_role (fst p)) (m_role (snd p)) (m_id (fst p) = m_id (snd p))
      (memberships_count_owners org d) = Inr u"
  from l have l': "lock_and_load org actor member d = Inr (fst p, snd p)" by simp
  note t = lock_and_load_Inr[OF l']
  have "m_role (snd p) = OWNER \<Longrightarrow> 1 < memberships_count_owners (m_organization_id (snd p)) d"
    using c t by (auto simp: check_removal_def split: if_splits)
  then have "tenancy_inv (memberships_delete (m_id (snd p)) d)"
    by (rule delete_member_owners[OF inv t(4)])
  moreover assume "audit_record e
     (AuditEvent MEMBER_REMOVED (Some actor) (Some org) (Some ''member'') (Some (m_id (snd p)))
        [(''userId'', MText (uuid_str (m_user_id (snd p)))),
         (''role'', MText (role_value (m_role (snd p)))),
         (''left'', MBool (m_id (fst p) = m_id (snd p)))])
     (memberships_delete (m_id (snd p)) d) = Inr d'"
  ultimately show "tenancy_inv (snd ((), d'))" by (simp add: audit_tenancy)
qed

section \<open>Invitations\<close>

lemma tenancy_invitations:
  "tenancy_inv d \<Longrightarrow> invitations_ok (d\<lparr>invitations := is\<rparr>) \<Longrightarrow> tenancy_inv (d\<lparr>invitations := is\<rparr>)"
  by (auto simp: tenancy_inv_def organizations_ok_def memberships_ok_def audit_ok_def owners_kept_def
      memberships_count_owners_def)

lemma revoke_pending_tenancy:
  assumes "tenancy_inv d"
  shows "tenancy_inv (d\<lparr>invitations := update_where (\<lambda>x. p x \<and> is_pending x)
      (\<lambda>x. x\<lparr>i_revoked_at := Some at\<rparr>) (invitations d)\<rparr>)" (is "tenancy_inv ?d")
proof -
  have "\<forall>i \<in> set (update_where (\<lambda>x. p x \<and> is_pending x) (\<lambda>x. x\<lparr>i_revoked_at := Some at\<rparr>)
      (invitations d)). invitation_row_ok i"
    using assms
    by (intro ball_update_where) (auto simp: tenancy_inv_def invitations_ok_def invitation_row_ok_def
        is_pending_def)
  then have "invitations_ok ?d"
    using assms by (simp add: tenancy_inv_def invitations_ok_def is_pending_def unique_on_update_where)
  with assms show ?thesis by (rule tenancy_invitations)
qed

lemma add_invitation_tenancy:
  assumes add: "invitations_add e org email role h by expires at d = Inr (i, d')" and inv: "tenancy_inv d"
  shows "tenancy_inv d'"
proof -
  have new: "\<not> (\<exists>x \<in> set (invitations d). i_id x = new_id e \<or> i_token_hash x = h \<or>
         (is_pending x \<and> i_organization_id x = org \<and> py_lower (i_email x) = py_lower email))"
    using add unfolding invitations_add_def Let_def by (rule contrapos_pn) simp
  have i: "i_id i = new_id e" "i_token_hash i = h" "i_organization_id i = org"
      "i_email i = email" "invitation_row_ok i" and d': "d' = d\<lparr>invitations := invitations d @ [i]\<rparr>"
    using add unfolding invitations_add_def Let_def if_not_P[OF new] by (auto simp: invitation_row_ok_def)
  note ok = inv[unfolded tenancy_inv_def invitations_ok_def]
  have "unique_on (\<lambda>_. True) i_id (invitations d @ [i])"
    using ok new i(1,2) by (auto simp: unique_on_append)
  moreover have "unique_on (\<lambda>_. True) i_token_hash (invitations d @ [i])"
    using ok new i(1,2) by (auto simp: unique_on_append)
  moreover have "unique_on is_pending (\<lambda>i. (i_organization_id i, py_lower (i_email i))) (invitations d @ [i])"
    using ok new i(3,4) by (auto simp: unique_on_append)
  ultimately have "invitations_ok d'"
    using ok i(5) by (simp add: invitations_ok_def d')
  then show ?thesis using tenancy_invitations[OF inv] by (simp add: d')
qed

lemma add_member_tenancy:
  assumes add: "memberships_add e org user role d = Inr (m, d')" and inv: "tenancy_inv d"
  shows "tenancy_inv d'"
proof -
  from add have m: "m_id m = new_id2 e" "m_organization_id m = org" "m_user_id m = user"
      "\<forall>y \<in> set (memberships d). m_id y \<noteq> new_id2 e \<and> \<not> member_of org user y"
    and d': "d' = d\<lparr>memberships := memberships d @ [m]\<rparr>"
    by (auto simp: memberships_add_def Let_def split: if_splits)
  have "memberships_ok d'"
    using inv m by (fastforce simp: tenancy_inv_def memberships_ok_def d' unique_on_append member_of_def)
  moreover have "owners_kept d'"
    using inv by (fastforce simp: tenancy_inv_def owners_kept_def memberships_count_owners_def
        count_where_pos d')
  ultimately show ?thesis
    using inv by (auto simp: tenancy_inv_def organizations_ok_def invitations_ok_def audit_ok_def d')
qed

lemma mark_accepted_tenancy:
  assumes inv: "tenancy_inv d" and i: "i \<in> set (invitations d)" "is_pending i"
  shows "tenancy_inv (invitations_mark_accepted (i_id i) user at d)"
proof -
  let ?d = "invitations_mark_accepted (i_id i) user at d"
  have u: "unique_on (\<lambda>_. True) i_id (invitations d)"
    using inv by (simp add: tenancy_inv_def invitations_ok_def)
  have only: "x = i" if "x \<in> set (invitations d)" "i_id x = i_id i" for x
    using unique_on_same_key[OF u that(1) i(1) that(2)] .
  have "\<forall>x \<in> set (update_where (\<lambda>x. i_id x = i_id i)
      (\<lambda>x. x\<lparr>i_accepted_at := Some at, i_accepted_by_user_id := Some user\<rparr>) (invitations d)).
      invitation_row_ok x"
    using inv i(2)
    by (intro ball_update_where)
      (auto simp: tenancy_inv_def invitations_ok_def invitation_row_ok_def is_pending_def dest: only)
  then have "invitations_ok ?d"
    using inv by (auto simp: tenancy_inv_def invitations_ok_def invitations_mark_accepted_def
        is_pending_def intro!: unique_on_update_where)
  then show ?thesis
    using tenancy_invitations[OF inv] by (simp add: invitations_mark_accepted_def)
qed

lemma invite_tenancy:
  assumes inv: "tenancy_inv d"
  shows "tenancy_inv (snd (invite x e inviter org email role d))"
proof (cases "normalize_email x email")
  case (Inr addr)
  have "tenancy_inv (invitations_revoke_pending_for_email org addr (now e) d)"
    using revoke_pending_tenancy[OF inv, of "\<lambda>x. i_organization_id x = org \<and> py_lower (i_email x) = addr"]
    by (simp add: invitations_revoke_pending_for_email_def conj_assoc)
  then show ?thesis
    unfolding invite_def Inr sum.case Let_def
    by (intro tenancy.in_transaction[OF inv])
      ((rule tenancy.then_audit on_return_bind2I on_return_bindI)+,
       auto intro: add_invitation_tenancy)
qed (use inv in \<open>simp add: invite_def\<close>)

lemma revoke_invitation_tenancy:
  assumes inv: "tenancy_inv d"
  shows "tenancy_inv (snd (revoke_invitation e org actor i d))"
  unfolding revoke_invitation_def invitations_revoke_def
  by (intro tenancy.in_transaction[OF inv])
    ((rule tenancy.then_audit on_return_bindI)+, auto intro: revoke_pending_tenancy[OF inv])

lemma accept_invitation_tenancy:
  assumes inv: "tenancy_inv d"
  shows "tenancy_inv (snd (accept_invitation x e user token d))"
proof (cases "is_email_verified user \<and> token \<noteq> [] \<and> length token \<le> MAX_TOKEN_LENGTH")
  case True
  have keep: "tenancy_inv (invitations_mark_accepted (i_id i) (u_id user) (now e) d')"
    if "require_some (invitations_get_by_hash h d) InvalidInvitation = Inr i"
      "ensure (is_pending i) InvalidInvitation = Inr u"
      "memberships_add e (i_organization_id i) (u_id user) (i_role i) d = Inr (m, d')" for h i m d' u
  proof (rule mark_accepted_tenancy)
    show "tenancy_inv d'" by (rule add_member_tenancy[OF that(3) inv])
    show "is_pending i" using that(2) by (simp add: outcome_simps)
    show "i \<in> set (invitations d')"
      using that(1,3) by (auto simp: outcome_simps invitations_get_by_hash_def memberships_add_def Let_def
          dest: find_Some_mem split: if_splits)
  qed
  from True show ?thesis
    unfolding accept_invitation_def Let_def
    by (simp only: simp_thms not_le if_True if_False not_less[symmetric], intro tenancy.in_transaction[OF inv])
      ((rule tenancy.then_audit on_return_bind2I on_return_bindI)+, (auto intro: keep)[1],
       (rule on_return_bindI, simp)+)
qed (use inv in \<open>auto simp: accept_invitation_def\<close>)

section \<open>Leaving on account deletion\<close>

lemma delete_solo_organizations:
  assumes "rfold (\<lambda>org d. audit_record e
      (AuditEvent ORGANIZATION_DELETED (Some user) (Some org) (Some ''organization'') (Some org) meta)
      (organizations_soft_delete e org at d)) orgs d = Inr d'"
    and "tenancy_inv d"
  shows "tenancy_inv d' \<and> memberships d' = memberships d \<and>
    (\<forall>x \<in> set (organizations d'). o_deleted_at x = None \<longrightarrow>
       o_id x \<notin> set orgs \<and> x \<in> set (organizations d))"
  using assms
proof (induction orgs arbitrary: d)
  case (Cons org orgs)
  let ?d = "organizations_soft_delete e org at d"
  from Cons.prems(1) obtain d1 where
    r: "audit_record e (AuditEvent ORGANIZATION_DELETED (Some user) (Some org) (Some ''organization'')
        (Some org) meta) ?d = Inr d1"
    and rest: "rfold (\<lambda>org d. audit_record e
      (AuditEvent ORGANIZATION_DELETED (Some user) (Some org) (Some ''organization'') (Some org) meta)
      (organizations_soft_delete e org at d)) orgs d1 = Inr d'"
    by (auto simp: outcome_simps)
  have "tenancy_inv d1" using r Cons.prems(2) by (blast intro: audit_tenancy soft_delete_tenancy)
  note IH = Cons.IH[OF rest this]
  have "o_id x \<noteq> org \<and> x \<in> set (organizations d)"
    if "x \<in> set (organizations d1)" "o_deleted_at x = None" for x
  proof -
    from that(1) obtain y where "y \<in> set (organizations d)"
      "x = (if organization_live org y then y\<lparr>o_deleted_at := Some at, o_updated_at := db_now e\<rparr> else y)"
      using audit_record_Inr(5)[OF r] by (auto simp: organizations_soft_delete_def set_update_where)
    with that(2) show ?thesis by (auto simp: organization_live_def split: if_splits)
  qed
  then show ?case
    using IH audit_record_Inr(6)[OF r] by (auto simp: organizations_soft_delete_def)
qed simp

lemma audit_leaving:
  assumes "rfold (\<lambda>(x, m) d. if o_id x \<in> S then Inr d
      else audit_record e (AuditEvent MEMBER_REMOVED (Some user) (Some (o_id x)) (Some ''member'')
        (Some (m_id m)) (meta m)) d) xs d = Inr d'"
    and "tenancy_inv d"
  shows "tenancy_inv d' \<and> memberships d' = memberships d \<and> organizations d' = organizations d"
  using assms(1)
  by (rule rfold_invariant) (use assms(2) in \<open>auto split: if_splits simp: audit_record_Inr(5,6) intro: audit_tenancy\<close>)

lemma another_owner:
  assumes ok: "memberships_ok d" and two: "1 < memberships_count_owners org d"
  shows "\<exists>m \<in> set (memberships d). is_owner_of org m \<and> m_user_id m \<noteq> user"
proof (rule ccontr)
  let ?ms = "filter (is_owner_of org) (memberships d)"
  assume "\<not> ?thesis"
  then have "\<forall>m \<in> set ?ms. (m_organization_id m, m_user_id m) = (org, user)"
    by (auto simp: is_owner_of_def)
  moreover have "distinct (map (\<lambda>m. (m_organization_id m, m_user_id m)) ?ms)"
    using ok by (auto simp: memberships_ok_def unique_on_def distinct_map intro: inj_on_subset)
  ultimately have "length ?ms \<le> 1"
    by (cases ?ms rule: list.exhaust; cases "tl ?ms") auto
  with two show False by (simp add: memberships_count_owners_def count_where_def)
qed

lemma owner_left_behind:
  assumes inv: "tenancy_inv d"
    and x: "x \<in> set (organizations d)" "o_deleted_at x = None"
    and owned: "\<forall>o' \<in> set (memberships_owned_by user d). oo_organization_id o' = o_id x \<longrightarrow>
      \<not> (oo_owner_count o' = 1 \<and> oo_member_count o' > 1) \<and> oo_member_count o' \<noteq> 1"
  shows "\<exists>m \<in> set (memberships d). is_owner_of (o_id x) m \<and> m_user_id m \<noteq> user"
proof (cases "\<exists>m \<in> set (memberships d). is_owner_of (o_id x) m \<and> m_user_id m = user")
  case True
  let ?members = "count_where (\<lambda>m. m_organization_id m = o_id x) (memberships d)"
  have live: "organizations_get_active (o_id x) d \<noteq> None"
    using x by (auto simp: organizations_get_active_def find_None_iff_set organization_live_def)
  from True obtain m where m: "m \<in> set (memberships d)" "m_organization_id m = o_id x" "m_role m = OWNER"
      "m_user_id m = user" by (auto simp: is_owner_of_def)
  have "\<lparr>oo_organization_id = o_id x, oo_owner_count = memberships_count_owners (o_id x) d,
      oo_member_count = ?members\<rparr> \<in> set (memberships_owned_by user d)"
    using live m by (auto simp: memberships_owned_by_def Let_def image_iff intro!: bexI[of _ m])
  with owned have c: "\<not> (memberships_count_owners (o_id x) d = 1 \<and> ?members > 1)" "?members \<noteq> 1"
    by auto
  have "memberships_count_owners (o_id x) d \<le> ?members"
    unfolding memberships_count_owners_def by (rule count_where_mono) (simp add: is_owner_of_def)
  moreover have "0 < memberships_count_owners (o_id x) d"
    using inv x by (simp add: tenancy_inv_def owners_kept_def)
  ultimately have "1 < memberships_count_owners (o_id x) d" using c by linarith
  then show ?thesis using another_owner inv by (simp add: tenancy_inv_def)
next
  case False
  have "0 < memberships_count_owners (o_id x) d" using inv x by (simp add: tenancy_inv_def owners_kept_def)
  with False show ?thesis by (auto simp: memberships_count_owners_def count_where_pos)
qed

lemma delete_all_for_user_tenancy:
  assumes inv: "tenancy_inv d"
    and left: "\<And>x. x \<in> set (organizations d) \<Longrightarrow> o_deleted_at x = None \<Longrightarrow>
      \<exists>m \<in> set (memberships d). is_owner_of (o_id x) m \<and> m_user_id m \<noteq> user"
  shows "tenancy_inv (memberships_delete_all_for_user user d)"
proof -
  let ?d = "memberships_delete_all_for_user user d"
  have "owners_kept ?d"
    using left by (auto simp: owners_kept_def memberships_count_owners_def count_where_pos
        memberships_delete_all_for_user_def set_delete_where)
  moreover have "memberships_ok ?d"
    using inv by (auto simp: tenancy_defs memberships_delete_all_for_user_def intro!: unique_on_delete_where)
  ultimately show ?thesis
    using inv by (auto simp: tenancy_inv_def organizations_ok_def invitations_ok_def audit_ok_def
        memberships_delete_all_for_user_def)
qed

lemma release_memberships_tenancy:
  assumes r: "release_memberships e user at d = Inr d'" and inv: "tenancy_inv d"
  shows "tenancy_inv d'"
proof -
  let ?owned = "memberships_owned_by user d"
  let ?solo = "map oo_organization_id (filter (\<lambda>o'. oo_member_count o' = 1) ?owned)"
  have nb: "filter (\<lambda>o'. oo_owner_count o' = 1 \<and> oo_member_count o' > 1) ?owned = []"
    using r by (auto simp: release_memberships_def release_decided_def Let_def split: if_splits)
  obtain d1 d2 where
    d1: "rfold (\<lambda>org d. audit_record e
        (AuditEvent ORGANIZATION_DELETED (Some user) (Some org) (Some ''organization'') (Some org)
          [(''reason'', MText ''account_deleted'')])
        (organizations_soft_delete e org at d)) (sort (remdups ?solo)) d = Inr d1"
    and d2: "rfold (\<lambda>(x, m) d. if o_id x \<in> set ?solo then Inr d
        else audit_record e (AuditEvent MEMBER_REMOVED (Some user) (Some (o_id x)) (Some ''member'')
          (Some (m_id m))
          [(''userId'', MText (uuid_str user)), (''role'', MText (role_value (m_role m))),
           (''reason'', MText ''account_deleted'')]) d)
      (memberships_list_for_user user d1) d1 = Inr d2"
    and d': "d' = memberships_delete_all_for_user user d2"
    using r unfolding release_memberships_def release_decided_def Let_def nb simp_thms if_False
    by (auto simp: outcome_simps)
  note k1 = delete_solo_organizations[OF d1 inv]
  note k2 = audit_leaving[OF d2 k1[THEN conjunct1]]
  have "\<exists>m \<in> set (memberships d2). is_owner_of (o_id x) m \<and> m_user_id m \<noteq> user"
    if x: "x \<in> set (organizations d2)" "o_deleted_at x = None" for x
  proof -
    have "x \<in> set (organizations d)" "o_id x \<notin> set ?solo" using x k1 k2 by auto
    then have "\<exists>m \<in> set (memberships d). is_owner_of (o_id x) m \<and> m_user_id m \<noteq> user"
      using nb by (intro owner_left_behind[OF inv _ x(2)]) (auto simp: filter_empty_conv image_iff)
    then show ?thesis using k1 k2 by simp
  qed
  with k2 show ?thesis unfolding d' by (intro delete_all_for_user_tenancy) auto
qed

end
