(* ===== verification/Accounts_Props.thy ===== *)
theory Accounts_Props
  imports Accounts Membership_Props
begin

text \<open>
  What the identity services keep true of the database: the constraints of the user, session and
  token tables, and that the tables only move forward (a deleted account stays deleted, a revoked
  session stays revoked and no session's expiry is ever extended, a spent token stays spent).
  Both hold for every service of the two domains, and so for every history of calls
  (\<open>calls\<close>).
\<close>

section \<open>The invariant and the order\<close>

definition accounts_inv :: "db \<Rightarrow> bool" where
  "accounts_inv d \<longleftrightarrow> users_ok d \<and> sessions_ok d \<and>
     tokens_ok (email_verification_tokens d) \<and> tokens_ok (password_reset_tokens d)"

definition user_le :: "user \<Rightarrow> user \<Rightarrow> bool" where
  "user_le u u' \<longleftrightarrow> u_id u' = u_id u \<and> (u_status u = DELETED \<longrightarrow> u_status u' = DELETED)"

definition session_le :: "session \<Rightarrow> session \<Rightarrow> bool" where
  "session_le s s' \<longleftrightarrow> s_id s' = s_id s \<and> s_user_id s' = s_user_id s \<and>
     s_expires_at s' = s_expires_at s \<and> s_created_at s' = s_created_at s \<and>
     (s_revoked_at s \<noteq> None \<longrightarrow>
        s_revoked_at s' = s_revoked_at s \<and> s_revoked_reason s' = s_revoked_reason s)"

definition token_le :: "single_use_token \<Rightarrow> single_use_token \<Rightarrow> bool" where
  "token_le t t' \<longleftrightarrow> t_id t' = t_id t \<and> t_user_id t' = t_user_id t \<and>
     t_token_hash t' = t_token_hash t \<and> t_expires_at t' = t_expires_at t \<and>
     (is_spent t \<longrightarrow> is_spent t')"

definition progress :: "db \<Rightarrow> db \<Rightarrow> bool" where
  "progress d d' \<longleftrightarrow> rows_progress user_le (users d) (users d') \<and>
     rows_progress session_le (sessions d) (sessions d') \<and>
     rows_progress token_le (email_verification_tokens d) (email_verification_tokens d') \<and>
     rows_progress token_le (password_reset_tokens d) (password_reset_tokens d')"

lemma le_refl [simp]: "user_le u u" "session_le s s" "token_le t t"
  by (simp_all add: user_le_def session_le_def token_le_def)

lemma user_le_trans: "user_le u v \<Longrightarrow> user_le v w \<Longrightarrow> user_le u w"
  by (auto simp: user_le_def)

lemma session_le_trans: "session_le u v \<Longrightarrow> session_le v w \<Longrightarrow> session_le u w"
  by (auto simp: session_le_def)

lemma token_le_trans: "token_le u v \<Longrightarrow> token_le v w \<Longrightarrow> token_le u w"
  by (auto simp: token_le_def)

lemma progress_refl [simp]: "progress d d"
  by (simp add: progress_def rows_progress_refl)

lemma progress_trans: "progress d d' \<Longrightarrow> progress d' d'' \<Longrightarrow> progress d d''"
  unfolding progress_def
  by (intro conjI; elim conjE;
      erule (1) rows_progress_trans[rotated] ;
      erule user_le_trans session_le_trans token_le_trans; assumption)

text \<open>
  The invariant of the whole database, and the property a block of a service carries along: the
  invariant, and progress since \<open>d0\<close>.
\<close>

definition db_inv :: "db \<Rightarrow> bool" where
  "db_inv d \<longleftrightarrow> accounts_inv d \<and> tenancy_inv d"

definition good :: "db \<Rightarrow> db \<Rightarrow> bool" where
  "good d0 d \<longleftrightarrow> db_inv d \<and> progress d0 d"

definition same_accounts :: "db \<Rightarrow> db \<Rightarrow> bool" where
  "same_accounts d d' \<longleftrightarrow> users d' = users d \<and> sessions d' = sessions d \<and>
     email_verification_tokens d' = email_verification_tokens d \<and>
     password_reset_tokens d' = password_reset_tokens d"

definition same_tenancy :: "db \<Rightarrow> db \<Rightarrow> bool" where
  "same_tenancy d d' \<longleftrightarrow> organizations d' = organizations d \<and> memberships d' = memberships d \<and>
     invitations d' = invitations d \<and> audit_log d' = audit_log d"

lemma goodI:
  "good d0 d \<Longrightarrow> accounts_inv d' \<Longrightarrow> same_tenancy d d' \<Longrightarrow> progress d d' \<Longrightarrow> good d0 d'"
  by (auto simp: good_def db_inv_def same_tenancy_def audit_ok_def intro: progress_trans tenancy_inv_cong)

lemma good_tenancyI:
  "good d0 d \<Longrightarrow> same_accounts d d' \<Longrightarrow> tenancy_inv d' \<Longrightarrow> good d0 d'"
  by (simp add: good_def db_inv_def same_accounts_def accounts_inv_def progress_def users_ok_def
      sessions_ok_def)

interpretation same_accounts: audited "same_accounts d0" for d0
  by unfold_locales (auto simp: same_accounts_def dest: audit_record_Inr)

interpretation good: audited "good d0" for d0
proof unfold_locales
  fix e a ac org rt ri meta d d'
  assume r: "audit_record e (AuditEvent a ac org rt ri meta) d = Inr d'" and g: "good d0 d"
  show "good d0 d'"
  proof (rule good_tenancyI[OF g])
    show "same_accounts d d'" using audit_record_Inr(1-4)[OF r] by (simp add: same_accounts_def)
    show "tenancy_inv d'" using audit_tenancy[OF r] g by (simp add: good_def db_inv_def)
  qed
qed

section \<open>Tables\<close>

lemma good_users:
  assumes "good d0 d" "users_ok (d\<lparr>users := us\<rparr>)" "rows_progress user_le (users d) us"
  shows "good d0 (d\<lparr>users := us\<rparr>)"
  using assms(1) by (rule goodI) (use assms in \<open>simp_all add: good_def db_inv_def accounts_inv_def sessions_ok_def
      progress_def rows_progress_refl same_tenancy_def db_inv_def\<close>)

lemma good_sessions:
  assumes "good d0 d" "sessions_ok (d\<lparr>sessions := ss\<rparr>)" "rows_progress session_le (sessions d) ss"
  shows "good d0 (d\<lparr>sessions := ss\<rparr>)"
  using assms(1) by (rule goodI) (use assms in \<open>simp_all add: good_def db_inv_def accounts_inv_def users_ok_def
      progress_def rows_progress_refl same_tenancy_def db_inv_def\<close>)

lemma good_verification:
  assumes "good d0 d" "tokens_ok ts" "rows_progress token_le (email_verification_tokens d) ts"
  shows "good d0 (d\<lparr>email_verification_tokens := ts\<rparr>)"
  using assms(1) by (rule goodI) (use assms in \<open>simp_all add: good_def db_inv_def accounts_inv_def users_ok_def
      sessions_ok_def progress_def rows_progress_refl same_tenancy_def db_inv_def\<close>)

lemma good_reset:
  assumes "good d0 d" "tokens_ok ts" "rows_progress token_le (password_reset_tokens d) ts"
  shows "good d0 (d\<lparr>password_reset_tokens := ts\<rparr>)"
  using assms(1) by (rule goodI) (use assms in \<open>simp_all add: good_def db_inv_def accounts_inv_def users_ok_def
      sessions_ok_def progress_def rows_progress_refl same_tenancy_def db_inv_def\<close>)

lemma good_update_users:
  assumes g: "good d0 d"
    and f: "\<And>u. u_id (f u) = u_id u \<and> u_email (f u) = u_email u \<and> u_status (f u) = u_status u \<and>
      u_deleted_at (f u) = u_deleted_at u"
  shows "good d0 (d\<lparr>users := update_where p f (users d)\<rparr>)"
  using g
proof (rule good_users)
  have "\<forall>u \<in> set (update_where p f (users d)). user_row_ok u"
    using g f by (intro ball_update_where) (simp_all add: good_def db_inv_def accounts_inv_def users_ok_def user_row_ok_def)
  then show "users_ok (d\<lparr>users := update_where p f (users d)\<rparr>)"
    using g f by (simp add: good_def db_inv_def accounts_inv_def users_ok_def unique_on_update_where)
  show "rows_progress user_le (users d) (update_where p f (users d))"
    by (rule rows_progress_update) (simp_all add: user_le_def f)
qed

lemma good_mark_verified: "good d0 d \<Longrightarrow> good d0 (users_mark_email_verified e i at d)"
  unfolding users_mark_email_verified_def by (erule good_update_users) simp

lemma good_update_password_hash: "good d0 d \<Longrightarrow> good d0 (users_update_password_hash e i h d)"
  unfolding users_update_password_hash_def by (erule good_update_users) simp

lemma good_add_user:
  assumes g: "good d0 d" and add: "users_add e email name h d = Inr (u, d')"
  shows "good d0 d'"
proof -
  have u: "u_id u = new_id e" "u_email u = email" "user_row_ok u"
      "\<forall>v \<in> set (users d). u_id v \<noteq> new_id e \<and> py_lower (u_email v) \<noteq> py_lower email"
    and d': "d' = d\<lparr>users := users d @ [u]\<rparr>"
    using add by (auto simp: users_add_def Let_def user_row_ok_def split: if_splits)
  show ?thesis
    unfolding d' using g
  proof (rule good_users)
    show "users_ok (d\<lparr>users := users d @ [u]\<rparr>)"
      using g u by (auto simp: good_def db_inv_def accounts_inv_def users_ok_def unique_on_append)
  qed (simp add: rows_progress_append)
qed

lemma good_soft_delete_user:
  assumes g: "good d0 d" and del: "users_soft_delete e i email name h at d = Inr d'"
  shows "good d0 d'"
proof -
  let ?f = "\<lambda>u. u\<lparr>u_status := DELETED, u_deleted_at := Some at, u_email := email, u_name := name,
      u_password_hash := h, u_avatar_url := None, u_email_verified_at := None, u_updated_at := db_now e\<rparr>"
  let ?us = "update_where (\<lambda>u. u_id u = i) ?f (users d)"
  have free: "\<forall>v \<in> set (users d). u_id v \<noteq> i \<longrightarrow> py_lower (u_email v) \<noteq> py_lower email"
    and d': "d' = d\<lparr>users := ?us\<rparr>"
    using del by (auto simp: users_soft_delete_def split: if_splits)
  note ok = g[unfolded good_def db_inv_def accounts_inv_def users_ok_def]
  have "unique_on (\<lambda>_. True) (\<lambda>u. py_lower (u_email u)) ?us"
    by (rule unique_on_set_one[where k = "py_lower email"]) (use ok free in auto)
  moreover have "\<forall>u \<in> set ?us. user_row_ok u"
    using ok by (intro ball_update_where) (simp_all add: user_row_ok_def)
  ultimately have "users_ok d'"
    using ok by (simp add: d' users_ok_def unique_on_update_where)
  moreover have "rows_progress user_le (users d) ?us"
    by (rule rows_progress_update) (simp_all add: user_le_def)
  ultimately show ?thesis unfolding d' by (intro good_users[OF g]) auto
qed

lemma good_revoke_sessions:
  assumes g: "good d0 d" and p: "\<And>s. p s \<Longrightarrow> s_revoked_at s = None"
  shows "good d0 (d\<lparr>sessions := update_where p (revoke_row reason at) (sessions d)\<rparr>)"
  using g
proof (rule good_sessions)
  let ?ss = "update_where p (revoke_row reason at) (sessions d)"
  have "\<forall>s \<in> set ?ss. session_row_ok s"
    using g by (intro ball_update_where)
      (simp_all add: good_def db_inv_def accounts_inv_def sessions_ok_def session_row_ok_def revoke_row_def)
  then show "sessions_ok (d\<lparr>sessions := ?ss\<rparr>)"
    using g by (simp add: good_def db_inv_def accounts_inv_def sessions_ok_def unique_on_update_where revoke_row_def)
  show "rows_progress session_le (sessions d) ?ss"
    by (rule rows_progress_update) (auto simp: session_le_def revoke_row_def dest: p)
qed

lemma good_revoke: "good d0 d \<Longrightarrow> good d0 (sessions_revoke i reason at d)"
  unfolding sessions_revoke_def by (erule good_revoke_sessions) simp

lemma good_revoke_owned: "good d0 d \<Longrightarrow> good d0 (snd (sessions_revoke_owned i u reason at d))"
  unfolding sessions_revoke_owned_def snd_conv
  by (erule good_revoke_sessions) (simp add: owned_active_def)

lemma good_revoke_all: "good d0 d \<Longrightarrow> good d0 (snd (sessions_revoke_all_for_user u reason at keep d))"
  unfolding sessions_revoke_all_for_user_def Let_def snd_conv by (erule good_revoke_sessions) simp

lemma good_rotate: 
  assumes g: "good d0 d"
  shows "good d0 (sessions_rotate i h prev at d)"
  unfolding sessions_rotate_def using g
proof (rule good_sessions)
  let ?f = "\<lambda>s. s\<lparr>s_refresh_token_hash := h, s_previous_refresh_token_hash := Some prev,
      s_refreshed_at := Some at, s_last_used_at := Some at\<rparr>"
  let ?ss = "update_where (\<lambda>s. s_id s = i) ?f (sessions d)"
  have "\<forall>s \<in> set ?ss. session_row_ok s"
    using g by (intro ball_update_where)
      (simp_all add: good_def db_inv_def accounts_inv_def sessions_ok_def session_row_ok_def)
  then show "sessions_ok (d\<lparr>sessions := ?ss\<rparr>)"
    using g by (simp add: good_def db_inv_def accounts_inv_def sessions_ok_def unique_on_update_where)
  show "rows_progress session_le (sessions d) ?ss"
    by (rule rows_progress_update) (auto simp: session_le_def)
qed

lemma good_add_session:
  assumes g: "good d0 d" and add: "sessions_add e u h expires at ua ip d = Inr (s, d')"
  shows "good d0 d'"
proof -
  have s: "s_id s = new_id e" "session_row_ok s" "\<forall>v \<in> set (sessions d). s_id v \<noteq> new_id e"
    and d': "d' = d\<lparr>sessions := sessions d @ [s]\<rparr>"
    using add by (auto simp: sessions_add_def Let_def session_row_ok_def split: if_splits)
  show ?thesis
    unfolding d' using g
  proof (rule good_sessions)
    show "sessions_ok (d\<lparr>sessions := sessions d @ [s]\<rparr>)"
      using g s by (auto simp: good_def db_inv_def accounts_inv_def sessions_ok_def unique_on_append)
  qed (simp add: rows_progress_append)
qed

text \<open>Both token tables behave alike.\<close>

lemma tokens_revoke_ok:
  assumes "tokens_ok ts"
  shows "tokens_ok (tokens_revoke_outstanding u at ts)"
    and "rows_progress token_le ts (tokens_revoke_outstanding u at ts)"
proof -
  have "\<forall>t \<in> set (tokens_revoke_outstanding u at ts). token_row_ok t"
    unfolding tokens_revoke_outstanding_def using assms
    by (intro ball_update_where) (simp_all add: tokens_ok_def token_row_ok_def tokens_outstanding_def)
  with assms show "tokens_ok (tokens_revoke_outstanding u at ts)"
    by (simp add: tokens_ok_def tokens_revoke_outstanding_def unique_on_update_where)
  show "rows_progress token_le ts (tokens_revoke_outstanding u at ts)"
    unfolding tokens_revoke_outstanding_def
    by (rule rows_progress_update) (auto simp: token_le_def is_spent_def)
qed

lemma tokens_add_ok:
  assumes "tokens_ok ts" and "tokens_add e u h expires at ts = Inr ts'"
  shows "tokens_ok ts'" "rows_progress token_le ts ts'"
proof -
  define t where "t = \<lparr>t_id = new_id2 e, t_user_id = u, t_token_hash = h, t_expires_at = expires,
      t_consumed_at = None, t_revoked_at = None, t_created_at = at\<rparr>"
  have t: "t_id t = new_id2 e" "t_token_hash t = h" "token_row_ok t" "ts' = ts @ [t]"
      "\<forall>r \<in> set ts. t_token_hash r \<noteq> h \<and> t_id r \<noteq> new_id2 e"
    using assms(2) by (auto simp: tokens_add_def token_row_ok_def t_def split: if_splits)
  show "tokens_ok ts'" using assms(1) t by (fastforce simp: tokens_ok_def unique_on_append)
  show "rows_progress token_le ts ts'" by (simp add: t(4) rows_progress_append)
qed

lemma tokens_consume_ok:
  assumes ok: "tokens_ok ts" and t: "t \<in> set ts" "\<not> is_spent t"
  shows "tokens_ok (tokens_mark_consumed (t_id t) at ts)"
    and "rows_progress token_le ts (tokens_mark_consumed (t_id t) at ts)"
proof -
  have only: "r = t" if "r \<in> set ts" "t_id r = t_id t" for r
    using ok that t by (auto simp: tokens_ok_def intro: unique_on_same_key)
  have "\<forall>r \<in> set (tokens_mark_consumed (t_id t) at ts). token_row_ok r"
    unfolding tokens_mark_consumed_def using ok t(2)
    by (intro ball_update_where) (auto simp: tokens_ok_def token_row_ok_def is_spent_def dest: only)
  with ok show "tokens_ok (tokens_mark_consumed (t_id t) at ts)"
    by (simp add: tokens_ok_def tokens_mark_consumed_def unique_on_update_where)
  show "rows_progress token_le ts (tokens_mark_consumed (t_id t) at ts)"
    unfolding tokens_mark_consumed_def
    by (rule rows_progress_update) (auto simp: token_le_def is_spent_def)
qed

lemma token_trans:
  "rows_progress token_le ts ts' \<Longrightarrow> rows_progress token_le ts' ts'' \<Longrightarrow> rows_progress token_le ts ts''"
  using rows_progress_trans token_le_trans by blast

lemma good_tokens:
  "good d0 d \<Longrightarrow> tokens_ok (email_verification_tokens d)"
  "good d0 d \<Longrightarrow> tokens_ok (password_reset_tokens d)"
  by (simp_all add: good_def db_inv_def accounts_inv_def)

lemma reissue_ok:
  assumes "tokens_ok ts" and "tokens_add e u h expires at (tokens_revoke_outstanding v at' ts) = Inr ts'"
  shows "tokens_ok ts'" "rows_progress token_le ts ts'"
  using tokens_add_ok[OF tokens_revoke_ok(1)[OF assms(1)] assms(2)]
    token_trans[OF tokens_revoke_ok(2)[OF assms(1)]] by auto

lemma redeem_Inr:
  assumes "redeem x e token ts d = Inr (t, u)"
  shows "t \<in> set ts" "t_token_hash t = hash_token x token" "\<not> is_spent t" "now e < t_expires_at t"
    "u \<in> set (users d)" "u_id u = t_user_id t" "can_sign_in u"
  using assms by (auto simp: redeem_def outcome_simps tokens_get_by_hash_def users_get_def
      dest!: find_Some_mem)

lemma spend_ok:
  assumes ok: "tokens_ok ts" and r: "redeem x e token ts d = Inr (t, u)"
  shows "tokens_ok (tokens_revoke_outstanding v at (tokens_mark_consumed (t_id t) at ts))"
    and "rows_progress token_le ts (tokens_revoke_outstanding v at (tokens_mark_consumed (t_id t) at ts))"
  using tokens_consume_ok[OF ok redeem_Inr(1,3)[OF r]] tokens_revoke_ok
    token_trans[OF tokens_consume_ok(2)[OF ok redeem_Inr(1,3)[OF r]] tokens_revoke_ok(2)] by auto

section \<open>Every identity service keeps the invariant and moves forward\<close>

lemma issue_verification_good:
  assumes g: "good d0 d" and i: "issue_verification x st e u d = Inr (m, d')"
  shows "good d0 d'"
proof -
  have "on_return (\<lambda>(r, d'). good d0 d') (issue_verification x st e u d)"
    unfolding issue_verification_def Let_def
    using g good_verification[OF g] reissue_ok[OF good_tokens(1)[OF g]]
    by (intro on_return_intros) auto
  with i show ?thesis by (auto dest: on_returnD)
qed

lemma existing_account_good:
  "good d0 d \<Longrightarrow> email_for_existing_account x st e existing d = Inr (m, d') \<Longrightarrow> good d0 d'"
  by (auto simp: email_for_existing_account_def dest: issue_verification_good
      split: option.splits if_splits)

lemma register_good:
  assumes g: "good d0 d"
  shows "good d0 (snd (register x st e email password name d))"
proof -
  have block: "good d0 (snd (transaction (\<lambda>d.
            case users_add e addr clean h d of
              Inr (created, d) \<Rightarrow>
                rbind (audit_record e
                  (AuditEvent USER_REGISTERED (Some (u_id created)) None (Some ''user'')
                     (Some (u_id created)) []) d) (\<lambda>d.
                rbind (issue_verification x st e created d) (\<lambda>(outgoing, d).
                Inr ((Some created, outgoing), d)))
            | Inl err \<Rightarrow>
                if err = EmailAlreadyRegistered then
                  rbind (email_for_existing_account x st e (users_get_by_email addr d) d)
                    (\<lambda>(outgoing, d). Inr ((None, outgoing), d))
                else Inl err) d))" for addr clean h
    by (rule good.in_transaction[OF g], intro on_return_intros)
      (auto intro: g existing_account_good[OF g] good_add_user[OF g]
        issue_verification_good[OF good.audit[OF _ good_add_user[OF g]]])
  show ?thesis unfolding register_def Let_def using g block by (auto split: sum.splits)
qed

lemma resend_verification_good:
  assumes g: "good d0 d"
  shows "good d0 (snd (resend_verification x st e email d))"
proof (cases "normalize_email x email")
  case (Inr addr)
  show ?thesis
    unfolding resend_verification_def Inr sum.case
    by (rule good.in_transaction[OF g], intro on_return_intros)
      (auto intro!: on_returnI intro: g issue_verification_good[OF g])
qed (use g in \<open>simp add: resend_verification_def\<close>)

lemma verify_email_good:
  assumes g: "good d0 d"
  shows "good d0 (snd (verify_email x e token d))"
proof (cases "token = [] \<or> length token > MAX_TOKEN_LENGTH")
  case False
  show ?thesis
    unfolding verify_email_def if_not_P[OF False] Let_def
  proof (rule good.in_transaction[OF g], rule on_return_bind2I)
    fix t u
    assume r: "redeem x e token (email_verification_tokens d) d = Inr (t, u)"
    let ?d = "d\<lparr>email_verification_tokens := tokens_revoke_outstanding (u_id u) (now e)
        (tokens_mark_consumed (t_id t) (now e) (email_verification_tokens d))\<rparr>"
    have g': "good d0 ?d"
      using good_verification[OF g] spend_ok[OF good_tokens(1)[OF g] r] by blast
    show "on_return (\<lambda>(r, d'). good d0 d') (if is_email_verified u then Inr ((), ?d)
        else rbind (audit_record e (AuditEvent USER_EMAIL_VERIFIED (Some (u_id u)) None (Some ''user'')
          (Some (u_id u)) []) (users_mark_email_verified e (u_id u) (now e) ?d)) (\<lambda>d. Inr ((), d)))"
      using g' by (auto intro!: good.then_audit good_mark_verified)
  qed
qed (use g in \<open>simp add: verify_email_def\<close>)

lemma login_good:
  assumes g: "good d0 d"
  shows "good d0 (snd (login x st e email password d))"
proof -
  have rehashed: "good d0 (if c then users_update_password_hash e i h d else d)" for c i h
    using g good_update_password_hash by simp
  show ?thesis
    unfolding login_def Let_def snd_raise_after
    by (rule good.in_transaction[OF g], intro on_return_intros)
      (auto intro: g good.audit[OF _ g] good.audit[OF _ good_add_session[OF rehashed]])
qed

lemma refresh_good:
  assumes g: "good d0 d"
  shows "good d0 (snd (refresh x st e token d))"
proof (cases "parse_refresh_token token")
  case (Some p)
  show ?thesis
    unfolding refresh_def Some option.case Let_def case_prod_unfold snd_raise_after
    by (rule good.in_transaction[OF g], intro on_return_intros)
      (auto intro: g good_rotate[OF g] good.audit[OF _ good_revoke[OF g]])
qed (use g in \<open>simp add: refresh_def\<close>)

lemma logout_good:
  assumes g: "good d0 d"
  shows "good d0 (snd (logout x e token d))"
proof -
  have block: "good d0 (snd (transaction (\<lambda>d.
            case sessions_get session_id d of
              None \<Rightarrow> Inr ((), d)
            | Some session \<Rightarrow>
                if s_revoked_at session \<noteq> None then Inr ((), d)
                else if presented = s_refresh_token_hash session \<or>
                        s_previous_refresh_token_hash session = Some presented
                then rbind (audit_record e
                       (AuditEvent USER_LOGOUT (Some (s_user_id session)) None (Some ''session'')
                          (Some (s_id session)) [])
                       (sessions_revoke (s_id session) LOGOUT (now e) d)) (\<lambda>d.
                     Inr ((), d))
                else Inr ((), d)) d))" for session_id presented
    by (rule good.in_transaction[OF g], intro on_return_intros)
      (auto intro: g good.audit[OF _ good_revoke[OF g]])
  show ?thesis unfolding logout_def Let_def using g block by (auto split: option.splits)
qed

lemma revoke_session_good:
  assumes g: "good d0 d"
  shows "good d0 (snd (revoke_session e user_id session_id d))"
  unfolding revoke_session_def case_prod_unfold Let_def
  by (rule good.in_transaction[OF g], intro on_return_intros)
    (auto intro: good.audit[OF _ good_revoke_owned[OF g]])

lemma request_reset_good:
  assumes g: "good d0 d"
  shows "good d0 (snd (request_reset x st e email d))"
proof (cases "normalize_email x email")
  case (Inr addr)
  show ?thesis
    unfolding request_reset_def Inr sum.case Let_def
    by (rule good.in_transaction[OF g], intro on_return_intros)
      (auto intro: g good_reset[OF g] reissue_ok[OF good_tokens(2)[OF g]])
qed (use g in \<open>simp add: request_reset_def\<close>)

lemma reset_password_good:
  assumes g: "good d0 d"
  shows "good d0 (snd (reset_password x st e token new_password d))"
proof (cases "token = [] \<or> length token > MAX_TOKEN_LENGTH")
  case False
  have keep: "good d0 (snd (sessions_revoke_all_for_user (u_id u) PASSWORD_RESET (now e) None
      ((users_update_password_hash e (u_id u) h d)\<lparr>password_reset_tokens :=
        tokens_revoke_outstanding (u_id u) (now e) (tokens_mark_consumed (t_id t) (now e)
          (password_reset_tokens (users_update_password_hash e (u_id u) h d)))\<rparr>)))"
    if r: "redeem x e token (password_reset_tokens d) d = Inr (t, u)" for t u h
  proof (intro good_revoke_all good_reset good_update_password_hash g)
    have same: "password_reset_tokens (users_update_password_hash e (u_id u) h d) = password_reset_tokens d"
      by (simp add: users_update_password_hash_def)
    note s = spend_ok[OF good_tokens(2)[OF g] r]
    show "tokens_ok (tokens_revoke_outstanding (u_id u) (now e) (tokens_mark_consumed (t_id t) (now e)
          (password_reset_tokens (users_update_password_hash e (u_id u) h d))))"
      unfolding same by (rule s)
    show "rows_progress token_le (password_reset_tokens (users_update_password_hash e (u_id u) h d))
        (tokens_revoke_outstanding (u_id u) (now e) (tokens_mark_consumed (t_id t) (now e)
          (password_reset_tokens (users_update_password_hash e (u_id u) h d))))"
      unfolding same by (rule s)
  qed
  show ?thesis
    unfolding reset_password_def if_not_P[OF False] Let_def case_prod_unfold
    by (rule good.in_transaction[OF g], intro on_return_intros)
      (auto intro!: good_mark_verified intro: good.audit[OF _ keep])
qed (use g in \<open>simp add: reset_password_def\<close>)

lemma change_password_good:
  assumes g: "good d0 d"
  shows "good d0 (snd (change_password x st e user_id sid current new d))"
proof -
  have keep: "good d0 (snd (sessions_revoke_all_for_user i PASSWORD_CHANGED (now e) (Some sid)
      ((users_update_password_hash e i h d)\<lparr>password_reset_tokens :=
        tokens_revoke_outstanding i (now e) (password_reset_tokens (users_update_password_hash e i h d))\<rparr>)))"
    for i h
    by (intro good_revoke_all good_reset good_update_password_hash g tokens_revoke_ok
        good_tokens(2)[of d0])
  show ?thesis
    unfolding change_password_def Let_def case_prod_unfold
    by (rule good.in_transaction[OF g], intro on_return_intros) (auto intro: good.audit[OF _ keep])
qed

section \<open>Account deletion and the organization services\<close>

lemma release_same_accounts:
  assumes "release_decided owned e user at d = Inr d'"
  shows "same_accounts d d'"
proof -
  have loop: "same_accounts d t'" if "rfold f xs t = Inr t'" "same_accounts d t"
    "\<And>x t t'. same_accounts d t \<Longrightarrow> f x t = Inr t' \<Longrightarrow> same_accounts d t'" for f xs t t'
    using that by (blast intro: rfold_invariant)
  have sd: "same_accounts d t \<Longrightarrow> same_accounts d (organizations_soft_delete e org at t)" for org t
    by (simp add: same_accounts_def organizations_soft_delete_def)
  have "on_return (same_accounts d) (release_decided owned e user at d)"
    unfolding release_decided_def Let_def
  proof (intro on_return_intros)
    fix d1 d2
    assume 1: "rfold (\<lambda>org d. audit_record e
               (AuditEvent ORGANIZATION_DELETED (Some user) (Some org) (Some ''organization'')
                  (Some org) [(''reason'', MText ''account_deleted'')])
               (organizations_soft_delete e org at d))
        (sort (remdups (map oo_organization_id (filter (\<lambda>o'. oo_member_count o' = 1) owned)))) d = Inr d1"
      and 2: "rfold (\<lambda>(x, m) d.
               if o_id x \<in> set (map oo_organization_id (filter (\<lambda>o'. oo_member_count o' = 1) owned)) then Inr d
               else audit_record e
                 (AuditEvent MEMBER_REMOVED (Some user) (Some (o_id x)) (Some ''member'')
                    (Some (m_id m))
                    [(''userId'', MText (uuid_str user)),
                     (''role'', MText (role_value (m_role m))),
                     (''reason'', MText ''account_deleted'')]) d)
             (memberships_list_for_user user d1) d1 = Inr d2"
    have "same_accounts d d" by (simp add: same_accounts_def)
    then have "same_accounts d d1"
      by (rule loop[OF 1]) (rule same_accounts.audit[OF _ sd])
    then have "same_accounts d d2"
      by (rule loop[OF 2]) (auto split: if_splits intro: same_accounts.audit)
    then show "on_return (same_accounts d) (Inr (memberships_delete_all_for_user user d2))"
      by (simp add: same_accounts_def memberships_delete_all_for_user_def)
  qed simp
  with assms show ?thesis by (rule on_returnD[rotated])
qed

lemma delete_account_good:
  assumes g: "good d0 d"
  shows "good d0 (snd (delete_account x e user_id password d))"
proof -
  have rel: "good d0 d'" if "release_memberships e i at d = Inr d'" for i at d'
    using that g release_same_accounts release_memberships_tenancy[OF that]
    by (intro good_tenancyI[OF g]) (auto simp: release_memberships_def good_def db_inv_def)
  have keep: "good d0 ((snd (sessions_revoke_all_for_user i ACCOUNT_DELETED at None d2))
      \<lparr>email_verification_tokens := tokens_revoke_outstanding i at
         (email_verification_tokens (snd (sessions_revoke_all_for_user i ACCOUNT_DELETED at None d2))),
       password_reset_tokens := tokens_revoke_outstanding i at
         (password_reset_tokens (snd (sessions_revoke_all_for_user i ACCOUNT_DELETED at None d2)))\<rparr>)"
    (is "good d0 (?d\<lparr>email_verification_tokens := ?v, password_reset_tokens := ?r\<rparr>)")
    if "good d0 d2" for i at d2
  proof -
    have gd: "good d0 ?d" using that by (rule good_revoke_all)
    have "good d0 (?d\<lparr>email_verification_tokens := ?v\<rparr>)"
      by (intro good_verification gd tokens_revoke_ok good_tokens(1)[OF gd])
    then have "good d0 (?d\<lparr>email_verification_tokens := ?v, password_reset_tokens := ?r\<rparr>)"
      by (rule good_reset) (simp_all add: tokens_revoke_ok good_tokens(2)[OF gd])
    then show ?thesis .
  qed
  show ?thesis
    unfolding delete_account_def Let_def
    by (rule good.in_transaction[OF g], intro on_return_intros)
      (simp, rule good.audit[OF _ keep[OF good_soft_delete_user[OF rel]]], assumption+)
qed

lemma transaction_same_accounts:
  "on_return (\<lambda>(r, d'). same_accounts d d') (block d) \<Longrightarrow> same_accounts d (snd (transaction block d))"
  by (rule same_accounts.in_transaction) (simp_all add: same_accounts_def)

lemma same_accounts_repositories:
  "organizations_add e name d = Inr (y, d') \<Longrightarrow> same_accounts d0 d \<Longrightarrow> same_accounts d0 d'"
  "memberships_add e org user role d = Inr (m, d') \<Longrightarrow> same_accounts d0 d \<Longrightarrow> same_accounts d0 d'"
  "organizations_rename e org name d = Inr (y, d') \<Longrightarrow> same_accounts d0 d \<Longrightarrow> same_accounts d0 d'"
  "memberships_update_role i role d = Inr (m, d') \<Longrightarrow> same_accounts d0 d \<Longrightarrow> same_accounts d0 d'"
  "invitations_add e org email role h by' exp at d = Inr (i', d') \<Longrightarrow> same_accounts d0 d \<Longrightarrow> same_accounts d0 d'"
  "same_accounts d0 d \<Longrightarrow> same_accounts d0 (organizations_soft_delete e org at d)"
  "same_accounts d0 d \<Longrightarrow> same_accounts d0 (memberships_delete i d)"
  "same_accounts d0 d \<Longrightarrow> same_accounts d0 (invitations_revoke_pending_for_email org email at d)"
  "same_accounts d0 d \<Longrightarrow> same_accounts d0 (invitations_revoke i at d)"
  "same_accounts d0 d \<Longrightarrow> same_accounts d0 (invitations_mark_accepted i user at d)"
  by (auto simp: same_accounts_def organizations_add_def memberships_add_def organizations_rename_def
      memberships_update_role_def invitations_add_def organizations_soft_delete_def memberships_delete_def
      invitations_revoke_pending_for_email_def invitations_revoke_def invitations_mark_accepted_def Let_def
      split: if_splits option.splits)

lemma same_accounts_refl [simp]: "same_accounts d d"
  by (simp add: same_accounts_def)

lemmas same_accounts_rules = same_accounts_repositories same_accounts.audit

lemma org_create_same_accounts: "same_accounts d (snd (org_create e user name d))"
proof -
  have "same_accounts d (snd (transaction (\<lambda>d.
          rbind (organizations_add e clean d) (\<lambda>(x, d).
          rbind (memberships_add e (o_id x) (u_id user) OWNER d) (\<lambda>(m, d).
          rbind (audit_record e
            (AuditEvent ORGANIZATION_CREATED (Some (u_id user)) (Some (o_id x))
               (Some ''organization'') (Some (o_id x)) [(''name'', MText (o_name x))]) d) (\<lambda>d.
          Inr ((x, m), d))))) d))" for clean
    by (rule transaction_same_accounts, intro on_return_intros) 
      ((erule same_accounts_rules | rule same_accounts_rules(6-10) | simp)+)
  then show ?thesis by (auto simp: org_create_def split: sum.splits)
qed

lemma org_rename_same_accounts: "same_accounts d (snd (org_rename e m name d))"
proof -
  have "same_accounts d (snd (transaction (\<lambda>d.
          rbind (organizations_rename e (m_organization_id m) clean d) (\<lambda>(renamed, d).
          rbind (audit_record e
            (AuditEvent ORGANIZATION_UPDATED (Some (m_user_id m)) (Some (m_organization_id m))
               (Some ''organization'') (Some (m_organization_id m))
               [(''name'', MText (o_name renamed))]) d) (\<lambda>d.
          Inr (renamed, d)))) d))" for clean
    by (rule transaction_same_accounts, intro on_return_intros) 
      ((erule same_accounts_rules | rule same_accounts_rules(6-10) | simp)+)
  then show ?thesis by (auto simp: org_rename_def split: sum.splits)
qed

lemma org_delete_same_accounts: "same_accounts d (snd (org_delete e m d))"
proof (cases "require m ORGANIZATION_DELETE")
  case (Inr u)
  show ?thesis
    unfolding org_delete_def Inr sum.case
    by (rule transaction_same_accounts, intro on_return_intros) 
      ((erule same_accounts_rules | rule same_accounts_rules(6-10) | simp)+)
qed (simp add: org_delete_def)

lemma change_role_same_accounts: "same_accounts d (snd (change_role e org actor member role d))"
  unfolding change_role_def
  by (rule transaction_same_accounts, intro on_return_intros) 
      ((erule same_accounts_rules | rule same_accounts_rules(6-10) | simp)+)

lemma remove_member_same_accounts: "same_accounts d (snd (remove_member e org actor member d))"
  unfolding remove_member_def
  by (rule transaction_same_accounts, intro on_return_intros) 
      ((erule same_accounts_rules | rule same_accounts_rules(6-10) | simp)+)

lemma invite_same_accounts: "same_accounts d (snd (invite x e inviter org email role d))"
proof (cases "normalize_email x email")
  case (Inr addr)
  show ?thesis
    unfolding invite_def Inr sum.case Let_def
    by (rule transaction_same_accounts, intro on_return_intros) 
      ((erule same_accounts_rules | rule same_accounts_rules(6-10) | simp)+)
qed (simp add: invite_def)

lemma revoke_invitation_same_accounts: "same_accounts d (snd (revoke_invitation e org actor i d))"
  unfolding revoke_invitation_def
  by (rule transaction_same_accounts, intro on_return_intros) 
      ((erule same_accounts_rules | rule same_accounts_rules(6-10) | simp)+)

lemma accept_invitation_same_accounts: "same_accounts d (snd (accept_invitation x e user token d))"
proof (cases "is_email_verified user \<and> \<not> (token = [] \<or> length token > MAX_TOKEN_LENGTH)")
  case True
  then show ?thesis
    unfolding accept_invitation_def Let_def
    by (simp only: simp_thms if_False, intro transaction_same_accounts on_return_intros)
      
      ((erule same_accounts_rules | rule same_accounts_rules(6-10) | simp)+)
qed (auto simp: accept_invitation_def)

section \<open>Histories of calls\<close>

text \<open>
  The calls of the identity and organization services, with the arguments a request supplies.  A
  call runs in an environment of its own.
\<close>

datatype call =
    Register string string string
  | ResendVerification string
  | VerifyEmail string
  | Login string string
  | Refresh string
  | Logout "string option"
  | RevokeSession uuid uuid
  | RequestReset string
  | ResetPassword string string
  | ChangePassword uuid uuid string string
  | DeleteAccount uuid string
  | CreateOrganization user string
  | RenameOrganization membership string
  | DeleteOrganization membership
  | ChangeRole uuid uuid uuid role
  | RemoveMember uuid uuid uuid
  | Invite user uuid string role
  | RevokeInvitation uuid uuid uuid
  | AcceptInvitation user string

definition outcome :: "(domain_error + 'a) \<times> db \<Rightarrow> (domain_error + unit) \<times> db" where
  "outcome p = (map_sum id (\<lambda>_. ()) (fst p), snd p)"

fun perform :: "ext \<Rightarrow> settings \<Rightarrow> env \<times> call \<Rightarrow> db \<Rightarrow> (domain_error + unit) \<times> db" where
  "perform x st (e, Register email password name) d = outcome (register x st e email password name d)"
| "perform x st (e, ResendVerification email) d = outcome (resend_verification x st e email d)"
| "perform x st (e, VerifyEmail token) d = outcome (verify_email x e token d)"
| "perform x st (e, Login email password) d = outcome (login x st e email password d)"
| "perform x st (e, Refresh token) d = outcome (refresh x st e token d)"
| "perform x st (e, Logout token) d = outcome (logout x e token d)"
| "perform x st (e, RevokeSession user sid) d = outcome (revoke_session e user sid d)"
| "perform x st (e, RequestReset email) d = outcome (request_reset x st e email d)"
| "perform x st (e, ResetPassword token new) d = outcome (reset_password x st e token new d)"
| "perform x st (e, ChangePassword user sid cur new) d =
     outcome (change_password x st e user sid cur new d)"
| "perform x st (e, DeleteAccount user password) d = outcome (delete_account x e user password d)"
| "perform x st (e, CreateOrganization user name) d = outcome (org_create e user name d)"
| "perform x st (e, RenameOrganization m name) d = outcome (org_rename e m name d)"
| "perform x st (e, DeleteOrganization m) d = outcome (org_delete e m d)"
| "perform x st (e, ChangeRole org actor member role) d = outcome (change_role e org actor member role d)"
| "perform x st (e, RemoveMember org actor member) d = outcome (remove_member e org actor member d)"
| "perform x st (e, Invite user org email role) d = outcome (invite x e user org email role d)"
| "perform x st (e, RevokeInvitation org actor i) d = outcome (revoke_invitation e org actor i d)"
| "perform x st (e, AcceptInvitation user token) d = outcome (accept_invitation x e user token d)"

lemma snd_outcome [simp]: "snd (outcome p) = snd p"
  by (simp add: outcome_def)

lemmas account_calls_good = register_good resend_verification_good verify_email_good login_good
  refresh_good logout_good revoke_session_good request_reset_good reset_password_good
  change_password_good delete_account_good

lemmas organization_calls_tenancy = org_create_tenancy org_rename_tenancy org_delete_tenancy
  change_role_tenancy remove_member_tenancy invite_tenancy revoke_invitation_tenancy
  accept_invitation_tenancy

lemmas organization_calls_same_accounts = org_create_same_accounts org_rename_same_accounts
  org_delete_same_accounts change_role_same_accounts remove_member_same_accounts invite_same_accounts
  revoke_invitation_same_accounts accept_invitation_same_accounts

lemma perform_good:
  assumes "db_inv d"
  shows "good d (snd (perform x st op d))"
proof -
  have g: "good d d" and t: "tenancy_inv d" using assms by (simp_all add: good_def db_inv_def)
  obtain e c where op: "op = (e, c)" by (cases op)
  show ?thesis
    unfolding op
    by (cases c) (simp_all add: account_calls_good[OF g] good_tenancyI[OF g]
        organization_calls_tenancy[OF t] organization_calls_same_accounts)
qed

interpretation calls: forward_service "perform x st" db_inv progress for x st
  by unfold_locales (use perform_good in \<open>auto simp: good_def intro: progress_trans\<close>)

end
