(* ===== verification/Rotation_Props.thy ===== *)
theory Rotation_Props
  imports Accounts_Props
begin

text \<open>
  Which calls rotate the refresh token of a session: only a \<open>refresh\<close> with a token of that
  session changes its current and previous token hash and the time of its last rotation.  Every other
  call of the services keeps the three.
\<close>

definition refreshes :: "uuid \<Rightarrow> call \<Rightarrow> bool" where
  "refreshes i c \<longleftrightarrow> (\<exists>token secret. c = Refresh token \<and> parse_refresh_token token = Some (i, secret))"

text \<open>The successor of a row, with the same tokens if it is a row of the session.\<close>

definition same_tokens :: "uuid \<Rightarrow> session \<Rightarrow> session \<Rightarrow> bool" where
  "same_tokens i s s' \<longleftrightarrow> s_id s' = s_id s \<and> (s_id s = i \<longrightarrow>
     s_refresh_token_hash s' = s_refresh_token_hash s \<and>
     s_previous_refresh_token_hash s' = s_previous_refresh_token_hash s \<and> s_refreshed_at s' = s_refreshed_at s)"

definition keeps_tokens :: "uuid \<Rightarrow> db \<Rightarrow> db \<Rightarrow> bool" where
  "keeps_tokens i d d' \<longleftrightarrow> rows_progress (same_tokens i) (sessions d) (sessions d')"

lemma same_tokens_refl [simp]: "same_tokens i s s"
  by (simp add: same_tokens_def)

lemma same_tokens_trans: "same_tokens i s t \<Longrightarrow> same_tokens i t u \<Longrightarrow> same_tokens i s u"
  by (simp add: same_tokens_def)

lemma keeps_refl [simp]: "keeps_tokens i d d"
  by (simp add: keeps_tokens_def rows_progress_refl)

lemma keeps_trans: "keeps_tokens i d d' \<Longrightarrow> keeps_tokens i d' d'' \<Longrightarrow> keeps_tokens i d d''"
  unfolding keeps_tokens_def by (rule rows_progress_trans[OF same_tokens_trans])

lemma keeps_step: "keeps_tokens i d0 d \<Longrightarrow> sessions d' = sessions d \<Longrightarrow> keeps_tokens i d0 d'"
  by (simp add: keeps_tokens_def)

interpretation keeps: audited "keeps_tokens i d0" for i d0
  by unfold_locales (auto dest: audit_record_Inr intro: keeps_step)

section \<open>Tables\<close>

lemma keeps_revoked:
  assumes "keeps_tokens i d0 d" "sessions d' = update_where p (revoke_row reason at) (sessions d)"
  shows "keeps_tokens i d0 d'"
proof -
  have "keeps_tokens i d d'"
    unfolding keeps_tokens_def assms(2) by (rule rows_progress_update) (simp_all add: same_tokens_def revoke_row_def)
  with assms(1) show ?thesis by (rule keeps_trans)
qed

lemma keeps_tables:
  "keeps_tokens i d0 d \<Longrightarrow> keeps_tokens i d0 (sessions_revoke j reason at d)"
  "keeps_tokens i d0 d \<Longrightarrow> keeps_tokens i d0 (snd (sessions_revoke_owned j u reason at d))"
  "keeps_tokens i d0 d \<Longrightarrow> keeps_tokens i d0 (snd (sessions_revoke_all_for_user u reason at keep d))"
  by (erule keeps_revoked, simp add: sessions_revoke_def sessions_revoke_owned_def
      sessions_revoke_all_for_user_def Let_def)+

lemma keeps_added:
  assumes "keeps_tokens i d0 d" "sessions_add e u h expires at ua ip d = Inr (s, d')"
  shows "keeps_tokens i d0 d'"
proof -
  have "keeps_tokens i d d'"
    using assms(2) by (auto simp: sessions_add_def Let_def keeps_tokens_def rows_progress_append split: if_splits)
  with assms(1) show ?thesis by (rule keeps_trans)
qed

lemma keeps_rotated:
  assumes "keeps_tokens i d0 d" "j \<noteq> i"
  shows "keeps_tokens i d0 (sessions_rotate j h prev at d)"
proof -
  have "keeps_tokens i d (sessions_rotate j h prev at d)"
    unfolding keeps_tokens_def sessions_rotate_def
    by simp (rule rows_progress_update, use assms(2) in \<open>simp_all add: same_tokens_def\<close>)
  with assms(1) show ?thesis by (rule keeps_trans)
qed

lemma keeps_users:
  "keeps_tokens i d0 d \<Longrightarrow> keeps_tokens i d0 (users_update_password_hash e u h d)"
  "keeps_tokens i d0 d \<Longrightarrow> keeps_tokens i d0 (users_mark_email_verified e u at d)"
  "keeps_tokens i d0 d \<Longrightarrow> users_add e email name h d = Inr (v, d') \<Longrightarrow> keeps_tokens i d0 d'"
  "keeps_tokens i d0 d \<Longrightarrow> users_soft_delete e u email name h at d = Inr d' \<Longrightarrow> keeps_tokens i d0 d'"
  "keeps_tokens i d0 d \<Longrightarrow> release_memberships e u at d = Inr d' \<Longrightarrow> keeps_tokens i d0 d'"
  by (auto simp: users_update_password_hash_def users_mark_email_verified_def users_add_def users_soft_delete_def Let_def
      release_memberships_def same_accounts_def split: if_splits dest!: release_same_accounts elim!: keeps_step)

section \<open>Services\<close>

lemma keeps_same_accounts: "same_accounts d d' \<Longrightarrow> keeps_tokens i d d'"
  by (simp add: same_accounts_def keeps_tokens_def rows_progress_refl)

lemma unchanged_sessions:
  "issue_verification x st e u d = Inr (m, d') \<Longrightarrow> sessions d' = sessions d"
  "email_for_existing_account x st e existing d = Inr (m, d') \<Longrightarrow> sessions d' = sessions d"
  by (auto simp: email_for_existing_account_def issue_verification_def outcome_simps Let_def
      split: option.splits if_splits)

lemma register_keeps: "keeps_tokens i d (snd (register x st e email password name d))"
proof -
  have block: "keeps_tokens i d (snd (transaction (\<lambda>d.
            case users_add e addr clean h d of
              Inr (created, d) \<Rightarrow>
                rbind (audit_record e
                  (AuditEvent USER_REGISTERED (Some (u_id created)) None (Some ''user'')
                     (Some (u_id created)) []) d) (\<lambda>d.
                rbind (issue_verification x st e created d) (\<lambda>(outgoing, d).
                Inr ((Some created, outgoing), d)))
            | Inl err \<Rightarrow>
                if err = EmailAlreadyRegistered then
                  rbind (email_for_existing_account x st e (users_get_by_email addr d) d)
                    (\<lambda>(outgoing, d). Inr ((None, outgoing), d))
                else Inl err) d))" for addr clean h
    by (rule keeps.in_transaction[OF keeps_refl], intro on_return_intros)
      (auto intro: keeps_step[OF keeps_refl] keeps_step[OF keeps.audit[OF _ keeps_users(3)[OF keeps_refl]]]
        dest: unchanged_sessions)
  show ?thesis unfolding register_def Let_def using block by (auto split: sum.splits)
qed

lemma resend_verification_keeps: "keeps_tokens i d (snd (resend_verification x st e email d))"
proof (cases "normalize_email x email")
  case (Inr addr)
  show ?thesis
    unfolding resend_verification_def Inr sum.case
    by (rule keeps.in_transaction[OF keeps_refl], intro on_return_intros)
      (auto intro!: on_returnI intro: keeps_step[OF keeps_refl] dest: unchanged_sessions)
qed (simp add: resend_verification_def)

lemma verify_email_keeps: "keeps_tokens i d (snd (verify_email x e token d))"
proof (cases "token = [] \<or> length token > MAX_TOKEN_LENGTH")
  case False
  show ?thesis
    unfolding verify_email_def if_not_P[OF False] Let_def
    by (rule keeps.in_transaction[OF keeps_refl], intro on_return_intros)
      (auto intro: keeps_step[OF keeps_refl] keeps.audit[OF _ keeps_users(2)[OF keeps_step[OF keeps_refl]]])
qed (simp add: verify_email_def)

lemma login_keeps: "keeps_tokens i d (snd (login x st e email password d))"
proof -
  have rehashed: "keeps_tokens i d (if c then users_update_password_hash e j h d else d)" for c j h
    using keeps_users(1)[OF keeps_refl] by simp
  show ?thesis
    unfolding login_def Let_def snd_raise_after
    by (rule keeps.in_transaction[OF keeps_refl], intro on_return_intros)
      (auto intro: keeps.audit[OF _ keeps_refl] keeps.audit[OF _ keeps_added[OF rehashed]])
qed

lemma refresh_keeps:
  assumes "\<And>secret. parse_refresh_token token \<noteq> Some (i, secret)"
  shows "keeps_tokens i d (snd (refresh x st e token d))"
proof (cases "parse_refresh_token token")
  case (Some p)
  obtain j secret where p: "p = (j, secret)" by (cases p)
  have j: "j \<noteq> i" using assms Some p by auto
  have row: "s_id s = j" if "sessions_get j d = Some s" for s and d :: db
    using that by (auto simp: sessions_get_def dest: find_Some_mem)
  show ?thesis
    unfolding refresh_def Some p option.case prod.case Let_def snd_raise_after
    by (rule keeps.in_transaction[OF keeps_refl], intro on_return_intros)
      (auto simp: outcome_simps row j intro: keeps_rotated[OF keeps_refl] keeps.audit[OF _ keeps_tables(1)[OF keeps_refl]])
qed (simp add: refresh_def)

lemma logout_keeps: "keeps_tokens i d (snd (logout x e token d))"
proof -
  have block: "keeps_tokens i d (snd (transaction (\<lambda>d.
            case sessions_get session_id d of
              None \<Rightarrow> Inr ((), d)
            | Some session \<Rightarrow>
                if s_revoked_at session \<noteq> None then Inr ((), d)
                else if presented = s_refresh_token_hash session \<or>
                        s_previous_refresh_token_hash session = Some presented
                then rbind (audit_record e
                       (AuditEvent USER_LOGOUT (Some (s_user_id session)) None (Some ''session'')
                          (Some (s_id session)) [])
                       (sessions_revoke (s_id session) LOGOUT (now e) d)) (\<lambda>d.
                     Inr ((), d))
                else Inr ((), d)) d))" for session_id presented
    by (rule keeps.in_transaction[OF keeps_refl], intro on_return_intros)
      (auto intro: keeps.audit[OF _ keeps_tables(1)[OF keeps_refl]])
  show ?thesis unfolding logout_def Let_def using block by (auto split: option.splits)
qed

lemma revoke_session_keeps: "keeps_tokens i d (snd (revoke_session e user_id session_id d))"
  unfolding revoke_session_def case_prod_unfold Let_def
  by (rule keeps.in_transaction[OF keeps_refl], intro on_return_intros)
    (auto intro: keeps.audit[OF _ keeps_tables(2)[OF keeps_refl]])

lemma request_reset_keeps: "keeps_tokens i d (snd (request_reset x st e email d))"
proof (cases "normalize_email x email")
  case (Inr addr)
  show ?thesis
    unfolding request_reset_def Inr sum.case Let_def
    by (rule keeps.in_transaction[OF keeps_refl], intro on_return_intros) (auto intro: keeps_step[OF keeps_refl])
qed (simp add: request_reset_def)

lemma reset_password_keeps: "keeps_tokens i d (snd (reset_password x st e token new_password d))"
proof (cases "token = [] \<or> length token > MAX_TOKEN_LENGTH")
  case False
  have keep: "keeps_tokens i d (snd (sessions_revoke_all_for_user u r at k
      ((users_update_password_hash e u h d)\<lparr>password_reset_tokens := ts\<rparr>)))" for u r at k h ts
    by (rule keeps_tables(3), rule keeps_step[OF keeps_users(1)[OF keeps_refl]]) simp
  show ?thesis
    unfolding reset_password_def if_not_P[OF False] Let_def case_prod_unfold
    by (rule keeps.in_transaction[OF keeps_refl], intro on_return_intros)
      (auto intro!: keeps_users(2) intro: keeps.audit[OF _ keep])
qed (simp add: reset_password_def)

lemma change_password_keeps: "keeps_tokens i d (snd (change_password x st e user_id sid current new d))"
proof -
  have keep: "keeps_tokens i d (snd (sessions_revoke_all_for_user u r at k
      ((users_update_password_hash e u h d)\<lparr>password_reset_tokens := ts\<rparr>)))" for u r at k h ts
    by (rule keeps_tables(3), rule keeps_step[OF keeps_users(1)[OF keeps_refl]]) simp
  show ?thesis
    unfolding change_password_def Let_def case_prod_unfold
    by (rule keeps.in_transaction[OF keeps_refl], intro on_return_intros) (auto intro: keeps.audit[OF _ keep])
qed

lemma delete_account_keeps: "keeps_tokens i d (snd (delete_account x e user_id password d))"
proof -
  have keep: "keeps_tokens i d ((snd (sessions_revoke_all_for_user u ACCOUNT_DELETED at None d2))
      \<lparr>email_verification_tokens := v, password_reset_tokens := r\<rparr>)" if "keeps_tokens i d d2" for u at d2 v r
    by (rule keeps_step[OF keeps_tables(3)[OF that]]) simp
  show ?thesis
    unfolding delete_account_def Let_def
    by (rule keeps.in_transaction[OF keeps_refl], intro on_return_intros)
      (simp, rule keeps.audit[OF _ keep[OF keeps_users(4)[OF keeps_users(5)[OF keeps_refl]]]], assumption+)
qed

lemmas calls_keep = register_keeps resend_verification_keeps verify_email_keeps login_keeps logout_keeps
  revoke_session_keeps request_reset_keeps reset_password_keeps change_password_keeps delete_account_keeps

lemma perform_keeps: "\<not> refreshes i c \<Longrightarrow> keeps_tokens i d (snd (perform x st (e, c) d))"
  by (cases c) (simp_all add: calls_keep keeps_same_accounts organization_calls_same_accounts refreshes_def refresh_keeps)

section \<open>Histories\<close>

lemma history_keeps:
  "\<forall>(e, c) \<in> set ops. \<not> refreshes i c \<Longrightarrow> keeps_tokens i d (run_calls (perform x st) ops d)"
proof (induction ops arbitrary: d)
  case (Cons op ops)
  obtain e c where op: "op = (e, c)" by (cases op)
  with Cons.prems have "keeps_tokens i d (snd (perform x st op d))" using perform_keeps by simp
  moreover have "keeps_tokens i (snd (perform x st op d)) (run_calls (perform x st) ops (snd (perform x st op d)))"
    by (rule Cons.IH) (use Cons.prems in auto)
  ultimately show ?case unfolding run_calls_def by (auto intro: keeps_trans)
qed (simp add: run_calls_def)

lemma tokens_after:
  assumes "\<forall>(e, c) \<in> set ops. \<not> refreshes i c" "db_inv d" "sessions_get i d = Some s"
    and s': "sessions_get i (run_calls (perform x st) ops d) = Some s'"
  shows "s_refresh_token_hash s' = s_refresh_token_hash s" "s_refreshed_at s' = s_refreshed_at s"
    "s_previous_refresh_token_hash s' = s_previous_refresh_token_hash s"
proof -
  let ?d = "run_calls (perform x st) ops d"
  have s: "s \<in> set (sessions d)" "s_id s = i" using assms(3) by (auto simp: sessions_get_def dest: find_Some_mem)
  obtain t where t: "t \<in> set (sessions ?d)" "same_tokens i s t"
    using history_keeps[OF assms(1), of d x st] s by (auto simp: keeps_tokens_def rows_progress_def)
  have "s' \<in> set (sessions ?d)" "s_id s' = i" using s' by (auto simp: sessions_get_def dest: find_Some_mem)
  moreover have "unique_on (\<lambda>_. True) s_id (sessions ?d)"
    using calls.run_calls_inv[OF assms(2), of x st ops] by (simp add: db_inv_def accounts_inv_def sessions_ok_def)
  ultimately have "s' = t" using t s(2) by (auto simp: same_tokens_def dest: unique_on_same_key)
  with t(2) s(2) show "s_refresh_token_hash s' = s_refresh_token_hash s" "s_refreshed_at s' = s_refreshed_at s"
    "s_previous_refresh_token_hash s' = s_previous_refresh_token_hash s" by (simp_all add: same_tokens_def)
qed

end
