(* ===== verification/Text_Props.thy ===== *)
theory Text_Props
  imports Py_Text
begin

text \<open>
  Printing and parsing of UUIDs: \<open>uuid.UUID(str(u))\<close> is \<open>u\<close>, and the text contains
  only hexadecimal digits and dashes, so that it never contains the separator of a refresh token.
\<close>

definition hex_char :: "char \<Rightarrow> bool" where
  "hex_char c \<longleftrightarrow> is_digit c \<or> (97 \<le> code c \<and> code c \<le> 102)"

lemma digit_char_hex:
  assumes "n < 16"
  shows "hex_char (digit_char n)" and "hex_value (digit_char n) = Some n"
proof -
  have c: "of_char (digit_char n) = (if n < 10 then 48 + n else 87 + n)"
    using assms by (simp add: digit_char_def)
  show "hex_char (digit_char n)" using assms by (auto simp: hex_char_def is_digit_def c)
  show "hex_value (digit_char n) = Some n" using assms by (auto simp: hex_value_def is_digit_def c)
qed

lemma hex_pad_chars: "c \<in> set (hex_pad k n) \<Longrightarrow> hex_char c"
  by (induction k n rule: hex_pad.induct) (auto simp: digit_char_hex)

lemma length_hex_pad [simp]: "length (hex_pad k n) = k"
  by (induction k n rule: hex_pad.induct) auto

lemma hex_char_plain:
  assumes "hex_char c"
  shows "\<not> py_space c" "c \<noteq> CHR ''u''" "c \<noteq> CHR ''-''" "c \<noteq> CHR ''+''" "c \<noteq> CHR ''_''" "c \<noteq> CHR ''x''"
    "c \<noteq> CHR ''X''" "c \<noteq> CHR ''{''" "c \<noteq> CHR ''}''" "c \<noteq> CHR ''.''"
  using assms by (auto simp: hex_char_def is_digit_def py_space_def)

lemma hex_digits_append:
  assumes "\<forall>c \<in> set s. hex_char c" "hex_char c" "hex_digits acc False s = Some v"
  shows "hex_digits acc False (s @ [c]) = Some (16 * v + the (hex_value c))"
  using assms
proof (induction s arbitrary: acc)
  case Nil
  then show ?case using hex_char_plain(5)[of c]
    by (auto simp: hex_char_def hex_value_def split: option.splits)
next
  case (Cons a s)
  then show ?case using hex_char_plain(5)[of a] by (auto split: option.splits)
qed

lemma hex_digits_pad: "hex_digits 0 False (hex_pad k n) = Some (n mod 16 ^ k)"
proof (induction k n rule: hex_pad.induct)
  case (2 k n)
  have "hex_digits 0 False (hex_pad k (n div 16) @ [digit_char (n mod 16)]) =
      Some (16 * (n div 16 mod 16 ^ k) + n mod 16)"
    using hex_digits_append[OF _ _ 2, of "digit_char (n mod 16)"] digit_char_hex[of "n mod 16"]
    by (auto dest: hex_pad_chars)
  moreover have "16 * (n div 16 mod 16 ^ k) + n mod 16 = n mod 16 ^ Suc k"
    by (simp add: mod_mult2_eq)
  ultimately show ?case by simp
qed simp

lemma replace_from_absent:
  "old \<noteq> [] \<Longrightarrow> hd old \<notin> set s \<Longrightarrow> replace_from 0 old new s = s"
  by (induction s) (auto simp: neq_Nil_conv)

lemma replace_char: "replace_from 0 [d] [] s = filter (\<lambda>c. c \<noteq> d) s"
  by (induction s) auto

lemma strip_chars_absent: "\<forall>c \<in> set s. \<not> p c \<Longrightarrow> strip_chars p s = s"
  by (cases "s = []") (simp_all add: strip_chars_def dropWhile_id hd_rev)

lemma uuid_str_chars: "c \<in> set (uuid_str u) \<Longrightarrow> hex_char c \<or> c = CHR ''-''"
  unfolding uuid_str_def Let_def uuid_hex_def
  by (auto dest!: in_set_takeD in_set_dropD dest: hex_pad_chars)

lemma filter_hex: "\<forall>c \<in> set s. hex_char c \<Longrightarrow> filter (\<lambda>c. c \<noteq> CHR ''-'') s = s"
  by (rule filter_True) (auto dest: hex_char_plain)

lemma take_drop_join: "take k (drop j h) @ drop (k + j) h = drop j h"
  by (metis append_take_drop_id drop_drop)

lemma undashed: "filter (\<lambda>c. c \<noteq> CHR ''-'') (uuid_str u) = uuid_hex u"
proof -
  let ?h = "uuid_hex u"
  have h: "\<forall>c \<in> set ?h. hex_char c" by (auto simp: uuid_hex_def dest: hex_pad_chars)
  have t: "filter (\<lambda>c. c \<noteq> CHR ''-'') (take k (drop j ?h)) = take k (drop j ?h)" for k j
    using h by (intro filter_hex) (auto dest!: in_set_takeD in_set_dropD)
  have t0: "filter (\<lambda>c. c \<noteq> CHR ''-'') (take k ?h) = take k ?h" for k
    using h by (intro filter_hex) (auto dest!: in_set_takeD)
  have dr: "filter (\<lambda>c. c \<noteq> CHR ''-'') (drop k ?h) = drop k ?h" for k
    using h by (intro filter_hex) (auto dest!: in_set_dropD)
  have "filter (\<lambda>c. c \<noteq> CHR ''-'') (uuid_str u) =
      take 8 ?h @ take 4 (drop 8 ?h) @ take 4 (drop 12 ?h) @ take 4 (drop 16 ?h) @ drop 20 ?h"
    unfolding uuid_str_def Let_def by (simp add: t t0 dr)
  also have "take 4 (drop 16 ?h) @ drop 20 ?h = drop 16 ?h"
    using take_drop_join[of 4 16 ?h] by simp
  also have "take 4 (drop 12 ?h) @ drop 16 ?h = drop 12 ?h"
    using take_drop_join[of 4 12 ?h] by simp
  also have "take 4 (drop 8 ?h) @ drop 12 ?h = drop 8 ?h"
    using take_drop_join[of 4 8 ?h] by simp
  finally show ?thesis by simp
qed

lemma py_int16_hex:
  assumes "\<forall>c \<in> set h. hex_char c" "length h \<ge> 2" "hex_digits 0 False h = Some v"
  shows "py_int16 h = Some (int v)"
proof -
  have s: "py_strip h = h"
    unfolding py_strip_def using assms(1) by (intro strip_chars_absent) (auto dest: hex_char_plain)
  have ne: "h \<noteq> []" using assms(2) by auto
  have hd: "hex_char (hd h)" "hex_char (h ! 1)" "h \<noteq> []" using assms(1,2) ne by simp_all
  have p: "hex_prefix h = h"
    using hex_char_plain(6,7)[OF hd(2)] by (simp add: hex_prefix_def)
  show ?thesis
    using hex_char_plain(3,4,5)[OF hd(1)] hd(3) assms(3) by (simp add: py_int16_def Let_def s p)
qed

theorem parse_uuid_str:
  assumes "u < 2 ^ 128"
  shows "parse_uuid (uuid_str u) = Some u"
proof -
  have a: "py_replace ''uuid:'' [] (py_replace ''urn:'' [] (uuid_str u)) = uuid_str u"
  proof -
    have "CHR ''u'' \<notin> set (uuid_str u)" by (auto dest!: uuid_str_chars dest: hex_char_plain(2))
    then show ?thesis by (simp add: py_replace_def replace_from_absent)
  qed
  have b: "strip_chars (\<lambda>c. c = CHR ''{'' \<or> c = CHR ''}'') (uuid_str u) = uuid_str u"
    by (rule strip_chars_absent) (auto dest!: uuid_str_chars dest: hex_char_plain(8,9))
  have c: "py_replace ''-'' [] (uuid_str u) = uuid_hex u"
    by (simp add: py_replace_def replace_char undashed)
  have "(16 :: nat) ^ 32 = 2 ^ 128" by simp
  then have "hex_digits 0 False (uuid_hex u) = Some u"
    using assms unfolding uuid_hex_def hex_digits_pad by (simp only: mod_less)
  then have "py_int16 (uuid_hex u) = Some (int u)"
    by (intro py_int16_hex) (auto simp: uuid_hex_def dest: hex_pad_chars)
  moreover have "int u < 2 ^ 128" using assms by (metis of_nat_less_iff of_nat_numeral of_nat_power)
  moreover have "length (uuid_hex u) = 32" by (simp only: uuid_hex_def length_hex_pad)
  ultimately show ?thesis
    unfolding parse_uuid_def Let_def a b c by (simp only: option.case) simp
qed

lemma length_uuid_str [simp]: "length (uuid_str u) = 36"
  by (simp add: uuid_str_def Let_def uuid_hex_def)

lemma partition_char_append:
  "d \<notin> set s \<Longrightarrow> partition_char d (s @ d # t) = (s, True, t)"
  by (induction s) auto

end
