(* ===== verification/Identity_Theorems.thy ===== *)
theory Identity_Theorems
  imports Rotation_Props Text_Props
begin

text \<open>
  The properties of accounts, sessions, organizations and memberships: what holds after every
  history of service calls, what each operation does on every branch, and the interleaving of two
  account deletions that the code does not exclude.
\<close>

section \<open>Rows and their successors\<close>

lemma session_successor:
  assumes "progress d d'" "accounts_inv d'" "s \<in> set (sessions d)"
  obtains s' where "sessions_get (s_id s) d' = Some s'" "session_le s s'" "s' \<in> set (sessions d')"
proof -
  obtain s' where s': "s' \<in> set (sessions d')" "session_le s s'"
    using assms(1,3) by (auto simp: progress_def rows_progress_def)
  then have "sessions_get (s_id s) d' = Some s'"
    using find_unique[of s_id "sessions d'" s'] assms(2)
    by (simp add: sessions_get_def accounts_inv_def sessions_ok_def session_le_def)
  with s' that show thesis by blast
qed

lemma user_successor:
  assumes "progress d d'" "accounts_inv d'" "u \<in> set (users d)"
  obtains u' where "users_get (u_id u) d' = Some u'" "user_le u u'"
proof -
  obtain u' where u': "u' \<in> set (users d')" "user_le u u'"
    using assms(1,3) by (auto simp: progress_def rows_progress_def)
  then have "users_get (u_id u) d' = Some u'"
    using find_unique[of u_id "users d'" u'] assms(2)
    by (simp add: users_get_def accounts_inv_def users_ok_def user_le_def)
  with u' that show thesis by blast
qed

lemma reset_token_successor:
  assumes "progress d d'" "accounts_inv d'" "t \<in> set (password_reset_tokens d)"
  obtains t' where "tokens_get_by_hash (t_token_hash t) (password_reset_tokens d') = Some t'" "token_le t t'"
proof -
  obtain t' where t': "t' \<in> set (password_reset_tokens d')" "token_le t t'"
    using assms(1,3) by (auto simp: progress_def rows_progress_def)
  then have "tokens_get_by_hash (t_token_hash t) (password_reset_tokens d') = Some t'"
    using find_unique[of t_token_hash "password_reset_tokens d'" t'] assms(2)
    by (simp add: tokens_get_by_hash_def accounts_inv_def tokens_ok_def token_le_def)
  with t' that show thesis by blast
qed

abbreviation after :: "ext \<Rightarrow> settings \<Rightarrow> (env \<times> call) list \<Rightarrow> db \<Rightarrow> db" where
  "after x st ops d \<equiv> run_calls (perform x st) ops d"

lemma after_inv: "db_inv d \<Longrightarrow> db_inv (after x st ops d)"
  by (rule calls.run_calls_inv)

lemma after_progress: "db_inv d \<Longrightarrow> progress d (after x st ops d)"
  by (rule calls.run_calls_le)

section \<open>Sample data\<close>

definition sample_ext :: ext where
  "sample_ext = \<lparr>hash_token = (\<lambda>t. CHR ''#'' # t), hasher_verify = (\<lambda>h p. h = CHR ''$'' # p),
     hasher_hash = (\<lambda>p. CHR ''$'' # p), hasher_needs_rehash = (\<lambda>_. False),
     hasher_dummy_hash = ''dummy'', validate_email = Some, nfkc = (\<lambda>s. s), casefold = py_lower\<rparr>"

definition sample_settings :: settings where
  "sample_settings = \<lparr>refresh_ttl = 30 * 86400 * 1000000, reuse_grace = 10 * 1000000,
     verification_ttl = 86400 * 1000000, resend_cooldown = 60 * 1000000,
     reset_ttl = 1800 * 1000000, reset_cooldown = 60 * 1000000,
     policy = \<lparr>min_length = 12, max_length = 128, common_passwords = [''passwordpassword'']\<rparr>\<rparr>"

definition sample_env :: "instant \<Rightarrow> uuid \<Rightarrow> string \<Rightarrow> env" where
  "sample_env t i secret = \<lparr>now = t, db_now = t, new_id = i, new_id2 = i + 1, new_secret = secret,
     client_user_agent = None, client_ip_address = None\<rparr>"

definition sample_user :: "uuid \<Rightarrow> user" where
  "sample_user i = \<lparr>u_id = i, u_email = (if i = 1 then ''ann@x.org'' else ''bob@x.org''), u_name = ''U'',
     u_password_hash = ''$correct horse'', u_avatar_url = None, u_email_verified_at = Some 0,
     u_status = ACTIVE, u_created_at = 0, u_updated_at = 0, u_deleted_at = None\<rparr>"

definition empty_db :: db where
  "empty_db = \<lparr>users = [], sessions = [], email_verification_tokens = [], password_reset_tokens = [],
     organizations = [], memberships = [], invitations = [], audit_log = []\<rparr>"

definition sample_db :: db where
  "sample_db = empty_db\<lparr>users := [sample_user 1, sample_user 2]\<rparr>"

lemma sample_db_inv: "db_inv sample_db"
  unfolding db_inv_def accounts_inv_def tenancy_inv_def users_ok_def sessions_ok_def tokens_ok_def
    organizations_ok_def memberships_ok_def invitations_ok_def audit_ok_def owners_kept_def unique_on_def
    user_row_ok_def
  by code_simp

lemma acme_name: "normalize_organization_name ''Acme'' = Inr ''Acme''"
  by code_simp

lemmas run_simps = run_calls_def transaction_def raise_after_def audit_record_def AuditEvent_def Let_def

lemmas sample_simps = sample_db_def empty_db_def sample_env_def sample_user_def sample_ext_def
  sample_settings_def

section \<open>Every live organization has an owner\<close>

text \<open>
  C1.  After every history of service calls, interleaved in any order and whatever each of them
  answered, every organization that is not deleted has a membership with the role owner.
\<close>

theorem live_organizations_have_owners:
  assumes "db_inv d" and "x \<in> set (organizations (run_calls (perform ex st) ops d))"
    and "o_deleted_at x = None"
  shows "\<exists>m \<in> set (memberships (run_calls (perform ex st) ops d)).
      m_organization_id m = o_id x \<and> m_role m = OWNER"
  using calls.run_calls_inv[OF assms(1), of ex st ops] assms(2,3)
  by (auto simp: db_inv_def tenancy_inv_def owners_kept_def memberships_count_owners_def count_where_pos
      is_owner_of_def)

theorem live_organizations_have_owners_witness:
  "\<exists>m \<in> set (memberships (run_calls (perform sample_ext sample_settings)
       [(sample_env 5 7 ''s'', CreateOrganization (sample_user 1) ''Acme'')] sample_db)).
     m_organization_id m = 7 \<and> m_role m = OWNER"
proof -
  let ?ops = "[(sample_env 5 7 ''s'', CreateOrganization (sample_user 1) ''Acme'')]"
  let ?x = "\<lparr>o_id = 7, o_name = ''Acme'', o_created_at = 5, o_updated_at = 5, o_deleted_at = None\<rparr>"
  have "?x \<in> set (organizations (run_calls (perform sample_ext sample_settings) ?ops sample_db))"
    by (simp add: run_simps sample_simps acme_name org_create_def is_email_verified_def
        organizations_add_def memberships_add_def)
  from live_organizations_have_owners[OF sample_db_inv this] show ?thesis by simp
qed

section \<open>Sessions\<close>

lemma sessions_get_Some:
  "sessions_get i d = Some s \<Longrightarrow> s \<in> set (sessions d) \<and> s_id s = i"
  by (auto simp: sessions_get_def dest: find_Some_mem)

text \<open>How \<open>refresh\<close> decides, once the session row is known.\<close>

lemma refresh_revoked:
  assumes "parse_refresh_token token = Some (i, secret)" "sessions_get i d = Some s" "s_revoked_at s \<noteq> None"
  shows "refresh x st e token d = (Inl InvalidRefreshToken, d)"
  using assms by (auto simp: refresh_def run_simps require_some_def ensure_def)

lemma refresh_expired:
  assumes "parse_refresh_token token = Some (i, secret)" "sessions_get i d = Some s"
    "s_revoked_at s = None" "s_expires_at s \<le> now e"
  shows "refresh x st e token d = (Inl SessionExpired, d)"
  using assms by (simp add: refresh_def run_simps require_some_def ensure_def)

lemma refresh_Inr:
  assumes "refresh x st e token d = (Inr si, d')" and "parse_refresh_token token = Some (i, secret)"
  obtains s u where "sessions_get i d = Some s" "s_revoked_at s = None" "now e < s_expires_at s"
    "hash_token x secret = s_refresh_token_hash s" "users_get (s_user_id s) d = Some u" "can_sign_in u"
    "d' = sessions_rotate i (hash_token x (new_secret e)) (hash_token x secret) (now e) d"
    "sessions_get i d' = Some (si_session si)"
    "si_refresh_token si = format_refresh_token i (new_secret e)"
proof -
  note p = refresh_def assms(2) option.case prod.case Let_def
  obtain s where s: "sessions_get i d = Some s" "s_revoked_at s = None" "now e < s_expires_at s"
    using assms(1) unfolding p
    by (auto simp: raise_after_def transaction_def require_some_def ensure_def split: option.splits if_splits sum.splits)
  have h: "hash_token x secret = s_refresh_token_hash s"
    using assms(1) s unfolding p
    by (auto simp: raise_after_def transaction_def require_some_def ensure_def audit_record_def AuditEvent_def
        split: if_splits sum.splits option.splits)
  obtain u where "users_get (s_user_id s) d = Some u" "can_sign_in u"
    using assms(1) s h unfolding p
    by (auto simp: raise_after_def transaction_def require_some_def ensure_def Let_def split: if_splits sum.splits option.splits)
  moreover from this s h have "d' = sessions_rotate i (hash_token x (new_secret e)) (hash_token x secret) (now e) d"
    "sessions_get i d' = Some (si_session si)" "si_refresh_token si = format_refresh_token i (new_secret e)"
    using assms(1) sessions_get_Some[OF s(1)] unfolding p
    by (auto simp: raise_after_def transaction_def require_some_def ensure_def Let_def split: option.splits)
  ultimately show thesis using that s h by blast
qed

lemma refresh_previous:
  assumes "parse_refresh_token token = Some (i, secret)" "sessions_get i d = Some s"
    "s_revoked_at s = None" "now e < s_expires_at s" "hash_token x secret \<noteq> s_refresh_token_hash s"
    "s_previous_refresh_token_hash s = Some (hash_token x secret)" "s_refreshed_at s = Some r"
  shows "now e - r \<le> reuse_grace st \<Longrightarrow> refresh x st e token d = (Inl RefreshConflict, d)"
    and "\<not> now e - r \<le> reuse_grace st \<Longrightarrow> fst (refresh x st e token d) = Inl InvalidRefreshToken \<and>
      sessions (snd (refresh x st e token d)) = sessions (sessions_revoke i TOKEN_REUSE (now e) d)"
  using assms sessions_get_Some[OF assms(2)]
  by (simp_all add: refresh_def run_simps require_some_def ensure_def)

lemma session_after:
  assumes "db_inv d" "s \<in> set (sessions d)"
  obtains s' where "sessions_get (s_id s) (after x st ops d) = Some s'" "session_le s s'"
  using session_successor[OF after_progress[OF assms(1)] _ assms(2)] after_inv[OF assms(1)]
  by (metis db_inv_def)

lemma parse_format:
  assumes "i < 2 ^ 128" and "secret \<noteq> []" and "length secret \<le> 91"
  shows "parse_refresh_token (format_refresh_token i secret) = Some (i, secret)"
proof -
  have "CHR ''.'' \<notin> set (uuid_str i)"
    by (auto dest!: uuid_str_chars dest: hex_char_plain(10))
  then have "partition_char (CHR ''.'') (uuid_str i @ CHR ''.'' # secret) = (uuid_str i, True, secret)"
    by (rule partition_char_append)
  with assms show ?thesis
    by (simp add: parse_refresh_token_def format_refresh_token_def MAX_TOKEN_LENGTH_def parse_uuid_str)
qed

lemma revoked_refused:
  assumes "db_inv d" "s \<in> set (sessions d)" "s_revoked_at s \<noteq> None"
    and t: "parse_refresh_token token = Some (s_id s, secret)"
  shows "refresh x st e token (after x st ops d) = (Inl InvalidRefreshToken, after x st ops d)"
    and "authenticate e (s_id s) user (after x st ops d) = Inl SessionRevoked"
proof -
  obtain s' where s': "sessions_get (s_id s) (after x st ops d) = Some s'" "session_le s s'"
    using session_after[OF assms(1,2)] by metis
  then have r: "s_revoked_at s' \<noteq> None" using assms(3) by (auto simp: session_le_def)
  show "refresh x st e token (after x st ops d) = (Inl InvalidRefreshToken, after x st ops d)"
    by (rule refresh_revoked[OF t s'(1) r])
  show "authenticate e (s_id s) user (after x st ops d) = Inl SessionRevoked"
    using s'(1) r by (auto simp: authenticate_def require_some_def ensure_def is_active_def)
qed

lemma rotated_session:
  assumes inv: "db_inv d" and first: "refresh x st e token d = (Inr si, d')"
    and tok: "parse_refresh_token token = Some (i, secret)"
  shows "sessions_get i d' = Some (si_session si)" "s_id (si_session si) = i"
    "s_revoked_at (si_session si) = None"
    "s_refresh_token_hash (si_session si) = hash_token x (new_secret e)"
    "s_previous_refresh_token_hash (si_session si) = Some (hash_token x secret)"
    "s_refreshed_at (si_session si) = Some (now e)"
proof -
  obtain s where s: "sessions_get i d = Some s" "s_revoked_at s = None"
    and d': "d' = sessions_rotate i (hash_token x (new_secret e)) (hash_token x secret) (now e) d"
    and si: "sessions_get i d' = Some (si_session si)"
    using refresh_Inr[OF first tok] by metis
  obtain r where r: "r \<in> set (sessions d)" "s_id r = i" "si_session si = r\<lparr>s_refresh_token_hash :=
      hash_token x (new_secret e), s_previous_refresh_token_hash := Some (hash_token x secret),
      s_refreshed_at := Some (now e), s_last_used_at := Some (now e)\<rparr>"
    using sessions_get_Some[OF si] by (auto simp: d' sessions_rotate_def set_update_where split: if_splits)
  have "r = s"
    using r(1,2) sessions_get_Some[OF s(1)] inv
    by (auto simp: db_inv_def accounts_inv_def sessions_ok_def intro: unique_on_same_key)
  with r s si show "sessions_get i d' = Some (si_session si)" "s_id (si_session si) = i"
    "s_revoked_at (si_session si) = None"
    "s_refresh_token_hash (si_session si) = hash_token x (new_secret e)"
    "s_previous_refresh_token_hash (si_session si) = Some (hash_token x secret)"
    "s_refreshed_at (si_session si) = Some (now e)"
    by simp_all
qed

definition sample_session :: session where
  "sample_session = \<lparr>s_id = 9, s_user_id = 1, s_refresh_token_hash = ''#abc'',
     s_previous_refresh_token_hash = None, s_refreshed_at = None, s_expires_at = 100000000,
     s_last_used_at = Some 0, s_revoked_at = None, s_revoked_reason = None, s_user_agent = None,
     s_ip_address = None, s_created_at = 0\<rparr>"

definition session_db :: db where
  "session_db = sample_db\<lparr>sessions := [sample_session]\<rparr>"

lemma session_db_inv: "db_inv session_db"
  using sample_db_inv
  by (simp add: session_db_def sample_session_def db_inv_def accounts_inv_def tenancy_inv_def users_ok_def
      sessions_ok_def organizations_ok_def memberships_ok_def invitations_ok_def audit_ok_def owners_kept_def
      session_row_ok_def unique_on_def memberships_count_owners_def)

lemma sample_token: "parse_refresh_token (format_refresh_token 9 ''abc'') = Some (9, ''abc'')"
  by (rule parse_format) simp_all

text \<open>
  C2.  A session that was revoked, or whose expiry has passed, is never accepted again, whatever
  calls follow: the access check answers \<open>SessionRevoked\<close> and every refresh token of the
  session is refused without a change to the database.
\<close>

theorem ended_sessions_stay_ended:
  assumes "db_inv d" and "s \<in> set (sessions d)"
    and "s_revoked_at s \<noteq> None \<or> s_expires_at s \<le> now e"
    and "parse_refresh_token token = Some (s_id s, secret)"
  shows "authenticate e (s_id s) user (run_calls (perform x st) ops d) = Inl SessionRevoked \<and>
    (\<exists>err. refresh x st e token (run_calls (perform x st) ops d) =
       (Inl err, run_calls (perform x st) ops d))"
proof -
  obtain s' where s': "sessions_get (s_id s) (after x st ops d) = Some s'" "session_le s s'"
    using session_after[OF assms(1,2)] by metis
  have ended: "s_revoked_at s' \<noteq> None \<or> s_expires_at s' \<le> now e"
    using s'(2) assms(3) by (auto simp: session_le_def)
  then have "authenticate e (s_id s) user (after x st ops d) = Inl SessionRevoked"
    using s'(1) by (auto simp: authenticate_def require_some_def ensure_def is_active_def)
  then show ?thesis
    using refresh_revoked[OF assms(4) s'(1)] refresh_expired[OF assms(4) s'(1)] ended by blast
qed

theorem ended_sessions_stay_ended_witness:
  "authenticate (sample_env 100000000 3 ''q'') 9 1
     (run_calls (perform sample_ext sample_settings)
       [(sample_env 50 20 ''new'', Refresh (format_refresh_token 9 ''abc''))] session_db) =
   Inl SessionRevoked"
  using ended_sessions_stay_ended[OF session_db_inv, of sample_session "sample_env 100000000 3 ''q''"
      "format_refresh_token 9 ''abc''" "''abc''" 1 sample_ext sample_settings
      "[(sample_env 50 20 ''new'', Refresh (format_refresh_token 9 ''abc''))]"]
  by (simp add: session_db_def sample_session_def sample_env_def sample_token)

text \<open>
  C3.  Rotation and reuse detection.  A refresh token was exchanged for a new one; whatever calls
  follow, as long as none of them refreshes that session again (an older token than the last one
  replaced is only refused, see C4) and the session is neither revoked nor expired, presenting the
  replaced token within the grace period is a conflict that changes nothing, and presenting it
  later is refused and revokes the session, so that from then on no token of the session is
  accepted, whatever calls follow.
\<close>

theorem refresh_token_reuse:
  assumes inv: "db_inv d" and first: "refresh x st e1 token d = (Inr si, d1)"
    and tok: "parse_refresh_token token = Some (i, secret)"
    and fresh: "hash_token x secret \<noteq> hash_token x (new_secret e1)"
    and others: "\<forall>(e, c) \<in> set between. \<not> refreshes i c"
    and row: "sessions_get i (run_calls (perform x st) between d1) = Some s"
    and live: "s_revoked_at s = None" "now e2 < s_expires_at s"
  shows "(now e2 - now e1 \<le> reuse_grace st \<longrightarrow>
      refresh x st e2 token (run_calls (perform x st) between d1) =
        (Inl RefreshConflict, run_calls (perform x st) between d1)) \<and>
    (reuse_grace st < now e2 - now e1 \<longrightarrow>
      fst (refresh x st e2 token (run_calls (perform x st) between d1)) = Inl InvalidRefreshToken \<and>
      (\<forall>ops e3 token' secret' user. parse_refresh_token token' = Some (i, secret') \<longrightarrow>
         fst (refresh x st e3 token' (run_calls (perform x st) ops
           (snd (refresh x st e2 token (run_calls (perform x st) between d1))))) = Inl InvalidRefreshToken \<and>
         authenticate e3 i user (run_calls (perform x st) ops
           (snd (refresh x st e2 token (run_calls (perform x st) between d1)))) = Inl SessionRevoked))"
proof (intro conjI impI)
  let ?d = "after x st between d1" let ?d2 = "snd (refresh x st e2 token ?d)"
  note rotated = rotated_session[OF inv first tok]
  have "db_inv d1" using refresh_good[of d d x st e1 token] inv first by (simp add: good_def)
  then have inv1: "db_inv ?d" and kept: "s_refresh_token_hash s = hash_token x (new_secret e1)"
    "s_previous_refresh_token_hash s = Some (hash_token x secret)" "s_refreshed_at s = Some (now e1)"
    using tokens_after[OF others _ rotated(1) row] rotated(4-6) by (simp_all add: after_inv)
  note prev = refresh_previous[OF tok row live _ kept(2,3)]
  show "refresh x st e2 token ?d = (Inl RefreshConflict, ?d)" if "now e2 - now e1 \<le> reuse_grace st"
    using prev(1) kept(1) fresh that by simp
  assume late: "reuse_grace st < now e2 - now e1"
  have res: "fst (refresh x st e2 token ?d) = Inl InvalidRefreshToken"
    "sessions ?d2 = sessions (sessions_revoke i TOKEN_REUSE (now e2) ?d)"
    using prev(2) kept(1) fresh late by auto
  show "fst (refresh x st e2 token ?d) = Inl InvalidRefreshToken" by (rule res)
  have inv2: "db_inv ?d2" using refresh_good[of ?d ?d x st e2 token] inv1 by (simp add: good_def)
  let ?s2 = "revoke_row TOKEN_REUSE (now e2) s"
  have s2: "?s2 \<in> set (sessions ?d2)" "s_revoked_at ?s2 \<noteq> None" "s_id ?s2 = i"
    using live(1) sessions_get_Some[OF row]
    by (auto simp: res(2) sessions_revoke_def update_where_def revoke_row_def)
  show "\<forall>ops e3 token' secret' user. parse_refresh_token token' = Some (i, secret') \<longrightarrow>
      fst (refresh x st e3 token' (after x st ops ?d2)) = Inl InvalidRefreshToken \<and>
      authenticate e3 i user (after x st ops ?d2) = Inl SessionRevoked"
    using revoked_refused[OF inv2 s2(1,2)] unfolding s2(3) by simp
qed

theorem refresh_token_reuse_witness:
  "fst (refresh sample_ext sample_settings (sample_env 20000000 30 ''z'') (format_refresh_token 9 ''abc'')
     (run_calls (perform sample_ext sample_settings) [(sample_env 60 40 ''org'', CreateOrganization (sample_user 1) ''Acme'')]
       (snd (refresh sample_ext sample_settings (sample_env 50 20 ''new'') (format_refresh_token 9 ''abc'')
          session_db)))) = Inl InvalidRefreshToken"
proof -
  let ?r = "refresh sample_ext sample_settings (sample_env 50 20 ''new'') (format_refresh_token 9 ''abc'')
        session_db"
  let ?ops = "[(sample_env 60 40 ''org'', CreateOrganization (sample_user 1) ''Acme'')]"
  obtain si d1 where r: "?r = (Inr si, d1)" "s_expires_at (si_session si) = 100000000"
    by (simp add: refresh_def sample_token run_simps session_db_def sample_session_def sample_simps
        sessions_get_def users_get_def require_some_def ensure_def sessions_rotate_def update_where_def
        can_sign_in_def)
  note row = rotated_session[OF session_db_inv r(1) sample_token]
  have "sessions (run_calls (perform sample_ext sample_settings) ?ops d1) = sessions d1"
    using org_create_same_accounts[of d1 "sample_env 60 40 ''org''" "sample_user 1" "''Acme''"]
    by (simp add: run_calls_def same_accounts_def)
  with row(1) have "sessions_get 9 (run_calls (perform sample_ext sample_settings) ?ops d1) = Some (si_session si)"
    by (simp add: sessions_get_def)
  from refresh_token_reuse[OF session_db_inv r(1) sample_token _ _ this row(3), of "sample_env 20000000 30 ''z''"] r
  show ?thesis by (simp add: sample_ext_def sample_env_def sample_settings_def refreshes_def)
qed

text \<open>
  C4.  A refresh token with the right session id and a wrong secret is refused by \<open>refresh\<close>
  and ignored by \<open>logout\<close>, and neither changes the database: knowing a session id does not
  sign anyone out.
\<close>

theorem session_id_alone_is_powerless:
  assumes "parse_refresh_token token = Some (i, secret)" and "sessions_get i d = Some s"
    and "hash_token x secret \<noteq> s_refresh_token_hash s"
    and "s_previous_refresh_token_hash s \<noteq> Some (hash_token x secret)"
  shows "snd (refresh x st e token d) = d \<and> (\<exists>err. fst (refresh x st e token d) = Inl err) \<and>
    logout x e (Some token) d = (Inr (), d)"
proof -
  have "token \<noteq> []" using assms(1) by (auto simp: parse_refresh_token_def)
  with assms show ?thesis
    by (auto simp: refresh_def logout_def run_simps require_some_def ensure_def)
qed

theorem session_id_alone_is_powerless_witness:
  "logout sample_ext (sample_env 5 6 ''w'') (Some (format_refresh_token 9 ''guess'')) session_db =
     (Inr (), session_db)"
  using session_id_alone_is_powerless[of "format_refresh_token 9 ''guess''" 9 "''guess''" session_db
      sample_session sample_ext]
  by (simp add: parse_format session_db_def sample_session_def sample_ext_def sessions_get_def)

text \<open>
  C5.  The refresh token the client receives parses back to the session and the secret it was
  made of.
\<close>

theorem refresh_token_roundtrip:
  assumes "i < 2 ^ 128" and "secret \<noteq> []" and "length secret \<le> 91"
  shows "parse_refresh_token (format_refresh_token i secret) = Some (i, secret)"
  using assms by (rule parse_format)

theorem refresh_token_roundtrip_witness:
  "parse_refresh_token (format_refresh_token 255 ''s3cret'') = Some (255, ''s3cret'')"
  by (rule refresh_token_roundtrip) simp_all

section \<open>Password reset and account deletion\<close>

lemma reset_password_Inr:
  assumes "reset_password x st e token new d = (Inr m, d')"
  obtains t u where "redeem x e token (password_reset_tokens d) d = Inr (t, u)"
    "token \<noteq> []" "length token \<le> MAX_TOKEN_LENGTH"
    "sessions d' = update_where (\<lambda>s. s_user_id s = u_id u \<and> s_revoked_at s = None)
       (revoke_row PASSWORD_RESET (now e)) (sessions d)"
    "password_reset_tokens d' = tokens_revoke_outstanding (u_id u) (now e)
       (tokens_mark_consumed (t_id t) (now e) (password_reset_tokens d))"
    "users d' = users (if is_email_verified u then users_update_password_hash e (u_id u) (hash_password x new) d
       else users_mark_email_verified e (u_id u) (now e)
         (users_update_password_hash e (u_id u) (hash_password x new) d))"
proof -
  have len: "\<not> (token = [] \<or> length token > MAX_TOKEN_LENGTH)"
    using assms by (auto simp: reset_password_def)
  obtain t u v where r: "redeem x e token (password_reset_tokens d) d = Inr (t, u)"
    "password_validate x (policy st) new (Some (u_email u)) = Inr v"
    using assms unfolding reset_password_def if_not_P[OF len] transaction_Inr by (auto simp: outcome_simps)
  show thesis
    using assms len unfolding reset_password_def if_not_P[OF len] transaction_Inr r prod.case rbind.simps
    by (intro that[OF r(1)]) (auto simp: audit_record_def AuditEvent_def sessions_revoke_all_for_user_def
        users_update_password_hash_def users_mark_email_verified_def Let_def)
qed

lemma spent_token_refused:
  assumes "tokens_get_by_hash (hash_token x token) (password_reset_tokens d) = Some t" "is_spent t"
  shows "reset_password x st e token new d = (Inl InvalidToken, d)"
  using assms by (auto simp: reset_password_def redeem_def require_some_def ensure_def transaction_def)

lemma nothing_outstanding:
  "\<forall>t \<in> set (tokens_revoke_outstanding i at ts). t_user_id t = i \<longrightarrow> is_spent t"
proof (intro ballI impI)
  fix t
  assume t: "t \<in> set (tokens_revoke_outstanding i at ts)" "t_user_id t = i"
  then obtain r where r: "t = (if tokens_outstanding i r then r\<lparr>t_revoked_at := Some at\<rparr> else r)"
    unfolding tokens_revoke_outstanding_def set_update_where by blast
  show "is_spent t"
  proof (cases "tokens_outstanding i r")
    case True
    with r show ?thesis by (simp add: is_spent_def)
  next
    case False
    then have "t = r" using r by simp
    with False t(2) show ?thesis by (auto simp: is_spent_def tokens_outstanding_def)
  qed
qed

lemma all_signed_out:
  "\<forall>s \<in> set (update_where (\<lambda>s. s_user_id s = i \<and> s_revoked_at s = None) (revoke_row reason at) ss).
     s_user_id s = i \<longrightarrow> s_revoked_at s \<noteq> None"
  unfolding update_where_def set_map ball_simps by (simp add: revoke_row_def)

lemma reset_user_row:
  assumes u: "u \<in> set (users d)"
    and us: "users d' = users (if is_email_verified u then users_update_password_hash e (u_id u) h d
       else users_mark_email_verified e (u_id u) at (users_update_password_hash e (u_id u) h d))"
  shows "\<exists>u' \<in> set (users d'). u_id u' = u_id u \<and> u_password_hash u' = h \<and> is_email_verified u'"
proof -
  let ?u = "u\<lparr>u_password_hash := h, u_updated_at := db_now e\<rparr>"
  have 1: "?u \<in> set (users (users_update_password_hash e (u_id u) h d))"
    unfolding users_update_password_hash_def
    using update_where_changed[OF u, where p = "\<lambda>v. u_id v = u_id u"
        and f = "\<lambda>v. v\<lparr>u_password_hash := h, u_updated_at := db_now e\<rparr>"] by simp
  show ?thesis
  proof (cases "is_email_verified u")
    case True
    with 1 show ?thesis unfolding us by (intro bexI[of _ ?u]) (auto simp: is_email_verified_def)
  next
    case False
    let ?v = "?u\<lparr>u_email_verified_at := Some at, u_updated_at := db_now e\<rparr>"
    have "?v \<in> set (users d')"
      using 1 False unfolding us users_mark_email_verified_def
      by (auto simp: update_where_def is_email_verified_def intro!: image_eqI[of _ _ ?u])
    then show ?thesis by (intro bexI[of _ ?v]) (auto simp: is_email_verified_def)
  qed
qed

text \<open>
  C6.  A successful password reset was asked for with an unspent, unexpired link of an account that
  may sign in.  It signs that account out everywhere, stores the hash of the new password and counts
  the address as verified, leaves no usable reset link of the account, and uses its own link up for
  good: after every history of further calls the link is refused and changes nothing.  No other
  account or session changes.
\<close>

theorem password_reset_effect:
  assumes inv: "db_inv d" and ok: "reset_password x st e token new d = (Inr m, d')"
  shows "\<exists>t \<in> set (password_reset_tokens d).
    t_token_hash t = hash_token x token \<and> \<not> is_spent t \<and> now e < t_expires_at t \<and>
    (\<exists>u \<in> set (users d). u_id u = t_user_id t \<and> can_sign_in u) \<and>
    (\<forall>s \<in> set (sessions d'). s_user_id s = t_user_id t \<longrightarrow> s_revoked_at s \<noteq> None) \<and>
    (\<forall>t' \<in> set (password_reset_tokens d'). t_user_id t' = t_user_id t \<longrightarrow> is_spent t') \<and>
    (\<exists>u' \<in> set (users d'). u_id u' = t_user_id t \<and> u_password_hash u' = hash_password x new \<and>
       is_email_verified u') \<and>
    (\<forall>v \<in> set (users d). u_id v \<noteq> t_user_id t \<longrightarrow> v \<in> set (users d')) \<and>
    (\<forall>s \<in> set (sessions d). s_user_id s \<noteq> t_user_id t \<longrightarrow> s \<in> set (sessions d')) \<and>
    (\<forall>ops e' new'. reset_password x st e' token new' (run_calls (perform x st) ops d') =
       (Inl InvalidToken, run_calls (perform x st) ops d'))"
proof -
  obtain t u where r: "redeem x e token (password_reset_tokens d) d = Inr (t, u)"
    and len: "token \<noteq> []" "length token \<le> MAX_TOKEN_LENGTH"
    and ss: "sessions d' = update_where (\<lambda>s. s_user_id s = u_id u \<and> s_revoked_at s = None)
       (revoke_row PASSWORD_RESET (now e)) (sessions d)"
    and ts: "password_reset_tokens d' = tokens_revoke_outstanding (u_id u) (now e)
       (tokens_mark_consumed (t_id t) (now e) (password_reset_tokens d))"
    and us: "users d' = users (if is_email_verified u then users_update_password_hash e (u_id u) (hash_password x new) d
       else users_mark_email_verified e (u_id u) (now e)
         (users_update_password_hash e (u_id u) (hash_password x new) d))"
    by (rule reset_password_Inr[OF ok])
  note r' = redeem_Inr[OF r]
  have inv': "db_inv d'" using reset_password_good[of d d x st e token new] inv ok by (simp add: good_def)
  have signed_out: "\<forall>s \<in> set (sessions d'). s_user_id s = u_id u \<longrightarrow> s_revoked_at s \<noteq> None"
    unfolding ss by (rule all_signed_out)
  have spent: "\<forall>t' \<in> set (password_reset_tokens d'). t_user_id t' = u_id u \<longrightarrow> is_spent t'"
    unfolding ts by (rule nothing_outstanding)
  have stored: "\<exists>u' \<in> set (users d'). u_id u' = u_id u \<and> u_password_hash u' = hash_password x new \<and> is_email_verified u'"
    by (rule reset_user_row[OF r'(5) us])
  have others: "\<forall>v \<in> set (users d). u_id v \<noteq> u_id u \<longrightarrow> v \<in> set (users d')"
      "\<forall>s \<in> set (sessions d). s_user_id s \<noteq> u_id u \<longrightarrow> s \<in> set (sessions d')"
    unfolding us ss by (auto simp: users_update_password_hash_def users_mark_email_verified_def intro: update_where_kept)
  have used: "reset_password x st e' token new' (after x st ops d') = (Inl InvalidToken, after x st ops d')"
    for ops e' new'
  proof -
    have "t\<lparr>t_consumed_at := Some (now e)\<rparr> \<in> set (password_reset_tokens d')"
      unfolding ts tokens_revoke_outstanding_def tokens_mark_consumed_def
      by (rule update_where_kept, rule update_where_changed[OF r'(1)]) (simp_all add: tokens_outstanding_def)
    then obtain t' where t': "token_le (t\<lparr>t_consumed_at := Some (now e)\<rparr>) t'"
      "tokens_get_by_hash (hash_token x token) (password_reset_tokens (after x st ops d')) = Some t'"
      using reset_token_successor[OF after_progress[OF inv'], of x st ops "t\<lparr>t_consumed_at := Some (now e)\<rparr>"]
        after_inv[OF inv', of x st ops] r'(2) by (auto simp: db_inv_def)
    have "is_spent t'" using t'(1) unfolding token_le_def by (simp add: is_spent_def)
    with t'(2) show ?thesis by (rule spent_token_refused)
  qed
  have account: "\<exists>u \<in> set (users d). u_id u = t_user_id t \<and> can_sign_in u" using r'(5-7) by blast
  note facts = signed_out spent stored others
  show ?thesis
    by (rule bexI[OF _ r'(1)], intro conjI; (intro allI)?)
      (fact r'(2-4) account used facts[unfolded r'(6)])+
qed

definition reset_db :: db where
  "reset_db = session_db\<lparr>password_reset_tokens := [\<lparr>t_id = 4, t_user_id = 1, t_token_hash = ''#link'',
     t_expires_at = 1000, t_consumed_at = None, t_revoked_at = None, t_created_at = 0\<rparr>]\<rparr>"

lemma reset_db_inv: "db_inv reset_db"
  using session_db_inv
  by (simp add: reset_db_def db_inv_def accounts_inv_def tenancy_inv_def users_ok_def sessions_ok_def
      organizations_ok_def memberships_ok_def invitations_ok_def audit_ok_def owners_kept_def
      tokens_ok_def token_row_ok_def unique_on_def memberships_count_owners_def)

lemma strong_password:
  "password_validate sample_ext (policy sample_settings) ''battery staple'' (Some ''ann@x.org'') = Inr ()"
  by code_simp

theorem password_reset_effect_witness:
  "\<exists>m d'. reset_password sample_ext sample_settings (sample_env 10 5 ''n'') ''link'' ''battery staple'' reset_db =
       (Inr m, d') \<and>
     (\<forall>s \<in> set (sessions d'). s_user_id s = 1 \<longrightarrow> s_revoked_at s \<noteq> None)"
proof -
  obtain m d' where r: "reset_password sample_ext sample_settings (sample_env 10 5 ''n'') ''link''
      ''battery staple'' reset_db = (Inr m, d')"
    using strong_password
    by (simp add: reset_password_def MAX_TOKEN_LENGTH_def transaction_def redeem_def reset_db_def session_db_def
        sample_db_def empty_db_def sample_user_def sample_env_def tokens_get_by_hash_def require_some_def ensure_def
        is_spent_def users_get_def can_sign_in_def audit_record_def AuditEvent_def Let_def
        case_prod_unfold) (simp add: sample_ext_def)
  have "t_user_id t = 1" if "t \<in> set (password_reset_tokens reset_db)" for t using that by (simp add: reset_db_def)
  with password_reset_effect[OF reset_db_inv r] r show ?thesis by metis
qed

lemma delete_account_Inr:
  assumes "delete_account x e i password d = (Inr r, d')"
  obtains u d1 where "users_get i d = Some u" "can_sign_in u" "verify_password x (u_password_hash u) password"
    "release_memberships e i (now e) d = Inr d1" "memberships d' = memberships d1"
    "users d' = update_where (\<lambda>u. u_id u = i)
       (\<lambda>u. u\<lparr>u_status := DELETED, u_deleted_at := Some (now e), u_email := tombstone_email i,
              u_name := DELETED_USER_NAME, u_password_hash := UNUSABLE_PASSWORD_HASH,
              u_avatar_url := None, u_email_verified_at := None, u_updated_at := db_now e\<rparr>) (users d1)"
proof -
  obtain u d1 d2 where u: "users_get i d = Some u" "can_sign_in u" "verify_password x (u_password_hash u) password"
    and d1: "release_memberships e (u_id u) (now e) d = Inr d1"
    and d2: "users_soft_delete e (u_id u) (tombstone_email (u_id u)) DELETED_USER_NAME
      UNUSABLE_PASSWORD_HASH (now e) d1 = Inr d2"
    using assms unfolding delete_account_def transaction_Inr by (auto simp: outcome_simps)
  have i: "u_id u = i" using u(1) by (auto simp: users_get_def dest: find_Some_mem)
  show thesis
    using assms u d1 d2 unfolding delete_account_def transaction_Inr
    by (intro that[OF u d1[unfolded i]]) (auto simp: i require_some_def ensure_def audit_record_def AuditEvent_def
        sessions_revoke_all_for_user_def users_soft_delete_def Let_def split: if_splits)
qed

text \<open>
  C7.  Account deletion is final: the account has no membership left and its row is scrubbed (the
  address, name and password hash are replaced, the avatar and the verification are gone), and
  after every history of further calls no session of the account is accepted, its password cannot
  be changed and it cannot be deleted again.
\<close>

theorem deleted_accounts_stay_deleted:
  assumes inv: "db_inv d" and ok: "delete_account x e i password d = (Inr r, d')"
  shows "(\<forall>m \<in> set (memberships d'). m_user_id m \<noteq> i) \<and>
    (\<exists>u' \<in> set (users d'). u_id u' = i \<and> u_status u' = DELETED \<and> u_deleted_at u' = Some (now e) \<and>
       u_email u' = tombstone_email i \<and> u_name u' = DELETED_USER_NAME \<and>
       u_password_hash u' = UNUSABLE_PASSWORD_HASH \<and> u_avatar_url u' = None \<and> u_email_verified_at u' = None) \<and>
    (\<forall>ops e' sid old new.
       authenticate e' sid i (run_calls (perform x st) ops d') = Inl SessionRevoked \<and>
       fst (change_password x st e' i sid old new (run_calls (perform x st) ops d')) = Inl IncorrectPassword \<and>
       fst (delete_account x e' i old (run_calls (perform x st) ops d')) = Inl SessionRevoked)"
proof -
  obtain u d1 where u: "users_get i d = Some u" and rel: "release_memberships e i (now e) d = Inr d1"
    and ms: "memberships d' = memberships d1"
    and us: "users d' = update_where (\<lambda>u. u_id u = i)
       (\<lambda>u. u\<lparr>u_status := DELETED, u_deleted_at := Some (now e), u_email := tombstone_email i,
              u_name := DELETED_USER_NAME, u_password_hash := UNUSABLE_PASSWORD_HASH,
              u_avatar_url := None, u_email_verified_at := None, u_updated_at := db_now e\<rparr>) (users d1)"
    using delete_account_Inr[OF ok] by metis
  have same: "users d1 = users d"
    using release_same_accounts rel by (auto simp: release_memberships_def same_accounts_def)
  obtain u' where u': "u' \<in> set (users d')" "u_id u' = i" "u_status u' = DELETED" "u_deleted_at u' = Some (now e)"
    "u_email u' = tombstone_email i" "u_name u' = DELETED_USER_NAME" "u_password_hash u' = UNUSABLE_PASSWORD_HASH"
    "u_avatar_url u' = None" "u_email_verified_at u' = None"
  proof -
    have "u \<in> set (users d)" "u_id u = i" using u by (auto simp: users_get_def dest!: find_Some_mem)
    then have "u\<lparr>u_status := DELETED, u_deleted_at := Some (now e), u_email := tombstone_email i,
        u_name := DELETED_USER_NAME, u_password_hash := UNUSABLE_PASSWORD_HASH, u_avatar_url := None,
        u_email_verified_at := None, u_updated_at := db_now e\<rparr> \<in> set (users d')"
      unfolding us same by (rule update_where_changed)
    then show thesis by (rule that) (simp_all add: \<open>u_id u = i\<close>)
  qed
  have inv': "db_inv d'" using delete_account_good[of d d x e i password] inv ok by (simp add: good_def)
  have "m_user_id m \<noteq> i" if "m \<in> set (memberships d')" for m
    using that rel by (auto simp: ms release_memberships_def release_decided_def Let_def outcome_simps
        memberships_delete_all_for_user_def set_delete_where split: if_splits)
  moreover have "authenticate e' sid i (after x st ops d') = Inl SessionRevoked \<and>
       fst (change_password x st e' i sid old new (after x st ops d')) = Inl IncorrectPassword \<and>
       fst (delete_account x e' i old (after x st ops d')) = Inl SessionRevoked" for ops e' sid old new
  proof -
    obtain v where v: "users_get i (after x st ops d') = Some v" "\<not> can_sign_in v"
      using user_successor[OF after_progress[OF inv'] _ u'(1)] after_inv[OF inv'] u'(2,3)
      by (metis db_inv_def user_le_def can_sign_in_def user_status.distinct(3))
    show ?thesis
      using v by (simp add: authenticate_def change_password_def delete_account_def require_some_def
          ensure_def transaction_def split: option.splits)
  qed
  ultimately show ?thesis using u' by blast
qed

theorem deleted_accounts_stay_deleted_witness:
  "authenticate (sample_env 99 3 ''q'') 9 1
     (run_calls (perform sample_ext sample_settings) []
       (snd (delete_account sample_ext (sample_env 10 5 ''n'') 1 ''correct horse'' session_db))) =
   Inl SessionRevoked"
proof -
  let ?r = "delete_account sample_ext (sample_env 10 5 ''n'') 1 ''correct horse'' session_db"
  have "py_lower ''bob@x.org'' \<noteq> py_lower (CHR ''d'' # s)" for s
    by (simp add: py_lower_def lower_char_def is_upper_ascii_def)
  then obtain d' where r: "?r = (Inr (), d')"
    by (simp add: delete_account_def transaction_def session_db_def sample_simps users_get_def require_some_def
        ensure_def can_sign_in_def verify_password_def release_memberships_def release_decided_def
        memberships_owned_by_def memberships_list_for_user_def users_soft_delete_def tombstone_email_def
        audit_record_def AuditEvent_def Let_def memberships_delete_all_for_user_def)
  from deleted_accounts_stay_deleted[OF session_db_inv r] show ?thesis unfolding r snd_conv by blast
qed

section \<open>Members\<close>

lemma audit_frame:
  assumes "audit_record e (AuditEvent a ac org rt ri meta) d = Inr d'"
  shows "organizations d' = organizations d \<and> memberships d' = memberships d \<and> invitations d' = invitations d"
  using audit_record_Inr[OF assms] by simp

definition team_db :: db where
  "team_db = session_db\<lparr>
     organizations := [\<lparr>o_id = 7, o_name = ''Acme'', o_created_at = 0, o_updated_at = 0, o_deleted_at = None\<rparr>],
     memberships :=
       [\<lparr>m_id = 71, m_organization_id = 7, m_user_id = 2, m_role = OWNER, m_created_at = 0\<rparr>,
        \<lparr>m_id = 72, m_organization_id = 7, m_user_id = 3, m_role = VIEWER, m_created_at = 0\<rparr>],
     invitations := [\<lparr>i_id = 80, i_organization_id = 7, i_email = ''ann@x.org'', i_role = MEMBER,
       i_token_hash = ''#inv'', i_invited_by_user_id = Some 2, i_accepted_by_user_id = None,
       i_expires_at = 1000, i_accepted_at = None, i_revoked_at = None, i_created_at = 0\<rparr>]\<rparr>"

lemma team_db_inv: "db_inv team_db"
  using session_db_inv
  by (simp add: team_db_def db_inv_def accounts_inv_def tenancy_inv_def users_ok_def sessions_ok_def
      organizations_ok_def memberships_ok_def invitations_ok_def audit_ok_def owners_kept_def
      invitation_row_ok_def unique_on_def memberships_count_owners_def count_where_def is_owner_of_def)

lemmas team_simps = team_db_def session_db_def sample_simps transaction_def lock_and_load_def
  organizations_lock_active_def organizations_get_active_def organization_live_def
  memberships_get_for_user_def memberships_get_def member_of_def require_some_def ensure_def
  membership_checks outranks_def memberships_count_owners_def count_where_def is_owner_of_def
  has_permission_def permission_lists audit_record_def AuditEvent_def Let_def

text \<open>
  C8.  A role change happens only in a live organization, on behalf of a member of it with the
  permission to change roles who outranks both the old and the new role and is not the target, and
  it never demotes the last owner.  It sets the target's role and touches no other membership, no
  other organization, no invitation and no account.
\<close>

theorem role_change_authorized_and_confined:
  assumes inv: "db_inv d" and ok: "change_role e org actor_user member role d = (Inr t', d')"
  shows "\<exists>actor \<in> set (memberships d). \<exists>target \<in> set (memberships d).
    organizations_lock_active org d \<and> member_of org actor_user actor \<and>
    m_id target = member \<and> m_organization_id target = org \<and> m_id actor \<noteq> member \<and>
    m_role actor \<in> {OWNER, ADMIN} \<and> outranks (m_role actor) (m_role target) \<and>
    outranks (m_role actor) role \<and>
    (m_role target = OWNER \<and> role \<noteq> OWNER \<longrightarrow> 1 < memberships_count_owners org d) \<and>
    t' = target\<lparr>m_role := role\<rparr> \<and>
    memberships d' = update_where (\<lambda>m. m_id m = member) (\<lambda>m. m\<lparr>m_role := role\<rparr>) (memberships d) \<and>
    organizations d' = organizations d \<and> invitations d' = invitations d \<and> same_accounts d d'"
proof -
  obtain actor target where l: "lock_and_load org actor_user member d = Inr (actor, target)"
    and c: "check_role_change (m_role actor) (m_role target) role (m_id actor = m_id target)
      (memberships_count_owners org d) = Inr ()"
    using ok unfolding change_role_def transaction_Inr by (auto simp: outcome_simps)
  note l' = lock_and_load_Inr[OF l]
  have u: "unique_on (\<lambda>_. True) m_id (memberships d)"
    using inv by (simp add: db_inv_def tenancy_inv_def memberships_ok_def)
  have find: "List.find (\<lambda>m. m_id m = member) (memberships d) = Some target"
    using find_unique[OF u l'(4)] l'(6) by simp
  have same: "update_where (\<lambda>m. m_id m = member) (\<lambda>m. m\<lparr>m_role := role\<rparr>) (memberships d) = memberships d"
    if "m_role target = role"
  proof -
    have "m\<lparr>m_role := role\<rparr> = m" if "m \<in> set (memberships d)" "m_id m = member" for m
      using unique_on_same_key[OF u that(1) l'(4)] that(2) l'(6) \<open>m_role target = role\<close> by auto
    then show ?thesis unfolding update_where_def by (intro map_idI) auto
  qed
  have eff: "t' = target\<lparr>m_role := role\<rparr> \<and>
      memberships d' = update_where (\<lambda>m. m_id m = member) (\<lambda>m. m\<lparr>m_role := role\<rparr>) (memberships d) \<and>
      organizations d' = organizations d \<and> invitations d' = invitations d"
  proof (cases "m_role target = role")
    case True
    then show ?thesis using ok l c same unfolding change_role_def transaction_Inr by auto
  next
    case False
    then show ?thesis
      using ok l c l'(6) find unfolding change_role_def transaction_Inr
      by (auto simp: outcome_simps memberships_update_role_def dest!: audit_frame)
  qed
  have "same_accounts d d'" using change_role_same_accounts[of d e org actor_user member role] ok by simp
  with eff l' c show ?thesis
    by (intro bexI[of _ actor] bexI[of _ target])
      (auto simp: check_role_change_def managers_are_admins member_of_def split: if_splits)
qed

theorem role_change_authorized_and_confined_witness:
  "\<exists>t' d'. change_role (sample_env 5 6 ''n'') 7 2 72 ADMIN team_db = (Inr t', d') \<and> m_role t' = ADMIN"
proof -
  obtain t' d' where r: "change_role (sample_env 5 6 ''n'') 7 2 72 ADMIN team_db = (Inr t', d')"
    by (simp add: change_role_def memberships_update_role_def team_simps)
  from role_change_authorized_and_confined[OF team_db_inv r] have "m_role t' = ADMIN" by auto
  with r show ?thesis by blast
qed

text \<open>
  C9.  Removing a member: the member leaves on their own, or someone with the permission who
  outranks them removes them; the last owner never goes.  Exactly that membership disappears.
\<close>

theorem removal_authorized_and_confined:
  assumes inv: "db_inv d" and ok: "remove_member e org actor_user member d = (Inr r, d')"
  shows "\<exists>actor \<in> set (memberships d). \<exists>target \<in> set (memberships d).
    organizations_lock_active org d \<and> member_of org actor_user actor \<and>
    m_id target = member \<and> m_organization_id target = org \<and>
    (m_id actor = member \<or> m_role actor \<in> {OWNER, ADMIN} \<and> outranks (m_role actor) (m_role target)) \<and>
    (m_role target = OWNER \<longrightarrow> 1 < memberships_count_owners org d) \<and>
    set (memberships d') = set (memberships d) - {target} \<and>
    organizations d' = organizations d \<and> invitations d' = invitations d \<and> same_accounts d d'"
proof -
  obtain actor target where l: "lock_and_load org actor_user member d = Inr (actor, target)"
    and c: "check_removal (m_role actor) (m_role target) (m_id actor = m_id target)
      (memberships_count_owners org d) = Inr ()"
    using ok unfolding remove_member_def transaction_Inr by (auto simp: outcome_simps)
  note l' = lock_and_load_Inr[OF l]
  have only: "m = target" if "m \<in> set (memberships d)" "m_id m = member" for m
    using unique_on_same_key[of m_id, OF _ that(1) l'(4)] that(2) l'(6) inv
    by (simp add: db_inv_def tenancy_inv_def memberships_ok_def)
  have eff: "memberships d' = delete_where (\<lambda>m. m_id m = member) (memberships d) \<and>
      organizations d' = organizations d \<and> invitations d' = invitations d"
    using ok l c l'(6) unfolding remove_member_def transaction_Inr
    by (auto simp: outcome_simps memberships_delete_def dest!: audit_frame)
  have "set (memberships d') = set (memberships d) - {target}"
  proof -
    have "set (memberships d') = {m \<in> set (memberships d). m_id m \<noteq> member}"
      by (simp add: eff set_delete_where)
    then show ?thesis using only l'(6) by blast
  qed
  moreover have "same_accounts d d'"
    using remove_member_same_accounts[of d e org actor_user member] ok by simp
  moreover have "m_id actor = member \<or> m_role actor \<in> {OWNER, ADMIN} \<and> outranks (m_role actor) (m_role target)"
    "m_role target = OWNER \<longrightarrow> 1 < memberships_count_owners org d"
    using c l'(6) by (auto simp: check_removal_def managers_are_admins split: if_splits)
  ultimately show ?thesis
    using eff l' by (intro bexI[of _ actor] bexI[of _ target] conjI) (simp_all add: member_of_def)
qed

theorem removal_authorized_and_confined_witness:
  "\<exists>d'. remove_member (sample_env 5 6 ''n'') 7 2 72 team_db = (Inr (), d') \<and>
     set (memberships d') \<subset> set (memberships team_db)"
proof -
  obtain d' where r: "remove_member (sample_env 5 6 ''n'') 7 2 72 team_db = (Inr (), d')"
    by (simp add: remove_member_def memberships_delete_def team_simps)
  from removal_authorized_and_confined[OF team_db_inv r]
  have "set (memberships d') \<subset> set (memberships team_db)" by blast
  with r show ?thesis by blast
qed

section \<open>Invitations\<close>

lemma memberships_add_Inr:
  assumes "memberships_add e org u role d = Inr (m, d1)"
  shows "m_organization_id m = org" "m_user_id m = u" "m_role m = role" "memberships d1 = memberships d @ [m]"
    "organizations d1 = organizations d" "invitations d1 = invitations d"
  using assms by (auto simp: memberships_add_def Let_def split: if_splits)

lemma joined:
  assumes "organizations_lock_active org d" "memberships_get_for_user org u d = None"
    and add: "memberships_add e org u role d = Inr (m, d1)"
    and "organizations d3 = organizations d" "memberships d3 = memberships d1"
  obtains xo where "memberships_get_in_active_organization org u d3 = Some (xo, m)" "o_id xo = org"
    "m_organization_id m = org" "m_user_id m = u" "m_role m = role" "memberships d1 = memberships d @ [m]"
    "organizations d1 = organizations d" "invitations d1 = invitations d"
proof -
  note m = memberships_add_Inr[OF add]
  obtain xo where xo: "organizations_get_active org d = Some xo"
    using assms(1) by (auto simp: organizations_lock_active_def)
  have "o_id xo = org"
    using xo by (auto simp: organizations_get_active_def organization_live_def dest: find_Some_mem)
  moreover have "memberships_get_in_active_organization org u d3 = Some (xo, m)"
    using xo assms(2,4,5) m
    by (simp add: memberships_get_in_active_organization_def organizations_get_active_def
        memberships_get_for_user_def find_append_None member_of_def)
  ultimately show thesis using that m by blast
qed

lemma accept_invitation_Inr:
  assumes ok: "accept_invitation x e user token d = (Inr j, d')"
  obtains i d1 d2 where "is_email_verified user" "token \<noteq> []" "length token \<le> MAX_TOKEN_LENGTH"
    "invitations_get_by_hash (hash_token x token) d = Some i" "is_pending i" "now e < i_expires_at i"
    "organizations_lock_active (i_organization_id i) d" "u_email user = i_email i"
    "memberships_get_for_user (i_organization_id i) (u_id user) d = None"
    "memberships_add e (i_organization_id i) (u_id user) (i_role i) d = Inr (snd j, d1)"
    "organizations d' = organizations d1" "memberships d' = memberships d1"
    "invitations d' = invitations (invitations_mark_accepted (i_id i) (u_id user) (now e) d1)"
    "o_id (fst j) = i_organization_id i"
proof -
  have c: "is_email_verified user" "\<not> (token = [] \<or> length token > MAX_TOKEN_LENGTH)"
    using ok by (auto simp: accept_invitation_def split: if_splits)
  obtain i m d1 d3 where i: "invitations_get_by_hash (hash_token x token) d = Some i" "is_pending i"
      "now e < i_expires_at i" "organizations_lock_active (i_organization_id i) d"
      "u_email user = i_email i" "memberships_get_for_user (i_organization_id i) (u_id user) d = None"
    and add: "memberships_add e (i_organization_id i) (u_id user) (i_role i) d = Inr (m, d1)"
    and aud: "audit_record e
          (AuditEvent MEMBER_INVITATION_ACCEPTED (Some (u_id user)) (Some (i_organization_id i))
             (Some ''invitation'') (Some (i_id i)) [(''role'', MText (role_value (i_role i)))])
          (invitations_mark_accepted (i_id i) (u_id user) (now e) d1) = Inr d'"
    and j: "memberships_get_in_active_organization (i_organization_id i) (u_id user) d' = Some j"
    using ok c(1) unfolding accept_invitation_def if_not_P[OF c(2)]
    by (auto simp: transaction_Inr outcome_simps Let_def not_le)
  note f = audit_frame[OF aud]
  have fr: "organizations d' = organizations d1" "memberships d' = memberships d1"
    "invitations d' = invitations (invitations_mark_accepted (i_id i) (u_id user) (now e) d1)"
    using f by (simp_all add: invitations_mark_accepted_def)
  have "organizations d1 = organizations d"
    by (rule memberships_add_Inr[OF add])
  with fr obtain xo where "memberships_get_in_active_organization (i_organization_id i) (u_id user) d' = Some (xo, m)"
    "o_id xo = i_organization_id i"
    using joined[OF i(4,6) add, of d'] by metis
  with j c i add fr show thesis by (intro that[of i d1]) auto
qed

lemma accept_invitation_no_assertion:
  "fst (accept_invitation x e user token d) \<noteq> Inl AssertionError"
proof
  assume bad: "fst (accept_invitation x e user token d) = Inl AssertionError"
  then have c: "is_email_verified user" "\<not> (token = [] \<or> length token > MAX_TOKEN_LENGTH)"
    by (auto simp: accept_invitation_def split: if_splits)
  have adds: "memberships_add e org u role d \<noteq> Inl AssertionError" for org u role
    by (simp add: memberships_add_def Let_def)
  have auds: "audit_record e (AuditEvent a ac org rt ri meta) d'' \<noteq> Inl AssertionError" for a ac org rt ri meta d''
    by (simp add: audit_record_def AuditEvent_def)
  from bad obtain i :: invitation and m d1 d3 where i: "organizations_lock_active (i_organization_id i) d"
      "memberships_get_for_user (i_organization_id i) (u_id user) d = None"
    and add: "memberships_add e (i_organization_id i) (u_id user) (i_role i) d = Inr (m, d1)"
    and aud: "audit_record e
          (AuditEvent MEMBER_INVITATION_ACCEPTED (Some (u_id user)) (Some (i_organization_id i))
             (Some ''invitation'') (Some (i_id i)) [(''role'', MText (role_value (i_role i)))])
          (invitations_mark_accepted (i_id i) (u_id user) (now e) d1) = Inr d3"
    and n: "memberships_get_in_active_organization (i_organization_id i) (u_id user) d3 = None"
    using c(1) unfolding accept_invitation_def if_not_P[OF c(2)]
    by (auto simp: fst_transaction_Inl outcome_simps Let_def adds auds)
  note f = audit_frame[OF aud]
  have "organizations d1 = organizations d"
    by (rule memberships_add_Inr[OF add])
  moreover have "organizations d3 = organizations d1" "memberships d3 = memberships d1"
    using f by (simp_all add: invitations_mark_accepted_def)
  ultimately obtain xo where
    "memberships_get_in_active_organization (i_organization_id i) (u_id user) d3 = Some (xo, m)"
    using joined[OF i add, of d3] by metis
  with n show False by simp
qed

text \<open>
  C10.  Accepting an invitation: it succeeds only with an unexpired, pending invitation of a live
  organization, addressed to the verified email of the account, and gives the account exactly the
  invited role there.  The link is then used up.
\<close>

theorem accept_invitation_correct:
  assumes inv: "db_inv d" and ok: "accept_invitation x e user token d = (Inr j, d')"
  shows "is_email_verified user \<and>
    (\<exists>i \<in> set (invitations d). i_token_hash i = hash_token x token \<and> is_pending i \<and>
       now e < i_expires_at i \<and> i_email i = u_email user \<and>
       organizations_lock_active (i_organization_id i) d \<and>
       m_organization_id (snd j) = i_organization_id i \<and> m_user_id (snd j) = u_id user \<and>
       m_role (snd j) = i_role i \<and> memberships d' = memberships d @ [snd j]) \<and>
    organizations d' = organizations d \<and> same_accounts d d' \<and>
    (\<forall>e' user'. is_email_verified user' \<longrightarrow>
       accept_invitation x e' user' token d' = (Inl InvalidInvitation, d'))"
proof -
  obtain i d1 where i: "is_email_verified user" "token \<noteq> []" "length token \<le> MAX_TOKEN_LENGTH"
    "invitations_get_by_hash (hash_token x token) d = Some i" "is_pending i" "now e < i_expires_at i"
    "organizations_lock_active (i_organization_id i) d" "u_email user = i_email i"
    "memberships_get_for_user (i_organization_id i) (u_id user) d = None"
    and add: "memberships_add e (i_organization_id i) (u_id user) (i_role i) d = Inr (snd j, d1)"
    and f: "organizations d' = organizations d1" "memberships d' = memberships d1"
    "invitations d' = invitations (invitations_mark_accepted (i_id i) (u_id user) (now e) d1)"
    by (rule accept_invitation_Inr[OF ok])
  note m = memberships_add_Inr[OF add]
  have mem: "i \<in> set (invitations d)" "i_token_hash i = hash_token x token"
    using i(4) by (auto simp: invitations_get_by_hash_def dest: find_Some_mem)
  let ?f = "\<lambda>x. x\<lparr>i_accepted_at := Some (now e), i_accepted_by_user_id := Some (u_id user)\<rparr>"
  have inv': "unique_on (\<lambda>_. True) i_token_hash (invitations d')"
    using accept_invitation_tenancy[of d x e user token] inv ok
    by (simp add: db_inv_def tenancy_inv_def invitations_ok_def)
  have "?f i \<in> set (invitations d')"
    unfolding f(3) invitations_mark_accepted_def using update_where_changed[OF mem(1), of "\<lambda>x. i_id x = i_id i" ?f]
    by (simp add: m(6))
  from find_unique[OF inv' this] have "invitations_get_by_hash (hash_token x token) d' = Some (?f i)"
    by (simp add: invitations_get_by_hash_def mem(2))
  then have "accept_invitation x e' user' token d' = (Inl InvalidInvitation, d')"
    if "is_email_verified user'" for e' user'
    using that i(2,3) by (simp add: accept_invitation_def require_some_def ensure_def transaction_def is_pending_def)
  moreover have "same_accounts d d'"
    using accept_invitation_same_accounts[of d x e user token] ok by simp
  ultimately show ?thesis using i m mem f by auto
qed

theorem accept_invitation_correct_witness:
  "\<exists>j d'. accept_invitation sample_ext (sample_env 5 6 ''n'') (sample_user 1) ''inv'' team_db = (Inr j, d') \<and>
     accept_invitation sample_ext (sample_env 9 9 ''m'') (sample_user 2) ''inv'' d' = (Inl InvalidInvitation, d')"
proof -
  obtain j d' where r: "accept_invitation sample_ext (sample_env 5 6 ''n'') (sample_user 1) ''inv'' team_db =
      (Inr j, d')"
    by (simp add: accept_invitation_def is_email_verified_def MAX_TOKEN_LENGTH_def invitations_get_by_hash_def
        is_pending_def memberships_add_def invitations_mark_accepted_def
        memberships_get_in_active_organization_def team_simps)
  have "is_email_verified (sample_user 2)" by (simp add: sample_user_def is_email_verified_def)
  with accept_invitation_correct[OF team_db_inv r] r show ?thesis by blast
qed

text \<open>
  C11.  The assertion that an accepted membership can be read back never fails: for no input and no
  state of the database does accepting an invitation end in \<open>AssertionError\<close>.
\<close>

theorem accept_invitation_never_asserts:
  "fst (accept_invitation x e user token d) \<noteq> Inl AssertionError"
  by (rule accept_invitation_no_assertion)

section \<open>Signing in and registering\<close>

text \<open>
  C12.  Signing in: it succeeds exactly when the address belongs to an account that may sign in and
  whose password verifies (and the id drawn for the session is new), and then opens a session of
  that account that carries the hash of the returned secret and expires \<open>refresh_ttl\<close> later.
  A refused attempt opens no session and changes no account.
\<close>

theorem login_exact:
  assumes "normalize_email x email = Inr addr" and "addr \<noteq> []"
    and "\<forall>s \<in> set (sessions d). s_id s \<noteq> new_id e"
  shows "(case users_get_by_email addr d of
      None \<Rightarrow> login x st e email password d = (Inl InvalidCredentials, d)
    | Some u \<Rightarrow>
        if \<not> verify_password x (u_password_hash u) password
        then fst (login x st e email password d) = Inl InvalidCredentials \<and>
             same_accounts d (snd (login x st e email password d))
        else if \<not> can_sign_in u
        then fst (login x st e email password d) = Inl AccountDisabled \<and>
             same_accounts d (snd (login x st e email password d))
        else \<exists>si. fst (login x st e email password d) = Inr si \<and> si_user si = u \<and>
             sessions (snd (login x st e email password d)) = sessions d @ [si_session si] \<and>
             s_user_id (si_session si) = u_id u \<and> s_revoked_at (si_session si) = None \<and>
             s_refresh_token_hash (si_session si) = hash_token x (new_secret e) \<and>
             s_expires_at (si_session si) = now e + refresh_ttl st \<and>
             si_refresh_token si = format_refresh_token (s_id (si_session si)) (new_secret e))"
proof -
  have c: "\<not> (\<exists>s \<in> set (sessions d'). s_id s = new_id e)"
    if "sessions d' = sessions d" for d' using that assms(3) by simp
  show ?thesis
    using assms(1,2) c[of d] c[of "users_update_password_hash e i h d" for i h]
    by (auto simp: login_def raise_after_def transaction_def Let_def audit_record_def AuditEvent_def
        same_accounts_def sessions_add_def users_update_password_hash_def split: option.splits)
qed

theorem login_exact_witness:
  "\<exists>si. fst (login sample_ext sample_settings (sample_env 5 6 ''n'') ''ann@x.org'' ''correct horse'' session_db) =
     Inr si \<and> s_user_id (si_session si) = 1"
proof -
  have e: "normalize_email sample_ext ''ann@x.org'' = Inr ''ann@x.org''" by code_simp
  have u: "users_get_by_email ''ann@x.org'' session_db = Some (sample_user 1)" by code_simp
  from login_exact[OF e, of session_db "sample_env 5 6 ''n''" sample_settings "''correct horse''"] u
  show ?thesis
    by (auto simp: session_db_def sample_session_def sample_env_def verify_password_def sample_ext_def
        sample_user_def can_sign_in_def)
qed

text \<open>
  C13.  Registering an address that already has an account, in whatever case it is written, never
  creates one: no user is returned and nothing changes, except where the account may sign in, its
  address is not verified and no verification was sent within the cooldown; then its verification
  link is replaced by a new one.  The mail is the only answer that depends on the account: to a
  verified one that it exists, else the new link, else none.
\<close>

theorem registering_an_existing_address:
  assumes "normalize_email x email = Inr addr" and "normalize_name name = Inr clean"
    and "password_validate x (policy st) password (Some addr) = Inr ()"
    and "\<exists>u \<in> set (users d). py_lower (u_email u) = py_lower addr"
    and "\<forall>t \<in> set (email_verification_tokens d).
      t_token_hash t \<noteq> hash_token x (new_secret e) \<and> t_id t \<noteq> new_id2 e"
  shows "case users_get_by_email addr d of
      None \<Rightarrow> register x st e email password name d = (Inr (None, None), d)
    | Some u \<Rightarrow>
        if \<not> can_sign_in u then register x st e email password name d = (Inr (None, None), d)
        else if is_email_verified u
        then register x st e email password name d = (Inr (None, Some (SendAccountExists (u_email u) (u_name u))), d)
        else if \<exists>l. tokens_latest_outstanding_created_at (u_id u) (email_verification_tokens d) = Some l \<and>
                    now e - l < resend_cooldown st
        then register x st e email password name d = (Inr (None, None), d)
        else \<exists>t. register x st e email password name d =
            (Inr (None, Some (SendEmailVerification (u_email u) (u_name u) (new_secret e))),
             d\<lparr>email_verification_tokens :=
                 tokens_revoke_outstanding (u_id u) (now e) (email_verification_tokens d) @ [t]\<rparr>) \<and>
            t_user_id t = u_id u \<and> t_token_hash t = hash_token x (new_secret e) \<and>
            t_expires_at t = now e + verification_ttl st \<and> \<not> is_spent t"
proof -
  have "users_add e addr clean h d = Inl EmailAlreadyRegistered" for h
    using assms(4) by (auto simp: users_add_def)
  with assms(1-3) have r: "register x st e email password name d =
      (case email_for_existing_account x st e (users_get_by_email addr d) d of
         Inl err \<Rightarrow> (Inl err, d) | Inr (m, d') \<Rightarrow> (Inr (None, m), d'))"
    by (simp add: register_def transaction_def split: sum.splits)
  have "\<not> (\<exists>t \<in> set (tokens_revoke_outstanding i at (email_verification_tokens d)).
      t_token_hash t = hash_token x (new_secret e) \<or> t_id t = new_id2 e)" for i at
    using assms(5) by (auto simp: tokens_revoke_outstanding_def update_where_def)
  then show ?thesis
    unfolding r email_for_existing_account_def issue_verification_def tokens_add_def Let_def
    by (auto simp: is_spent_def split: option.splits)
qed

theorem registering_an_existing_address_witness:
  "register sample_ext sample_settings (sample_env 5 6 ''n'') ''ann@x.org'' ''battery staple'' ''Ann'' session_db =
     (Inr (None, Some (SendAccountExists ''ann@x.org'' ''U'')), session_db)"
proof -
  have "normalize_email sample_ext ''ann@x.org'' = Inr ''ann@x.org''" "normalize_name ''Ann'' = Inr ''Ann''"
    by code_simp+
  moreover have "users_get_by_email ''ann@x.org'' session_db = Some (sample_user 1)" by code_simp
  ultimately show ?thesis
    using registering_an_existing_address[OF _ _ strong_password, of "''ann@x.org''" "''Ann''" "''Ann''" session_db
        "sample_env 5 6 ''n''"]
    by (simp add: session_db_def sample_db_def empty_db_def sample_user_def can_sign_in_def is_email_verified_def)
qed

section \<open>Two account deletions at once\<close>

definition owners_db :: db where
  "owners_db = session_db\<lparr>
     organizations := [\<lparr>o_id = 7, o_name = ''Acme'', o_created_at = 0, o_updated_at = 0, o_deleted_at = None\<rparr>],
     memberships :=
       [\<lparr>m_id = 71, m_organization_id = 7, m_user_id = 1, m_role = OWNER, m_created_at = 0\<rparr>,
        \<lparr>m_id = 72, m_organization_id = 7, m_user_id = 2, m_role = OWNER, m_created_at = 0\<rparr>,
        \<lparr>m_id = 73, m_organization_id = 7, m_user_id = 3, m_role = VIEWER, m_created_at = 0\<rparr>]\<rparr>"

lemma owners_db_inv: "db_inv owners_db"
  using session_db_inv
  by (simp add: owners_db_def db_inv_def accounts_inv_def tenancy_inv_def users_ok_def sessions_ok_def
      organizations_ok_def memberships_ok_def invitations_ok_def audit_ok_def owners_kept_def
      unique_on_def memberships_count_owners_def count_where_def is_owner_of_def)

text \<open>
  C14.  \<open>release_memberships\<close> reads its owner and member counts before it locks the
  organizations and does not read them again.  When the two owners of an organization delete their
  accounts at the same time, so that both reads happen before either commit, both deletions go
  through and the organization is left live, with a member and no owner; read again under the lock,
  the second deletion would have been refused.
\<close>

theorem concurrent_deletions_orphan_an_organization:
  "\<exists>d d1 d2 e. db_inv d \<and>
     release_decided (memberships_owned_by 1 d) e 1 (now e) d = Inr d1 \<and>
     release_decided (memberships_owned_by 2 d) e 2 (now e) d1 = Inr d2 \<and>
     (\<exists>x \<in> set (organizations d2). o_deleted_at x = None \<and> memberships_count_owners (o_id x) d2 = 0 \<and>
        (\<exists>m \<in> set (memberships d2). m_organization_id m = o_id x)) \<and>
     release_memberships e 2 (now e) d1 = Inl (SoleOwnerOfOrganization [7])"
proof -
  let ?e = "sample_env 10 5 ''n''"
  note simps = release_decided_def release_memberships_def memberships_owned_by_def memberships_list_for_user_def
    owners_db_def session_db_def sample_db_def empty_db_def sample_env_def organizations_get_active_def
    organization_live_def memberships_count_owners_def count_where_def is_owner_of_def audit_record_def
    AuditEvent_def memberships_delete_all_for_user_def delete_where_def Let_def
  obtain d1 d2 where "release_decided (memberships_owned_by 1 owners_db) ?e 1 (now ?e) owners_db = Inr d1"
    "release_decided (memberships_owned_by 2 owners_db) ?e 2 (now ?e) d1 = Inr d2"
    "\<exists>x \<in> set (organizations d2). o_deleted_at x = None \<and> memberships_count_owners (o_id x) d2 = 0 \<and>
        (\<exists>m \<in> set (memberships d2). m_organization_id m = o_id x)"
    "release_memberships ?e 2 (now ?e) d1 = Inl (SoleOwnerOfOrganization [7])"
    by (simp add: simps)
  then show ?thesis using owners_db_inv by blast
qed

end
