(* ===== verification/IR_Values.thy ===== *)
theory IR_Values
  imports Py_Text
begin

text \<open>
  The value rules of the Architecture IR (core/architecture_ir/values.py and errors.py):
  violations and their canonical order, identifiers, text, exact numbers, metadata and preserved
  JSON.  A check returns the list of violations, in the order the code reports them, with their
  messages.  Values are typed, so the branches that test a value's Python type for arguments the
  type annotations exclude have no counterpart.

  A finite \<open>Decimal\<close> is \<open>Dec c e\<close>, the number \<open>c * 10^e\<close>; negative zero is not
  told apart from zero.  Arithmetic rounds to the 28 significant digits of Python's default
  context, half to even; its exponent limits (around a million) are not modelled.
\<close>

section \<open>Violations\<close>

datatype element_type = ARCHITECTURE | NODE | CONNECTION | ASSUMPTION | DECISION

fun element_value :: "element_type \<Rightarrow> string" where
  "element_value ARCHITECTURE = ''architecture''"
| "element_value NODE = ''node''"
| "element_value CONNECTION = ''connection''"
| "element_value ASSUMPTION = ''assumption''"
| "element_value DECISION = ''decision''"

record violation =
  v_rule :: string
  v_message :: string
  v_field :: "string option"
  v_element :: "element_type option"
  v_element_id :: "string option"

definition Violation :: "string \<Rightarrow> string \<Rightarrow> string option \<Rightarrow> violation" where
  "Violation rule message field =
     \<lparr>v_rule = rule, v_message = message, v_field = field, v_element = None, v_element_id = None\<rparr>"

definition ViolationAt ::
    "string \<Rightarrow> string \<Rightarrow> string option \<Rightarrow> element_type \<Rightarrow> string option \<Rightarrow> violation" where
  "ViolationAt rule message field element element_id =
     \<lparr>v_rule = rule, v_message = message, v_field = field, v_element = Some element,
      v_element_id = element_id\<rparr>"

definition truthy :: "string option \<Rightarrow> bool" where
  "truthy s \<longleftrightarrow> s \<noteq> None \<and> s \<noteq> Some []"

definition within :: "element_type \<Rightarrow> string option \<Rightarrow> string option \<Rightarrow> violation \<Rightarrow> violation" where
  "within element element_id prefix v =
     (if v_element v \<noteq> None then v
      else let field = (if truthy prefix \<and> truthy (v_field v)
                        then Some (the prefix @ ''.'' @ the (v_field v))
                        else if truthy prefix then prefix else v_field v)
           in v\<lparr>v_element := Some element, v_element_id := element_id, v_field := field\<rparr>)"

definition or_empty :: "string option \<Rightarrow> string" where
  "or_empty s = (case s of None \<Rightarrow> [] | Some t \<Rightarrow> t)"

definition violation_key :: "violation \<Rightarrow> string \<times> string \<times> string \<times> string" where
  "violation_key v =
     ((case v_element v of None \<Rightarrow> [] | Some e \<Rightarrow> element_value e),
      or_empty (v_element_id v), or_empty (v_field v), v_rule v)"

text \<open>\<open>dict.fromkeys(xs)\<close>: the distinct elements, in the order of their first occurrence.\<close>

definition from_keys :: "'a list \<Rightarrow> 'a list" where
  "from_keys xs = rev (remdups (rev xs))"

definition ordered :: "violation list \<Rightarrow> violation list" where
  "ordered vs = sort_key violation_key (from_keys vs)"

text \<open>\<open>raise_if\<close>: a constructor's value, or the exception with the violations in canonical order.\<close>

definition raise_if :: "violation list \<Rightarrow> 'a \<Rightarrow> violation list + 'a" where
  "raise_if vs x = (if vs = [] then Inr x else Inl (ordered vs))"

section \<open>Identifiers and text\<close>

definition id_rest :: "char \<Rightarrow> bool" where
  "id_rest c \<longleftrightarrow> is_alnum c \<or> c \<in> set ''._:/-''"

definition ELEMENT_ID :: "string \<Rightarrow> bool" where
  "ELEMENT_ID s = ident_match is_alnum id_rest 127 s"

definition METADATA_KEY :: "string \<Rightarrow> bool" where
  "METADATA_KEY s = ident_match is_lower_ascii (\<lambda>c. is_lower_alnum c \<or> c \<in> set ''_.-'') 63 s"

definition MAX_NODE_NAME_LENGTH :: nat where "MAX_NODE_NAME_LENGTH = 100"
definition MAX_DESCRIPTION_LENGTH :: nat where "MAX_DESCRIPTION_LENGTH = 2000"
definition MAX_METADATA_ENTRIES :: nat where "MAX_METADATA_ENTRIES = 32"
definition MAX_METADATA_VALUE_LENGTH :: nat where "MAX_METADATA_VALUE_LENGTH = 500"
definition MAX_DECIMAL_PLACES :: nat where "MAX_DECIMAL_PLACES = 9"
definition MAX_JSON_DEPTH :: nat where "MAX_JSON_DEPTH = 5"
definition MAX_JSON_STRING :: nat where "MAX_JSON_STRING = 1000"
definition MAX_JSON_ITEMS :: nat where "MAX_JSON_ITEMS = 100"
definition MAX_JSON_INTEGER :: int where "MAX_JSON_INTEGER = 10 ^ 18"

definition BLOCK_CONTROLS :: "char list" where
  "BLOCK_CONTROLS = [CHR 0x0A, CHR 0x09]"

definition id_problems :: "string \<Rightarrow> string \<Rightarrow> violation list" where
  "id_problems v field =
     (if ELEMENT_ID v then []
      else [Violation ''invalid_id''
              (field @ '' must be 1-128 letters, digits or . _ : / - and start with a letter or digit.'')
              (Some field)])"

definition text_problems :: "string option \<Rightarrow> string \<Rightarrow> nat \<Rightarrow> bool \<Rightarrow> bool \<Rightarrow> violation list" where
  "text_problems v field max_length required block =
     (case v of
        None \<Rightarrow> if required then [Violation ''required'' (field @ '' is required.'') (Some field)] else []
      | Some t \<Rightarrow>
          if t = [] \<and> required then [Violation ''required'' (field @ '' is required.'') (Some field)]
          else if length t > max_length
          then [Violation ''too_long''
                  (field @ '' must be at most '' @ nat_str max_length @ '' characters.'') (Some field)]
          else if has_forbidden_characters t (if block then BLOCK_CONTROLS else [])
          then [Violation ''control_characters'' (field @ '' contains control characters.'') (Some field)]
          else [])"

section \<open>Exact numbers\<close>

datatype decimal = Dec int int | Inf bool \<comment> \<open>negative\<close> | NaN

fun is_finite :: "decimal \<Rightarrow> bool" where
  "is_finite (Dec c e) = True"
| "is_finite _ = False"

definition digits :: "int \<Rightarrow> nat" where
  "digits c = length (nat_str (nat \<bar>c\<bar>))"

definition PRECISION :: nat where
  "PRECISION = 28"

text \<open>Rounding to 28 significant digits, half to even.\<close>

definition round_dec :: "int \<Rightarrow> int \<Rightarrow> int \<times> int" where
  "round_dec c e =
     (if digits c \<le> PRECISION then (c, e)
      else let k = digits c - PRECISION; m = 10 ^ k; q = \<bar>c\<bar> div m; r = \<bar>c\<bar> mod m;
               q' = (if 2 * r > m \<or> (2 * r = m \<and> odd q) then q + 1 else q)
           in (sgn c * q', e + int k))"

fun strip_zeros :: "nat \<Rightarrow> int \<Rightarrow> int \<Rightarrow> int \<times> int" where
  "strip_zeros 0 c e = (c, e)"
| "strip_zeros (Suc n) c e = (if c mod 10 = 0 then strip_zeros n (c div 10) (e + 1) else (c, e))"

text \<open>\<open>Decimal.normalize\<close>: rounded, then without trailing zeros; zero has exponent 0.\<close>

fun normalize :: "decimal \<Rightarrow> decimal" where
  "normalize (Dec c e) =
     (if c = 0 then Dec 0 0
      else let (c', e') = round_dec c e; (c'', e'') = strip_zeros (digits c') c' e' in Dec c'' e'')"
| "normalize d = d"

text \<open>\<open>x + 0\<close>: the exponent is brought down to 0 as far as 28 digits allow.\<close>

fun plus_zero :: "decimal \<Rightarrow> decimal" where
  "plus_zero (Dec c e) =
     (if e \<le> 0 then Dec c e
      else let k = min (nat e) (PRECISION - digits c) in Dec (c * 10 ^ k) (e - int k))"
| "plus_zero d = d"

definition canonical_decimal :: "decimal \<Rightarrow> decimal" where
  "canonical_decimal d = plus_zero (normalize d)"

definition decimal_places :: "decimal \<Rightarrow> nat" where
  "decimal_places d =
     (case normalize d of Dec c e \<Rightarrow> if e < 0 then nat (- e) else 0 | _ \<Rightarrow> 0)"

text \<open>
  \<open>c1 * 10^e1 \<le> c2 * 10^e2\<close>, by bringing both to the smaller exponent.  (Python raises
  \<open>InvalidOperation\<close> when a NaN is ordered; the readers of documents never produce one, and
  here the comparison is false.)
\<close>

fun dec_le :: "decimal \<Rightarrow> decimal \<Rightarrow> bool" where
  "dec_le (Dec c1 e1) (Dec c2 e2) \<longleftrightarrow>
     (let m = min e1 e2 in c1 * 10 ^ nat (e1 - m) \<le> c2 * 10 ^ nat (e2 - m))"
| "dec_le (Inf neg) (Dec c e) \<longleftrightarrow> neg"
| "dec_le (Dec c e) (Inf neg) \<longleftrightarrow> \<not> neg"
| "dec_le (Inf neg) (Inf neg') \<longleftrightarrow> neg \<or> \<not> neg'"
| "dec_le _ _ \<longleftrightarrow> False"

fun dec_eq :: "decimal \<Rightarrow> decimal \<Rightarrow> bool" where
  "dec_eq (Dec c1 e1) (Dec c2 e2) \<longleftrightarrow>
     (let m = min e1 e2 in c1 * 10 ^ nat (e1 - m) = c2 * 10 ^ nat (e2 - m))"
| "dec_eq (Inf neg) (Inf neg') \<longleftrightarrow> neg = neg'"
| "dec_eq _ _ \<longleftrightarrow> False"

definition MAX_MAGNITUDE :: decimal where
  "MAX_MAGNITUDE = Dec 1 15"

text \<open>\<open>str(d)\<close> of a decimal.\<close>

fun dec_str :: "decimal \<Rightarrow> string" where
  "dec_str NaN = ''NaN''"
| "dec_str (Inf neg) = (if neg then ''-Infinity'' else ''Infinity'')"
| "dec_str (Dec c e) =
     (let ds = nat_str (nat \<bar>c\<bar>); n = length ds; adj = e + int n - 1;
          body = (if e \<le> 0 \<and> - 6 \<le> adj
                  then (if e = 0 then ds
                        else if int n + e > 0 then take (nat (int n + e)) ds @ ''.'' @ drop (nat (int n + e)) ds
                        else ''0.'' @ replicate (nat (- (int n + e))) (CHR ''0'') @ ds)
                  else (if n = 1 then ds else take 1 ds @ ''.'' @ drop 1 ds) @
                       ''E'' @ (if adj < 0 then ''-'' else ''+'') @ nat_str (nat \<bar>adj\<bar>))
      in (if c < 0 then ''-'' else []) @ body)"

text \<open>\<open>abs\<close> rounds too.\<close>

fun dec_abs :: "decimal \<Rightarrow> decimal" where
  "dec_abs (Dec c e) = (let (c', e') = round_dec \<bar>c\<bar> e in Dec c' e')"
| "dec_abs (Inf _) = Inf False"
| "dec_abs NaN = NaN"

definition exact_number_problems :: "int + decimal \<Rightarrow> string \<Rightarrow> violation list" where
  "exact_number_problems v field =
     (if (case v of Inl _ \<Rightarrow> False | Inr d \<Rightarrow> \<not> is_finite d)
      then [Violation ''not_a_number'' (field @ '' must be a finite number.'') (Some field)]
      else if dec_le MAX_MAGNITUDE (dec_abs (case v of Inl i \<Rightarrow> Dec i 0 | Inr d \<Rightarrow> d))
      then [Violation ''out_of_range'' (field @ '' is too large.'') (Some field)]
      else case v of
             Inl _ \<Rightarrow> []
           | Inr d \<Rightarrow> if decimal_places d > MAX_DECIMAL_PLACES
                      then [Violation ''too_precise''
                              (field @ '' has more than '' @ nat_str MAX_DECIMAL_PLACES @ '' decimal places.'')
                              (Some field)]
                      else [])"

section \<open>Metadata\<close>

text \<open>\<open>dict(sorted(mapping.items()))\<close>; keys are distinct, so the values are never compared.\<close>

definition frozen :: "(string \<times> 'a) list \<Rightarrow> (string \<times> 'a) list" where
  "frozen kvs = sort_key fst kvs"

definition metadata_problems :: "(string \<times> string) list \<Rightarrow> string \<Rightarrow> violation list" where
  "metadata_problems metadata field =
     (if length metadata > MAX_METADATA_ENTRIES
      then [Violation ''too_many''
              (field @ '' has more than '' @ nat_str MAX_METADATA_ENTRIES @ '' entries.'') (Some field)]
      else []) @
     concat (map (\<lambda>(key, v).
       if \<not> METADATA_KEY key
       then [Violation ''invalid_key''
               (field @ '' keys must be lower-case identifiers (e.g. team).'') (Some field)]
       else text_problems (Some v) (field @ ''.'' @ key) MAX_METADATA_VALUE_LENGTH True False) metadata)"

section \<open>Preserved JSON\<close>

text \<open>\<open>JOther\<close> stands for a value of any other type (a float, say), which is refused.\<close>

datatype json =
    JNull
  | JBool bool
  | JInt int
  | JText string
  | JList "json list"
  | JObj "(string \<times> json) list"
  | JOther

fun freeze_json :: "nat \<Rightarrow> json \<Rightarrow> json" where
  "freeze_json depth (JList vs) =
     (if depth > MAX_JSON_DEPTH + 1 then JList vs else JList (map (freeze_json (depth + 1)) vs))"
| "freeze_json depth (JObj kvs) =
     (if depth > MAX_JSON_DEPTH + 1 then JObj kvs
      else JObj (sort_key fst (map (\<lambda>(k, v). (k, freeze_json (depth + 1) v)) kvs)))"
| "freeze_json depth v = v"

fun json_problems :: "json \<Rightarrow> string \<Rightarrow> nat \<Rightarrow> violation list"
  and item_problems :: "json list \<Rightarrow> string \<Rightarrow> nat \<Rightarrow> nat \<Rightarrow> violation list"
  and entry_problems :: "(string \<times> json) list \<Rightarrow> string \<Rightarrow> nat \<Rightarrow> violation list" where
  "json_problems v field depth =
     (if depth > MAX_JSON_DEPTH
      then [Violation ''too_deep''
              (field @ '' is nested more than '' @ nat_str MAX_JSON_DEPTH @ '' levels.'') (Some field)]
      else case v of
        JNull \<Rightarrow> []
      | JBool _ \<Rightarrow> []
      | JInt i \<Rightarrow> if \<bar>i\<bar> < MAX_JSON_INTEGER then []
                   else [Violation ''out_of_range'' (field @ '' is too large.'') (Some field)]
      | JText s \<Rightarrow> text_problems (Some s) field MAX_JSON_STRING False True
      | JList vs \<Rightarrow>
          if length vs > MAX_JSON_ITEMS
          then [Violation ''too_many''
                  (field @ '' has more than '' @ nat_str MAX_JSON_ITEMS @ '' items.'') (Some field)]
          else item_problems vs field 0 (depth + 1)
      | JObj kvs \<Rightarrow>
          if length kvs > MAX_JSON_ITEMS
          then [Violation ''too_many''
                  (field @ '' has more than '' @ nat_str MAX_JSON_ITEMS @ '' items.'') (Some field)]
          else entry_problems kvs field (depth + 1)
      | JOther \<Rightarrow>
          [Violation ''unsupported_value''
             (field @ '' must be text, an integer, true/false, null, a list or an object.'') (Some field)])"
| "item_problems [] field i depth = []"
| "item_problems (v # vs) field i depth =
     json_problems v (field @ ''['' @ nat_str i @ '']'') depth @ item_problems vs field (i + 1) depth"
| "entry_problems [] field depth = []"
| "entry_problems ((k, v) # kvs) field depth =
     (if k = [] \<or> length k > 64
      then [Violation ''invalid_key'' (field @ '' has an invalid key.'') (Some field)]
      else json_problems v (field @ ''.'' @ k) depth) @ entry_problems kvs field depth"

declare json_problems.simps [simp del]

end
