(* ===== verification/IR_Config.thy ===== *)
theory IR_Config
  imports IR_Values
begin

text \<open>
  What nodes and connections are and how they are configured: the node kinds and technologies
  (core/architecture_ir/component.py), the connection kinds (dependency.py), and the typed
  configuration with the specification of every known property (configuration.py).  The tables of
  specifications are transcribed entry by entry.  A Python mapping is the list of its entries with
  distinct keys, a set of names the sorted list of its elements.
\<close>

section \<open>Components\<close>

datatype node_kind =
    CLIENT | CDN | LOAD_BALANCER | GATEWAY | SERVICE | WORKER | DATABASE | CACHE | QUEUE
  | STORAGE | OBSERVABILITY | EXTERNAL | BOUNDARY

fun kind_value :: "node_kind \<Rightarrow> string" where
  "kind_value CLIENT = ''client''"
| "kind_value CDN = ''cdn''"
| "kind_value LOAD_BALANCER = ''load_balancer''"
| "kind_value GATEWAY = ''gateway''"
| "kind_value SERVICE = ''service''"
| "kind_value WORKER = ''worker''"
| "kind_value DATABASE = ''database''"
| "kind_value CACHE = ''cache''"
| "kind_value QUEUE = ''queue''"
| "kind_value STORAGE = ''storage''"
| "kind_value OBSERVABILITY = ''observability''"
| "kind_value EXTERNAL = ''external''"
| "kind_value BOUNDARY = ''boundary''"

definition TECHNOLOGY_NAME :: "string \<Rightarrow> bool" where
  "TECHNOLOGY_NAME s = ident_match is_lower_alnum (\<lambda>c. is_lower_alnum c \<or> c \<in> set ''+._-'') 63 s"

definition TECHNOLOGY_VERSION :: "string \<Rightarrow> bool" where
  "TECHNOLOGY_VERSION s = ident_match is_alnum (\<lambda>c. is_alnum c \<or> c \<in> set ''._+-'') 31 s"

text \<open>One to four path segments, separated by slashes.\<close>

definition COMPONENT_REFERENCE :: "string \<Rightarrow> bool" where
  "COMPONENT_REFERENCE s \<longleftrightarrow>
     length (split_char (CHR ''/'') s) \<le> 4 \<and>
     list_all (ident_match is_lower_alnum (\<lambda>c. is_lower_alnum c \<or> c \<in> set ''_.-'') 63)
       (split_char (CHR ''/'') s)"

record technology =
  tech_name :: string
  tech_version :: "string option"

definition technology_problems :: "technology \<Rightarrow> violation list" where
  "technology_problems t =
     (if \<not> TECHNOLOGY_NAME (tech_name t)
      then [Violation ''invalid_technology''
              ''The technology must be a lower-case identifier, e.g. postgresql or aws-alb.''
              (Some ''name'')] else []) @
     (case tech_version t of
        None \<Rightarrow> []
      | Some v \<Rightarrow> if \<not> TECHNOLOGY_VERSION v
                  then [Violation ''invalid_technology''
                          ''The version must be a short identifier, e.g. 16 or 7.2.'' (Some ''version'')]
                  else [])"

text \<open>\<open>text or None\<close>: the empty text counts as absent.\<close>

definition or_none :: "string \<Rightarrow> string option" where
  "or_none s = (if s = [] then None else Some s)"

definition Technology :: "string \<Rightarrow> string option \<Rightarrow> violation list + technology" where
  "Technology name version =
     (let t = \<lparr>tech_name = py_lower (py_strip name),
               tech_version = Option.bind version (\<lambda>v. or_none (py_strip v))\<rparr>
      in raise_if (technology_problems t) t)"

definition component_problems :: "string option \<Rightarrow> string \<Rightarrow> violation list" where
  "component_problems v field =
     (case v of
        None \<Rightarrow> []
      | Some s \<Rightarrow>
          if COMPONENT_REFERENCE s then []
          else [Violation ''invalid_component_reference''
                  ''The component reference must be a catalog path, e.g. databases/postgresql.''
                  (Some field)])"

section \<open>Connections\<close>

datatype connection_kind = REQUEST | PUBLISH | CONSUME | DATA_ACCESS | REPLICATION | DEPENDENCY

fun connection_kind_value :: "connection_kind \<Rightarrow> string" where
  "connection_kind_value REQUEST = ''request''"
| "connection_kind_value PUBLISH = ''publish''"
| "connection_kind_value CONSUME = ''consume''"
| "connection_kind_value DATA_ACCESS = ''data_access''"
| "connection_kind_value REPLICATION = ''replication''"
| "connection_kind_value DEPENDENCY = ''dependency''"

definition communicates :: "connection_kind \<Rightarrow> bool" where
  "communicates k \<longleftrightarrow> k \<noteq> DEPENDENCY"

datatype interaction = SYNCHRONOUS | ASYNCHRONOUS

definition PROTOCOL :: "string \<Rightarrow> bool" where
  "PROTOCOL s = ident_match is_lower_alnum (\<lambda>c. is_lower_alnum c \<or> c \<in> set ''+._-'') 31 s"

section \<open>Property specifications\<close>

datatype config_value =
    CInt int
  | CDec decimal
  | CText string
  | CBool bool
  | CList "string list"

datatype value_type = INTEGER | DECIMAL | BOOLEAN | TEXT | CHOICE | TEXT_LIST

definition PROPERTY_KEY :: "string \<Rightarrow> bool" where
  "PROPERTY_KEY s =
     ident_match (\<lambda>c. is_upper_ascii c \<or> is_lower_ascii c) (\<lambda>c. is_alnum c \<or> c \<in> set ''_.-'') 63 s"

definition MAX_PROPERTIES :: nat where "MAX_PROPERTIES = 100"
definition MAX_TEXT_VALUE :: nat where "MAX_TEXT_VALUE = 200"
definition MAX_LIST_VALUES :: nat where "MAX_LIST_VALUES = 50"

definition REGION :: "string \<Rightarrow> bool" where
  "REGION s = ident_match is_lower_alnum (\<lambda>c. is_lower_alnum c \<or> c = CHR ''-'') 62 s"

definition PRICING_IDENTIFIER :: "string \<Rightarrow> bool" where
  "PRICING_IDENTIFIER s = ident_match is_lower_alnum (\<lambda>c. is_lower_alnum c \<or> c \<in> set ''._-'') 63 s"

definition PRICING_SKU :: "string \<Rightarrow> bool" where
  "PRICING_SKU s = ident_match is_alnum (\<lambda>c. is_alnum c \<or> c \<in> set ''._:/+-'') 127 s"

definition REDUNDANCY_GROUP :: "string \<Rightarrow> bool" where
  "REDUNDANCY_GROUP s = ident_match is_lower_alnum (\<lambda>c. is_lower_alnum c \<or> c \<in> set ''._-'') 63 s"

definition OWNER_NAME :: "string \<Rightarrow> bool" where
  "OWNER_NAME s = ident_match is_lower_alnum (\<lambda>c. is_lower_alnum c \<or> c \<in> set ''._-'') 63 s"

definition EXPOSURES :: "string list" where
  "EXPOSURES = [''public'', ''internal'', ''private'']"

definition AUTHENTICATION_MECHANISMS :: "string list" where
  "AUTHENTICATION_MECHANISMS =
     [''none'', ''password'', ''api_key'', ''token'', ''oauth2'', ''mtls'', ''iam'', ''other'']"

definition DATA_CLASSIFICATIONS :: "string list" where
  "DATA_CLASSIFICATIONS = [''public'', ''internal'', ''confidential'', ''restricted'']"

definition SECRET_SOURCES :: "string list" where
  "SECRET_SOURCES = [''secret_manager'', ''environment'', ''file'', ''configuration'', ''hardcoded'']"

definition TRUST_LEVELS :: "string list" where
  "TRUST_LEVELS = [''untrusted'', ''partner'', ''internal'', ''restricted'']"

definition METRIC_KINDS :: "string list" where
  "METRIC_KINDS = [''errors'', ''latency'', ''throughput'', ''saturation'', ''resources'', ''availability'']"

definition TELEMETRY_SIGNALS :: "string list" where
  "TELEMETRY_SIGNALS = [''logs'', ''metrics'', ''traces'']"

definition METRIC_KIND :: "string \<Rightarrow> bool" where
  "METRIC_KIND s \<longleftrightarrow> s \<in> set METRIC_KINDS"

definition ALERT_SIGNAL :: "string \<Rightarrow> bool" where
  "ALERT_SIGNAL s \<longleftrightarrow> s \<in> set (METRIC_KINDS @ [''health'', ''logs''])"

definition TELEMETRY_SIGNAL :: "string \<Rightarrow> bool" where
  "TELEMETRY_SIGNAL s \<longleftrightarrow> s \<in> set TELEMETRY_SIGNALS"

definition CONNECTION_OWNER :: string where
  "CONNECTION_OWNER = ''connection''"

record property_spec =
  p_name :: string
  p_type :: value_type
  p_applies_to :: "string list"
  p_description :: string
  p_minimum :: "decimal option"
  p_maximum :: "decimal option"
  p_choices :: "string list"
  p_pattern :: "(string \<Rightarrow> bool) option"

definition spec ::
    "string \<Rightarrow> value_type \<Rightarrow> string list \<Rightarrow> string \<Rightarrow> decimal option \<Rightarrow> decimal option \<Rightarrow> string list \<Rightarrow>
     (string \<Rightarrow> bool) option \<Rightarrow> property_spec" where
  "spec name ty applies_to description minimum maximum choices pattern =
     \<lparr>p_name = name, p_type = ty, p_applies_to = applies_to, p_description = description,
      p_minimum = minimum, p_maximum = maximum, p_choices = choices, p_pattern = pattern\<rparr>"

definition spec_text_problems :: "property_spec \<Rightarrow> string \<Rightarrow> string \<Rightarrow> violation list" where
  "spec_text_problems s t path =
     (let problems = text_problems (Some t) path MAX_TEXT_VALUE True False
      in if problems \<noteq> [] then problems
         else case p_pattern s of
                None \<Rightarrow> []
              | Some p \<Rightarrow> if p t then []
                          else [Violation ''invalid_value'' (path @ '' is not in the expected format.'')
                                  (Some path)])"

fun list_problems_from :: "property_spec \<Rightarrow> string list \<Rightarrow> string \<Rightarrow> nat \<Rightarrow> violation list" where
  "list_problems_from s [] path i = []"
| "list_problems_from s (t # ts) path i =
     spec_text_problems s t (path @ ''['' @ nat_str i @ '']'') @ list_problems_from s ts path (i + 1)"

definition spec_list_problems :: "property_spec \<Rightarrow> config_value \<Rightarrow> string \<Rightarrow> violation list" where
  "spec_list_problems s v path =
     (case v of
        CList ts \<Rightarrow>
          if length ts > MAX_LIST_VALUES
          then [Violation ''invalid_value''
                  (path @ '' must be a list of at most '' @ nat_str MAX_LIST_VALUES @ '' values.'') (Some path)]
          else list_problems_from s ts path 0
      | _ \<Rightarrow> [Violation ''invalid_value''
                (path @ '' must be a list of at most '' @ nat_str MAX_LIST_VALUES @ '' values.'') (Some path)])"

text \<open>A number of a configuration, or \<open>None\<close> for a value that is not a number (a bool is not).\<close>

fun number_of :: "config_value \<Rightarrow> (int + decimal) option" where
  "number_of (CInt i) = Some (Inl i)"
| "number_of (CDec d) = Some (Inr d)"
| "number_of _ = None"

definition as_decimal :: "int + decimal \<Rightarrow> decimal" where
  "as_decimal n = (case n of Inl i \<Rightarrow> Dec i 0 | Inr d \<Rightarrow> d)"

definition spec_number_problems :: "property_spec \<Rightarrow> config_value \<Rightarrow> string \<Rightarrow> violation list" where
  "spec_number_problems s v path =
     (if p_type s = INTEGER \<and> (case v of CInt _ \<Rightarrow> False | _ \<Rightarrow> True)
      then [Violation ''invalid_value'' (path @ '' must be a whole number.'') (Some path)]
      else case number_of v of
        None \<Rightarrow> [Violation ''not_a_number'' (path @ '' must be an exact number.'') (Some path)]
      | Some n \<Rightarrow>
          let problems = exact_number_problems n path in
          if problems \<noteq> [] then problems
          else case p_minimum s of
            Some lo \<Rightarrow>
              if \<not> dec_le lo (as_decimal n)
              then [Violation ''out_of_range'' (path @ '' must be at least '' @ dec_str lo @ ''.'') (Some path)]
              else (case p_maximum s of
                 Some hi \<Rightarrow>
                   if \<not> dec_le (as_decimal n) hi
                   then [Violation ''out_of_range'' (path @ '' must be at most '' @ dec_str hi @ ''.'')
                           (Some path)]
                   else []
               | None \<Rightarrow> [])
          | None \<Rightarrow> (case p_maximum s of
                 Some hi \<Rightarrow>
                   if \<not> dec_le (as_decimal n) hi
                   then [Violation ''out_of_range'' (path @ '' must be at most '' @ dec_str hi @ ''.'')
                           (Some path)]
                   else []
               | None \<Rightarrow> []))"

definition spec_problems :: "property_spec \<Rightarrow> config_value \<Rightarrow> string \<Rightarrow> violation list" where
  "spec_problems s v path =
     (case p_type s of
        INTEGER \<Rightarrow> spec_number_problems s v path
      | DECIMAL \<Rightarrow> spec_number_problems s v path
      | BOOLEAN \<Rightarrow> (case v of
            CBool _ \<Rightarrow> []
          | _ \<Rightarrow> [Violation ''invalid_value'' (path @ '' must be true or false.'') (Some path)])
      | CHOICE \<Rightarrow>
          if (case v of CText t \<Rightarrow> t \<in> set (p_choices s) | _ \<Rightarrow> False) then []
          else [Violation ''invalid_value''
                  (path @ '' must be one of: '' @ join '', '' (sort (remdups (p_choices s))) @ ''.'') (Some path)]
      | TEXT \<Rightarrow> (case v of
            CText t \<Rightarrow> spec_text_problems s t path
          | _ \<Rightarrow> [Violation ''not_a_string'' (path @ '' must be text.'') (Some path)])
      | TEXT_LIST \<Rightarrow> spec_list_problems s v path)"

section \<open>The known properties\<close>

definition COMPUTE :: "string list" where
  "COMPUTE = map kind_value [SERVICE, WORKER, GATEWAY]"

definition RUNNING :: "string list" where
  "RUNNING = COMPUTE @ map kind_value [LOAD_BALANCER, DATABASE, CACHE, QUEUE, OBSERVABILITY]"

definition RESOURCED :: "string list" where
  "RESOURCED = COMPUTE @ map kind_value [DATABASE, CACHE, QUEUE, OBSERVABILITY]"

definition DATA :: "string list" where
  "DATA = map kind_value [DATABASE, CACHE, STORAGE]"

definition PLACED :: "string list" where
  "PLACED = map kind_value
     [CLIENT, CDN, LOAD_BALANCER, GATEWAY, SERVICE, WORKER, DATABASE, CACHE, QUEUE, STORAGE,
      OBSERVABILITY, EXTERNAL, BOUNDARY]"

definition without :: "string list \<Rightarrow> string list \<Rightarrow> string list" where
  "without out xs = filter (\<lambda>x. x \<notin> set out) xs"

definition DEPLOYED :: "string list" where
  "DEPLOYED = without [kind_value CLIENT, kind_value BOUNDARY] PLACED"

definition runtime_properties :: "property_spec list" where
  "runtime_properties =
     [spec ''runtime'' TEXT
         [kind_value SERVICE, kind_value WORKER]
         ''Language runtime, e.g. python3.13.''
         None None [] None,
      spec ''replicas'' INTEGER
         RUNNING
         ''Instances running, including any primary.''
         (Some (Dec 0 0)) None [] None,
      spec ''autoscaling_min_replicas'' INTEGER
         COMPUTE
         ''Fewest instances the autoscaler keeps.''
         (Some (Dec 0 0)) None [] None,
      spec ''autoscaling_max_replicas'' INTEGER
         COMPUTE
         ''Most instances the autoscaler starts.''
         (Some (Dec 0 0)) None [] None,
      spec ''autoscaling_target_cpu_ratio'' DECIMAL
         COMPUTE
         ''CPU utilization the autoscaler targets (0.7 = 70 %).''
         (Some (Dec 1 (- 2))) (Some (Dec 1 0)) [] None]"

definition resource_properties :: "property_spec list" where
  "resource_properties =
     [spec ''cpu_request_cores'' DECIMAL
         RESOURCED
         ''CPU reserved per instance, in cores.''
         (Some (Dec 0 0)) None [] None,
      spec ''cpu_limit_cores'' DECIMAL
         RESOURCED
         ''CPU limit per instance, in cores.''
         (Some (Dec 0 0)) None [] None,
      spec ''memory_request_bytes'' INTEGER
         RESOURCED
         ''Memory reserved per instance, in bytes.''
         (Some (Dec 0 0)) None [] None,
      spec ''memory_limit_bytes'' INTEGER
         RESOURCED
         ''Memory limit per instance, in bytes.''
         (Some (Dec 0 0)) None [] None,
      spec ''instance_class'' TEXT
         RUNNING
         ''Provider instance class, e.g. db.r6g.large.''
         None None [] None,
      spec ''deployment_model'' CHOICE
         DEPLOYED
         ''How it runs.''
         None None [''kubernetes'', ''container_service'', ''serverless'', ''virtual_machine'', ''managed_service'', ''on_premises''] None]"

definition placement_properties :: "property_spec list" where
  "placement_properties =
     [spec ''region'' TEXT
         PLACED
         ''Cloud region, e.g. eu-west-1.''
         None None [] (Some REGION),
      spec ''availability_zones'' TEXT_LIST
         PLACED
         ''Availability zones used.''
         None None [] (Some REGION),
      spec ''multi_az'' BOOLEAN
         (without [kind_value EXTERNAL] DEPLOYED)
         ''Runs across availability zones.''
         None None [] None]"

definition data_properties :: "property_spec list" where
  "data_properties =
     [spec ''storage_bytes'' INTEGER
         (DATA @ [kind_value QUEUE, kind_value OBSERVABILITY])
         ''Provisioned storage, in bytes.''
         (Some (Dec 0 0)) None [] None,
      spec ''max_connections'' INTEGER
         [kind_value DATABASE, kind_value CACHE, kind_value GATEWAY, kind_value LOAD_BALANCER]
         ''Connection limit.''
         (Some (Dec 0 0)) None [] None,
      spec ''replication_mode'' CHOICE
         DATA
         ''How data is replicated.''
         None None [''none'', ''asynchronous'', ''synchronous''] None,
      spec ''backup_enabled'' BOOLEAN
         DATA
         ''Backups are taken.''
         None None [] None,
      spec ''backup_retention_seconds'' INTEGER
         DATA
         ''How long backups are kept, in seconds.''
         (Some (Dec 0 0)) None [] None,
      spec ''eviction_policy'' CHOICE
         [kind_value CACHE]
         ''What the cache evicts when full.''
         None None [''noeviction'', ''allkeys_lru'', ''allkeys_lfu'', ''allkeys_random'', ''volatile_lru'', ''volatile_lfu'', ''volatile_random'', ''volatile_ttl''] None,
      spec ''persistence'' CHOICE
         [kind_value CACHE]
         ''Whether the cache survives a restart.''
         None None [''none'', ''snapshot'', ''append_only''] None]"

definition messaging_properties :: "property_spec list" where
  "messaging_properties =
     [spec ''partitions'' INTEGER
         [kind_value QUEUE]
         ''Partitions (or shards) of the queue or topic.''
         (Some (Dec 1 0)) None [] None,
      spec ''replication_factor'' INTEGER
         [kind_value QUEUE]
         ''Copies of each message kept.''
         (Some (Dec 1 0)) None [] None,
      spec ''retention_seconds'' INTEGER
         [kind_value QUEUE, kind_value STORAGE, kind_value OBSERVABILITY]
         ''How long data is kept, in seconds.''
         (Some (Dec 0 0)) None [] None]"

definition capacity_properties :: "property_spec list" where
  "capacity_properties =
     [spec ''throughput_limit_per_second'' DECIMAL
         DEPLOYED
         ''Most units of work (requests, operations or events) the component handles per second, in total.''
         (Some (Dec 0 0)) None [] None,
      spec ''throughput_per_replica_per_second'' DECIMAL
         RUNNING
         ''Most units of work one replica handles per second.''
         (Some (Dec 0 0)) None [] None,
      spec ''cpu_core_seconds_per_request'' DECIMAL
         COMPUTE
         ''CPU time one unit of work costs, in core-seconds (0.02 = 20 ms of one core).''
         (Some (Dec 0 0)) None [] None,
      spec ''network_bandwidth_bytes_per_second'' INTEGER
         DEPLOYED
         ''Network throughput available to the component, in bytes per second.''
         (Some (Dec 0 0)) None [] None]"

definition pricing_properties :: "property_spec list" where
  "pricing_properties =
     [spec ''pricing_service'' TEXT
         DEPLOYED
         ''Service that bills the component in the pricing snapshot, e.g. rds.''
         None None [] (Some PRICING_IDENTIFIER),
      spec ''pricing_sku'' TEXT
         DEPLOYED
         (''SKU of the component'' @ [SQ] @ ''s main billed resource, e.g. db.r6g.large (else instance_class is used).'')
         None None [] (Some PRICING_SKU),
      spec ''pricing_storage_sku'' TEXT
         [kind_value DATABASE, kind_value QUEUE, kind_value OBSERVABILITY]
         (''SKU of the component'' @ [SQ] @ ''s provisioned storage, priced per GB-month.'')
         None None [] (Some PRICING_SKU),
      spec ''pricing_conditions'' TEXT_LIST
         DEPLOYED
         ''Conditions the price must carry, e.g. on_demand.''
         None None [] (Some PRICING_IDENTIFIER)]"

definition reliability_properties :: "property_spec list" where
  "reliability_properties =
     [spec ''availability'' DECIMAL
         DEPLOYED
         ''Availability of the component as a whole (0.999 = 99.9 %), e.g. as its provider commits to.''
         (Some (Dec 0 0)) (Some (Dec 1 0)) [] None,
      spec ''replica_availability'' DECIMAL
         RUNNING
         ''Availability of one replica (0.99 = 99 %).''
         (Some (Dec 0 0)) (Some (Dec 1 0)) [] None,
      spec ''mtbf_seconds'' DECIMAL
         RUNNING
         ''Mean time between failures of one replica, in seconds.''
         (Some (Dec 0 0)) None [] None,
      spec ''mttr_seconds'' DECIMAL
         RUNNING
         ''Mean time to repair one replica, in seconds.''
         (Some (Dec 0 0)) None [] None,
      spec ''min_healthy_replicas'' INTEGER
         RUNNING
         ''Fewest healthy replicas the component needs to serve (k of n).''
         (Some (Dec 1 0)) None [] None,
      spec ''failure_independence'' CHOICE
         DEPLOYED
         (''Whether its replicas (and its redundancy group'' @ [SQ] @ ''s members) fail independently of each other.'')
         None None [''independent'', ''correlated'', ''unknown''] None,
      spec ''failover_mode'' CHOICE
         (without [kind_value EXTERNAL] DEPLOYED)
         ''How work moves off a failed replica or member.''
         None None [''none'', ''manual'', ''automatic''] None,
      spec ''failover_seconds'' DECIMAL
         (without [kind_value EXTERNAL] DEPLOYED)
         ''Time for a failover to complete, in seconds.''
         (Some (Dec 0 0)) None [] None,
      spec ''redundancy_group'' TEXT
         DEPLOYED
         ''Components with the same group are interchangeable alternatives (e.g. one service per region).''
         None None [] (Some REDUNDANCY_GROUP),
      spec ''redundancy_group_min_healthy'' INTEGER
         DEPLOYED
         ''Fewest healthy members the redundancy group needs to serve.''
         (Some (Dec 1 0)) None [] None,
      spec ''replication_lag_seconds'' DECIMAL
         (DATA @ [kind_value QUEUE])
         ''Most data asynchronous replication can lose on failover, in seconds.''
         (Some (Dec 0 0)) None [] None,
      spec ''backup_interval_seconds'' DECIMAL
         DATA
         ''Time between backups, in seconds (the data a restore can lose).''
         (Some (Dec 0 0)) None [] None]"

definition security_properties :: "property_spec list" where
  "security_properties =
     [spec ''exposure'' CHOICE
         DEPLOYED
         (''Who can reach the component over the network: public (the internet), internal (the organization'' @ [SQ] @ ''s networks) or private (only its own network or boundary).'')
         None None EXPOSURES None,
      spec ''authentication'' CHOICE
         DEPLOYED
         ''How callers authenticate to the component; none: it accepts unauthenticated requests.''
         None None AUTHENTICATION_MECHANISMS None,
      spec ''authorization'' CHOICE
         DEPLOYED
         ''How the component decides what an authenticated caller may do; none: it does not.''
         None None [''none'', ''rbac'', ''abac'', ''acl'', ''policy'', ''other''] None,
      spec ''sensitive_operations'' BOOLEAN
         DEPLOYED
         ''It performs sensitive operations, e.g. payments, account or permission changes, data export.''
         None None [] None,
      spec ''management_interface'' BOOLEAN
         DEPLOYED
         ''It exposes an administrative or management interface.''
         None None [] None,
      spec ''data_classification'' CHOICE
         DEPLOYED
         ''The most sensitive data it holds or handles.''
         None None DATA_CLASSIFICATIONS None,
      spec ''personal_data'' BOOLEAN
         DEPLOYED
         ''It holds or handles personal data.''
         None None [] None,
      spec ''encryption_at_rest'' BOOLEAN
         (DATA @ [kind_value QUEUE, kind_value OBSERVABILITY])
         ''Stored data is encrypted at rest.''
         None None [] None,
      spec ''secrets_required'' BOOLEAN
         (without [kind_value EXTERNAL] DEPLOYED)
         ''It needs secrets (credentials, keys, tokens) to run.''
         None None [] None,
      spec ''secret_source'' CHOICE
         (without [kind_value EXTERNAL] DEPLOYED)
         ''Where it gets its secrets.''
         None None SECRET_SOURCES None,
      spec ''secret_rotation'' BOOLEAN
         (without [kind_value EXTERNAL] DEPLOYED)
         ''Its secrets are rotated automatically.''
         None None [] None,
      spec ''audit_logging'' BOOLEAN
         (without [kind_value EXTERNAL] DEPLOYED)
         ''Security-relevant actions on it are recorded in an audit log.''
         None None [] None]"

definition observability_properties :: "property_spec list" where
  "observability_properties =
     [spec ''criticality'' CHOICE
         DEPLOYED
         ''How much the system depends on it being observable: critical or standard.''
         None None [''critical'', ''standard''] None,
      spec ''logs'' BOOLEAN
         (without [kind_value EXTERNAL] DEPLOYED)
         ''It emits logs.''
         None None [] None,
      spec ''structured_logs'' BOOLEAN
         (without [kind_value EXTERNAL] DEPLOYED)
         ''Its logs are structured (e.g. JSON).''
         None None [] None,
      spec ''correlation_ids'' BOOLEAN
         (without [kind_value EXTERNAL] DEPLOYED)
         (''Its logs carry the request'' @ [SQ] @ ''s correlation identifier.'')
         None None [] None,
      spec ''metrics'' TEXT_LIST
         (without [kind_value EXTERNAL] DEPLOYED)
         ''The kinds of metrics it exposes: errors, latency, throughput, saturation, resources or availability.''
         None None [] (Some METRIC_KIND),
      spec ''traces'' BOOLEAN
         (without [kind_value EXTERNAL] DEPLOYED)
         ''It emits trace spans.''
         None None [] None,
      spec ''trace_context'' CHOICE
         (without [kind_value EXTERNAL] DEPLOYED)
         ''What it does with an incoming trace context: propagate it downstream, or terminate it.''
         None None [''propagate'', ''terminate''] None,
      spec ''trace_sampling_ratio'' DECIMAL
         (without [kind_value EXTERNAL] DEPLOYED)
         ''Share of its traces kept, as configured (0.1 = 10 %).''
         (Some (Dec 0 0)) (Some (Dec 1 0)) [] None,
      spec ''health_check'' BOOLEAN
         (without [kind_value EXTERNAL] DEPLOYED)
         ''It exposes a health check.''
         None None [] None,
      spec ''alerts'' TEXT_LIST
         (without [kind_value EXTERNAL] DEPLOYED)
         ''The signals alert rules watch for it: a metric kind, health or logs.''
         None None [] (Some ALERT_SIGNAL),
      spec ''owner'' TEXT
         DEPLOYED
         ''The team or rotation responsible for it, e.g. payments-oncall.''
         None None [] (Some OWNER_NAME),
      spec ''alert_delivery'' CHOICE
         [kind_value OBSERVABILITY]
         ''How the observability system delivers alerts: none, email, chat, paging or other.''
         None None [''none'', ''email'', ''chat'', ''paging'', ''other''] None]"

definition boundary_properties :: "property_spec list" where
  "boundary_properties =
     [spec ''boundary_type'' CHOICE
         [kind_value BOUNDARY]
         ''What the boundary delimits.''
         None None [''system'', ''network'', ''region'', ''availability_zone'', ''account'', ''cluster'', ''trust_zone''] None,
      spec ''trust_level'' CHOICE
         [kind_value BOUNDARY]
         ''How far what runs inside a trust zone (boundary_type trust_zone) is trusted.''
         None None TRUST_LEVELS None]"

definition link_properties :: "property_spec list" where
  "link_properties =
     [spec ''timeout_seconds'' DECIMAL
         [CONNECTION_OWNER]
         ''How long the source waits, in seconds.''
         (Some (Dec 0 0)) None [] None,
      spec ''retries'' INTEGER
         [CONNECTION_OWNER]
         ''Retries after a failure.''
         (Some (Dec 0 0)) None [] None,
      spec ''tls'' BOOLEAN
         [CONNECTION_OWNER]
         ''Traffic is encrypted in transit.''
         None None [] None]"

definition link_security_properties :: "property_spec list" where
  "link_security_properties =
     [spec ''authentication'' CHOICE
         [CONNECTION_OWNER]
         ''How the source authenticates to the target over this connection; none: it does not.''
         None None AUTHENTICATION_MECHANISMS None,
      spec ''data_classification'' CHOICE
         [CONNECTION_OWNER]
         ''The most sensitive data the connection carries.''
         None None DATA_CLASSIFICATIONS None,
      spec ''personal_data'' BOOLEAN
         [CONNECTION_OWNER]
         ''The connection carries personal data.''
         None None [] None]"

definition link_observability_properties :: "property_spec list" where
  "link_observability_properties =
     [spec ''telemetry'' TEXT_LIST
         [CONNECTION_OWNER]
         ''The telemetry signals this connection carries from its source: logs, metrics, traces.''
         None None [] (Some TELEMETRY_SIGNAL),
      spec ''trace_propagation'' BOOLEAN
         [CONNECTION_OWNER]
         ''The trace context is propagated across this connection.''
         None None [] None,
      spec ''health_check'' BOOLEAN
         [CONNECTION_OWNER]
         (''The source checks the target'' @ [SQ] @ ''s health over this connection.'')
         None None [] None,
      spec ''dead_letter'' BOOLEAN
         [CONNECTION_OWNER]
         ''Messages that keep failing go to a dead-letter queue.''
         None None [] None,
      spec ''port'' INTEGER
         [CONNECTION_OWNER]
         ''Target port.''
         (Some (Dec 1 0)) (Some (Dec 65535 0)) [] None]"

definition link_traffic_properties :: "property_spec list" where
  "link_traffic_properties =
     [spec ''traffic_ratio'' DECIMAL
         [CONNECTION_OWNER]
         (''Share of the source'' @ [SQ] @ ''s work that uses this connection (0.3 = 30 %).'')
         (Some (Dec 0 0)) (Some (Dec 1 0)) [] None,
      spec ''calls_per_request'' DECIMAL
         [CONNECTION_OWNER]
         ''Calls made over this connection per unit of work that uses it (fan-out).''
         (Some (Dec 0 0)) (Some (Dec 1000 0)) [] None,
      spec ''cache_hit_ratio'' DECIMAL
         [CONNECTION_OWNER]
         ''Share of this traffic a cache in front of the target answers; only misses arrive.''
         (Some (Dec 0 0)) (Some (Dec 1 0)) [] None,
      spec ''pool_size'' INTEGER
         [CONNECTION_OWNER]
         ''Connections each replica of the source keeps open to the target (a connection pool).''
         (Some (Dec 0 0)) (Some (Dec 100000 0)) [] None,
      spec ''access'' CHOICE
         [CONNECTION_OWNER]
         (''Which side of the workload'' @ [SQ] @ ''s read/write mix this data access carries.'')
         None None [''read'', ''write'', ''read_write''] None]"

definition NODE_PROPERTIES :: "property_spec list" where
  "NODE_PROPERTIES =
     runtime_properties @ resource_properties @ placement_properties @ data_properties @
     messaging_properties @ capacity_properties @ pricing_properties @ reliability_properties @
     security_properties @ observability_properties @ boundary_properties"

definition CONNECTION_PROPERTIES :: "property_spec list" where
  "CONNECTION_PROPERTIES =
     link_properties @ link_security_properties @
     link_observability_properties @ link_traffic_properties"

section \<open>Configurations\<close>

definition ORDERED_PAIRS :: "(string \<times> string) list" where
  "ORDERED_PAIRS =
     [(''autoscaling_min_replicas'', ''autoscaling_max_replicas''),
      (''cpu_request_cores'', ''cpu_limit_cores''),
      (''memory_request_bytes'', ''memory_limit_bytes'')]"

fun canonical_value :: "config_value \<Rightarrow> config_value" where
  "canonical_value (CDec d) = CDec (if is_finite d then canonical_decimal d else d)"
| "canonical_value (CList ts) = CList (sorted_set ts)"
| "canonical_value v = v"

record configuration =
  cf_values :: "(string \<times> config_value) list"
  cf_unknown :: "string list"
  cf_extra :: "(string \<times> json) list"

definition empty_configuration :: configuration where
  "empty_configuration = \<lparr>cf_values = [], cf_unknown = [], cf_extra = []\<rparr>"

definition cf_get :: "configuration \<Rightarrow> string \<Rightarrow> config_value option" where
  "cf_get c name = map_of (cf_values c) name"

definition is_unknown :: "configuration \<Rightarrow> string \<Rightarrow> bool" where
  "is_unknown c name \<longleftrightarrow> name \<in> set (cf_unknown c)"

definition property_names :: "configuration \<Rightarrow> string list" where
  "property_names c = sorted_set (map fst (cf_values c) @ cf_unknown c @ map fst (cf_extra c))"

definition configuration_problems :: "configuration \<Rightarrow> violation list" where
  "configuration_problems c =
     (if length (property_names c) > MAX_PROPERTIES
      then [Violation ''too_many''
              (''A configuration has at most '' @ nat_str MAX_PROPERTIES @ '' properties.'') None] else []) @
     concat (map (\<lambda>key.
       if PROPERTY_KEY key then []
       else [Violation ''invalid_key'' (py_repr key @ '' is not a valid property name.'') (Some key)])
       (property_names c)) @
     map (\<lambda>key. Violation ''contradictory'' (key @ '' cannot be both known and unknown.'') (Some key))
       (sorted_set (filter (\<lambda>k. k \<in> set (map fst (cf_values c))) (cf_unknown c))) @
     map (\<lambda>key. Violation ''duplicate_property'' (key @ '' is given twice.'') (Some key))
       (sorted_set (filter (\<lambda>k. k \<in> set (map fst (cf_values c) @ cf_unknown c)) (map fst (cf_extra c)))) @
     concat (map (\<lambda>(key, v). json_problems v key 0) (cf_extra c))"

definition freeze_extra :: "(string \<times> json) list \<Rightarrow> (string \<times> json) list" where
  "freeze_extra kvs = sort_key fst (map (\<lambda>(k, v). (k, freeze_json 1 v)) kvs)"

definition Configuration ::
    "(string \<times> config_value) list \<Rightarrow> string list \<Rightarrow> (string \<times> json) list \<Rightarrow>
     violation list + configuration" where
  "Configuration values unknown extra =
     (let c = \<lparr>cf_values = frozen (map (\<lambda>(k, v). (k, canonical_value v)) values),
               cf_unknown = sorted_set unknown,
               cf_extra = freeze_extra extra\<rparr>
      in raise_if (configuration_problems c) c)"

definition find_spec :: "property_spec list \<Rightarrow> string \<Rightarrow> property_spec option" where
  "find_spec specs key = List.find (\<lambda>s. p_name s = key) specs"

text \<open>\<open>low > high\<close> on two numbers.\<close>

definition number_greater :: "config_value option \<Rightarrow> config_value option \<Rightarrow> bool" where
  "number_greater low high \<longleftrightarrow>
     (case (Option.bind low number_of, Option.bind high number_of) of
        (Some a, Some b) \<Rightarrow> as_decimal a \<noteq> NaN \<and> as_decimal b \<noteq> NaN \<and>
          \<not> dec_le (as_decimal a) (as_decimal b)
      | _ \<Rightarrow> False)"

definition problems_for :: "configuration \<Rightarrow> property_spec list \<Rightarrow> string \<Rightarrow> violation list" where
  "problems_for c specs owner =
     concat (map (\<lambda>key.
       case find_spec specs key of
         None \<Rightarrow> [Violation ''unknown_property''
                    (key @ '' is not a known property; unrecognized settings belong in extra.'') (Some key)]
       | Some s \<Rightarrow>
           if owner \<notin> set (p_applies_to s)
           then [Violation ''not_applicable'' (key @ '' does not apply to a '' @ owner @ ''.'') (Some key)]
           else case cf_get c key of None \<Rightarrow> [] | Some v \<Rightarrow> spec_problems s v key)
       (sorted_set (map fst (cf_values c) @ cf_unknown c))) @
     map (\<lambda>key. Violation ''misplaced_property'' (key @ '' is a known property; give it in values.'') (Some key))
       (sorted_set (filter (\<lambda>k. find_spec specs k \<noteq> None) (map fst (cf_extra c)))) @
     concat (map (\<lambda>(lower, upper).
       if number_greater (cf_get c lower) (cf_get c upper)
       then [Violation ''inconsistent'' (lower @ '' is greater than '' @ upper @ ''.'') (Some lower)] else [])
       ORDERED_PAIRS)"

end
