(* ===== verification/IR_Elements.thy ===== *)
theory IR_Elements
  imports IR_Config
begin

text \<open>
  The elements of an architecture: provenance (core/architecture_ir/provenance.py), references to
  requirements and decisions and assumptions (traceability.py), nodes (node.py) and connections
  (edge.py).  A constructor takes the fields as given, normalizes them and either returns the
  element or raises with every violation; it is the function named after the class.
\<close>

section \<open>Provenance\<close>

datatype provenance_source =
    USER_INPUT | USER_EDIT | LLM_PROPOSAL | TERRAFORM | KUBERNETES | CLOUD_DISCOVERY
  | FILE_IMPORT | SYSTEM_DEFAULT | SCHEMA_MIGRATION

fun source_value :: "provenance_source \<Rightarrow> string" where
  "source_value USER_INPUT = ''user_input''"
| "source_value USER_EDIT = ''user_edit''"
| "source_value LLM_PROPOSAL = ''llm_proposal''"
| "source_value TERRAFORM = ''terraform''"
| "source_value KUBERNETES = ''kubernetes''"
| "source_value CLOUD_DISCOVERY = ''cloud_discovery''"
| "source_value FILE_IMPORT = ''file_import''"
| "source_value SYSTEM_DEFAULT = ''system_default''"
| "source_value SCHEMA_MIGRATION = ''schema_migration''"

definition DISCOVERED_SOURCES :: "provenance_source list" where
  "DISCOVERED_SOURCES = [TERRAFORM, KUBERNETES, CLOUD_DISCOVERY, FILE_IMPORT]"

definition UNVERIFIABLE_SOURCES :: "provenance_source list" where
  "UNVERIFIABLE_SOURCES = [LLM_PROPOSAL, SYSTEM_DEFAULT]"

text \<open>A \<open>datetime\<close>, with or without a time zone.\<close>

datatype timestamp = Aware instant | Naive instant

record provenance =
  pv_source :: provenance_source
  pv_reference :: "string option"
  pv_confidence :: "decimal option"
  pv_verified :: bool
  pv_inferred :: bool
  pv_actor :: "string option"
  pv_recorded_at :: "timestamp option"

definition MAX_REFERENCE_LENGTH :: nat where "MAX_REFERENCE_LENGTH = 500"
definition MAX_ACTOR_LENGTH :: nat where "MAX_ACTOR_LENGTH = 128"
definition CONFIDENCE_PLACES :: nat where "CONFIDENCE_PLACES = 3"

definition discovered :: "provenance \<Rightarrow> bool" where
  "discovered p \<longleftrightarrow> pv_source p \<in> set DISCOVERED_SOURCES"

definition confidence_problems :: "provenance \<Rightarrow> violation list" where
  "confidence_problems p =
     (case pv_confidence p of
        None \<Rightarrow>
          if pv_source p = LLM_PROPOSAL
          then [Violation ''required'' ''A model proposal must state its confidence.'' (Some ''confidence'')]
          else []
      | Some c \<Rightarrow>
          let problems = exact_number_problems (Inr c) ''confidence'' in
          if problems \<noteq> [] then problems
          else if \<not> (dec_le (Dec 0 0) c \<and> dec_le c (Dec 1 0))
          then [Violation ''out_of_range'' ''confidence must be between 0 and 1.'' (Some ''confidence'')]
          else if decimal_places c > CONFIDENCE_PLACES
          then [Violation ''too_precise'' ''confidence has more than 3 decimal places.'' (Some ''confidence'')]
          else [])"

definition provenance_problems :: "provenance \<Rightarrow> violation list" where
  "provenance_problems p =
     text_problems (pv_reference p) ''reference'' MAX_REFERENCE_LENGTH False False @
     text_problems (pv_actor p) ''actor'' MAX_ACTOR_LENGTH False False @
     confidence_problems p @
     (if pv_verified p \<and> pv_inferred p
      then [Violation ''contradictory'' ''A value cannot be both verified and inferred.'' (Some ''verified'')]
      else []) @
     (if pv_verified p \<and> pv_source p \<in> set UNVERIFIABLE_SOURCES
      then [Violation ''unverifiable''
              (''A '' @ source_value (pv_source p) @
               '' cannot be verified; a person confirming it makes it a user_edit.'') (Some ''verified'')]
      else []) @
     (case pv_recorded_at p of
        Some (Naive _) \<Rightarrow>
          [Violation ''invalid_timestamp'' ''recorded_at must be a time with a time zone.'' (Some ''recorded_at'')]
      | _ \<Rightarrow> [])"

definition optional_line :: "string option \<Rightarrow> string option" where
  "optional_line s = Option.bind s (\<lambda>t. or_none (clean_line t))"

definition optional_block :: "string option \<Rightarrow> string option" where
  "optional_block s = Option.bind s (\<lambda>t. or_none (clean_block t))"

definition normalize_provenance :: "provenance \<Rightarrow> provenance" where
  "normalize_provenance p = p\<lparr>
     pv_reference := optional_line (pv_reference p),
     pv_actor := optional_line (pv_actor p),
     pv_confidence := map_option (\<lambda>c. if is_finite c then canonical_decimal c else c) (pv_confidence p)\<rparr>"

definition Provenance :: "provenance \<Rightarrow> violation list + provenance" where
  "Provenance p = (let q = normalize_provenance p in raise_if (provenance_problems q) q)"

section \<open>Traceability\<close>

record requirement_ref =
  rr_requirement_id :: uuid
  rr_version :: "int option"

definition ref_key :: "requirement_ref \<Rightarrow> string \<times> int" where
  "ref_key r = (uuid_str (rr_requirement_id r), case rr_version r of None \<Rightarrow> 0 | Some v \<Rightarrow> v)"

definition ref_problems :: "requirement_ref \<Rightarrow> violation list" where
  "ref_problems r =
     (case rr_version r of
        None \<Rightarrow> []
      | Some v \<Rightarrow> if v < 1
                  then [Violation ''invalid_reference'' ''version must be a positive whole number.''
                          (Some ''version'')]
                  else [])"

definition RequirementRef :: "uuid \<Rightarrow> int option \<Rightarrow> violation list + requirement_ref" where
  "RequirementRef i v =
     (let r = \<lparr>rr_requirement_id = i, rr_version = v\<rparr> in raise_if (ref_problems r) r)"

definition sorted_refs :: "requirement_ref list \<Rightarrow> requirement_ref list" where
  "sorted_refs refs = sort_key ref_key (remdups refs)"

definition MAX_REFERENCES :: nat where "MAX_REFERENCES = 100"
definition MAX_ASSUMPTION_LENGTH :: nat where "MAX_ASSUMPTION_LENGTH = 1000"
definition MAX_SUBJECTS :: nat where "MAX_SUBJECTS = 100"

definition refs_problems :: "requirement_ref list \<Rightarrow> string \<Rightarrow> violation list" where
  "refs_problems refs field =
     (if length refs > MAX_REFERENCES
      then [Violation ''too_many''
              (field @ '' has more than '' @ nat_str MAX_REFERENCES @ '' references.'') (Some field)]
      else [])"

fun subject_id_problems :: "string list \<Rightarrow> string \<Rightarrow> nat \<Rightarrow> violation list" where
  "subject_id_problems [] field i = []"
| "subject_id_problems (s # ss) field i =
     id_problems s (field @ ''['' @ nat_str i @ '']'') @ subject_id_problems ss field (i + 1)"

definition subject_problems :: "string list \<Rightarrow> violation list" where
  "subject_problems ids =
     (if length ids > MAX_SUBJECTS
      then [Violation ''too_many''
              (''subject_ids has more than '' @ nat_str MAX_SUBJECTS @ '' ids.'') (Some ''subject_ids'')]
      else subject_id_problems ids ''subject_ids'' 0)"

record decision_ref =
  dr_decision_id :: uuid
  dr_subject_ids :: "string list"

definition DecisionRef :: "decision_ref \<Rightarrow> violation list + decision_ref" where
  "DecisionRef d =
     (let d' = d\<lparr>dr_subject_ids := sorted_set (dr_subject_ids d)\<rparr>
      in raise_if (subject_problems (dr_subject_ids d')) d')"

record assumption =
  as_id :: string
  as_statement :: string
  as_provenance :: provenance
  as_subject_ids :: "string list"
  as_requirement_refs :: "requirement_ref list"

definition assumption_problems :: "assumption \<Rightarrow> violation list" where
  "assumption_problems a =
     id_problems (as_id a) ''id'' @
     text_problems (Some (as_statement a)) ''statement'' MAX_ASSUMPTION_LENGTH True True @
     subject_problems (as_subject_ids a) @
     refs_problems (as_requirement_refs a) ''requirement_refs''"

definition normalize_assumption :: "assumption \<Rightarrow> assumption" where
  "normalize_assumption a = a\<lparr>
     as_statement := clean_block (as_statement a),
     as_subject_ids := sorted_set (as_subject_ids a),
     as_requirement_refs := sorted_refs (as_requirement_refs a)\<rparr>"

definition Assumption :: "assumption \<Rightarrow> violation list + assumption" where
  "Assumption a = (let a' = normalize_assumption a in raise_if (assumption_problems a') a')"

section \<open>What every element carries\<close>

definition annotation_problems ::
    "requirement_ref list \<Rightarrow> (string \<times> string) list \<Rightarrow> (string \<times> provenance) list \<Rightarrow> string list \<Rightarrow>
     configuration \<Rightarrow> violation list" where
  "annotation_problems refs metadata field_provenance own_fields configuration =
     refs_problems refs ''requirement_refs'' @
     metadata_problems metadata ''metadata'' @
     concat (map (\<lambda>(key, _).
       if key \<notin> set (own_fields @ map (\<lambda>k. ''configuration.'' @ k) (property_names configuration))
       then [Violation ''unknown_field'' (key @ '' is not a field of this element.'')
               (Some (''field_provenance.'' @ key))]
       else []) field_provenance)"

section \<open>Nodes\<close>

datatype lifecycle = PLANNED | ACTIVE | DEPRECATED

definition NODE_FIELDS :: "string list" where
  "NODE_FIELDS =
     [''kind'', ''name'', ''description'', ''technology'', ''component'', ''parent_id'', ''lifecycle'']"

record node =
  n_id :: string
  n_kind :: node_kind
  n_name :: string
  n_description :: "string option"
  n_technology :: "technology option"
  n_component :: "string option"
  n_parent_id :: "string option"
  n_configuration :: configuration
  n_requirement_refs :: "requirement_ref list"
  n_lifecycle :: "lifecycle option"
  n_metadata :: "(string \<times> string) list"
  n_provenance :: "provenance option"
  n_field_provenance :: "(string \<times> provenance) list"

definition node_problems :: "node \<Rightarrow> violation list" where
  "node_problems n =
     map (within NODE (Some (n_id n)) None)
       (id_problems (n_id n) ''id'' @
        text_problems (Some (n_name n)) ''name'' MAX_NODE_NAME_LENGTH True False @
        text_problems (n_description n) ''description'' MAX_DESCRIPTION_LENGTH False True @
        component_problems (n_component n) ''component'' @
        (case n_parent_id n of
           None \<Rightarrow> []
         | Some p \<Rightarrow>
             id_problems p ''parent_id'' @
             (if p = n_id n
              then [Violation ''containment_cycle'' ''A node cannot contain itself.'' (Some ''parent_id'')]
              else [])) @
        map (within NODE (Some (n_id n)) (Some ''configuration''))
          (problems_for (n_configuration n) NODE_PROPERTIES (kind_value (n_kind n))) @
        annotation_problems (n_requirement_refs n) (n_metadata n) (n_field_provenance n) NODE_FIELDS
          (n_configuration n))"

definition normalize_node :: "node \<Rightarrow> node" where
  "normalize_node n = n\<lparr>
     n_name := clean_line (n_name n),
     n_description := optional_block (n_description n),
     n_requirement_refs := sorted_refs (n_requirement_refs n),
     n_metadata := frozen (n_metadata n),
     n_field_provenance := frozen (n_field_provenance n)\<rparr>"

definition Node :: "node \<Rightarrow> violation list + node" where
  "Node n = (let n' = normalize_node n in raise_if (node_problems n') n')"

section \<open>Connections\<close>

definition CONNECTION_FIELDS :: "string list" where
  "CONNECTION_FIELDS =
     [''source_id'', ''target_id'', ''kind'', ''protocol'', ''interaction'', ''bidirectional'', ''critical'',
      ''name'', ''description'']"

record connection =
  c_id :: string
  c_source_id :: string
  c_target_id :: string
  c_kind :: connection_kind
  c_protocol :: "string option"
  c_interaction :: "interaction option"
  c_bidirectional :: bool
  c_critical :: "bool option"
  c_name :: "string option"
  c_description :: "string option"
  c_configuration :: configuration
  c_requirement_refs :: "requirement_ref list"
  c_metadata :: "(string \<times> string) list"
  c_provenance :: "provenance option"
  c_field_provenance :: "(string \<times> provenance) list"

definition semantics_problems :: "connection \<Rightarrow> violation list" where
  "semantics_problems c =
     (case c_protocol c of
        None \<Rightarrow> []
      | Some p \<Rightarrow> if PROTOCOL p then []
                  else [Violation ''invalid_protocol''
                          ''protocol must be a lower-case identifier, e.g. https or kafka.''
                          (Some ''protocol'')]) @
     (if communicates (c_kind c) then []
      else (if c_protocol c \<noteq> None
            then [Violation ''not_applicable''
                    ''A dependency does not communicate, so it has no protocol.'' (Some ''protocol'')]
            else []) @
           (if c_interaction c \<noteq> None
            then [Violation ''not_applicable''
                    ''A dependency does not communicate, so it has no interaction.'' (Some ''interaction'')]
            else []))"

definition connection_problems :: "connection \<Rightarrow> violation list" where
  "connection_problems c =
     map (within CONNECTION (Some (c_id c)) None)
       (id_problems (c_id c) ''id'' @
        id_problems (c_source_id c) ''source_id'' @
        id_problems (c_target_id c) ''target_id'' @
        (if c_source_id c = c_target_id c
         then [Violation ''self_connection'' ''A connection must join two different nodes.'' (Some ''target_id'')]
         else []) @
        semantics_problems c @
        text_problems (c_name c) ''name'' MAX_NODE_NAME_LENGTH False False @
        text_problems (c_description c) ''description'' MAX_DESCRIPTION_LENGTH False True @
        map (within CONNECTION (Some (c_id c)) (Some ''configuration''))
          (problems_for (c_configuration c) CONNECTION_PROPERTIES CONNECTION_OWNER) @
        annotation_problems (c_requirement_refs c) (c_metadata c) (c_field_provenance c) CONNECTION_FIELDS
          (c_configuration c))"

definition normalize_connection :: "connection \<Rightarrow> connection" where
  "normalize_connection c = c\<lparr>
     c_name := optional_line (c_name c),
     c_description := optional_block (c_description c),
     c_protocol := Option.bind (c_protocol c) (\<lambda>p. or_none (py_lower (py_strip p))),
     c_requirement_refs := sorted_refs (c_requirement_refs c),
     c_metadata := frozen (c_metadata c),
     c_field_provenance := frozen (c_field_provenance c)\<rparr>"

definition Connection :: "connection \<Rightarrow> violation list + connection" where
  "Connection c = (let c' = normalize_connection c in raise_if (connection_problems c') c')"

end
