(* ===== verification/IR_Model.thy ===== *)
theory IR_Model
  imports IR_Elements
begin

text \<open>
  The architecture (core/architecture_ir/model.py): its own fields and collections, and the graph
  rules its constructor enforces.
\<close>

definition IR_SCHEMA_VERSION :: int where "IR_SCHEMA_VERSION = 1"
definition MAX_NODES :: nat where "MAX_NODES = 1000"
definition MAX_CONNECTIONS :: nat where "MAX_CONNECTIONS = 5000"
definition MAX_ASSUMPTIONS :: nat where "MAX_ASSUMPTIONS = 500"
definition MAX_DECISIONS :: nat where "MAX_DECISIONS = 500"

record architecture_ir =
  ir_name :: string
  ir_description :: "string option"
  ir_nodes :: "node list"
  ir_connections :: "connection list"
  ir_assumptions :: "assumption list"
  ir_decisions :: "decision_ref list"
  ir_requirement_refs :: "requirement_ref list"
  ir_metadata :: "(string \<times> string) list"
  ir_provenance :: "provenance option"
  ir_schema_version :: int

section \<open>Reading\<close>

text \<open>
  \<open>ir_node\<close> is the method \<open>node\<close> (the first match); \<open>nodes_by_id\<close> the dict
  \<open>{n.id: n for n in nodes}\<close>, where a later node with the same id replaces an earlier one.
\<close>

definition ir_node :: "architecture_ir \<Rightarrow> string \<Rightarrow> node option" where
  "ir_node a i = List.find (\<lambda>n. n_id n = i) (ir_nodes a)"

definition ir_connection :: "architecture_ir \<Rightarrow> string \<Rightarrow> connection option" where
  "ir_connection a i = List.find (\<lambda>c. c_id c = i) (ir_connections a)"

definition nodes_of_kind :: "architecture_ir \<Rightarrow> node_kind list \<Rightarrow> node list" where
  "nodes_of_kind a kinds = filter (\<lambda>n. n_kind n \<in> set kinds) (ir_nodes a)"

definition element_ids :: "architecture_ir \<Rightarrow> string list" where
  "element_ids a = map n_id (ir_nodes a) @ map c_id (ir_connections a)"

definition nodes_by_id :: "node list \<Rightarrow> string \<Rightarrow> node option" where
  "nodes_by_id ns i = List.find (\<lambda>n. n_id n = i) (rev ns)"

lemma nodes_by_id_Some: "nodes_by_id ns i = Some n \<Longrightarrow> n \<in> set ns \<and> n_id n = i"
  by (auto simp: nodes_by_id_def dest: find_Some_mem)

section \<open>The architecture's own fields\<close>

definition own_problems :: "architecture_ir \<Rightarrow> violation list" where
  "own_problems a =
     map (within ARCHITECTURE None None)
       (text_problems (Some (ir_name a)) ''name'' MAX_NODE_NAME_LENGTH True False @
        text_problems (ir_description a) ''description'' MAX_DESCRIPTION_LENGTH False True @
        (if ir_schema_version a \<noteq> IR_SCHEMA_VERSION
         then [Violation ''unsupported_schema_version''
                 (''Schema version '' @ int_str (ir_schema_version a) @ '' is not supported here; this is version '' @
                  int_str IR_SCHEMA_VERSION @ ''.'') (Some ''schema_version'')]
         else []) @
        refs_problems (ir_requirement_refs a) ''requirement_refs'' @
        metadata_problems (ir_metadata a) ''metadata'')"

definition limit_problems :: "string \<Rightarrow> nat \<Rightarrow> nat \<Rightarrow> violation list" where
  "limit_problems name n limit =
     (if n > limit
      then [Violation ''too_many'' (''An architecture has at most '' @ nat_str limit @ '' '' @ name @ ''.'')
              (Some name)]
      else [])"

definition shape_problems :: "architecture_ir \<Rightarrow> violation list" where
  "shape_problems a =
     map (within ARCHITECTURE None None)
       (limit_problems ''nodes'' (length (ir_nodes a)) MAX_NODES @
        limit_problems ''connections'' (length (ir_connections a)) MAX_CONNECTIONS @
        limit_problems ''assumptions'' (length (ir_assumptions a)) MAX_ASSUMPTIONS @
        limit_problems ''decisions'' (length (ir_decisions a)) MAX_DECISIONS)"

section \<open>Graph rules\<close>

definition elements :: "architecture_ir \<Rightarrow> (element_type \<times> string) list" where
  "elements a =
     map (\<lambda>n. (NODE, n_id n)) (ir_nodes a) @
     map (\<lambda>c. (CONNECTION, c_id c)) (ir_connections a) @
     map (\<lambda>s. (ASSUMPTION, as_id s)) (ir_assumptions a)"

definition duplicate_id_problems :: "architecture_ir \<Rightarrow> violation list" where
  "duplicate_id_problems a =
     concat (map (\<lambda>(element, i).
       if count_list (map snd (elements a)) i > 1
       then [ViolationAt ''duplicate_id''
               (''The id '' @ py_repr i @ '' is used by more than one element; ids must be unique.'')
               (Some ''id'') element (Some i)]
       else []) (elements a))"

text \<open>
  The loop of \<open>_in_containment_cycle\<close>: \<open>parent\<close> is the parent of the node last visited, the
  next iteration's \<open>current\<close> is the node it names.
\<close>

function climb :: "node list \<Rightarrow> string \<Rightarrow> string list \<Rightarrow> string option \<Rightarrow> bool" where
  "climb ns start seen parent =
     (if \<not> truthy parent then False
      else case nodes_by_id ns (the parent) of
             None \<Rightarrow> False
           | Some current \<Rightarrow>
               if n_id current \<in> set seen then False
               else if n_id current = start then True
               else climb ns start (n_id current # seen) (n_parent_id current))"
  by pat_completeness auto

termination
proof (relation "measure (\<lambda>(ns, start, seen, parent). card (n_id ` set ns - set seen))", simp)
  fix ns start seen parent current
  assume "\<not> \<not> truthy parent" and c: "nodes_by_id ns (the parent) = Some current"
    and new: "n_id current \<notin> set seen"
  let ?left = "n_id ` set ns - set seen"
  have "n_id current \<in> ?left" using nodes_by_id_Some[OF c] new by blast
  then have "card (?left - {n_id current}) < card ?left" by (intro card_Diff1_less) simp_all
  moreover have "n_id ` set ns - set (n_id current # seen) = ?left - {n_id current}" by auto
  ultimately show "((ns, start, n_id current # seen, n_parent_id current), ns, start, seen, parent)
      \<in> measure (\<lambda>(ns, start, seen, parent). card (n_id ` set ns - set seen))"
    by (simp only: in_measure prod.case)
qed

declare climb.simps [simp del]

definition in_containment_cycle :: "node \<Rightarrow> node list \<Rightarrow> bool" where
  "in_containment_cycle n ns = climb ns (n_id n) [] (n_parent_id n)"

definition containment_problem :: "node list \<Rightarrow> node \<Rightarrow> violation list" where
  "containment_problem ns n =
     (case n_parent_id n of
        None \<Rightarrow> []
      | Some p \<Rightarrow>
          (case nodes_by_id ns p of
             None \<Rightarrow> [ViolationAt ''dangling_reference''
                        (''The parent '' @ py_repr p @ '' is not a node of this architecture.'')
                        (Some ''parent_id'') NODE (Some (n_id n))]
           | Some parent \<Rightarrow>
               if n_kind parent \<noteq> BOUNDARY
               then [ViolationAt ''invalid_parent''
                       (''Only a boundary can contain nodes; '' @ py_repr (n_id parent) @ '' is a '' @
                        kind_value (n_kind parent) @ ''.'')
                       (Some ''parent_id'') NODE (Some (n_id n))]
               else if in_containment_cycle n ns
               then [ViolationAt ''containment_cycle'' ''This node is (indirectly) its own parent.''
                       (Some ''parent_id'') NODE (Some (n_id n))]
               else []))"

definition containment_problems :: "architecture_ir \<Rightarrow> violation list" where
  "containment_problems a = concat (map (containment_problem (ir_nodes a)) (ir_nodes a))"

definition endpoint_problem :: "node list \<Rightarrow> string \<Rightarrow> string \<Rightarrow> string \<Rightarrow> violation list" where
  "endpoint_problem ns connection_id field node_id =
     (case nodes_by_id ns node_id of
        None \<Rightarrow> [ViolationAt ''dangling_reference''
                   (field @ '' '' @ py_repr node_id @ '' is not a node of this architecture.'')
                   (Some field) CONNECTION (Some connection_id)]
      | Some n \<Rightarrow>
          if n_kind n = BOUNDARY
          then [ViolationAt ''boundary_not_connectable''
                  (py_repr node_id @ '' is a boundary; connect the components inside it instead.'')
                  (Some field) CONNECTION (Some connection_id)]
          else [])"

definition signature :: "connection \<Rightarrow> string \<times> string \<times> connection_kind \<times> string option" where
  "signature c = (c_source_id c, c_target_id c, c_kind c, c_protocol c)"

fun connection_rule_problems ::
    "node list \<Rightarrow> ((string \<times> string \<times> connection_kind \<times> string option) \<times> string) list \<Rightarrow>
     connection list \<Rightarrow> violation list" where
  "connection_rule_problems ns seen [] = []"
| "connection_rule_problems ns seen (c # cs) =
     endpoint_problem ns (c_id c) ''source_id'' (c_source_id c) @
     endpoint_problem ns (c_id c) ''target_id'' (c_target_id c) @
     (case map_of seen (signature c) of
        Some first \<Rightarrow>
          ViolationAt ''duplicate_connection''
            (''The same connection is already stated as '' @ py_repr first @ ''.'')
            None CONNECTION (Some (c_id c)) #
          connection_rule_problems ns seen cs
      | None \<Rightarrow> connection_rule_problems ns ((signature c, c_id c) # seen) cs)"

definition subjects :: "architecture_ir \<Rightarrow> (element_type \<times> string \<times> string list) list" where
  "subjects a =
     map (\<lambda>s. (ASSUMPTION, as_id s, as_subject_ids s)) (ir_assumptions a) @
     map (\<lambda>d. (DECISION, uuid_str (dr_decision_id d), dr_subject_ids d)) (ir_decisions a)"

definition reference_problems :: "architecture_ir \<Rightarrow> violation list" where
  "reference_problems a =
     concat (map (\<lambda>(element, element_id, ids).
       concat (map (\<lambda>s.
         if s \<in> set (element_ids a) then []
         else [ViolationAt ''dangling_reference''
                 (py_repr s @ '' is not a node or connection of this architecture.'')
                 (Some ''subject_ids'') element (Some element_id)]) ids)) (subjects a)) @
     concat (map (\<lambda>i.
       if count_list (map dr_decision_id (ir_decisions a)) i > 1
       then [ViolationAt ''duplicate_decision''
               ''This decision is referenced more than once; list all its subjects in one reference.''
               None DECISION (Some (uuid_str i))]
       else []) (from_keys (map dr_decision_id (ir_decisions a))))"

definition ir_problems :: "architecture_ir \<Rightarrow> violation list" where
  "ir_problems a =
     (if shape_problems a \<noteq> [] then own_problems a @ shape_problems a
      else own_problems a @ duplicate_id_problems a @ containment_problems a @
           connection_rule_problems (ir_nodes a) [] (ir_connections a) @ reference_problems a)"

definition normalize_ir :: "architecture_ir \<Rightarrow> architecture_ir" where
  "normalize_ir a = a\<lparr>
     ir_name := clean_line (ir_name a),
     ir_description := optional_block (ir_description a),
     ir_nodes := sort_key n_id (ir_nodes a),
     ir_connections := sort_key c_id (ir_connections a),
     ir_assumptions := sort_key as_id (ir_assumptions a),
     ir_decisions := sort_key (\<lambda>d. uuid_str (dr_decision_id d)) (ir_decisions a),
     ir_requirement_refs := sorted_refs (ir_requirement_refs a),
     ir_metadata := frozen (ir_metadata a)\<rparr>"

definition ArchitectureIR :: "architecture_ir \<Rightarrow> violation list + architecture_ir" where
  "ArchitectureIR a = (let a' = normalize_ir a in raise_if (ir_problems a') a')"

end
