(* ===== verification/IR_Contracts.thy ===== *)
theory IR_Contracts
  imports IR_Model
begin

text \<open>
  The contract every constructor of the IR keeps: it normalizes its fields, refuses what the rules
  of its type forbid, and a value it returned is returned unchanged when it is built again.  The
  program relies on this wherever \<open>dataclasses.replace\<close> runs a constructor once more, and the
  canonical form is what makes equal architectures serialize equally.
\<close>

section \<open>The interface\<close>

locale constructor =
  fixes mk :: "'a \<Rightarrow> violation list + 'a" and norm :: "'a \<Rightarrow> 'a" and problems :: "'a \<Rightarrow> violation list"
  assumes mk_def: "mk x = raise_if (problems (norm x)) (norm x)"
    and norm_stable: "problems (norm x) = [] \<Longrightarrow> norm (norm x) = norm x"
begin

lemma mk_Inr: "mk x = Inr y \<longleftrightarrow> y = norm x \<and> problems y = []"
  by (auto simp: mk_def raise_if_def)

lemma mk_again: "mk x = Inr y \<Longrightarrow> mk y = Inr y"
  by (auto simp: mk_def raise_if_def norm_stable split: if_splits)

lemma built_iff: "mk y = Inr y \<longleftrightarrow> norm y = y \<and> problems y = []"
  by (auto simp: mk_def raise_if_def split: if_splits)

lemma mk_built: "mk x = Inr y \<Longrightarrow> norm y = y \<and> problems y = []"
  using mk_again built_iff by blast

lemma mk_Inl: "mk x = Inl vs \<longleftrightarrow> problems (norm x) \<noteq> [] \<and> vs = ordered (problems (norm x))"
  by (auto simp: mk_def raise_if_def)

end

section \<open>Normal forms\<close>

lemma frozen_idem [simp]: "frozen (frozen kvs) = frozen kvs"
  by (simp add: frozen_def)

lemma sorted_refs_idem [simp]: "sorted_refs (sorted_refs rs) = sorted_refs rs"
  by (simp add: sorted_refs_def distinct_remdups_id)

lemma optional_line_idem [simp]: "optional_line (optional_line s) = optional_line s"
  by (cases s) (auto simp: optional_line_def or_none_def)


lemma optional_block_idem:
  assumes "text_problems (optional_block s) field n required True = []"
  shows "optional_block (optional_block s) = optional_block s"
proof (cases "optional_block s")
  case (Some t)
  then have t: "t = clean_block (the s)" "t \<noteq> []" by (auto simp: optional_block_def or_none_def bind_eq_Some_conv split: if_splits)
  have "\<not> has_forbidden_characters t BLOCK_CONTROLS"
    using assms Some by (auto simp: text_problems_def split: if_splits)
  then have "CHR 0x0D \<notin> set t" unfolding BLOCK_CONTROLS_def by (rule cr_forbidden)
  then have "clean_block t = t" using t(1) clean_block_idem by simp
  with t Some show ?thesis by (simp add: optional_block_def or_none_def)
qed (simp add: optional_block_def)

lemma block_idem:
  assumes "text_problems (Some (clean_block s)) field n required True = []"
  shows "clean_block (clean_block s) = clean_block s"
proof -
  have "\<not> has_forbidden_characters (clean_block s) BLOCK_CONTROLS"
    using assms by (auto simp: text_problems_def split: if_splits)
  then show ?thesis unfolding BLOCK_CONTROLS_def by (intro clean_block_idem cr_forbidden)
qed

lemma py_space_lower [simp]: "py_space (lower_char c) = py_space c"
proof (cases "is_upper_ascii c \<or> (192 \<le> code c \<and> code c \<le> 222 \<and> code c \<noteq> 215)")
  case True
  then have "code c + 32 < 256" by (auto simp: is_upper_ascii_def)
  then have "of_char (char_of (code c + 32) :: char) = (code c + 32 :: nat)" by (simp add: of_char_of)
  with True show ?thesis by (auto simp: lower_char_def is_upper_ascii_def py_space_def)
next
  case False
  then have "lower_char c = c" unfolding lower_char_def by (rule if_not_P)
  then show ?thesis by simp
qed

lemma py_strip_lower: "py_strip (py_lower s) = py_lower (py_strip s)"
  by (simp add: py_strip_def strip_chars_def py_lower_def dropWhile_map rev_map comp_def)

lemma protocol_idem:
  "Option.bind (or_none (py_lower (py_strip p))) (\<lambda>p. or_none (py_lower (py_strip p))) =
   or_none (py_lower (py_strip p))"
  by (auto simp: or_none_def py_strip_lower)

section \<open>Canonical decimals\<close>

lemma length_nat_str: "0 < k \<Longrightarrow> length (nat_str n) \<le> k \<longleftrightarrow> n < 10 ^ k"
proof (induction k arbitrary: n)
  case (Suc k)
  show ?case
  proof (cases "n < 10")
    case True
    moreover have "(10::nat) \<le> 10 ^ Suc k" by simp
    ultimately have "n < 10 ^ Suc k" by linarith
    with True show ?thesis by (subst nat_str.simps) simp
  next
    case False
    then have "length (nat_str n) = Suc (length (nat_str (n div 10)))" by (subst nat_str.simps) simp
    moreover have "0 < length (nat_str (n div 10))" by (subst nat_str.simps) simp
    ultimately show ?thesis using Suc.IH[of "n div 10"] False
      by (cases "k = 0") (auto simp: div_less_iff_less_mult mult.commute)
  qed
qed simp

lemma digits_pos: "0 < digits c"
  unfolding digits_def by (subst nat_str.simps) simp

lemma digits_le: "0 < k \<Longrightarrow> digits c \<le> k \<longleftrightarrow> \<bar>c\<bar> < 10 ^ k"
  unfolding digits_def by (simp add: length_nat_str nat_less_iff)

lemma digits_shift: "c \<noteq> 0 \<Longrightarrow> digits (c * 10 ^ k) = digits c + k"
proof (induction k)
  case (Suc k)
  let ?n = "nat \<bar>c * 10 ^ k\<bar>"
  have "nat \<bar>c * 10 ^ Suc k\<bar> = 10 * ?n" by (simp add: abs_mult nat_mult_distrib)
  moreover have "length (nat_str (10 * ?n)) = Suc (length (nat_str ?n))"
    using Suc.prems by (subst nat_str.simps) (simp add: zero_less_mult_iff)
  ultimately show ?case using Suc by (simp add: digits_def)
qed simp

lemma strip_zeros_value: "strip_zeros n c e = (c', e') \<Longrightarrow> e \<le> e' \<and> c = c' * 10 ^ nat (e' - e)"
proof (induction n arbitrary: c e)
  case (Suc n)
  show ?case
  proof (cases "c mod 10 = 0")
    case True
    with Suc.prems have "strip_zeros n (c div 10) (e + 1) = (c', e')" by simp
    from Suc.IH[OF this] have ih: "e + 1 \<le> e'" "c div 10 = c' * 10 ^ nat (e' - (e + 1))" by auto
    have "nat (e' - e) = Suc (nat (e' - (e + 1)))" using ih(1) by simp
    moreover have "c = 10 * (c div 10)" using True by auto
    ultimately show ?thesis using ih by simp
  qed (use Suc.prems in auto)
qed simp

lemma strip_zeros_stops: "strip_zeros n c e = (c', e') \<Longrightarrow> c \<noteq> 0 \<Longrightarrow> \<bar>c\<bar> < 10 ^ n \<Longrightarrow> c' mod 10 \<noteq> 0"
proof (induction n arbitrary: c e)
  case (Suc n)
  show ?case
  proof (cases "c mod 10 = 0")
    case True
    then have "c = 10 * (c div 10)" by auto
    then have "c div 10 \<noteq> 0" "\<bar>c div 10\<bar> < 10 ^ n" using Suc.prems by (auto simp: abs_mult)
    with True Suc.prems(1) show ?thesis by (intro Suc.IH[of "c div 10" "e + 1"]) simp_all
  qed (use Suc.prems in auto)
qed simp

lemma strip_zeros_shift: "c mod 10 \<noteq> 0 \<Longrightarrow> k \<le> n \<Longrightarrow> strip_zeros n (c * 10 ^ k) e = (c, e + int k)"
proof (induction k arbitrary: n e)
  case 0
  then show ?case by (cases n) auto
next
  case (Suc k)
  then obtain m where n: "n = Suc m" "k \<le> m" by (cases n) auto
  have "c * 10 ^ Suc k = 10 * (c * 10 ^ k)" by simp
  then have "(c * 10 ^ Suc k) mod 10 = 0" "(c * 10 ^ Suc k) div 10 = c * 10 ^ k"
    by simp_all
  with Suc n show ?case by simp
qed

lemma round_dec_bound:
  assumes "c \<noteq> 0" "round_dec c e = (c', e')"
  shows "c' \<noteq> 0 \<and> \<bar>c'\<bar> \<le> 10 ^ PRECISION"
proof (cases "digits c \<le> PRECISION")
  case True
  then have "\<bar>c\<bar> < 10 ^ PRECISION" using digits_le[of PRECISION c] by (simp add: PRECISION_def)
  with True assms show ?thesis by (auto simp: round_dec_def)
next
  case False
  define k q where kq: "k = digits c - PRECISION" "q = \<bar>c\<bar> div 10 ^ k"
  have d: "digits c = PRECISION + k" using False kq by simp
  have "\<bar>c\<bar> < 10 ^ (PRECISION + k)" using digits_le[of "digits c" c] digits_pos[of c] d by simp
  then have "\<bar>c\<bar> < 10 ^ PRECISION * 10 ^ k" by (simp add: power_add)
  moreover have "q * 10 ^ k = \<bar>c\<bar> - \<bar>c\<bar> mod 10 ^ k" unfolding kq(2) by (simp add: minus_mod_eq_div_mult)
  moreover have "0 \<le> \<bar>c\<bar> mod 10 ^ k" by simp
  ultimately have "q * 10 ^ k < 10 ^ PRECISION * 10 ^ k" by linarith
  then have "q < 10 ^ PRECISION" by simp
  moreover have "\<not> \<bar>c\<bar> < 10 ^ k"
  proof
    assume "\<bar>c\<bar> < 10 ^ k"
    then have "digits c \<le> k" using digits_le[of k c] False kq(1) by simp
    with d show False by (simp add: PRECISION_def)
  qed
  then have "q \<ge> 1" unfolding kq by (simp add: int_one_le_iff_zero_less pos_imp_zdiv_pos_iff)
  moreover obtain q' where "c' = sgn c * q'" "q' = q \<or> q' = q + 1"
    using assms(2) False unfolding round_dec_def Let_def kq[symmetric] by (auto split: if_splits)
  ultimately show ?thesis using assms(1) by (auto simp: abs_mult sgn_0_0)
qed

text \<open>What \<open>normalize\<close> returns: zero, or a coefficient of at most 28 digits with no trailing zero.\<close>

lemma normalize_form:
  assumes "c \<noteq> 0"
  obtains c' e' where "normalize (Dec c e) = Dec c' e'" "c' mod 10 \<noteq> 0" "digits c' \<le> PRECISION"
proof -
  obtain c1 e1 where r: "round_dec c e = (c1, e1)" by fastforce
  obtain c2 e2 where z: "strip_zeros (digits c1) c1 e1 = (c2, e2)" by fastforce
  have c1: "c1 \<noteq> 0" "\<bar>c1\<bar> \<le> 10 ^ PRECISION" using round_dec_bound[OF assms r] by auto
  have m: "c2 mod 10 \<noteq> 0"
    using strip_zeros_stops[OF z c1(1)] digits_le[of "digits c1" c1] digits_pos[of c1] by simp
  have "\<bar>c2\<bar> \<le> \<bar>c1\<bar>"
    using strip_zeros_value[OF z] by (auto simp: abs_mult mult_le_cancel_left1)
  moreover have "\<bar>c2\<bar> \<noteq> 10 ^ PRECISION"
  proof
    assume "\<bar>c2\<bar> = 10 ^ PRECISION"
    then have "c2 = 10 ^ PRECISION \<or> c2 = - (10 ^ PRECISION)" by linarith
    then have "c2 mod 10 = 0" by (auto simp: PRECISION_def)
    with m show False by simp
  qed
  ultimately have "digits c2 \<le> PRECISION"
    using c1(2) digits_le[of PRECISION c2] by (simp add: PRECISION_def)
  with that m assms r z show ?thesis by simp
qed

lemma normalize_plus_zero:
  assumes "c mod 10 \<noteq> 0" "digits c \<le> PRECISION"
  shows "normalize (plus_zero (Dec c e)) = Dec c e"
proof -
  define k where "k = (if e \<le> 0 then 0 else min (nat e) (PRECISION - digits c))"
  have p: "plus_zero (Dec c e) = Dec (c * 10 ^ k) (e - int k)" by (simp add: k_def Let_def)
  have c: "c \<noteq> 0" using assms(1) by auto
  then have d: "digits (c * 10 ^ k) = digits c + k" by (rule digits_shift)
  have "digits c + k \<le> PRECISION" using assms(2) by (auto simp: k_def)
  then have "round_dec (c * 10 ^ k) (e - int k) = (c * 10 ^ k, e - int k)" by (simp add: round_dec_def d)
  moreover have "strip_zeros (digits c + k) (c * 10 ^ k) (e - int k) = (c, e)"
    using strip_zeros_shift[OF assms(1), of k "digits c + k" "e - int k"] by simp
  ultimately show ?thesis unfolding p using c by (simp add: d)
qed

lemma canonical_decimal_idem [simp]: "canonical_decimal (canonical_decimal d) = canonical_decimal d"
proof (cases d)
  case (Dec c e)
  show ?thesis
  proof (cases "c = 0")
    case False
    then obtain c' e' where "normalize d = Dec c' e'" "c' mod 10 \<noteq> 0" "digits c' \<le> PRECISION"
      using normalize_form Dec by metis
    then show ?thesis unfolding canonical_decimal_def using normalize_plus_zero by metis
  qed (simp add: Dec canonical_decimal_def)
qed (simp_all add: canonical_decimal_def)

lemma finite_canonical [simp]: "is_finite (canonical_decimal d) = is_finite d"
proof (cases d)
  case (Dec c e)
  obtain c' e' where n: "normalize d = Dec c' e'"
    by (cases "c = 0") (simp add: Dec, metis Dec normalize_form)
  with Dec show ?thesis unfolding canonical_decimal_def n by (simp add: Let_def)
qed (simp_all add: canonical_decimal_def)


lemma dec_eq_at:
  assumes "m \<le> e1" "m \<le> e2"
  shows "dec_eq (Dec c1 e1) (Dec c2 e2) \<longleftrightarrow> c1 * 10 ^ nat (e1 - m) = c2 * 10 ^ nat (e2 - m)"
proof -
  define k where "k = nat (min e1 e2 - m)"
  have "nat (e1 - m) = nat (e1 - min e1 e2) + k" "nat (e2 - m) = nat (e2 - min e1 e2) + k"
    using assms by (auto simp: k_def)
  then have "c1 * 10 ^ nat (e1 - m) = c1 * 10 ^ nat (e1 - min e1 e2) * 10 ^ k"
    "c2 * 10 ^ nat (e2 - m) = c2 * 10 ^ nat (e2 - min e1 e2) * 10 ^ k"
    by (simp_all add: power_add)
  then show ?thesis by (simp only: dec_eq.simps Let_def mult_cancel_right) simp
qed

lemma dec_eq_trans:
  assumes "dec_eq (Dec c1 e1) (Dec c2 e2)" and "dec_eq (Dec c2 e2) (Dec c3 e3)"
  shows "dec_eq (Dec c1 e1) (Dec c3 e3)"
proof -
  define m where "m = min e1 (min e2 e3)"
  have "m \<le> e1" "m \<le> e2" "m \<le> e3" by (simp_all add: m_def)
  with assms show ?thesis by (simp only: dec_eq_at[of m])
qed

lemma dec_eq_sym: "dec_eq d d' \<Longrightarrow> dec_eq d' d"
  by (induction d d' rule: dec_eq.induct) (auto simp: Let_def min.commute)

lemma dec_eq_unique:
  assumes "dec_eq (Dec c1 e1) (Dec c2 e2)" "c1 mod 10 \<noteq> 0" "c2 mod 10 \<noteq> 0"
  shows "c1 = c2 \<and> e1 = e2"
proof -
  have ten: "(c * 10 ^ n) mod 10 = 0" if "0 < n" for c :: int and n
    using that by (cases n) auto
  let ?m = "min e1 e2"
  have eq: "c1 * 10 ^ nat (e1 - ?m) = c2 * 10 ^ nat (e2 - ?m)" using assms(1) by (simp add: Let_def)
  have "\<not> e1 < e2" using eq ten[of "nat (e2 - ?m)" c2] assms(2) by (auto simp: min_def)
  moreover have "\<not> e2 < e1" using eq ten[of "nat (e1 - ?m)" c1] assms(3) by (auto simp: min_def)
  ultimately show ?thesis using eq by simp
qed

text \<open>A number of at most 28 digits keeps its value.\<close>

lemma normalize_value:
  assumes "c \<noteq> 0" "digits c \<le> PRECISION"
  obtains c' e' where "normalize (Dec c e) = Dec c' e'" "c' mod 10 \<noteq> 0" "digits c' \<le> PRECISION"
    "dec_eq (Dec c e) (Dec c' e')"
proof -
  obtain c' e' where n: "normalize (Dec c e) = Dec c' e'" "c' mod 10 \<noteq> 0" "digits c' \<le> PRECISION"
    using normalize_form[OF assms(1)] by metis
  then have "strip_zeros (digits c) c e = (c', e')"
    using assms by (auto simp: round_dec_def Let_def split: prod.splits)
  from strip_zeros_value[OF this] have "dec_eq (Dec c e) (Dec c' e')" by (simp add: Let_def min_def)
  with that n show ?thesis by blast
qed

theorem canonical_decimal_decides:
  assumes "digits c1 \<le> PRECISION" "digits c2 \<le> PRECISION"
  shows "canonical_decimal (Dec c1 e1) = canonical_decimal (Dec c2 e2) \<longleftrightarrow> dec_eq (Dec c1 e1) (Dec c2 e2)"
proof (cases "c1 = 0 \<or> c2 = 0")
  case True
  have zero: "dec_eq (Dec 0 e) (Dec c e') \<longleftrightarrow> c = 0" for e c e' by (simp add: Let_def)
  have nz: "canonical_decimal (Dec c e) \<noteq> Dec 0 0" if c: "c \<noteq> 0" "digits c \<le> PRECISION" for c e
  proof
    assume z: "canonical_decimal (Dec c e) = Dec 0 0"
    obtain c' e' where "normalize (Dec c e) = Dec c' e'" "c' mod 10 \<noteq> 0" "digits c' \<le> PRECISION"
      using normalize_form[OF c(1)] by metis
    with z normalize_plus_zero[of c' e'] show False by (auto simp: canonical_decimal_def)
  qed
  have "canonical_decimal (Dec 0 e) = Dec 0 0" for e by (simp add: canonical_decimal_def)
  with True zero nz assms show ?thesis using dec_eq_sym by metis
next
  case False
  obtain a1 f1 where 1: "normalize (Dec c1 e1) = Dec a1 f1" "a1 mod 10 \<noteq> 0" "digits a1 \<le> PRECISION"
    "dec_eq (Dec c1 e1) (Dec a1 f1)" using normalize_value[OF _ assms(1)] False by metis
  obtain a2 f2 where 2: "normalize (Dec c2 e2) = Dec a2 f2" "a2 mod 10 \<noteq> 0" "digits a2 \<le> PRECISION"
    "dec_eq (Dec c2 e2) (Dec a2 f2)" using normalize_value[OF _ assms(2)] False by metis
  have "canonical_decimal (Dec c1 e1) = canonical_decimal (Dec c2 e2) \<longleftrightarrow> Dec a1 f1 = Dec a2 f2"
    unfolding canonical_decimal_def 1(1) 2(1) using normalize_plus_zero[OF 1(2,3)] normalize_plus_zero[OF 2(2,3)] by metis
  also have "\<dots> \<longleftrightarrow> dec_eq (Dec a1 f1) (Dec a2 f2)"
  proof
    assume "Dec a1 f1 = Dec a2 f2"
    then show "dec_eq (Dec a1 f1) (Dec a2 f2)" by simp
  qed (use dec_eq_unique[OF _ 1(2) 2(2)] in blast)
  also have "\<dots> \<longleftrightarrow> dec_eq (Dec c1 e1) (Dec c2 e2)"
    using 1(4) 2(4) dec_eq_trans dec_eq_sym by blast
  finally show ?thesis .
qed

section \<open>The constructors\<close>

lemma confidence_idem:
  "map_option (\<lambda>c. if is_finite c then canonical_decimal c else c)
     (map_option (\<lambda>c. if is_finite c then canonical_decimal c else c) d) =
   map_option (\<lambda>c. if is_finite c then canonical_decimal c else c) d"
  by (cases d) auto

interpretation provenance: constructor Provenance normalize_provenance provenance_problems
  by unfold_locales (simp_all add: Provenance_def normalize_provenance_def Let_def confidence_idem
      del: option.map_comp)

interpretation decision: constructor DecisionRef "\<lambda>d. d\<lparr>dr_subject_ids := sorted_set (dr_subject_ids d)\<rparr>"
    "\<lambda>d. subject_problems (dr_subject_ids d)"
  by unfold_locales (simp_all add: DecisionRef_def Let_def)

interpretation assumption: constructor Assumption normalize_assumption assumption_problems
  by unfold_locales
    (auto simp: Assumption_def normalize_assumption_def assumption_problems_def Let_def dest: block_idem)

interpretation node: constructor Node normalize_node node_problems
  by unfold_locales
    (auto simp: Node_def normalize_node_def node_problems_def Let_def dest: optional_block_idem)

interpretation connection: constructor Connection normalize_connection connection_problems
proof unfold_locales
  fix c
  assume "connection_problems (normalize_connection c) = []"
  then have "text_problems (c_description (normalize_connection c)) ''description'' MAX_DESCRIPTION_LENGTH False True = []"
    by (auto simp: connection_problems_def)
  then have "optional_block (optional_block (c_description c)) = optional_block (c_description c)"
    by (intro optional_block_idem) (simp add: normalize_connection_def)
  then show "normalize_connection (normalize_connection c) = normalize_connection c"
    by (simp add: normalize_connection_def protocol_idem)
qed (simp add: Connection_def Let_def)

lemma own_block: "own_problems a = [] \<Longrightarrow> \<exists>f n r. text_problems (ir_description a) f n r True = []"
  by (auto simp: own_problems_def)

lemma ir_problems_own: "ir_problems a = [] \<Longrightarrow> own_problems a = []"
  by (auto simp: ir_problems_def split: if_splits)

interpretation architecture: constructor ArchitectureIR normalize_ir ir_problems
proof unfold_locales
  fix a
  assume "ir_problems (normalize_ir a) = []"
  then have "optional_block (ir_description (normalize_ir a)) = ir_description (normalize_ir a)"
    using own_block[OF ir_problems_own] optional_block_idem by (fastforce simp: normalize_ir_def)
  then show "normalize_ir (normalize_ir a) = normalize_ir a"
    by (simp add: normalize_ir_def)
qed (simp add: ArchitectureIR_def Let_def)


section \<open>Configurations\<close>

lemma canonical_value_idem [simp]: "canonical_value (canonical_value v) = canonical_value v"
  by (cases v) auto

lemma sort_entries: "sort_key fst (map (\<lambda>(k, v). (k, g v)) kvs) = map (\<lambda>(k, v). (k, g v)) (sort_key fst kvs)"
proof (induction kvs)
  case (Cons kv kvs)
  have "insort_key fst (k, g v) (map (\<lambda>(k, v). (k, g v)) xs) = map (\<lambda>(k, v). (k, g v)) (insort_key fst (k, v) xs)"
    for k v xs by (induction xs) auto
  with Cons show ?case by (cases kv) simp
qed simp

lemma sort_entries_again:
  assumes "\<forall>(k, v) \<in> set kvs. g (g v) = g v"
  shows "sort_key fst (map (\<lambda>(k, v). (k, g v)) (sort_key fst (map (\<lambda>(k, v). (k, g v)) kvs))) =
    sort_key fst (map (\<lambda>(k, v). (k, g v)) kvs)"
proof -
  have "map (\<lambda>(k, v). (k, g v)) (map (\<lambda>(k, v). (k, g v)) kvs) = map (\<lambda>(k, v). (k, g v)) kvs"
    using assms by auto
  then show ?thesis by (simp only: sort_entries[of g "map _ _", symmetric] sort_key_idem)
qed

lemma freeze_json_idem [simp]: "freeze_json d (freeze_json d v) = freeze_json d v"
proof (induction d v rule: freeze_json.induct)
  case (1 depth vs)
  then show ?case by (auto simp: comp_def)
next
  case (2 depth kvs)
  show ?case
  proof (cases "depth > MAX_JSON_DEPTH + 1")
    case False
    have "\<forall>(k, v) \<in> set kvs. freeze_json (depth + 1) (freeze_json (depth + 1) v) = freeze_json (depth + 1) v"
      using 2[OF False] by auto
    from sort_entries_again[OF this] False show ?thesis by simp
  qed simp
qed simp_all

definition normalize_configuration :: "configuration \<Rightarrow> configuration" where
  "normalize_configuration c =
     \<lparr>cf_values = frozen (map (\<lambda>(k, v). (k, canonical_value v)) (cf_values c)),
      cf_unknown = sorted_set (cf_unknown c), cf_extra = freeze_extra (cf_extra c)\<rparr>"

lemma freeze_extra_idem [simp]: "freeze_extra (freeze_extra kvs) = freeze_extra kvs"
  unfolding freeze_extra_def by (rule sort_entries_again) auto

lemma frozen_values_again:
  "frozen (map (\<lambda>(k, v). (k, canonical_value v)) (frozen (map (\<lambda>(k, v). (k, canonical_value v)) kvs))) =
   frozen (map (\<lambda>(k, v). (k, canonical_value v)) kvs)"
  unfolding frozen_def by (rule sort_entries_again) auto

interpretation configuration: constructor "\<lambda>c. Configuration (cf_values c) (cf_unknown c) (cf_extra c)"
    normalize_configuration configuration_problems
  by unfold_locales
    (simp_all add: Configuration_def normalize_configuration_def Let_def frozen_values_again)

end
