(* ===== verification/Worklist.thy ===== *)
theory Worklist
  imports Base
begin

text \<open>
  Graph exploration with a stack, the loop several components share
  (core/architecture_ir/topology.py \<open>_closure\<close>, the dependency graphs of the engines): take
  the last vertex of the frontier, and add those of its successors that were not seen to both.
  The interface \<open>worklist\<close> asks of the successor function only that a finite set of vertices
  is closed under it; then the loop ends and the vertices seen are exactly those reachable.
\<close>

definition visit :: "'a list \<Rightarrow> 'a list \<times> 'a list \<Rightarrow> 'a list \<times> 'a list" where
  "visit nexts st = fold (\<lambda>y (seen, frontier).
     if y \<in> set seen then (seen, frontier) else (y # seen, y # frontier)) nexts st"

partial_function (option) explore :: "('a \<Rightarrow> 'a list) \<Rightarrow> 'a list \<Rightarrow> 'a list \<Rightarrow> 'a list option" where
  [code]: "explore step seen frontier =
     (case frontier of
        [] \<Rightarrow> Some seen
      | x # rest \<Rightarrow> explore step (fst (visit (step x) (seen, rest))) (snd (visit (step x) (seen, rest))))"

definition edges :: "('a \<Rightarrow> 'a list) \<Rightarrow> ('a \<times> 'a) set" where
  "edges step = {(x, y). y \<in> set (step x)}"

lemma edges_iff [simp]: "(x, y) \<in> edges step \<longleftrightarrow> y \<in> set (step x)"
  by (simp add: edges_def)

lemma visit_Cons: "visit (y # nexts) (seen, frontier) =
    (if y \<in> set seen then visit nexts (seen, frontier) else visit nexts (y # seen, y # frontier))"
  by (simp add: visit_def)

lemma visit_all:
  assumes "visit nexts (seen, frontier) = (seen', frontier')"
  shows "set seen' = set seen \<union> set nexts \<and> set frontier' = set frontier \<union> (set nexts - set seen) \<and>
    (distinct seen \<longrightarrow> distinct seen') \<and> length seen' + length frontier = length seen + length frontier'"
  using assms
proof (induction nexts arbitrary: seen frontier)
  case Nil
  then show ?case by (simp add: visit_def)
next
  case (Cons y nexts)
  show ?case
  proof (cases "y \<in> set seen")
    case True
    with Cons.prems have "visit nexts (seen, frontier) = (seen', frontier')" by (simp add: visit_Cons)
    from Cons.IH[OF this] True show ?thesis by auto
  next
    case False
    with Cons.prems have "visit nexts (y # seen, y # frontier) = (seen', frontier')"
      by (simp add: visit_Cons)
    from Cons.IH[OF this] False show ?thesis by auto
  qed
qed

lemmas visit_set = visit_all[THEN conjunct1] visit_all[THEN conjunct2, THEN conjunct1]
  visit_all[THEN conjunct2, THEN conjunct2, THEN conjunct1, rule_format]
  visit_all[THEN conjunct2, THEN conjunct2, THEN conjunct2]

locale worklist =
  fixes step :: "'a \<Rightarrow> 'a list" and universe :: "'a set"
  assumes finite_universe: "finite universe"
    and step_universe: "x \<in> universe \<Longrightarrow> set (step x) \<subseteq> universe"
begin

lemma explore_total:
  assumes "set seen \<subseteq> universe" "distinct seen" "set frontier \<subseteq> set seen"
    and "\<forall>x \<in> set seen - set frontier. set (step x) \<subseteq> set seen"
  shows "\<exists>S. explore step seen frontier = Some S \<and> set seen \<subseteq> set S \<and>
    (\<forall>x \<in> set S. set (step x) \<subseteq> set S) \<and> set S \<subseteq> (edges step)\<^sup>* `` set seen"
  using assms
proof (induction "card (universe - set seen) + length frontier" arbitrary: seen frontier rule: less_induct)
  case less
  show ?case
  proof (cases frontier)
    case Nil
    then show ?thesis using less.prems by (subst explore.simps) auto
  next
    case (Cons x rest)
    obtain seen' frontier' where v: "visit (step x) (seen, rest) = (seen', frontier')"
      by (cases "visit (step x) (seen, rest)")
    note vs = visit_set[OF v]
    have x: "x \<in> set seen" "x \<in> universe" using less.prems Cons by auto
    have sub: "set seen' \<subseteq> universe" using less.prems(1) step_universe[OF x(2)] vs(1) by auto
    have d: "distinct seen'" using vs(3) less.prems(2) by blast
    have "card (universe - set seen') + length frontier' < card (universe - set seen) + length frontier"
    proof -
      have "card (set seen') = length seen'" "card (set seen) = length seen"
        using d less.prems(2) by (simp_all add: distinct_card)
      moreover have "card (universe - set seen') = card universe - card (set seen')"
        "card (universe - set seen) = card universe - card (set seen)"
        using sub less.prems(1) by (simp_all add: card_Diff_subset)
      moreover have "card (set seen') \<le> card universe"
        using sub finite_universe by (rule card_mono[rotated])
      ultimately show ?thesis using vs(4) Cons by simp
    qed
    moreover have "set frontier' \<subseteq> set seen'" using vs(1,2) less.prems(3) Cons by auto
    moreover have "\<forall>z \<in> set seen' - set frontier'. set (step z) \<subseteq> set seen'"
      using vs(1,2) less.prems(4) Cons by auto
    ultimately obtain S where S: "explore step seen' frontier' = Some S" "set seen' \<subseteq> set S"
      "\<forall>z \<in> set S. set (step z) \<subseteq> set S" "set S \<subseteq> (edges step)\<^sup>* `` set seen'"
      using less.hyps sub d by meson
    have "(edges step)\<^sup>* `` set seen' \<subseteq> (edges step)\<^sup>* `` set seen"
    proof
      fix z
      assume "z \<in> (edges step)\<^sup>* `` set seen'"
      then obtain y where y: "y \<in> set seen \<or> y \<in> set (step x)" "(y, z) \<in> (edges step)\<^sup>*"
        using vs(1) by auto
      then show "z \<in> (edges step)\<^sup>* `` set seen"
        using x(1) by (meson Image_iff converse_rtrancl_into_rtrancl edges_iff)
    qed
    with S vs(1) show ?thesis
      by (subst explore.simps) (auto simp: Cons v)
  qed
qed

theorem explore_reachable:
  assumes "x \<in> universe"
  shows "\<exists>S. explore step [x] [x] = Some S \<and> set S = {y. (x, y) \<in> (edges step)\<^sup>*}"
proof -
  obtain S where S: "explore step [x] [x] = Some S" "{x} \<subseteq> set S"
    "\<forall>z \<in> set S. set (step z) \<subseteq> set S" "set S \<subseteq> (edges step)\<^sup>* `` {x}"
    using explore_total[of "[x]" "[x]"] assms by auto
  have "y \<in> set S" if "(x, y) \<in> (edges step)\<^sup>*" for y
    using that by induction (use S in auto)
  with S show ?thesis by auto
qed

end

end
