(* ===== verification/IR_Topology.thy ===== *)
theory IR_Topology
  imports IR_Model Worklist
begin

text \<open>
  Read-only graph queries over an architecture (core/architecture_ir/topology.py).  The indexes
  \<open>_outgoing\<close>, \<open>_incoming\<close> and \<open>_children\<close> hold the connections and nodes in
  their canonical order, so a lookup in them is the corresponding selection.  A closure may be
  asked from any id; \<open>None\<close> would be a closure that does not end.
\<close>

section \<open>Queries\<close>

definition of_kind :: "connection list \<Rightarrow> connection_kind list \<Rightarrow> connection list" where
  "of_kind cs kinds = filter (\<lambda>c. kinds = [] \<or> c_kind c \<in> set kinds) cs"

definition topology_node :: "architecture_ir \<Rightarrow> string \<Rightarrow> node option" where
  "topology_node a i = nodes_by_id (ir_nodes a) i"

definition topology_connection :: "architecture_ir \<Rightarrow> string \<Rightarrow> connection option" where
  "topology_connection a i = List.find (\<lambda>c. c_id c = i) (rev (ir_connections a))"

definition components :: "architecture_ir \<Rightarrow> node list" where
  "components a = filter (\<lambda>n. n_kind n \<noteq> BOUNDARY) (ir_nodes a)"

definition outgoing :: "architecture_ir \<Rightarrow> string \<Rightarrow> connection_kind list \<Rightarrow> connection list" where
  "outgoing a i kinds = of_kind (filter (\<lambda>c. c_source_id c = i) (ir_connections a)) kinds"

definition incoming :: "architecture_ir \<Rightarrow> string \<Rightarrow> connection_kind list \<Rightarrow> connection list" where
  "incoming a i kinds = of_kind (filter (\<lambda>c. c_target_id c = i) (ir_connections a)) kinds"

definition distinct_nodes :: "architecture_ir \<Rightarrow> string list \<Rightarrow> node list" where
  "distinct_nodes a ids = filter (\<lambda>n. n_id n \<in> set ids) (ir_nodes a)"

definition successors :: "architecture_ir \<Rightarrow> string \<Rightarrow> connection_kind list \<Rightarrow> node list" where
  "successors a i kinds = distinct_nodes a (map c_target_id (outgoing a i kinds))"

definition predecessors :: "architecture_ir \<Rightarrow> string \<Rightarrow> connection_kind list \<Rightarrow> node list" where
  "predecessors a i kinds = distinct_nodes a (map c_source_id (incoming a i kinds))"

definition closure :: "architecture_ir \<Rightarrow> string \<Rightarrow> (string \<Rightarrow> node list) \<Rightarrow> node list option" where
  "closure a start step =
     map_option (\<lambda>seen. filter (\<lambda>n. n_id n \<in> set seen - {start}) (ir_nodes a))
       (explore (\<lambda>i. map n_id (step i)) [start] [start])"

definition reachable_from ::
    "architecture_ir \<Rightarrow> string \<Rightarrow> connection_kind list \<Rightarrow> node list option" where
  "reachable_from a i kinds = closure a i (\<lambda>n. successors a n kinds)"

definition dependents_of ::
    "architecture_ir \<Rightarrow> string \<Rightarrow> connection_kind list \<Rightarrow> node list option" where
  "dependents_of a i kinds = closure a i (\<lambda>n. predecessors a n kinds)"

definition children :: "architecture_ir \<Rightarrow> string \<Rightarrow> node list" where
  "children a boundary_id = filter (\<lambda>n. n_parent_id n = Some boundary_id) (ir_nodes a)"

text \<open>The loop of \<open>ancestors\<close>; it stops at a parent already found.\<close>

function climb_ancestors :: "node list \<Rightarrow> node list \<Rightarrow> string option \<Rightarrow> node list" where
  "climb_ancestors ns found parent_id =
     (case parent_id of
        None \<Rightarrow> found
      | Some p \<Rightarrow>
          (case nodes_by_id ns p of
             None \<Rightarrow> found
           | Some parent \<Rightarrow>
               if parent \<in> set found then found
               else climb_ancestors ns (found @ [parent]) (n_parent_id parent)))"
  by pat_completeness auto

termination
proof (relation "measure (\<lambda>(ns, found, parent_id). card (set ns - set found))", simp)
  fix ns found parent_id p parent
  assume "parent_id = Some p" and c: "nodes_by_id ns p = Some parent" and new: "parent \<notin> set found"
  let ?left = "set ns - set found"
  have "parent \<in> ?left" using nodes_by_id_Some[OF c] new by blast
  then have "card (?left - {parent}) < card ?left" by (intro card_Diff1_less) simp_all
  moreover have "set ns - set (found @ [parent]) = ?left - {parent}" by auto
  ultimately show "((ns, found @ [parent], n_parent_id parent), ns, found, parent_id)
      \<in> measure (\<lambda>(ns, found, parent_id). card (set ns - set found))"
    by (simp only: in_measure prod.case)
qed

declare climb_ancestors.simps [simp del]

definition ancestors :: "architecture_ir \<Rightarrow> string \<Rightarrow> node list" where
  "ancestors a i =
     (case nodes_by_id (ir_nodes a) i of
        None \<Rightarrow> []
      | Some n \<Rightarrow> climb_ancestors (ir_nodes a) [] (n_parent_id n))"

section \<open>Closures are reachability\<close>

text \<open>The dependency relation of an architecture, restricted to connections of some kinds.\<close>

definition depends_on :: "architecture_ir \<Rightarrow> connection_kind list \<Rightarrow> (string \<times> string) set" where
  "depends_on a kinds = {(c_source_id c, c_target_id c) | c.
     c \<in> set (ir_connections a) \<and> (kinds = [] \<or> c_kind c \<in> set kinds) \<and>
     c_source_id c \<in> n_id ` set (ir_nodes a) \<and> c_target_id c \<in> n_id ` set (ir_nodes a)}"

lemma edge_set_iff:
  "(x, y) \<in> {(s c, t c) | c. c \<in> C \<and> P c \<and> s c \<in> I \<and> t c \<in> I} \<longleftrightarrow>
     x \<in> I \<and> y \<in> I \<and> (\<exists>c \<in> C. s c = x \<and> t c = y \<and> P c)"
  by auto

lemma depends_on_iff:
  "(x, y) \<in> depends_on a kinds \<longleftrightarrow>
     x \<in> n_id ` set (ir_nodes a) \<and> y \<in> n_id ` set (ir_nodes a) \<and>
     (\<exists>c \<in> set (ir_connections a). c_source_id c = x \<and> c_target_id c = y \<and> (kinds = [] \<or> c_kind c \<in> set kinds))"
  unfolding depends_on_def by (rule edge_set_iff)

lemma distinct_nodes_ids:
  "y \<in> set (map n_id (distinct_nodes a ids)) \<longleftrightarrow> y \<in> n_id ` set (ir_nodes a) \<and> y \<in> set ids"
  by (auto simp: distinct_nodes_def)

lemma outgoing_targets:
  "y \<in> set (map c_target_id (outgoing a x kinds)) \<longleftrightarrow>
   (\<exists>c \<in> set (ir_connections a). c_source_id c = x \<and> c_target_id c = y \<and> (kinds = [] \<or> c_kind c \<in> set kinds))"
  by (auto simp: outgoing_def of_kind_def)

lemma incoming_sources:
  "y \<in> set (map c_source_id (incoming a x kinds)) \<longleftrightarrow>
   (\<exists>c \<in> set (ir_connections a). c_source_id c = y \<and> c_target_id c = x \<and> (kinds = [] \<or> c_kind c \<in> set kinds))"
  by (auto simp: incoming_def of_kind_def)

lemma successors_edges:
  "x \<in> n_id ` set (ir_nodes a) \<Longrightarrow>
   y \<in> set (map n_id (successors a x kinds)) \<longleftrightarrow> (x, y) \<in> depends_on a kinds"
  unfolding successors_def distinct_nodes_ids depends_on_iff outgoing_targets by simp

lemma predecessors_edges:
  "x \<in> n_id ` set (ir_nodes a) \<Longrightarrow>
   y \<in> set (map n_id (predecessors a x kinds)) \<longleftrightarrow> (y, x) \<in> depends_on a kinds"
  unfolding predecessors_def distinct_nodes_ids depends_on_iff incoming_sources by simp

interpretation forward: worklist "\<lambda>i. map n_id (successors a i kinds)" "n_id ` set (ir_nodes a)"
  for a kinds
  by unfold_locales (auto simp: successors_def distinct_nodes_def)

interpretation backward: worklist "\<lambda>i. map n_id (predecessors a i kinds)" "n_id ` set (ir_nodes a)"
  for a kinds
  by unfold_locales (auto simp: predecessors_def distinct_nodes_def)

text \<open>
  A relation and the step function that agrees with it on the vertices of the architecture reach
  the same vertices.
\<close>

lemma reach_eq:
  assumes agree: "\<And>x y. x \<in> V \<Longrightarrow> y \<in> set (step x) \<longleftrightarrow> (x, y) \<in> R"
    and closed: "\<And>x. x \<in> V \<Longrightarrow> set (step x) \<subseteq> V" and x: "x \<in> V"
  shows "(x, y) \<in> (edges step)\<^sup>* \<longleftrightarrow> (x, y) \<in> R\<^sup>*"
proof -
  have "(x, y) \<in> R\<^sup>* \<and> y \<in> V" if "(x, y) \<in> (edges step)\<^sup>*"
    using that
  proof (induction rule: rtrancl_induct)
    case (step y z)
    then have "y \<in> V" "z \<in> set (step y)" by simp_all
    then show ?case using step.IH agree[of y z] closed[of y] by (blast intro: rtrancl_into_rtrancl)
  qed (simp add: x)
  moreover have "(x, y) \<in> (edges step)\<^sup>* \<and> y \<in> V" if "(x, y) \<in> R\<^sup>*"
    using that
  proof (induction rule: rtrancl_induct)
    case (step y z)
    then have "y \<in> V" "z \<in> set (step y)" using agree[of y z] by simp_all
    then show ?case using step.IH closed[of y] by (auto intro: rtrancl_into_rtrancl)
  qed (simp add: x)
  ultimately show ?thesis by blast
qed

lemma closure_reachable:
  assumes x: "x \<in> n_id ` set (ir_nodes a)"
  shows "\<exists>ns. reachable_from a x kinds = Some ns \<and>
      ns = filter (\<lambda>n. (x, n_id n) \<in> (depends_on a kinds)\<^sup>* \<and> n_id n \<noteq> x) (ir_nodes a)"
    and "\<exists>ns. dependents_of a x kinds = Some ns \<and>
      ns = filter (\<lambda>n. (n_id n, x) \<in> (depends_on a kinds)\<^sup>* \<and> n_id n \<noteq> x) (ir_nodes a)"
proof -
  have eq1: "(x, y) \<in> (edges (\<lambda>i. map n_id (successors a i kinds)))\<^sup>* \<longleftrightarrow> (x, y) \<in> (depends_on a kinds)\<^sup>*" for y
    by (rule reach_eq[OF successors_edges forward.step_universe x])
  obtain S where S: "explore (\<lambda>i. map n_id (successors a i kinds)) [x] [x] = Some S"
    "set S = {y. (x, y) \<in> (depends_on a kinds)\<^sup>*}"
    using forward.explore_reachable[OF x, of kinds] by (auto simp only: eq1)
  then show "\<exists>ns. reachable_from a x kinds = Some ns \<and>
      ns = filter (\<lambda>n. (x, n_id n) \<in> (depends_on a kinds)\<^sup>* \<and> n_id n \<noteq> x) (ir_nodes a)"
    by (simp add: reachable_from_def closure_def)
  have eq2: "(x, y) \<in> (edges (\<lambda>i. map n_id (predecessors a i kinds)))\<^sup>* \<longleftrightarrow>
      (x, y) \<in> ((depends_on a kinds)\<inverse>)\<^sup>*" for y
    by (rule reach_eq[OF _ backward.step_universe x]) (use predecessors_edges in auto)
  obtain S' where S': "explore (\<lambda>i. map n_id (predecessors a i kinds)) [x] [x] = Some S'"
    "set S' = {y. (y, x) \<in> (depends_on a kinds)\<^sup>*}"
    using backward.explore_reachable[OF x, of kinds] unfolding eq2 by (auto simp: rtrancl_converse)
  then show "\<exists>ns. dependents_of a x kinds = Some ns \<and>
      ns = filter (\<lambda>n. (n_id n, x) \<in> (depends_on a kinds)\<^sup>* \<and> n_id n \<noteq> x) (ir_nodes a)"
    by (simp add: dependents_of_def closure_def)
qed

end
