(* ===== verification/IR_Graph.thy ===== *)
theory IR_Graph
  imports IR_Contracts IR_Topology
begin

text \<open>
  What the graph rules of core/architecture_ir/model.py mean: the declarative specification
  \<open>graph_ok\<close>, and that the checks of the constructor accept exactly the architectures that
  satisfy it.  The climb through the parents decides membership in a cycle of the containment
  relation, and \<open>ancestors\<close> (topology.py) lists exactly the boundaries above a node.
\<close>

section \<open>Lookups\<close>

lemma find_distinct:
  "distinct (map f xs) \<Longrightarrow> x \<in> set xs \<Longrightarrow> f x = k \<Longrightarrow> List.find (\<lambda>y. f y = k) xs = Some x"
  by (induction xs) (auto simp: image_iff)

lemma nodes_by_id_iff:
  "distinct (map n_id ns) \<Longrightarrow> nodes_by_id ns i = Some n \<longleftrightarrow> n \<in> set ns \<and> n_id n = i"
  using find_distinct[of n_id "rev ns" n i] nodes_by_id_Some[of ns i n]
  unfolding nodes_by_id_def rev_map[symmetric] distinct_rev set_rev by blast

lemma nodes_by_id_None: "nodes_by_id ns i = None \<longleftrightarrow> i \<notin> n_id ` set ns"
  by (auto simp: nodes_by_id_def find_None_iff)

section \<open>Containment\<close>

definition parent_of :: "node list \<Rightarrow> (string \<times> string) set" where
  "parent_of ns = {(n_id n, p) | n p. n \<in> set ns \<and> n_parent_id n = Some p \<and> p \<in> n_id ` set ns}"

lemma parent_ofI: "n \<in> set ns \<Longrightarrow> n_parent_id n = Some p \<Longrightarrow> p \<in> n_id ` set ns \<Longrightarrow> (n_id n, p) \<in> parent_of ns"
  unfolding parent_of_def by blast

lemma parent_ofE:
  assumes "(i, p) \<in> parent_of ns"
  obtains n where "n \<in> set ns" "n_id n = i" "n_parent_id n = Some p" "p \<in> n_id ` set ns"
  using assms unfolding parent_of_def by blast

lemma climb_sound:
  "climb ns start seen parent \<Longrightarrow> \<exists>p. parent = Some p \<and> p \<in> n_id ` set ns \<and> (p, start) \<in> (parent_of ns)\<^sup>*"
proof (induction ns start seen parent rule: climb.induct)
  case (1 ns start seen parent)
  from "1.prems" obtain p where p: "parent = Some p" and t: "truthy parent"
    by (subst (asm) climb.simps) (auto simp: truthy_def split: if_splits)
  from "1.prems" obtain current where c: "nodes_by_id ns p = Some current"
    using p t by (subst (asm) climb.simps) (auto split: option.splits)
  note n = nodes_by_id_Some[OF c]
  show ?case
  proof (cases "n_id current = start")
    case True
    with n p show ?thesis by auto
  next
    case False
    have "climb ns start (n_id current # seen) (n_parent_id current)" and new: "n_id current \<notin> set seen"
      using "1.prems" p t c False by (subst (asm) climb.simps, simp split: if_splits)+
    then obtain q where q: "n_parent_id current = Some q" "q \<in> n_id ` set ns" "(q, start) \<in> (parent_of ns)\<^sup>*"
      using "1.IH" p t c False by auto
    have "(p, q) \<in> parent_of ns" using parent_ofI[OF _ q(1,2)] n by auto
    with q(3) n p show ?thesis by (auto intro: converse_rtrancl_into_rtrancl)
  qed
qed

lemma climb_complete:
  assumes d: "distinct (map n_id ns)" and ne: "[] \<notin> n_id ` set ns"
  shows "p \<in> n_id ` set ns \<Longrightarrow> (p, start) \<in> parent_of ns ^^ k \<Longrightarrow>
    \<forall>j < k. (p, start) \<notin> parent_of ns ^^ j \<Longrightarrow>
    \<forall>x \<in> set seen. \<forall>j \<le> k. (x, start) \<notin> parent_of ns ^^ j \<Longrightarrow> climb ns start seen (Some p)"
proof (induction k arbitrary: p seen)
  case 0
  then have "p = start" "p \<notin> set seen" by auto
  moreover obtain n where "nodes_by_id ns p = Some n" "n_id n = p"
    using 0(1) d by (auto simp: nodes_by_id_iff)
  moreover have "truthy (Some p)" using 0(1) ne unfolding truthy_def by blast
  ultimately show ?case by (subst climb.simps) simp
next
  case (Suc k)
  from Suc.prems(2) obtain q where q: "(p, q) \<in> parent_of ns" "(q, start) \<in> parent_of ns ^^ k"
    by (rule relpow_Suc_E2)
  from q(1) obtain n where n: "n \<in> set ns" "n_id n = p" "n_parent_id n = Some q" "q \<in> n_id ` set ns"
    by (rule parent_ofE)
  have "climb ns start (p # seen) (Some q)"
  proof (rule Suc.IH[OF n(4) q(2)])
    show "\<forall>j < k. (q, start) \<notin> parent_of ns ^^ j"
      using Suc.prems(3) q(1) relpow_Suc_I2[of p q "parent_of ns" start] by blast
    show "\<forall>x \<in> set (p # seen). \<forall>j \<le> k. (x, start) \<notin> parent_of ns ^^ j"
      using Suc.prems(3,4) by auto
  qed
  moreover have "p \<notin> set seen" using Suc.prems(2,4) by blast
  moreover have "p \<noteq> start" using Suc.prems(3) by (metis relpow_0_I zero_less_Suc)
  moreover have "truthy (Some p)" using Suc.prems(1) ne unfolding truthy_def by blast
  moreover have "nodes_by_id ns p = Some n" using n d by (simp add: nodes_by_id_iff)
  ultimately show ?case using n by (subst climb.simps) simp
qed

theorem in_containment_cycle_iff:
  assumes d: "distinct (map n_id ns)" and ne: "[] \<notin> n_id ` set ns" and n: "n \<in> set ns"
  shows "in_containment_cycle n ns \<longleftrightarrow> (n_id n, n_id n) \<in> (parent_of ns)\<^sup>+"
proof
  assume "in_containment_cycle n ns"
  then obtain p where "n_parent_id n = Some p" "p \<in> n_id ` set ns" "(p, n_id n) \<in> (parent_of ns)\<^sup>*"
    unfolding in_containment_cycle_def using climb_sound by blast
  then show "(n_id n, n_id n) \<in> (parent_of ns)\<^sup>+"
    using parent_ofI[OF n] by (blast intro: rtrancl_into_trancl2)
next
  assume "(n_id n, n_id n) \<in> (parent_of ns)\<^sup>+"
  then obtain p where p: "(n_id n, p) \<in> parent_of ns" "(p, n_id n) \<in> (parent_of ns)\<^sup>*"
    by (meson tranclD)
  from p(1) obtain m where "m \<in> set ns" "n_id m = n_id n" "n_parent_id m = Some p" "p \<in> n_id ` set ns"
    by (rule parent_ofE)
  then have m: "n_parent_id n = Some p" "p \<in> n_id ` set ns"
    using d n by (metis eq_key_imp_eq_value inj_onD distinct_map)+
  define k where "k = (LEAST k. (p, n_id n) \<in> parent_of ns ^^ k)"
  have "(p, n_id n) \<in> parent_of ns ^^ k" "\<forall>j < k. (p, n_id n) \<notin> parent_of ns ^^ j"
    using p(2) LeastI_ex[of "\<lambda>k. (p, n_id n) \<in> parent_of ns ^^ k"] not_less_Least
    by (auto simp: k_def rtrancl_power)
  from climb_complete[OF d ne m(2) this] show "in_containment_cycle n ns"
    by (simp add: in_containment_cycle_def m(1))
qed


text \<open>The containment rules: every parent is a boundary of the architecture, and no node contains itself.\<close>

definition containment_ok :: "node list \<Rightarrow> bool" where
  "containment_ok ns \<longleftrightarrow>
     (\<forall>n \<in> set ns. \<forall>p. n_parent_id n = Some p \<longrightarrow> (\<exists>b \<in> set ns. n_id b = p \<and> n_kind b = BOUNDARY)) \<and>
     acyclic (parent_of ns)"

lemma containment_problem_Nil:
  assumes d: "distinct (map n_id ns)" and ne: "[] \<notin> n_id ` set ns" and n: "n \<in> set ns"
  shows "containment_problem ns n = [] \<longleftrightarrow>
    (\<forall>p. n_parent_id n = Some p \<longrightarrow> (\<exists>b \<in> set ns. n_id b = p \<and> n_kind b = BOUNDARY)) \<and>
    (n_id n, n_id n) \<notin> (parent_of ns)\<^sup>+"
proof (cases "n_parent_id n")
  case None
  have "\<not> climb ns (n_id n) [] None" by (subst climb.simps) (simp add: truthy_def)
  with None in_containment_cycle_iff[OF d ne n] show ?thesis
    by (simp add: containment_problem_def in_containment_cycle_def)
next
  case (Some p)
  show ?thesis
  proof (cases "nodes_by_id ns p")
    case None
    then have "\<not> (\<exists>b \<in> set ns. n_id b = p)" by (auto simp: nodes_by_id_None)
    with None Some show ?thesis by (auto simp: containment_problem_def)
  next
    case (Some b)
    then have b: "b \<in> set ns" "n_id b = p" using nodes_by_id_Some by blast+
    then have "(\<exists>b' \<in> set ns. n_id b' = p \<and> n_kind b' = BOUNDARY) \<longleftrightarrow> n_kind b = BOUNDARY"
      using d by (metis Some nodes_by_id_iff option.inject)
    with Some \<open>n_parent_id n = Some p\<close> in_containment_cycle_iff[OF d ne n] show ?thesis
      by (simp add: containment_problem_def)
  qed
qed

lemma parent_of_field: "(x, y) \<in> (parent_of ns)\<^sup>+ \<Longrightarrow> x \<in> n_id ` set ns"
  by (erule converse_tranclE) (auto elim: parent_ofE)

lemma containment_problems_Nil:
  assumes d: "distinct (map n_id (ir_nodes a))" and ne: "[] \<notin> n_id ` set (ir_nodes a)"
  shows "containment_problems a = [] \<longleftrightarrow> containment_ok (ir_nodes a)"
proof -
  have "acyclic (parent_of (ir_nodes a)) \<longleftrightarrow>
      (\<forall>n \<in> set (ir_nodes a). (n_id n, n_id n) \<notin> (parent_of (ir_nodes a))\<^sup>+)"
    unfolding acyclic_def using parent_of_field[of _ _ "ir_nodes a"] by blast
  then show ?thesis
    using containment_problem_Nil[OF d ne] by (auto simp: containment_problems_def containment_ok_def)
qed

section \<open>Connections\<close>

definition connections_ok :: "node list \<Rightarrow> connection list \<Rightarrow> bool" where
  "connections_ok ns cs \<longleftrightarrow>
     (\<forall>c \<in> set cs. \<forall>i \<in> {c_source_id c, c_target_id c}. \<exists>n \<in> set ns. n_id n = i \<and> n_kind n \<noteq> BOUNDARY) \<and>
     distinct (map signature cs)"

lemma endpoint_problem_Nil:
  assumes "distinct (map n_id ns)"
  shows "endpoint_problem ns c field i = [] \<longleftrightarrow> (\<exists>n \<in> set ns. n_id n = i \<and> n_kind n \<noteq> BOUNDARY)"
proof (cases "nodes_by_id ns i")
  case None
  then have "\<not> (\<exists>n \<in> set ns. n_id n = i)" by (auto simp: nodes_by_id_None)
  with None show ?thesis by (auto simp: endpoint_problem_def)
next
  case (Some n)
  then have "n \<in> set ns" "n_id n = i" using nodes_by_id_Some by blast+
  then have "(\<exists>n' \<in> set ns. n_id n' = i \<and> n_kind n' \<noteq> BOUNDARY) \<longleftrightarrow> n_kind n \<noteq> BOUNDARY"
    using assms by (metis Some nodes_by_id_iff option.inject)
  with Some show ?thesis by (simp add: endpoint_problem_def)
qed

lemma connection_rule_problems_Nil:
  assumes d: "distinct (map n_id ns)"
  shows "connection_rule_problems ns seen cs = [] \<longleftrightarrow>
    connections_ok ns cs \<and> fst ` set seen \<inter> signature ` set cs = {}"
proof (induction cs arbitrary: seen)
  case Nil
  then show ?case by (simp add: connections_ok_def)
next
  case (Cons c cs)
  show ?case
  proof (cases "map_of seen (signature c)")
    case None
    then have "signature c \<notin> fst ` set seen" by (simp add: map_of_eq_None_iff)
    with None Cons[of "(signature c, c_id c) # seen"] show ?thesis
      by (auto simp: endpoint_problem_Nil[OF d] connections_ok_def)
  next
    case (Some i)
    then have "signature c \<in> fst ` set seen" by (force dest: map_of_SomeD)
    with Some show ?thesis by auto
  qed
qed

section \<open>Ids and references\<close>

definition references_ok :: "architecture_ir \<Rightarrow> bool" where
  "references_ok a \<longleftrightarrow>
     (\<forall>s \<in> set (ir_assumptions a). set (as_subject_ids s) \<subseteq> set (element_ids a)) \<and>
     (\<forall>d \<in> set (ir_decisions a). set (dr_subject_ids d) \<subseteq> set (element_ids a)) \<and>
     distinct (map dr_decision_id (ir_decisions a))"

lemma count_list_le_1: "(\<forall>x \<in> set xs. \<not> count_list xs x > 1) \<longleftrightarrow> distinct xs"
proof (induction xs)
  case (Cons x xs)
  have "\<not> count_list (x # xs) x > 1 \<longleftrightarrow> x \<notin> set xs"
    using count_list_0_iff[of xs x] by (simp add: not_less)
  moreover have "count_list (x # xs) y = count_list xs y" if "x \<noteq> y" for y using that by simp
  ultimately show ?case using Cons by (metis distinct.simps(2) list.set_intros(2) set_ConsD)
qed simp

lemma concat_map_Nil: "concat (map f xs) = [] \<longleftrightarrow> (\<forall>x \<in> set xs. f x = [])"
  by auto

lemma set_from_keys [simp]: "set (from_keys xs) = set xs"
  by (simp add: from_keys_def)

definition all_ids :: "architecture_ir \<Rightarrow> string list" where
  "all_ids a = map n_id (ir_nodes a) @ map c_id (ir_connections a) @ map as_id (ir_assumptions a)"

lemma elements_ids: "map snd (elements a) = all_ids a"
  by (simp add: elements_def all_ids_def comp_def)

lemma duplicate_id_problems_Nil: "duplicate_id_problems a = [] \<longleftrightarrow> distinct (all_ids a)"
proof -
  have "duplicate_id_problems a = [] \<longleftrightarrow> (\<forall>x \<in> set (elements a). \<not> count_list (all_ids a) (snd x) > 1)"
    unfolding duplicate_id_problems_def concat_map_Nil elements_ids by (auto split: if_splits)
  also have "\<dots> \<longleftrightarrow> (\<forall>i \<in> set (map snd (elements a)). \<not> count_list (all_ids a) i > 1)" by auto
  finally show ?thesis by (simp only: elements_ids count_list_le_1)
qed

lemma reference_problems_Nil: "reference_problems a = [] \<longleftrightarrow> references_ok a"
proof -
  have "reference_problems a = [] \<longleftrightarrow>
      (\<forall>x \<in> set (subjects a). set (snd (snd x)) \<subseteq> set (element_ids a)) \<and>
      (\<forall>i \<in> set (map dr_decision_id (ir_decisions a)). \<not> count_list (map dr_decision_id (ir_decisions a)) i > 1)"
    unfolding reference_problems_def append_is_Nil_conv concat_map_Nil case_prod_unfold set_from_keys
      subset_eq by (intro arg_cong2[where f = "(\<and>)"] ball_cong refl) simp_all
  also have "(\<forall>x \<in> set (subjects a). set (snd (snd x)) \<subseteq> set (element_ids a)) \<longleftrightarrow>
      (\<forall>s \<in> set (ir_assumptions a). set (as_subject_ids s) \<subseteq> set (element_ids a)) \<and>
      (\<forall>d \<in> set (ir_decisions a). set (dr_subject_ids d) \<subseteq> set (element_ids a))"
    unfolding subjects_def set_append ball_Un set_map by simp
  finally show ?thesis unfolding count_list_le_1 references_ok_def by (simp only: conj_assoc)
qed

section \<open>The specification of the graph rules\<close>

definition graph_ok :: "architecture_ir \<Rightarrow> bool" where
  "graph_ok a \<longleftrightarrow>
     distinct (all_ids a) \<and> containment_ok (ir_nodes a) \<and>
     connections_ok (ir_nodes a) (ir_connections a) \<and> references_ok a"

definition limits_ok :: "architecture_ir \<Rightarrow> bool" where
  "limits_ok a \<longleftrightarrow> length (ir_nodes a) \<le> MAX_NODES \<and> length (ir_connections a) \<le> MAX_CONNECTIONS \<and>
     length (ir_assumptions a) \<le> MAX_ASSUMPTIONS \<and> length (ir_decisions a) \<le> MAX_DECISIONS"

lemma shape_problems_Nil: "shape_problems a = [] \<longleftrightarrow> limits_ok a"
  by (auto simp: shape_problems_def limit_problems_def limits_ok_def)

theorem ir_problems_Nil:
  assumes "[] \<notin> n_id ` set (ir_nodes a)"
  shows "ir_problems a = [] \<longleftrightarrow> own_problems a = [] \<and> limits_ok a \<and> graph_ok a"
proof (cases "distinct (all_ids a)")
  case True
  then have "distinct (map n_id (ir_nodes a))" by (simp add: all_ids_def)
  with True show ?thesis
    using containment_problems_Nil[OF _ assms] connection_rule_problems_Nil[of "ir_nodes a" "[]"]
    by (auto simp: ir_problems_def shape_problems_Nil duplicate_id_problems_Nil reference_problems_Nil graph_ok_def)
next
  case False
  then show ?thesis
    by (auto simp: ir_problems_def shape_problems_Nil duplicate_id_problems_Nil graph_ok_def)
qed


section \<open>Ancestors\<close>

lemma parent_of_step:
  assumes d: "distinct (map n_id ns)" and n: "n \<in> set ns"
  shows "(n_id n, q) \<in> parent_of ns \<longleftrightarrow> n_parent_id n = Some q \<and> q \<in> n_id ` set ns"
proof
  assume "(n_id n, q) \<in> parent_of ns"
  then obtain m where "m \<in> set ns" "n_id m = n_id n" "n_parent_id m = Some q" "q \<in> n_id ` set ns"
    by (rule parent_ofE)
  then show "n_parent_id n = Some q \<and> q \<in> n_id ` set ns"
    using d n by (metis distinct_map inj_onD)
qed (use n parent_ofI in blast)

lemma closed_under_parents:
  assumes "\<And>x q. x \<in> S \<Longrightarrow> (x, q) \<in> R \<Longrightarrow> q \<in> S" and "p \<in> S"
  shows "{y. (p, y) \<in> R\<^sup>*} \<subseteq> S"
proof
  fix y
  assume "y \<in> {y. (p, y) \<in> R\<^sup>*}"
  then have "(p, y) \<in> R\<^sup>*" by simp
  then show "y \<in> S" by induction (use assms in auto)
qed

lemma climb_ancestors_ids:
  assumes d: "distinct (map n_id ns)"
  shows "set found \<subseteq> set ns \<Longrightarrow>
    (\<And>x q. x \<in> n_id ` set found \<Longrightarrow> (x, q) \<in> parent_of ns \<Longrightarrow> q \<in> n_id ` set found \<or> parent_id = Some q) \<Longrightarrow>
    n_id ` set (climb_ancestors ns found parent_id) = n_id ` set found \<union>
      {y. \<exists>p. parent_id = Some p \<and> p \<in> n_id ` set ns \<and> (p, y) \<in> (parent_of ns)\<^sup>*}"
  using d
proof (induction ns found parent_id rule: climb_ancestors.induct)
  case (1 ns found parent_id)
  show ?case
  proof (cases "Option.bind parent_id (nodes_by_id ns)")
    case None
    then have "climb_ancestors ns found parent_id = found"
      by (subst climb_ancestors.simps) (auto split: option.splits)
    moreover have "\<not> (\<exists>p. parent_id = Some p \<and> p \<in> n_id ` set ns)"
      using None nodes_by_id_None by (cases parent_id) auto
    ultimately show ?thesis by auto
  next
    case (Some b)
    then obtain p where p: "parent_id = Some p" and b: "nodes_by_id ns p = Some b"
      by (cases parent_id) auto
    have bs: "b \<in> set ns" "n_id b = p" using nodes_by_id_Some[OF b] by auto
    show ?thesis
    proof (cases "b \<in> set found")
      case True
      then have "climb_ancestors ns found parent_id = found"
        by (subst climb_ancestors.simps) (simp add: p b)
      moreover have "{y. (p, y) \<in> (parent_of ns)\<^sup>*} \<subseteq> n_id ` set found"
        using "1.prems"(2) True bs(2) p by (intro closed_under_parents) auto
      ultimately show ?thesis using p by auto
    next
      case False
      have e: "climb_ancestors ns found parent_id = climb_ancestors ns (found @ [b]) (n_parent_id b)"
        using False by (subst climb_ancestors.simps) (simp add: p b)
      have step: "(p, q) \<in> parent_of ns \<longleftrightarrow> n_parent_id b = Some q \<and> q \<in> n_id ` set ns" for q
        using parent_of_step[OF "1.prems"(3) bs(1)] bs(2) by simp
      have closed: "q \<in> n_id ` set (found @ [b]) \<or> n_parent_id b = Some q"
        if "x \<in> n_id ` set (found @ [b])" "(x, q) \<in> parent_of ns" for x q
        using that "1.prems"(2)[of x q] bs(2) step p by auto
      have "n_id ` set (climb_ancestors ns (found @ [b]) (n_parent_id b)) = n_id ` set (found @ [b]) \<union>
          {y. \<exists>q. n_parent_id b = Some q \<and> q \<in> n_id ` set ns \<and> (q, y) \<in> (parent_of ns)\<^sup>*}"
        using "1.IH"[OF p b False _ closed "1.prems"(3)] "1.prems"(1) bs(1) by simp
      also have "{y. \<exists>q. n_parent_id b = Some q \<and> q \<in> n_id ` set ns \<and> (q, y) \<in> (parent_of ns)\<^sup>*} =
          {y. (p, y) \<in> (parent_of ns)\<^sup>+}"
        using step by (auto dest: tranclD intro: rtrancl_into_trancl2)
      also have "n_id ` set (found @ [b]) \<union> \<dots> = n_id ` set found \<union> {y. (p, y) \<in> (parent_of ns)\<^sup>*}"
        using bs(2) by (auto simp: rtrancl_eq_or_trancl)
      finally show ?thesis using e p bs by auto
    qed
  qed
qed

theorem ancestors_ids:
  assumes d: "distinct (map n_id (ir_nodes a))" and n: "n \<in> set (ir_nodes a)"
  shows "n_id ` set (ancestors a (n_id n)) = {p. (n_id n, p) \<in> (parent_of (ir_nodes a))\<^sup>+}"
proof -
  have "n_id ` set (climb_ancestors (ir_nodes a) [] (n_parent_id n)) =
      {y. \<exists>p. n_parent_id n = Some p \<and> p \<in> n_id ` set (ir_nodes a) \<and> (p, y) \<in> (parent_of (ir_nodes a))\<^sup>*}"
    using climb_ancestors_ids[OF d, of "[]" "n_parent_id n"] by simp
  also have "\<dots> = {p. (n_id n, p) \<in> (parent_of (ir_nodes a))\<^sup>+}"
    using parent_of_step[OF d n] by (auto dest: tranclD intro: rtrancl_into_trancl2)
  finally show ?thesis using d n nodes_by_id_iff[of "ir_nodes a" "n_id n" n] by (simp add: ancestors_def)
qed

end
