(* ===== verification/IR_Commands.thy ===== *)
theory IR_Commands
  imports IR_Graph
begin

text \<open>
  Semantic edits of an architecture (core/architecture_ir/commands.py).  A Python dict is the list
  of its entries: an assignment replaces the value of a key in place or appends the entry
  (\<open>AList.update\<close>), \<open>del\<close> of an absent key raises \<open>KeyError\<close>.  Every
  \<open>dataclasses.replace\<close> runs the constructor of the element again and may raise what it raises.
\<close>

section \<open>Commands and errors\<close>

definition MAX_COMMANDS :: nat where "MAX_COMMANDS = 200"

datatype command =
    AddNode node
  | RemoveNodes "string list"
  | AddConnection connection
  | RemoveConnections "string list"
  | RenameNode string string
  | UpdateConfiguration string "(string \<times> config_value option) list"
  | UpdateConnectionConfiguration string "(string \<times> config_value option) list"
  | ChangeReplicas string int

fun COMMAND_NAMES :: "command \<Rightarrow> string" where
  "COMMAND_NAMES (AddNode _) = ''add_node''"
| "COMMAND_NAMES (RemoveNodes _) = ''remove_nodes''"
| "COMMAND_NAMES (AddConnection _) = ''add_connection''"
| "COMMAND_NAMES (RemoveConnections _) = ''remove_connections''"
| "COMMAND_NAMES (RenameNode _ _) = ''rename_node''"
| "COMMAND_NAMES (UpdateConfiguration _ _) = ''update_configuration''"
| "COMMAND_NAMES (UpdateConnectionConfiguration _ _) = ''update_connection_configuration''"
| "COMMAND_NAMES (ChangeReplicas _ _) = ''change_replicas''"

text \<open>What a step may raise: \<open>_Refused\<close>, the \<open>InvalidArchitecture\<close> of a constructor, or \<open>KeyError\<close>.\<close>

datatype step_error =
    Refused string string "string option"
  | Invalid "violation list"
  | MissingKey string

record command_details =
  cd_index :: "nat option"
  cd_command :: "string option"
  cd_reason :: string
  cd_element_id :: "string option"

datatype edit_error =
    InvalidArchitectureCommand string command_details
  | InvalidArchitecture "violation list"
  | KeyError string

section \<open>Dicts\<close>

definition dict_del :: "string \<Rightarrow> (string \<times> 'a) list \<Rightarrow> step_error + (string \<times> 'a) list" where
  "dict_del k d = (if k \<in> fst ` set d then Inr (AList.delete k d) else Inl (MissingKey k))"

section \<open>The draft\<close>

record draft =
  d_nodes :: "(string \<times> node) list"
  d_connections :: "(string \<times> connection) list"
  d_assumptions :: "assumption list"
  d_decisions :: "decision_ref list"

definition Draft :: "architecture_ir \<Rightarrow> draft" where
  "Draft ir = \<lparr>d_nodes = dict_of n_id (ir_nodes ir), d_connections = dict_of c_id (ir_connections ir),
     d_assumptions = ir_assumptions ir, d_decisions = ir_decisions ir\<rparr>"

definition draft_ids :: "draft \<Rightarrow> string set" where
  "draft_ids d = fst ` set (d_nodes d) \<union> fst ` set (d_connections d) \<union> as_id ` set (d_assumptions d)"

definition draft_node :: "draft \<Rightarrow> string \<Rightarrow> step_error + node" where
  "draft_node d node_id =
     require_some (map_of (d_nodes d) node_id)
       (Refused ''unknown_node'' (''There is no node '' @ py_repr node_id @ ''.'') (Some node_id))"

definition draft_connection :: "draft \<Rightarrow> string \<Rightarrow> step_error + connection" where
  "draft_connection d connection_id =
     require_some (map_of (d_connections d) connection_id)
       (Refused ''unknown_connection'' (''There is no connection '' @ py_repr connection_id @ ''.'')
          (Some connection_id))"

definition forget :: "draft \<Rightarrow> string list \<Rightarrow> step_error + draft" where
  "forget d removed =
     rbind (rmap (\<lambda>a. map_error Invalid
              (Assumption (a\<lparr>as_subject_ids := filter (\<lambda>s. s \<notin> set removed) (as_subject_ids a)\<rparr>)))
              (d_assumptions d)) (\<lambda>assumptions.
     rbind (rmap (\<lambda>x. map_error Invalid
              (DecisionRef (x\<lparr>dr_subject_ids := filter (\<lambda>s. s \<notin> set removed) (dr_subject_ids x)\<rparr>)))
              (d_decisions d)) (\<lambda>decisions.
     Inr (d\<lparr>d_assumptions := assumptions, d_decisions := decisions\<rparr>)))"

section \<open>Configuring an element\<close>

text \<open>Python's \<open>==\<close> on configuration values: booleans are the integers 0 and 1, integers and decimals compare as numbers.\<close>

fun as_number :: "config_value \<Rightarrow> decimal option" where
  "as_number (CInt i) = Some (Dec i 0)"
| "as_number (CDec d) = Some d"
| "as_number (CBool b) = Some (Dec (if b then 1 else 0) 0)"
| "as_number _ = None"

fun value_eq :: "config_value \<Rightarrow> config_value \<Rightarrow> bool" where
  "value_eq (CText s) (CText t) = (s = t)"
| "value_eq (CList s) (CList t) = (s = t)"
| "value_eq v w = (case (as_number v, as_number w) of (Some a, Some b) \<Rightarrow> dec_eq a b | _ \<Rightarrow> False)"

fun value_option_eq :: "config_value option \<Rightarrow> config_value option \<Rightarrow> bool" where
  "value_option_eq None None = True"
| "value_option_eq (Some v) (Some w) = value_eq v w"
| "value_option_eq _ _ = False"

text \<open>
  \<open>_stamp\<close> and \<open>_configure\<close> are generic in the element.  \<open>get_fp\<close> reads its field
  provenance, \<open>set_fp\<close> replaces it, \<open>get_cf\<close> reads its configuration and \<open>rebuild\<close>
  replaces both; the last two run the constructor.
\<close>

definition stamp ::
    "('e \<Rightarrow> (string \<times> provenance) list) \<Rightarrow> ('e \<Rightarrow> (string \<times> provenance) list \<Rightarrow> violation list + 'e) \<Rightarrow>
     'e \<Rightarrow> string list \<Rightarrow> provenance option \<Rightarrow> step_error + 'e" where
  "stamp get_fp set_fp e names provenance =
     (case provenance of
        None \<Rightarrow> Inr e
      | Some p \<Rightarrow>
          if names = [] then Inr e
          else map_error Invalid (set_fp e (dict_merge (get_fp e) (map (\<lambda>f. (f, p)) names))))"

definition cleared :: "(string \<times> config_value option) list \<Rightarrow> string list" where
  "cleared values = map fst (filter (\<lambda>(k, v). v = None) values)"

definition merged_values ::
    "configuration \<Rightarrow> (string \<times> config_value option) list \<Rightarrow> (string \<times> config_value) list" where
  "merged_values current values =
     List.map_filter (\<lambda>(k, v). if k \<in> set (cleared values) then None else map_option (Pair k) v)
       (dict_merge (map (\<lambda>(k, v). (k, Some v)) (cf_values current)) values)"

definition configure ::
    "('e \<Rightarrow> configuration) \<Rightarrow> ('e \<Rightarrow> (string \<times> provenance) list) \<Rightarrow>
     ('e \<Rightarrow> configuration \<Rightarrow> (string \<times> provenance) list \<Rightarrow> violation list + 'e) \<Rightarrow>
     ('e \<Rightarrow> (string \<times> provenance) list \<Rightarrow> violation list + 'e) \<Rightarrow>
     'e \<Rightarrow> (string \<times> config_value option) list \<Rightarrow> provenance option \<Rightarrow> step_error + 'e" where
  "configure get_cf get_fp rebuild set_fp e values provenance =
     (let current = get_cf e in
      rbind (map_error Invalid
        (Configuration (merged_values current values)
           (filter (\<lambda>k. k \<notin> fst ` set values) (cf_unknown current)) (cf_extra current))) (\<lambda>configuration.
      let field_provenance =
            filter (\<lambda>(k, v). remove_prefix ''configuration.'' k \<notin> set (cleared values)) (get_fp e)
      in
      rbind (map_error Invalid (rebuild e configuration field_provenance)) (\<lambda>updated.
      let changed =
            map (\<lambda>(k, v). ''configuration.'' @ k)
              (filter (\<lambda>(k, v). k \<notin> set (cleared values) \<and>
                 (\<not> value_option_eq (cf_get configuration k) (cf_get current k) \<or> is_unknown current k))
                 values)
      in stamp get_fp set_fp updated changed provenance)))"

definition node_with_fp :: "node \<Rightarrow> (string \<times> provenance) list \<Rightarrow> violation list + node" where
  "node_with_fp n fp = Node (n\<lparr>n_field_provenance := fp\<rparr>)"

definition node_with ::
    "node \<Rightarrow> configuration \<Rightarrow> (string \<times> provenance) list \<Rightarrow> violation list + node" where
  "node_with n cf fp = Node (n\<lparr>n_configuration := cf, n_field_provenance := fp\<rparr>)"

definition connection_with_fp ::
    "connection \<Rightarrow> (string \<times> provenance) list \<Rightarrow> violation list + connection" where
  "connection_with_fp c fp = Connection (c\<lparr>c_field_provenance := fp\<rparr>)"

definition connection_with ::
    "connection \<Rightarrow> configuration \<Rightarrow> (string \<times> provenance) list \<Rightarrow> violation list + connection" where
  "connection_with c cf fp = Connection (c\<lparr>c_configuration := cf, c_field_provenance := fp\<rparr>)"

abbreviation stamp_node where
  "stamp_node \<equiv> stamp n_field_provenance node_with_fp"

abbreviation configure_node where
  "configure_node \<equiv> configure n_configuration n_field_provenance node_with node_with_fp"

abbreviation configure_connection where
  "configure_connection \<equiv> configure c_configuration c_field_provenance connection_with connection_with_fp"

section \<open>Applying commands\<close>

text \<open>The sets \<open>removed\<close> and \<open>attached\<close> are lists without repetition; the order of the deletions is immaterial.\<close>

definition remove_nodes :: "draft \<Rightarrow> string list \<Rightarrow> step_error + draft" where
  "remove_nodes d node_ids =
     (let removed = remdups node_ids in
      rbind (rmap (draft_node d) node_ids) (\<lambda>_.
      case List.find (\<lambda>(_, child). n_parent_id child \<in> Some ` set removed \<and> n_id child \<notin> set removed) (d_nodes d) of
        Some (_, child) \<Rightarrow>
          Inl (Refused ''boundary_not_empty''
                 (py_repr (the (n_parent_id child)) @ '' still contains '' @ py_repr (n_id child) @
                  ''; move or remove it first.'') (n_parent_id child))
      | None \<Rightarrow>
          let attached = remdups (map (\<lambda>(_, c). c_id c)
                (filter (\<lambda>(_, c). c_source_id c \<in> set removed \<or> c_target_id c \<in> set removed) (d_connections d)))
          in
          rbind (rfold dict_del removed (d_nodes d)) (\<lambda>nodes.
          rbind (rfold dict_del attached (d_connections d)) (\<lambda>connections.
          forget (d\<lparr>d_nodes := nodes, d_connections := connections\<rparr>) (removed @ attached)))))"

definition duplicate_id_refusal :: "string \<Rightarrow> step_error" where
  "duplicate_id_refusal i = Refused ''duplicate_id'' (''The id '' @ py_repr i @ '' is already used.'') (Some i)"

fun apply_command :: "draft \<Rightarrow> command \<Rightarrow> provenance option \<Rightarrow> step_error + draft" where
  "apply_command d (AddNode n) provenance =
     (if n_id n \<in> draft_ids d then Inl (duplicate_id_refusal (n_id n))
      else rbind (map_error Invalid
                    (Node (n\<lparr>n_provenance := if n_provenance n = None then provenance else n_provenance n\<rparr>)))
        (\<lambda>n'. Inr (d\<lparr>d_nodes := AList.update (n_id n) n' (d_nodes d)\<rparr>)))"
| "apply_command d (RemoveNodes node_ids) provenance = remove_nodes d node_ids"
| "apply_command d (AddConnection c) provenance =
     (if c_id c \<in> draft_ids d then Inl (duplicate_id_refusal (c_id c))
      else rbind (draft_node d (c_source_id c)) (\<lambda>_.
           rbind (draft_node d (c_target_id c)) (\<lambda>_.
           rbind (map_error Invalid
                    (Connection (c\<lparr>c_provenance := if c_provenance c = None then provenance else c_provenance c\<rparr>)))
             (\<lambda>c'. Inr (d\<lparr>d_connections := AList.update (c_id c) c' (d_connections d)\<rparr>)))))"
| "apply_command d (RemoveConnections connection_ids) provenance =
     (case filter (\<lambda>c. c \<notin> fst ` set (d_connections d)) connection_ids of
        u # _ \<Rightarrow>
          Inl (Refused ''unknown_connection'' (''There is no connection '' @ py_repr u @ ''.'') (Some u))
      | [] \<Rightarrow>
          rbind (rfold dict_del connection_ids (d_connections d)) (\<lambda>connections.
          forget (d\<lparr>d_connections := connections\<rparr>) connection_ids))"
| "apply_command d (RenameNode node_id name) provenance =
     rbind (draft_node d node_id) (\<lambda>before.
     rbind (map_error Invalid (Node (before\<lparr>n_name := name\<rparr>))) (\<lambda>renamed.
     rbind (stamp_node renamed (if n_name renamed \<noteq> n_name before then [''name''] else []) provenance) (\<lambda>n'.
     Inr (d\<lparr>d_nodes := AList.update node_id n' (d_nodes d)\<rparr>))))"
| "apply_command d (UpdateConfiguration node_id values) provenance =
     rbind (draft_node d node_id) (\<lambda>n.
     rbind (configure_node n values provenance) (\<lambda>n'.
     Inr (d\<lparr>d_nodes := AList.update node_id n' (d_nodes d)\<rparr>)))"
| "apply_command d (UpdateConnectionConfiguration connection_id values) provenance =
     rbind (draft_connection d connection_id) (\<lambda>c.
     rbind (configure_connection c values provenance) (\<lambda>c'.
     Inr (d\<lparr>d_connections := AList.update connection_id c' (d_connections d)\<rparr>)))"
| "apply_command d (ChangeReplicas node_id replicas) provenance =
     rbind (draft_node d node_id) (\<lambda>n.
     rbind (configure_node n [(''replicas'', Some (CInt replicas))] provenance) (\<lambda>n'.
     Inr (d\<lparr>d_nodes := AList.update node_id n' (d_nodes d)\<rparr>)))"

fun command_failed :: "nat \<Rightarrow> command \<Rightarrow> step_error \<Rightarrow> edit_error" where
  "command_failed index command (Refused reason message element_id) =
     InvalidArchitectureCommand message
       \<lparr>cd_index = Some index, cd_command = Some (COMMAND_NAMES command), cd_reason = reason,
        cd_element_id = element_id\<rparr>"
| "command_failed index command (Invalid vs) = InvalidArchitecture vs"
| "command_failed index command (MissingKey k) = KeyError k"

fun apply_from :: "nat \<Rightarrow> draft \<Rightarrow> command list \<Rightarrow> provenance option \<Rightarrow> edit_error + draft" where
  "apply_from index d [] provenance = Inr d"
| "apply_from index d (c # cs) provenance =
     rbind (map_error (command_failed index c) (apply_command d c provenance)) (\<lambda>d'.
     apply_from (index + 1) d' cs provenance)"

definition edits_refused :: "string \<Rightarrow> string \<Rightarrow> edit_error" where
  "edits_refused message reason =
     InvalidArchitectureCommand message
       \<lparr>cd_index = None, cd_command = None, cd_reason = reason, cd_element_id = None\<rparr>"

definition draft_result :: "architecture_ir \<Rightarrow> draft \<Rightarrow> violation list + architecture_ir" where
  "draft_result ir d = ArchitectureIR (ir\<lparr>
     ir_nodes := map snd (d_nodes d), ir_connections := map snd (d_connections d),
     ir_assumptions := d_assumptions d, ir_decisions := d_decisions d\<rparr>)"

definition apply_commands ::
    "architecture_ir \<Rightarrow> command list \<Rightarrow> provenance option \<Rightarrow> edit_error + architecture_ir" where
  "apply_commands ir commands provenance =
     (if commands = [] then Inl (edits_refused ''No edits were given.'' ''empty'')
      else if length commands > MAX_COMMANDS
      then Inl (edits_refused (''At most '' @ nat_str MAX_COMMANDS @ '' edits can be applied at once.'') ''too_many'')
      else rbind (apply_from 0 (Draft ir) commands provenance) (\<lambda>d.
           map_error InvalidArchitecture (draft_result ir d)))"

end
