(* ===== verification/IR_Command_Props.thy ===== *)
theory IR_Command_Props
  imports IR_Commands
begin

text \<open>
  What edits keep and what they do: every element of a draft is one its constructor built, so the
  result of \<open>apply_commands\<close> is a valid architecture made of valid elements.  The
  interface \<open>configurable\<close> is what \<open>_stamp\<close> and \<open>_configure\<close> need of an element;
  nodes and connections provide it.
\<close>

section \<open>Dicts\<close>

lemma rfold_dict_del:
  "distinct ks \<Longrightarrow> set ks \<subseteq> fst ` set d \<Longrightarrow>
   rfold dict_del ks d = Inr (filter (\<lambda>kv. fst kv \<notin> set ks) d)"
proof (induction ks arbitrary: d)
  case (Cons k ks)
  have del: "AList.delete k d = filter (\<lambda>kv. fst kv \<noteq> k) d"
    unfolding AList.delete_eq by (rule filter_cong) auto
  have "set ks \<subseteq> fst ` set (AList.delete k d)" using Cons.prems unfolding del by force
  with Cons show ?case by (auto simp: dict_del_def del intro: filter_cong)
qed simp

lemma frozen_keys [simp]: "distinct (map fst (frozen kvs)) = distinct (map fst kvs)"
  by (simp add: frozen_def distinct_fst_sort)

lemma map_of_frozen: "distinct (map fst kvs) \<Longrightarrow> map_of (frozen kvs) = map_of kvs"
  by (simp add: frozen_def map_of_sort)


section \<open>Built elements\<close>

text \<open>
  A value that its constructor returns unchanged is one it built.  The lists that stand for dicts
  have distinct keys.
\<close>

definition config_built :: "configuration \<Rightarrow> bool" where
  "config_built c \<longleftrightarrow> Configuration (cf_values c) (cf_unknown c) (cf_extra c) = Inr c \<and>
     distinct (map fst (cf_values c))"

definition node_built :: "node \<Rightarrow> bool" where
  "node_built n \<longleftrightarrow> Node n = Inr n \<and> config_built (n_configuration n) \<and> distinct (map fst (n_field_provenance n))"

definition connection_built :: "connection \<Rightarrow> bool" where
  "connection_built c \<longleftrightarrow> Connection c = Inr c \<and> config_built (c_configuration c) \<and>
     distinct (map fst (c_field_provenance c))"

lemma Configuration_again:
  "Configuration vs us ex = Inr c \<Longrightarrow> Configuration (cf_values c) (cf_unknown c) (cf_extra c) = Inr c"
  using configuration.mk_again[of "\<lparr>cf_values = vs, cf_unknown = us, cf_extra = ex\<rparr>"] by simp

lemma Configuration_Inr:
  "Configuration vs us ex = Inr c \<Longrightarrow>
     cf_values c = frozen (map (\<lambda>(k, v). (k, canonical_value v)) vs) \<and> cf_unknown c = sorted_set us \<and>
     cf_extra c = freeze_extra ex"
  by (auto simp: Configuration_def Let_def raise_if_def split: if_splits)

lemma config_builtD:
  assumes "config_built c"
  shows "frozen (map (\<lambda>(k, v). (k, canonical_value v)) (cf_values c)) = cf_values c"
    and "sorted_set (cf_unknown c) = cf_unknown c" and "freeze_extra (cf_extra c) = cf_extra c"
    and "configuration_problems c = []" and "distinct (map fst (cf_values c))"
  using assms configuration.built_iff[of c]
  by (auto simp: config_built_def normalize_configuration_def dest: arg_cong[of _ c cf_values]
      arg_cong[of _ c cf_unknown] arg_cong[of _ c cf_extra])

lemma cf_get_canonical:
  assumes "config_built c" and "cf_get c k = Some v"
  shows "canonical_value v = v"
proof -
  have "(k, v) \<in> set (frozen (map (\<lambda>(k, v). (k, canonical_value v)) (cf_values c)))"
    using assms(2) config_builtD(1)[OF assms(1)] by (simp add: cf_get_def map_of_SomeD)
  then show ?thesis by (auto simp: frozen_def)
qed

section \<open>The configuration a command asks for\<close>

lemma map_of_map_filter:
  "distinct (map fst d) \<Longrightarrow>
   map_of (List.map_filter (\<lambda>(k, v). if P k then None else map_option (Pair k) v) d) k =
     (if P k then None else Option.bind (map_of d k) (\<lambda>v. v))"
proof (induction d)
  case (Cons kv d)
  obtain k' v' where "kv = (k', v')" by (cases kv)
  moreover have "map_of d k' = None" using Cons.prems calculation by (simp add: map_of_eq_None_iff)
  ultimately show ?case using Cons by (cases v') (auto simp: map_filter_simps)
qed (simp add: map_filter_simps)

lemma map_filter_keys:
  "distinct (map fst d) \<Longrightarrow>
   distinct (map fst (List.map_filter (\<lambda>(k, v). if P k then None else map_option (Pair k) v) d)) \<and>
   fst ` set (List.map_filter (\<lambda>(k, v). if P k then None else map_option (Pair k) v) d) \<subseteq> fst ` set d"
proof (induction d)
  case (Cons kv d)
  obtain k' v' where "kv = (k', v')" by (cases kv)
  then show ?case using Cons by (cases v') (auto simp: map_filter_simps)
qed (simp add: map_filter_simps)

lemma map_filter_entries:
  "List.map_filter (\<lambda>(k, v). if k \<in> set [] then None else map_option (Pair k) v) (map (\<lambda>(k, v). (k, Some v)) d) = d"
  by (induction d) (auto simp: map_filter_simps)

lemma merged_keys:
  "config_built c \<Longrightarrow> distinct (map fst (merged_values c values))"
  unfolding merged_values_def
  by (intro conjunct1[OF map_filter_keys] dict_merge_keys)
    (use config_builtD(5) in \<open>simp add: comp_def case_prod_unfold\<close>)

lemma cleared_iff: "distinct (map fst values) \<Longrightarrow> k \<in> set (cleared values) \<longleftrightarrow> map_of values k = Some None"
  by (auto simp: cleared_def image_iff)

lemma map_of_merged:
  assumes c: "config_built c" and d: "distinct (map fst values)"
  shows "map_of (merged_values c values) k =
    (case map_of values k of Some v \<Rightarrow> v | None \<Rightarrow> cf_get c k)"
proof -
  let ?a = "map (\<lambda>(k, v). (k, Some v)) (cf_values c)"
  have "distinct (map fst ?a)" using config_builtD(5)[OF c] by (simp add: comp_def case_prod_unfold)
  then have "map_of (merged_values c values) k =
      (if k \<in> set (cleared values) then None else Option.bind ((map_of ?a ++ map_of values) k) (\<lambda>v. v))"
    unfolding merged_values_def
    by (subst map_of_map_filter) (simp_all add: dict_merge_keys map_of_dict_merge[OF d])
  moreover have "map_of ?a k = map_option Some (cf_get c k)" by (simp add: map_of_map cf_get_def)
  ultimately show ?thesis
    by (cases "cf_get c k") (auto simp: cleared_iff[OF d] map_add_def split: option.splits)
qed

lemma in_changed:
  assumes d: "distinct (map fst values)" and gh: "\<And>k v. map_of values k = Some (Some v) \<Longrightarrow> G k \<longleftrightarrow> H k v"
  shows "f \<in> set (map (\<lambda>(k, v). h k) (filter (\<lambda>(k, v). k \<notin> set (cleared values) \<and> G k) values)) \<longleftrightarrow>
    (\<exists>k v. f = h k \<and> map_of values k = Some (Some v) \<and> H k v)"
proof -
  have "f \<in> set (map (\<lambda>(k, v). h k) (filter (\<lambda>(k, v). k \<notin> set (cleared values) \<and> G k) values)) \<longleftrightarrow>
      (\<exists>k w. f = h k \<and> map_of values k = Some w \<and> map_of values k \<noteq> Some None \<and> G k)"
    using map_of_eq_Some_iff[OF d] cleared_iff[OF d] by fastforce
  also have "\<dots> \<longleftrightarrow> (\<exists>k v. f = h k \<and> map_of values k = Some (Some v) \<and> G k)" by auto
  finally show ?thesis using gh by blast
qed

theorem configured:
  assumes c: "config_built c" and d: "distinct (map fst values)"
    and ok: "Configuration (merged_values c values) (filter (\<lambda>k. k \<notin> fst ` set values) (cf_unknown c)) (cf_extra c)
      = Inr c'"
  shows "config_built c'"
    and "cf_get c' k = (case map_of values k of Some v \<Rightarrow> map_option canonical_value v | None \<Rightarrow> cf_get c k)"
    and "is_unknown c' k \<longleftrightarrow> is_unknown c k \<and> k \<notin> fst ` set values"
    and "cf_extra c' = cf_extra c"
proof -
  note r = Configuration_Inr[OF ok]
  let ?m = "merged_values c values"
  have dm: "distinct (map fst (map (\<lambda>(k, v). (k, canonical_value v)) ?m))"
    using merged_keys[OF c] by (simp add: comp_def case_prod_unfold)
  then show "config_built c'" using Configuration_again[OF ok] r by (simp add: config_built_def)
  have "cf_get c' k = map_option canonical_value (map_of ?m k)"
    using r dm by (simp add: cf_get_def map_of_frozen map_of_map)
  then show "cf_get c' k = (case map_of values k of Some v \<Rightarrow> map_option canonical_value v | None \<Rightarrow> cf_get c k)"
    using cf_get_canonical[OF c, of k]
    by (cases "cf_get c k") (auto simp: map_of_merged[OF c d] split: option.splits)
  show "is_unknown c' k \<longleftrightarrow> is_unknown c k \<and> k \<notin> fst ` set values"
    using r by (auto simp: is_unknown_def sorted_set_def)
  show "cf_extra c' = cf_extra c" using r config_builtD(3)[OF c] by simp
qed


section \<open>Configurable elements\<close>

lemma map_of_filter_key: "map_of (filter (\<lambda>(k, v). P k) d) k = (if P k then map_of d k else None)"
  by (induction d) auto

text \<open>
  What \<open>_configure\<close> needs of an element: \<open>rebuild\<close> and \<open>set_fp\<close> either raise or return a
  built element with the new configuration and field provenance and everything else
  (\<open>rest\<close>) as it was, and rebuilding with what an element has returns it.
\<close>

locale configurable =
  fixes mk :: "'e \<Rightarrow> violation list + 'e" and built :: "'e \<Rightarrow> bool" and rest :: "'e \<Rightarrow> 'r"
    and get_cf :: "'e \<Rightarrow> configuration" and get_fp :: "'e \<Rightarrow> (string \<times> provenance) list"
    and rebuild :: "'e \<Rightarrow> configuration \<Rightarrow> (string \<times> provenance) list \<Rightarrow> violation list + 'e"
    and set_fp :: "'e \<Rightarrow> (string \<times> provenance) list \<Rightarrow> violation list + 'e"
  assumes built_def: "built e \<longleftrightarrow> mk e = Inr e \<and> config_built (get_cf e) \<and> distinct (map fst (get_fp e))"
    and rebuild: "mk e = Inr e \<Longrightarrow> rebuild e cf fp = Inr e' \<Longrightarrow>
      mk e' = Inr e' \<and> rest e' = rest e \<and> get_cf e' = cf \<and> get_fp e' = frozen fp"
    and set_fp: "mk e = Inr e \<Longrightarrow> set_fp e fp = Inr e' \<Longrightarrow>
      mk e' = Inr e' \<and> rest e' = rest e \<and> get_cf e' = get_cf e \<and> get_fp e' = frozen fp"
    and rebuild_same: "mk e = Inr e \<Longrightarrow> rebuild e (get_cf e) (get_fp e) = Inr e"
begin

lemma stamp_result:
  assumes b: "built e" and ok: "stamp get_fp set_fp e names p = Inr e'"
  shows "built e' \<and> rest e' = rest e \<and> get_cf e' = get_cf e \<and>
    map_of (get_fp e') k = (if p \<noteq> None \<and> k \<in> set names then p else map_of (get_fp e) k)"
proof (cases "p = None \<or> names = []")
  case True
  then have "e' = e" using ok by (cases p) (auto simp: stamp_def)
  with True b show ?thesis by auto
next
  case False
  then obtain q where q: "p = Some q" by auto
  let ?fp = "dict_merge (get_fp e) (map (\<lambda>f. (f, q)) names)"
  have s: "set_fp e ?fp = Inr e'" using ok False q by (simp add: stamp_def)
  have d: "distinct (map fst ?fp)" using b by (simp add: built_def dict_merge_keys)
  have "map_of ?fp k = (if k \<in> set names then Some q else map_of (get_fp e) k)"
    unfolding dict_merge_def by (induction names rule: rev_induct) (auto simp: update_conv')
  with set_fp[OF _ s] b d q show ?thesis by (simp add: built_def map_of_frozen)
qed

lemma configure_result:
  assumes b: "built e" and d: "distinct (map fst values)"
    and ok: "configure get_cf get_fp rebuild set_fp e values p = Inr e'"
  shows "built e' \<and> rest e' = rest e"
    and "cf_get (get_cf e') k =
      (case map_of values k of Some v \<Rightarrow> map_option canonical_value v | None \<Rightarrow> cf_get (get_cf e) k)"
    and "is_unknown (get_cf e') k \<longleftrightarrow> is_unknown (get_cf e) k \<and> k \<notin> fst ` set values"
    and "cf_extra (get_cf e') = cf_extra (get_cf e)"
    and "map_of (get_fp e') f =
      (if p \<noteq> None \<and> (\<exists>k v. f = ''configuration.'' @ k \<and> map_of values k = Some (Some v) \<and>
            (\<not> value_option_eq (Some (canonical_value v)) (cf_get (get_cf e) k) \<or> is_unknown (get_cf e) k))
       then p
       else if remove_prefix ''configuration.'' f \<in> set (cleared values) then None
       else map_of (get_fp e) f)"
proof -
  let ?c = "get_cf e" and ?fp = "filter (\<lambda>(k, v). remove_prefix ''configuration.'' k \<notin> set (cleared values)) (get_fp e)"
  obtain c e1 where c: "Configuration (merged_values ?c values)
        (filter (\<lambda>k. k \<notin> fst ` set values) (cf_unknown ?c)) (cf_extra ?c) = Inr c"
    and e1: "rebuild e c ?fp = Inr e1"
    and st: "stamp get_fp set_fp e1 (map (\<lambda>(k, v). ''configuration.'' @ k)
              (filter (\<lambda>(k, v). k \<notin> set (cleared values) \<and>
                 (\<not> value_option_eq (cf_get c k) (cf_get ?c k) \<or> is_unknown ?c k)) values)) p = Inr e'"
    using ok unfolding configure_def Let_def by (auto simp: outcome_simps)
  have cb: "config_built ?c" using b by (simp add: built_def)
  note conf = configured[OF cb d c]
  have r1: "mk e1 = Inr e1" "rest e1 = rest e" "get_cf e1 = c" "get_fp e1 = frozen ?fp"
    using rebuild[OF _ e1] b by (auto simp: built_def)
  have dfp: "distinct (map fst ?fp)" using b by (simp add: built_def distinct_map_filter)
  have b1: "built e1" using r1 conf(1) dfp by (simp add: built_def)
  note s = stamp_result[OF b1 st]
  show "built e' \<and> rest e' = rest e" using s r1 by simp
  show "cf_get (get_cf e') k =
      (case map_of values k of Some v \<Rightarrow> map_option canonical_value v | None \<Rightarrow> cf_get (get_cf e) k)"
    using s r1 conf(2) by simp
  show "is_unknown (get_cf e') k \<longleftrightarrow> is_unknown (get_cf e) k \<and> k \<notin> fst ` set values"
    using s r1 conf(3) by simp
  show "cf_extra (get_cf e') = cf_extra (get_cf e)" using s r1 conf(4) by simp
  have fp: "map_of (get_fp e1) f =
      (if remove_prefix ''configuration.'' f \<in> set (cleared values) then None else map_of (get_fp e) f)"
    using dfp unfolding r1(4) by (simp add: map_of_frozen map_of_filter_key)
  have names: "f \<in> set (map (\<lambda>(k, v). ''configuration.'' @ k)
              (filter (\<lambda>(k, v). k \<notin> set (cleared values) \<and>
                 (\<not> value_option_eq (cf_get c k) (cf_get ?c k) \<or> is_unknown ?c k)) values)) \<longleftrightarrow>
      (\<exists>k v. f = ''configuration.'' @ k \<and> map_of values k = Some (Some v) \<and>
            (\<not> value_option_eq (Some (canonical_value v)) (cf_get (get_cf e) k) \<or> is_unknown (get_cf e) k))"
    by (rule in_changed[OF d]) (simp add: conf(2))
  show "map_of (get_fp e') f =
      (if p \<noteq> None \<and> (\<exists>k v. f = ''configuration.'' @ k \<and> map_of values k = Some (Some v) \<and>
            (\<not> value_option_eq (Some (canonical_value v)) (cf_get (get_cf e) k) \<or> is_unknown (get_cf e) k))
       then p
       else if remove_prefix ''configuration.'' f \<in> set (cleared values) then None
       else map_of (get_fp e) f)"
    using stamp_result[OF b1 st, of f] by (simp only: names fp)
qed

lemma configure_same:
  assumes b: "built e" and d: "distinct (map fst values)"
    and same: "\<And>k v. map_of values k = Some v \<Longrightarrow>
      v \<noteq> None \<and> cf_get (get_cf e) k = v \<and> value_option_eq v v \<and> \<not> is_unknown (get_cf e) k"
  shows "configure get_cf get_fp rebuild set_fp e values p = Inr e"
proof -
  let ?c = "get_cf e"
  have cb: "config_built ?c" using b by (simp add: built_def)
  have cl: "cleared values = []"
    using same cleared_iff[OF d] by (metis last_in_set)
  have "dict_merge (map (\<lambda>(k, v). (k, Some v)) (cf_values ?c)) values = map (\<lambda>(k, v). (k, Some v)) (cf_values ?c)"
    using same d
  proof (induction "values")
    case (Cons kv vs)
    obtain k v where kv: "kv = (k, v)" by (cases kv)
    then have "v \<noteq> None \<and> map_of (cf_values ?c) k = v" using Cons.prems(1)[of k v] by (simp add: cf_get_def)
    then have "map_of (map (\<lambda>(k, v). (k, Some v)) (cf_values ?c)) k = Some v" by (auto simp: map_of_map)
    then have "AList.update k v (map (\<lambda>(k, v). (k, Some v)) (cf_values ?c)) = map (\<lambda>(k, v). (k, Some v)) (cf_values ?c)"
      by (rule update_same)
    moreover have "dict_merge (map (\<lambda>(k, v). (k, Some v)) (cf_values ?c)) vs = map (\<lambda>(k, v). (k, Some v)) (cf_values ?c)"
    proof (rule Cons.IH)
      show "distinct (map fst vs)" using Cons.prems(2) by simp
      fix k' v'
      assume "map_of vs k' = Some v'"
      moreover have "k' \<noteq> k" using calculation Cons.prems(2) kv by (force dest: map_of_SomeD)
      ultimately show "v' \<noteq> None \<and> cf_get ?c k' = v' \<and> value_option_eq v' v' \<and> \<not> is_unknown ?c k'"
        using Cons.prems(1)[of k' v'] kv by simp
    qed
    ultimately show ?case by (simp add: dict_merge_def kv)
  qed (simp add: dict_merge_def)
  then have m: "merged_values ?c values = cf_values ?c"
    by (simp only: merged_values_def cl map_filter_entries)
  have u: "filter (\<lambda>k. k \<notin> fst ` set values) (cf_unknown ?c) = cf_unknown ?c"
    using same d by (intro filter_True) (auto simp: is_unknown_def)
  have "filter (\<lambda>(k, v). \<not> value_option_eq (cf_get ?c k) (cf_get ?c k) \<or> is_unknown ?c k) values = []"
    using same d by (auto simp: filter_empty_conv)
  then show ?thesis
    using cb b rebuild_same[of e] by (auto simp: configure_def m u cl config_built_def built_def stamp_def Let_def split: option.split)
qed

end

lemma node_with_normal:
  assumes "normalize_node n = n"
  shows "normalize_node (n\<lparr>n_configuration := cf, n_field_provenance := fp\<rparr>) =
      n\<lparr>n_configuration := cf, n_field_provenance := frozen fp\<rparr>"
    and "normalize_node (n\<lparr>n_field_provenance := fp\<rparr>) = n\<lparr>n_field_provenance := frozen fp\<rparr>"
  using assms by (cases n; simp add: normalize_node_def)+

interpretation configurable_node: configurable Node node_built
    "\<lambda>n. n\<lparr>n_configuration := empty_configuration, n_field_provenance := []\<rparr>"
    n_configuration n_field_provenance node_with node_with_fp
proof (unfold_locales, goal_cases)
  case (1 e)
  show ?case by (simp add: node_built_def)
next
  case (2 e cf fp e')
  then show ?case
    using node.mk_again node_with_normal(1) unfolding node_with_def node.built_iff node.mk_Inr by force
next
  case (3 e fp e')
  then show ?case
    using node.mk_again node_with_normal(2) unfolding node_with_fp_def node.built_iff node.mk_Inr by force
next
  case (4 e)
  then show ?case by (simp add: node_with_def)
qed

lemma connection_with_normal:
  assumes "normalize_connection c = c"
  shows "normalize_connection (c\<lparr>c_configuration := cf, c_field_provenance := fp\<rparr>) =
      c\<lparr>c_configuration := cf, c_field_provenance := frozen fp\<rparr>"
    and "normalize_connection (c\<lparr>c_field_provenance := fp\<rparr>) = c\<lparr>c_field_provenance := frozen fp\<rparr>"
  using assms by (cases c; simp add: normalize_connection_def)+

interpretation configurable_connection: configurable Connection connection_built
    "\<lambda>c. c\<lparr>c_configuration := empty_configuration, c_field_provenance := []\<rparr>"
    c_configuration c_field_provenance connection_with connection_with_fp
proof (unfold_locales, goal_cases)
  case (1 e)
  show ?case by (simp add: connection_built_def)
next
  case (2 e cf fp e')
  then show ?case
    using connection.mk_again connection_with_normal(1)
    unfolding connection_with_def connection.built_iff connection.mk_Inr by force
next
  case (3 e fp e')
  then show ?case
    using connection.mk_again connection_with_normal(2)
    unfolding connection_with_fp_def connection.built_iff connection.mk_Inr by force
next
  case (4 e)
  then show ?case by (simp add: connection_with_def)
qed

end
