(* ===== verification/IR_Edits.thy ===== *)
theory IR_Edits
  imports IR_Command_Props
begin

text \<open>
  The invariant of a draft and its consequences for whole edits: a draft holds built elements under
  their own ids, every command keeps that, and removals yield exactly the architecture without the
  removed elements.
\<close>

section \<open>Valid architectures\<close>

text \<open>
  An architecture as the program can hold one: built by its constructor from elements their
  constructors built.
\<close>

definition valid_ir :: "architecture_ir \<Rightarrow> bool" where
  "valid_ir a \<longleftrightarrow> ArchitectureIR a = Inr a \<and>
     (\<forall>n \<in> set (ir_nodes a). node_built n) \<and> (\<forall>c \<in> set (ir_connections a). connection_built c) \<and>
     (\<forall>s \<in> set (ir_assumptions a). Assumption s = Inr s) \<and> (\<forall>d \<in> set (ir_decisions a). DecisionRef d = Inr d)"

lemma node_built_id:
  assumes "node_built n"
  shows "n_id n \<noteq> []"
proof -
  have "node_problems n = []" using assms node.built_iff by (simp add: node_built_def)
  then have "ELEMENT_ID (n_id n)" by (auto simp: node_problems_def id_problems_def split: if_splits)
  then show ?thesis by (auto simp: ELEMENT_ID_def ident_match_def)
qed

lemma valid_ir_iff:
  "valid_ir a \<longleftrightarrow> normalize_ir a = a \<and> own_problems a = [] \<and> limits_ok a \<and> graph_ok a \<and>
     (\<forall>n \<in> set (ir_nodes a). node_built n) \<and> (\<forall>c \<in> set (ir_connections a). connection_built c) \<and>
     (\<forall>s \<in> set (ir_assumptions a). Assumption s = Inr s) \<and> (\<forall>d \<in> set (ir_decisions a). DecisionRef d = Inr d)"
proof (cases "\<forall>n \<in> set (ir_nodes a). node_built n")
  case True
  then have "[] \<notin> n_id ` set (ir_nodes a)" using node_built_id by force
  from ir_problems_Nil[OF this] True show ?thesis
    unfolding valid_ir_def architecture.built_iff by blast
next
  case False
  then show ?thesis unfolding valid_ir_def by blast
qed

lemma valid_ids:
  assumes "valid_ir a"
  shows "distinct (map n_id (ir_nodes a))" and "distinct (map c_id (ir_connections a))"
  using assms by (auto simp: valid_ir_iff graph_ok_def all_ids_def)

section \<open>The invariant of a draft\<close>

definition entries_ok :: "('a \<Rightarrow> string) \<Rightarrow> ('a \<Rightarrow> bool) \<Rightarrow> (string \<times> 'a) list \<Rightarrow> bool" where
  "entries_ok key ok d \<longleftrightarrow> distinct (map fst d) \<and> (\<forall>(k, x) \<in> set d. k = key x \<and> ok x)"

definition draft_ok :: "draft \<Rightarrow> bool" where
  "draft_ok d \<longleftrightarrow> entries_ok n_id node_built (d_nodes d) \<and> entries_ok c_id connection_built (d_connections d) \<and>
     (\<forall>s \<in> set (d_assumptions d). Assumption s = Inr s) \<and> (\<forall>x \<in> set (d_decisions d). DecisionRef x = Inr x)"

text \<open>A command as the program can hold one: the elements it adds are built, its dict has distinct keys.\<close>

fun command_built :: "command \<Rightarrow> bool" where
  "command_built (AddNode n) = node_built n"
| "command_built (AddConnection c) = connection_built c"
| "command_built (UpdateConfiguration _ vs) = distinct (map fst vs)"
| "command_built (UpdateConnectionConfiguration _ vs) = distinct (map fst vs)"
| "command_built _ = True"

lemma entries_ok_of:
  "distinct (map key xs) \<Longrightarrow> \<forall>x \<in> set xs. ok x \<Longrightarrow> entries_ok key ok (dict_of key xs)"
  by (auto simp: entries_ok_def dict_of_distinct comp_def)

lemma entries_ok_update:
  "entries_ok key ok d \<Longrightarrow> ok x \<Longrightarrow> key x = k \<Longrightarrow> entries_ok key ok (AList.update k x d)"
  by (auto simp: entries_ok_def set_update distinct_update)

lemma entries_ok_filter: "entries_ok key ok d \<Longrightarrow> entries_ok key ok (filter P d)"
  by (auto simp: entries_ok_def distinct_map_filter)

lemma entries_ok_get: "entries_ok key ok d \<Longrightarrow> map_of d k = Some x \<Longrightarrow> ok x \<and> key x = k"
  by (auto simp: entries_ok_def dest: map_of_SomeD)

lemma Draft_ok: "valid_ir a \<Longrightarrow> draft_ok (Draft a)"
  using valid_ids by (simp add: draft_ok_def Draft_def valid_ir_def entries_ok_of)

section \<open>Forgetting removed subjects\<close>

lemma sorted_set_iff: "sorted_set xs = xs \<longleftrightarrow> sorted xs \<and> distinct xs"
  by (metis distinct_remdups distinct_remdups_id distinct_sort sorted_set_def sorted_sort sorted_sort_id)

lemma sorted_set_filter: "sorted_set xs = xs \<Longrightarrow> sorted_set (filter P xs) = filter P xs"
  by (simp add: sorted_set_iff sorted_filter[of id, simplified])

lemma subject_id_problems_Nil: "subject_id_problems ids field i = [] \<longleftrightarrow> (\<forall>s \<in> set ids. ELEMENT_ID s)"
  by (induction ids arbitrary: i) (auto simp: id_problems_def)

lemma subject_problems_Nil: "subject_problems ids = [] \<longleftrightarrow> length ids \<le> MAX_SUBJECTS \<and> (\<forall>s \<in> set ids. ELEMENT_ID s)"
  by (simp add: subject_problems_def subject_id_problems_Nil)

lemma subject_problems_filter: "subject_problems ids = [] \<Longrightarrow> subject_problems (filter P ids) = []"
  by (auto simp: subject_problems_Nil intro: le_trans[OF length_filter_le])

definition drop_assumption :: "string set \<Rightarrow> assumption \<Rightarrow> assumption" where
  "drop_assumption R s = s\<lparr>as_subject_ids := filter (\<lambda>i. i \<notin> R) (as_subject_ids s)\<rparr>"

definition drop_decision :: "string set \<Rightarrow> decision_ref \<Rightarrow> decision_ref" where
  "drop_decision R d = d\<lparr>dr_subject_ids := filter (\<lambda>i. i \<notin> R) (dr_subject_ids d)\<rparr>"

lemma Assumption_drop:
  assumes "Assumption s = Inr s"
  shows "Assumption (drop_assumption R s) = Inr (drop_assumption R s)"
proof -
  have n: "normalize_assumption s = s" and p: "assumption_problems s = []"
    using assms assumption.built_iff by auto
  have "sorted_set (as_subject_ids s) = as_subject_ids s" using arg_cong[OF n, of as_subject_ids] by (simp add: normalize_assumption_def)
  then have "normalize_assumption (drop_assumption R s) = drop_assumption R s"
    using n by (cases s) (auto simp: normalize_assumption_def drop_assumption_def sorted_set_filter)
  moreover have "assumption_problems (drop_assumption R s) = []"
    using p by (auto simp: assumption_problems_def drop_assumption_def subject_problems_filter)
  ultimately show ?thesis by (simp add: assumption.built_iff)
qed

lemma DecisionRef_drop:
  assumes "DecisionRef d = Inr d"
  shows "DecisionRef (drop_decision R d) = Inr (drop_decision R d)"
proof -
  have n: "d\<lparr>dr_subject_ids := sorted_set (dr_subject_ids d)\<rparr> = d" and p: "subject_problems (dr_subject_ids d) = []"
    using assms decision.built_iff by auto
  have "sorted_set (dr_subject_ids d) = dr_subject_ids d" using arg_cong[OF n, of dr_subject_ids] by simp
  then show ?thesis
    using p by (simp add: decision.built_iff drop_decision_def sorted_set_filter subject_problems_filter)
qed

lemma forget_drops:
  assumes "draft_ok d"
  shows "forget d removed = Inr (d\<lparr>d_assumptions := map (drop_assumption (set removed)) (d_assumptions d),
    d_decisions := map (drop_decision (set removed)) (d_decisions d)\<rparr>)"
proof -
  have "rmap (\<lambda>a. map_error Invalid (Assumption (drop_assumption (set removed) a))) (d_assumptions d) =
      Inr (map (drop_assumption (set removed)) (d_assumptions d))"
    using assms by (intro rmap_total) (simp add: draft_ok_def Assumption_drop)
  moreover have "rmap (\<lambda>x. map_error Invalid (DecisionRef (drop_decision (set removed) x))) (d_decisions d) =
      Inr (map (drop_decision (set removed)) (d_decisions d))"
    using assms by (intro rmap_total) (simp add: draft_ok_def DecisionRef_drop)
  ultimately show ?thesis by (simp add: forget_def drop_assumption_def drop_decision_def)
qed

lemma draft_ok_drop:
  "draft_ok d \<Longrightarrow> draft_ok (d\<lparr>d_assumptions := map (drop_assumption R) (d_assumptions d),
     d_decisions := map (drop_decision R) (d_decisions d)\<rparr>)"
  by (auto simp: draft_ok_def Assumption_drop DecisionRef_drop)

lemma forget_ok: "draft_ok d \<Longrightarrow> forget d removed = Inr d' \<Longrightarrow> draft_ok d'"
  using draft_ok_drop by (auto simp: forget_drops)


section \<open>Every command keeps the invariant\<close>

lemma Node_builds:
  assumes "Node m = Inr n" and "config_built (n_configuration m)" and "distinct (map fst (n_field_provenance m))"
  shows "node_built n \<and> n_id n = n_id m"
proof -
  have "n = normalize_node m" using assms(1) by (simp add: node.mk_Inr)
  with assms node.mk_again[OF assms(1)] show ?thesis by (simp add: node_built_def normalize_node_def)
qed

lemma Connection_builds:
  assumes "Connection m = Inr c" and "config_built (c_configuration m)" and "distinct (map fst (c_field_provenance m))"
  shows "connection_built c \<and> c_id c = c_id m"
proof -
  have "c = normalize_connection m" using assms(1) by (simp add: connection.mk_Inr)
  with assms connection.mk_again[OF assms(1)] show ?thesis by (simp add: connection_built_def normalize_connection_def)
qed

lemma rest_id:
  "n\<lparr>n_configuration := cf, n_field_provenance := fp\<rparr> = m\<lparr>n_configuration := cf, n_field_provenance := fp\<rparr> \<Longrightarrow> n_id n = n_id m"
  by (cases n; cases m) simp

lemma rest_c_id:
  "c\<lparr>c_configuration := cf, c_field_provenance := fp\<rparr> = m\<lparr>c_configuration := cf, c_field_provenance := fp\<rparr> \<Longrightarrow> c_id c = c_id m"
  by (cases c; cases m) simp

lemma configure_node_ok:
  "node_built n \<Longrightarrow> distinct (map fst vs) \<Longrightarrow> configure_node n vs p = Inr n' \<Longrightarrow> node_built n' \<and> n_id n' = n_id n"
  using configurable_node.configure_result(1)[of n vs p n'] by (auto dest: rest_id)

lemma configure_connection_ok:
  "connection_built c \<Longrightarrow> distinct (map fst vs) \<Longrightarrow> configure_connection c vs p = Inr c' \<Longrightarrow>
   connection_built c' \<and> c_id c' = c_id c"
  using configurable_connection.configure_result(1)[of c vs p c'] by (auto dest: rest_c_id)

lemma stamp_node_ok:
  "node_built n \<Longrightarrow> stamp_node n fs p = Inr n' \<Longrightarrow> node_built n' \<and> n_id n' = n_id n"
  using configurable_node.stamp_result[of n fs p n'] by (auto dest: rest_id)

lemma draft_node_ok: "draft_ok d \<Longrightarrow> draft_node d i = Inr n \<Longrightarrow> node_built n \<and> n_id n = i"
  by (auto simp: draft_ok_def draft_node_def outcome_simps dest: entries_ok_get)

lemma draft_connection_ok: "draft_ok d \<Longrightarrow> draft_connection d i = Inr c \<Longrightarrow> connection_built c \<and> c_id c = i"
  by (auto simp: draft_ok_def draft_connection_def outcome_simps dest: entries_ok_get)

lemma draft_ok_put_node:
  "draft_ok d \<Longrightarrow> node_built n \<Longrightarrow> n_id n = i \<Longrightarrow> draft_ok (d\<lparr>d_nodes := AList.update i n (d_nodes d)\<rparr>)"
  by (simp add: draft_ok_def entries_ok_update)

lemma draft_ok_put_connection:
  "draft_ok d \<Longrightarrow> connection_built c \<Longrightarrow> c_id c = i \<Longrightarrow>
   draft_ok (d\<lparr>d_connections := AList.update i c (d_connections d)\<rparr>)"
  by (simp add: draft_ok_def entries_ok_update)

lemma dict_del_ok: "dict_del k d = Inr d' \<Longrightarrow> entries_ok key ok d \<Longrightarrow> entries_ok key ok d'"
  by (auto simp: dict_del_def AList.delete_eq entries_ok_filter split: if_splits)

lemma rfold_del_ok: "rfold dict_del ks d = Inr d' \<Longrightarrow> entries_ok key ok d \<Longrightarrow> entries_ok key ok d'"
  by (erule (1) rfold_invariant[where P = "entries_ok key ok"]) (rule dict_del_ok)

lemma remove_nodes_ok:
  assumes "draft_ok d" and "remove_nodes d ids = Inr d'"
  shows "draft_ok d'"
proof -
  obtain ks cks ns cs where "rfold dict_del ks (d_nodes d) = Inr ns" "rfold dict_del cks (d_connections d) = Inr cs"
    and f: "forget (d\<lparr>d_nodes := ns, d_connections := cs\<rparr>) (ks @ cks) = Inr d'"
    using assms(2) unfolding remove_nodes_def Let_def by (auto simp: outcome_simps split: option.splits)
  then have "draft_ok (d\<lparr>d_nodes := ns, d_connections := cs\<rparr>)"
    using assms(1) by (auto simp: draft_ok_def intro: rfold_del_ok)
  from forget_ok[OF this f] show ?thesis .
qed

theorem apply_command_ok:
  assumes "draft_ok d" and "command_built c" and "apply_command d c p = Inr d'"
  shows "draft_ok d'"
proof (cases c)
  case (AddNode n)
  then obtain n' where eq: "Node (n\<lparr>n_provenance := if n_provenance n = None then p else n_provenance n\<rparr>) = Inr n'"
    and d': "d' = d\<lparr>d_nodes := AList.update (n_id n) n' (d_nodes d)\<rparr>"
    using assms(3) by (auto simp: outcome_simps split: if_splits)
  then have "node_built n' \<and> n_id n' = n_id n"
    using assms(2) AddNode Node_builds[OF eq] by (simp add: node_built_def)
  then show ?thesis unfolding d' using draft_ok_put_node[OF assms(1)] by simp
next
  case (RemoveNodes ids)
  then show ?thesis using assms remove_nodes_ok by simp
next
  case (AddConnection x)
  then obtain x' where eq: "Connection (x\<lparr>c_provenance := if c_provenance x = None then p else c_provenance x\<rparr>) = Inr x'"
    and d': "d' = d\<lparr>d_connections := AList.update (c_id x) x' (d_connections d)\<rparr>"
    using assms(3) by (auto simp: outcome_simps split: if_splits)
  then have "connection_built x' \<and> c_id x' = c_id x"
    using assms(2) AddConnection Connection_builds[OF eq] by (simp add: connection_built_def)
  then show ?thesis unfolding d' using draft_ok_put_connection[OF assms(1)] by simp
next
  case (RemoveConnections ids)
  then obtain cs where "rfold dict_del ids (d_connections d) = Inr cs" "forget (d\<lparr>d_connections := cs\<rparr>) ids = Inr d'"
    using assms(3) by (auto simp: outcome_simps split: list.splits)
  moreover have "draft_ok (d\<lparr>d_connections := cs\<rparr>)"
    using assms(1) calculation(1) by (auto simp: draft_ok_def intro: rfold_del_ok)
  ultimately show ?thesis using forget_ok by blast
next
  case (RenameNode i name)
  then obtain n m n' where "draft_node d i = Inr n" "Node (n\<lparr>n_name := name\<rparr>) = Inr m"
    "stamp_node m (if n_name m \<noteq> n_name n then [''name''] else []) p = Inr n'"
    and d': "d' = d\<lparr>d_nodes := AList.update i n' (d_nodes d)\<rparr>"
    using assms(3) by (auto simp: outcome_simps)
  moreover have "node_built m \<and> n_id m = i"
    using draft_node_ok[OF assms(1) calculation(1)] Node_builds[OF calculation(2)] by (simp add: node_built_def)
  ultimately have "node_built n' \<and> n_id n' = i" using stamp_node_ok by blast
  then show ?thesis unfolding d' using draft_ok_put_node[OF assms(1)] by simp
next
  case (UpdateConfiguration i vs)
  then show ?thesis using assms draft_node_ok[OF assms(1)] configure_node_ok
    by (fastforce simp: outcome_simps intro!: draft_ok_put_node)
next
  case (UpdateConnectionConfiguration i vs)
  then show ?thesis using assms draft_connection_ok[OF assms(1)] configure_connection_ok
    by (fastforce simp: outcome_simps intro!: draft_ok_put_connection)
next
  case (ChangeReplicas i k)
  then obtain n n' where "draft_node d i = Inr n" "configure_node n [(''replicas'', Some (CInt k))] p = Inr n'"
    and d': "d' = d\<lparr>d_nodes := AList.update i n' (d_nodes d)\<rparr>"
    using assms(3) by (auto simp: outcome_simps)
  then have "node_built n' \<and> n_id n' = i"
    using draft_node_ok[OF assms(1)] configure_node_ok[of n "[(''replicas'', Some (CInt k))]" p n'] by auto
  then show ?thesis unfolding d' using draft_ok_put_node[OF assms(1)] by simp
qed

lemma apply_from_ok:
  "draft_ok d \<Longrightarrow> \<forall>c \<in> set cs. command_built c \<Longrightarrow> apply_from i d cs p = Inr d' \<Longrightarrow> draft_ok d'"
proof (induction cs arbitrary: i d)
  case (Cons c cs)
  then obtain e where "apply_command d c p = Inr e" "apply_from (i + 1) e cs p = Inr d'"
    by (auto simp: outcome_simps)
  with Cons apply_command_ok[of d c p e] show ?case by auto
qed simp

theorem edits_valid:
  assumes "valid_ir a" and "\<forall>c \<in> set cs. command_built c" and "apply_commands a cs p = Inr a'"
  shows "valid_ir a'"
proof -
  obtain d where d: "apply_from 0 (Draft a) cs p = Inr d" "draft_result a d = Inr a'"
    using assms(3) by (auto simp: apply_commands_def outcome_simps split: if_splits)
  have "draft_ok d" using apply_from_ok[OF Draft_ok[OF assms(1)] assms(2) d(1)] .
  moreover have "a' = normalize_ir (a\<lparr>ir_nodes := map snd (d_nodes d), ir_connections := map snd (d_connections d),
      ir_assumptions := d_assumptions d, ir_decisions := d_decisions d\<rparr>)"
    using d(2) by (simp add: draft_result_def architecture.mk_Inr)
  moreover have "ArchitectureIR a' = Inr a'" using d(2) architecture.mk_again by (simp add: draft_result_def)
  ultimately show ?thesis by (auto simp: valid_ir_def normalize_ir_def draft_ok_def entries_ok_def)
qed


section \<open>Removing elements\<close>

text \<open>The architecture without the nodes \<open>R\<close> and the connections \<open>A\<close>, and without references to them.\<close>

definition drop_elements :: "string set \<Rightarrow> string set \<Rightarrow> architecture_ir \<Rightarrow> architecture_ir" where
  "drop_elements R A a = a\<lparr>
     ir_nodes := filter (\<lambda>n. n_id n \<notin> R) (ir_nodes a),
     ir_connections := filter (\<lambda>c. c_id c \<notin> A) (ir_connections a),
     ir_assumptions := map (drop_assumption (R \<union> A)) (ir_assumptions a),
     ir_decisions := map (drop_decision (R \<union> A)) (ir_decisions a)\<rparr>"

lemma drop_fields [simp]:
  "as_id (drop_assumption R s) = as_id s" "dr_decision_id (drop_decision R d) = dr_decision_id d"
  by (simp_all add: drop_assumption_def drop_decision_def)

lemma sort_key_iff: "sort_key f xs = xs \<longleftrightarrow> sorted (map f xs)"
  using sort_key_sorted[of f xs] sorted_sort_key[of f xs] by metis

lemma normalize_ir_sorted:
  "normalize_ir a = a \<longleftrightarrow>
     clean_line (ir_name a) = ir_name a \<and> optional_block (ir_description a) = ir_description a \<and>
     sorted (map n_id (ir_nodes a)) \<and> sorted (map c_id (ir_connections a)) \<and>
     sorted (map as_id (ir_assumptions a)) \<and> sorted (map (\<lambda>d. uuid_str (dr_decision_id d)) (ir_decisions a)) \<and>
     sorted_refs (ir_requirement_refs a) = ir_requirement_refs a \<and> frozen (ir_metadata a) = ir_metadata a"
  by (cases a) (auto simp: normalize_ir_def sort_key_iff)

lemma drop_elements_normal: "normalize_ir a = a \<Longrightarrow> normalize_ir (drop_elements R A a) = drop_elements R A a"
  unfolding normalize_ir_sorted by (simp add: drop_elements_def sorted_filter comp_def)

lemma parent_of_mono: "set ns \<subseteq> set ms \<Longrightarrow> parent_of ns \<subseteq> parent_of ms"
  unfolding parent_of_def by blast

lemma containment_ok_filter:
  assumes "containment_ok ns" and "\<forall>n \<in> set ns. n_id n \<notin> R \<longrightarrow> n_parent_id n \<notin> Some ` R"
  shows "containment_ok (filter (\<lambda>n. n_id n \<notin> R) ns)"
proof -
  have "acyclic (parent_of (filter (\<lambda>n. n_id n \<notin> R) ns))"
    using assms(1) parent_of_mono[of "filter (\<lambda>n. n_id n \<notin> R) ns" ns]
    by (auto simp: containment_ok_def intro: acyclic_subset)
  moreover have "\<exists>b \<in> set (filter (\<lambda>n. n_id n \<notin> R) ns). n_id b = p \<and> n_kind b = BOUNDARY"
    if n: "n \<in> set ns" "n_id n \<notin> R" "n_parent_id n = Some p" for n p
  proof -
    obtain b where "b \<in> set ns" "n_id b = p" "n_kind b = BOUNDARY"
      using n assms(1) unfolding containment_ok_def by blast
    moreover have "p \<notin> R" using n assms(2) by (metis imageI)
    ultimately show ?thesis by auto
  qed
  ultimately show ?thesis unfolding containment_ok_def set_filter mem_Collect_eq by blast
qed

lemma connections_ok_filter:
  assumes ok: "connections_ok ns cs" and "\<forall>c \<in> set cs. c_id c \<notin> A \<longrightarrow> c_source_id c \<notin> R \<and> c_target_id c \<notin> R"
  shows "connections_ok (filter (\<lambda>n. n_id n \<notin> R) ns) (filter (\<lambda>c. c_id c \<notin> A) cs)"
proof -
  have "\<exists>n \<in> set (filter (\<lambda>n. n_id n \<notin> R) ns). n_id n = i \<and> n_kind n \<noteq> BOUNDARY"
    if c: "c \<in> set cs" "c_id c \<notin> A" "i \<in> {c_source_id c, c_target_id c}" for c i
  proof -
    obtain n where "n \<in> set ns" "n_id n = i" "n_kind n \<noteq> BOUNDARY"
      using c(1,3) ok unfolding connections_ok_def by blast
    moreover have "i \<notin> R" using c assms(2) by auto
    ultimately show ?thesis by auto
  qed
  moreover have "distinct (map signature (filter (\<lambda>c. c_id c \<notin> A) cs))"
    using ok by (simp add: connections_ok_def distinct_map_filter)
  ultimately show ?thesis unfolding connections_ok_def set_filter mem_Collect_eq by blast
qed

theorem drop_elements_valid:
  assumes v: "valid_ir a" and closed: "\<forall>n \<in> set (ir_nodes a). n_id n \<notin> R \<longrightarrow> n_parent_id n \<notin> Some ` R"
    and ends: "\<forall>c \<in> set (ir_connections a). c_id c \<notin> A \<longrightarrow> c_source_id c \<notin> R \<and> c_target_id c \<notin> R"
  shows "valid_ir (drop_elements R A a)"
proof -
  let ?b = "drop_elements R A a"
  have g: "graph_ok a" using v by (simp add: valid_ir_iff)
  have "distinct (all_ids ?b)"
    using g by (auto simp: graph_ok_def all_ids_def drop_elements_def distinct_map_filter comp_def)
  moreover have "containment_ok (ir_nodes ?b)" "connections_ok (ir_nodes ?b) (ir_connections ?b)"
    using g containment_ok_filter[OF _ closed] connections_ok_filter[OF _ ends]
    by (auto simp: graph_ok_def drop_elements_def)
  moreover have ids: "set (element_ids a) - (R \<union> A) \<subseteq> set (element_ids ?b)"
    unfolding element_ids_def drop_elements_def by auto
  have "references_ok ?b" unfolding references_ok_def
  proof (intro conjI ballI)
    show "distinct (map dr_decision_id (ir_decisions ?b))"
      using g by (simp add: graph_ok_def references_ok_def drop_elements_def comp_def)
    fix s
    assume "s \<in> set (ir_assumptions ?b)"
    then obtain t where "t \<in> set (ir_assumptions a)" "s = drop_assumption (R \<union> A) t"
      by (auto simp: drop_elements_def)
    moreover have "set (as_subject_ids t) \<subseteq> set (element_ids a)"
      using g calculation(1) unfolding graph_ok_def references_ok_def by blast
    ultimately show "set (as_subject_ids s) \<subseteq> set (element_ids ?b)"
      using ids by (auto simp: drop_assumption_def)
  next
    fix d
    assume "d \<in> set (ir_decisions ?b)"
    then obtain t where "t \<in> set (ir_decisions a)" "d = drop_decision (R \<union> A) t"
      by (auto simp: drop_elements_def)
    moreover have "set (dr_subject_ids t) \<subseteq> set (element_ids a)"
      using g calculation(1) unfolding graph_ok_def references_ok_def by blast
    ultimately show "set (dr_subject_ids d) \<subseteq> set (element_ids ?b)"
      using ids by (auto simp: drop_decision_def)
  qed
  ultimately have "graph_ok ?b" by (simp only: graph_ok_def simp_thms)
  moreover have "own_problems ?b = own_problems a" by (simp add: own_problems_def drop_elements_def)
  moreover have "normalize_ir ?b = ?b" using v drop_elements_normal by (simp add: valid_ir_iff)
  moreover have "limits_ok ?b"
    using v by (auto simp: valid_ir_iff limits_ok_def drop_elements_def intro: le_trans[OF length_filter_le])
  ultimately show ?thesis
    using v by (auto simp: valid_ir_iff Assumption_drop DecisionRef_drop) (auto simp: drop_elements_def Assumption_drop DecisionRef_drop)
qed


lemma filter_entries:
  "map snd (filter (\<lambda>kv. fst kv \<notin> R) (map (\<lambda>x. (key x, x)) xs)) = filter (\<lambda>x. key x \<notin> R) xs"
  by (induction xs) auto

lemma Draft_fields:
  assumes "valid_ir a"
  shows "d_nodes (Draft a) = map (\<lambda>n. (n_id n, n)) (ir_nodes a)"
    and "d_connections (Draft a) = map (\<lambda>c. (c_id c, c)) (ir_connections a)"
    and "d_assumptions (Draft a) = ir_assumptions a" and "d_decisions (Draft a) = ir_decisions a"
  using valid_ids[OF assms] by (simp_all add: Draft_def dict_of_distinct)

lemma draft_result_drop:
  assumes v: "valid_ir a" "valid_ir (drop_elements R A a)"
  shows "draft_result a ((Draft a)\<lparr>d_nodes := filter (\<lambda>kv. fst kv \<notin> R) (d_nodes (Draft a)),
      d_connections := filter (\<lambda>kv. fst kv \<notin> A) (d_connections (Draft a)),
      d_assumptions := map (drop_assumption (R \<union> A)) (ir_assumptions a),
      d_decisions := map (drop_decision (R \<union> A)) (ir_decisions a)\<rparr>) = Inr (drop_elements R A a)"
  using v(2) unfolding draft_result_def valid_ir_def
  by (simp add: Draft_fields[OF v(1)] filter_entries drop_elements_def)

lemma draft_forget:
  assumes v: "valid_ir a"
  shows "forget ((Draft a)\<lparr>d_nodes := filter P (d_nodes (Draft a)), d_connections := filter Q (d_connections (Draft a))\<rparr>) removed =
    Inr ((Draft a)\<lparr>d_nodes := filter P (d_nodes (Draft a)), d_connections := filter Q (d_connections (Draft a)),
      d_assumptions := map (drop_assumption (set removed)) (ir_assumptions a),
      d_decisions := map (drop_decision (set removed)) (ir_decisions a)\<rparr>)"
proof -
  have "draft_ok ((Draft a)\<lparr>d_nodes := filter P (d_nodes (Draft a)), d_connections := filter Q (d_connections (Draft a))\<rparr>)"
    using Draft_ok[OF v] by (simp add: draft_ok_def entries_ok_filter)
  from forget_drops[OF this] show ?thesis by (simp add: Draft_fields[OF v])
qed

lemma draft_node_Draft:
  assumes v: "valid_ir a"
  shows "i \<in> n_id ` set (ir_nodes a) \<Longrightarrow> \<exists>n. draft_node (Draft a) i = Inr n"
    and "i \<notin> n_id ` set (ir_nodes a) \<Longrightarrow> draft_node (Draft a) i =
      Inl (Refused ''unknown_node'' (''There is no node '' @ py_repr i @ ''.'') (Some i))"
proof -
  let ?d = "map (\<lambda>n. (n_id n, n)) (ir_nodes a)"
  have "fst ` set ?d = n_id ` set (ir_nodes a)" by force
  then show "i \<in> n_id ` set (ir_nodes a) \<Longrightarrow> \<exists>n. draft_node (Draft a) i = Inr n"
    and "i \<notin> n_id ` set (ir_nodes a) \<Longrightarrow> draft_node (Draft a) i =
      Inl (Refused ''unknown_node'' (''There is no node '' @ py_repr i @ ''.'') (Some i))"
    using map_of_eq_None_iff[of ?d i] unfolding draft_node_def Draft_fields[OF v]
    by (cases "map_of ?d i"; auto simp: require_some_def)+
qed

lemma rmap_known:
  assumes "\<And>i. i \<in> S \<Longrightarrow> \<exists>x. f i = Inr x" and "\<And>i. i \<notin> S \<Longrightarrow> f i = Inl (e i)"
  shows "case List.find (\<lambda>i. i \<notin> S) ks of None \<Rightarrow> (\<exists>xs. rmap f ks = Inr xs) | Some u \<Rightarrow> rmap f ks = Inl (e u)"
proof (induction ks)
  case (Cons i ks)
  show ?case
  proof (cases "i \<in> S")
    case True
    then obtain x where "f i = Inr x" using assms(1) by blast
    with True Cons show ?thesis by (auto split: option.splits)
  qed (simp add: assms(2))
qed simp


definition command_refused :: "command \<Rightarrow> string \<Rightarrow> string \<Rightarrow> string option \<Rightarrow> edit_error" where
  "command_refused c reason message element_id = command_failed 0 c (Refused reason message element_id)"

lemma apply_one:
  "apply_commands a [c] p =
     (case apply_command (Draft a) c p of
        Inl e \<Rightarrow> Inl (command_failed 0 c e) | Inr d \<Rightarrow> map_error InvalidArchitecture (draft_result a d))"
  by (cases "apply_command (Draft a) c p") (simp_all add: apply_commands_def MAX_COMMANDS_def)

definition attached :: "architecture_ir \<Rightarrow> string set \<Rightarrow> string set" where
  "attached a R = c_id ` {c \<in> set (ir_connections a). c_source_id c \<in> R \<or> c_target_id c \<in> R}"

lemma find_entries:
  "List.find (\<lambda>(_, x). P x) (map (\<lambda>x. (key x, x)) xs) = map_option (\<lambda>x. (key x, x)) (List.find P xs)"
  by (induction xs) auto

lemma remove_nodes_Draft:
  assumes v: "valid_ir a" and known: "set ids \<subseteq> n_id ` set (ir_nodes a)"
    and closed: "\<forall>n \<in> set (ir_nodes a). n_id n \<notin> set ids \<longrightarrow> n_parent_id n \<notin> Some ` set ids"
    and nodes: "rmap (draft_node (Draft a)) ids = Inr ns"
  shows "remove_nodes (Draft a) ids =
    forget ((Draft a)\<lparr>d_nodes := filter (\<lambda>kv. fst kv \<notin> set ids) (d_nodes (Draft a)),
       d_connections := filter (\<lambda>kv. fst kv \<notin> attached a (set ids)) (d_connections (Draft a))\<rparr>)
      (remdups ids @ remdups (map c_id (filter (\<lambda>c. c_source_id c \<in> set ids \<or> c_target_id c \<in> set ids) (ir_connections a))))"
proof -
  define cs where "cs = remdups (map (\<lambda>(_, c). c_id c) (filter (\<lambda>(_, c). c_source_id c \<in> set (remdups ids) \<or>
      c_target_id c \<in> set (remdups ids)) (d_connections (Draft a))))"
  have cs: "cs = remdups (map c_id (filter (\<lambda>c. c_source_id c \<in> set ids \<or> c_target_id c \<in> set ids) (ir_connections a)))"
    unfolding cs_def Draft_fields[OF v] by (simp add: filter_map comp_def)
  have A: "set cs = attached a (set ids)" unfolding cs attached_def by auto
  have 1: "rfold dict_del (remdups ids) (d_nodes (Draft a)) =
      Inr (filter (\<lambda>kv. fst kv \<notin> set ids) (d_nodes (Draft a)))"
    using known rfold_dict_del[of "remdups ids" "d_nodes (Draft a)"] by (force simp: Draft_fields[OF v])
  have "set cs \<subseteq> fst ` set (d_connections (Draft a))"
    unfolding A attached_def Draft_fields[OF v] by force
  moreover have "distinct cs" by (simp add: cs_def)
  ultimately have 2: "rfold dict_del cs (d_connections (Draft a)) =
      Inr (filter (\<lambda>kv. fst kv \<notin> attached a (set ids)) (d_connections (Draft a)))"
    using rfold_dict_del[of cs "d_connections (Draft a)"] unfolding A by simp
  have find: "List.find (\<lambda>(_, child). n_parent_id child \<in> Some ` set (remdups ids) \<and> n_id child \<notin> set (remdups ids))
      (d_nodes (Draft a)) = None"
    using closed by (auto simp: find_None_iff Draft_fields[OF v])
  show ?thesis
    unfolding remove_nodes_def Let_def nodes find cs_def[symmetric] cs[symmetric]
    by (simp only: rbind.simps option.case 1 2)
qed

theorem remove_nodes_exact:
  assumes v: "valid_ir a"
  shows "apply_commands a [RemoveNodes ids] p =
    (case List.find (\<lambda>i. i \<notin> n_id ` set (ir_nodes a)) ids of
       Some u \<Rightarrow> Inl (command_refused (RemoveNodes ids) ''unknown_node''
                        (''There is no node '' @ py_repr u @ ''.'') (Some u))
     | None \<Rightarrow>
         (case List.find (\<lambda>n. n_parent_id n \<in> Some ` set ids \<and> n_id n \<notin> set ids) (ir_nodes a) of
            Some child \<Rightarrow> Inl (command_refused (RemoveNodes ids) ''boundary_not_empty''
              (py_repr (the (n_parent_id child)) @ '' still contains '' @ py_repr (n_id child) @
               ''; move or remove it first.'') (n_parent_id child))
          | None \<Rightarrow> Inr (drop_elements (set ids) (attached a (set ids)) a)))"
proof -
  have known: "case List.find (\<lambda>i. i \<notin> n_id ` set (ir_nodes a)) ids of
        None \<Rightarrow> \<exists>xs. rmap (draft_node (Draft a)) ids = Inr xs
      | Some u \<Rightarrow> rmap (draft_node (Draft a)) ids =
          Inl (Refused ''unknown_node'' (''There is no node '' @ py_repr u @ ''.'') (Some u))"
    by (rule rmap_known) (rule draft_node_Draft[OF v], assumption)+
  show ?thesis
  proof (cases "List.find (\<lambda>i. i \<notin> n_id ` set (ir_nodes a)) ids")
    case (Some u)
    with known have "rmap (draft_node (Draft a)) ids =
        Inl (Refused ''unknown_node'' (''There is no node '' @ py_repr u @ ''.'') (Some u))"
      by (simp only: option.case)
    then have "remove_nodes (Draft a) ids =
        Inl (Refused ''unknown_node'' (''There is no node '' @ py_repr u @ ''.'') (Some u))"
      unfolding remove_nodes_def Let_def by (simp only: rbind.simps)
    with Some show ?thesis
      by (simp only: apply_one apply_command.simps command_refused_def option.case sum.case)
  next
    case None
    then obtain ns where rm: "rmap (draft_node (Draft a)) ids = Inr ns" using known by auto
    let ?P = "\<lambda>n. n_parent_id n \<in> Some ` set ids \<and> n_id n \<notin> set ids"
    show ?thesis
    proof (cases "List.find ?P (ir_nodes a)")
      case (Some child)
      have "List.find (\<lambda>(_, child). n_parent_id child \<in> Some ` set (remdups ids) \<and> n_id child \<notin> set (remdups ids))
          (d_nodes (Draft a)) = Some (n_id child, child)"
        unfolding Draft_fields[OF v] using Some find_entries[of ?P n_id "ir_nodes a"] by simp
      with None Some rm show ?thesis by (simp add: apply_one remove_nodes_def command_refused_def Let_def)
    next
      case closed: None
      let ?cs = "remdups (map c_id (filter (\<lambda>c. c_source_id c \<in> set ids \<or> c_target_id c \<in> set ids) (ir_connections a)))"
      have r: "set (remdups ids @ ?cs) = set ids \<union> attached a (set ids)" by (auto simp: attached_def)
      have "set ids \<subseteq> n_id ` set (ir_nodes a)" using None by (auto simp: find_None_iff)
      moreover have "\<forall>n \<in> set (ir_nodes a). n_id n \<notin> set ids \<longrightarrow> n_parent_id n \<notin> Some ` set ids"
        using closed by (auto simp: find_None_iff)
      moreover have "valid_ir (drop_elements (set ids) (attached a (set ids)) a)"
        using v calculation(2) by (intro drop_elements_valid) (auto simp: attached_def)
      ultimately show ?thesis
        unfolding None closed apply_one apply_command.simps remove_nodes_Draft[OF v _ _ rm]
        by (simp only: draft_forget[OF v, where removed = "remdups ids @ ?cs", unfolded r]
            remove_nodes_Draft[OF v _ _ rm] draft_result_drop[OF v] option.case sum.case map_error_simps)
    qed
  qed
qed

lemma delete_keys: "fst ` set (AList.delete k d) = fst ` set d - {k}"
  unfolding AList.delete_eq by force

lemma rfold_del_missing:
  "\<not> set ks \<subseteq> fst ` set d \<Longrightarrow> \<exists>k \<in> set ks. rfold dict_del ks d = Inl (MissingKey k)"
proof (induction ks arbitrary: d)
  case (Cons k ks)
  show ?case
  proof (cases "k \<in> fst ` set d")
    case True
    then have "\<not> set ks \<subseteq> fst ` set (AList.delete k d)" using Cons.prems unfolding delete_keys by auto
    from Cons.IH[OF this] True show ?thesis by (auto simp: dict_del_def)
  qed (simp add: dict_del_def)
qed simp

lemma rfold_del_again:
  "\<not> distinct ks \<Longrightarrow> \<exists>k \<in> set ks. rfold dict_del ks d = Inl (MissingKey k)"
proof (induction ks arbitrary: d)
  case (Cons k ks)
  show ?case
  proof (cases "k \<in> fst ` set d")
    case True
    have "\<exists>j \<in> set ks. rfold dict_del ks (AList.delete k d) = Inl (MissingKey j)"
    proof (cases "k \<in> set ks")
      case True
      then have "\<not> set ks \<subseteq> fst ` set (AList.delete k d)" unfolding delete_keys by auto
      then show ?thesis by (rule rfold_del_missing)
    qed (use Cons in simp)
    moreover have "dict_del k d = Inr (AList.delete k d)" using True by (simp add: dict_del_def)
    ultimately show ?thesis by auto
  qed (simp add: dict_del_def)
qed simp

theorem remove_connections_exact:
  assumes v: "valid_ir a"
  shows "case List.find (\<lambda>i. i \<notin> c_id ` set (ir_connections a)) ids of
      Some u \<Rightarrow> apply_commands a [RemoveConnections ids] p =
        Inl (command_refused (RemoveConnections ids) ''unknown_connection''
               (''There is no connection '' @ py_repr u @ ''.'') (Some u))
    | None \<Rightarrow>
        if distinct ids then apply_commands a [RemoveConnections ids] p = Inr (drop_elements {} (set ids) a)
        else \<exists>k \<in> set ids. apply_commands a [RemoveConnections ids] p = Inl (KeyError k)"
proof -
  have keys: "fst ` set (d_connections (Draft a)) = c_id ` set (ir_connections a)"
    unfolding Draft_fields[OF v] by force
  have find: "List.find (\<lambda>i. i \<notin> c_id ` set (ir_connections a)) ids =
      (case filter (\<lambda>c. c \<notin> fst ` set (d_connections (Draft a))) ids of [] \<Rightarrow> None | u # _ \<Rightarrow> Some u)"
    unfolding keys by (induction ids) auto
  show ?thesis
  proof (cases "filter (\<lambda>c. c \<notin> fst ` set (d_connections (Draft a))) ids")
    case (Cons u us)
    then show ?thesis by (simp add: find apply_one command_refused_def)
  next
    case Nil
    then have known: "set ids \<subseteq> fst ` set (d_connections (Draft a))" by (auto simp: filter_empty_conv)
    show ?thesis
    proof (cases "distinct ids")
      case True
      have "valid_ir (drop_elements {} (set ids) a)" using v by (intro drop_elements_valid) auto
      note d = draft_result_drop[OF v this]
      have "forget ((Draft a)\<lparr>d_connections := filter (\<lambda>kv. fst kv \<notin> set ids) (d_connections (Draft a))\<rparr>) ids =
          Inr ((Draft a)\<lparr>d_nodes := filter (\<lambda>kv. fst kv \<notin> {}) (d_nodes (Draft a)),
            d_connections := filter (\<lambda>kv. fst kv \<notin> set ids) (d_connections (Draft a)),
            d_assumptions := map (drop_assumption ({} \<union> set ids)) (ir_assumptions a),
            d_decisions := map (drop_decision ({} \<union> set ids)) (ir_decisions a)\<rparr>)"
        using draft_forget[OF v, where P = "\<lambda>_. True" and Q = "\<lambda>kv. fst kv \<notin> set ids" and removed = ids] by simp
      with Nil True known d show ?thesis
        by (simp add: find apply_one rfold_dict_del)
    next
      case False
      then obtain k where "k \<in> set ids" "rfold dict_del ids (d_connections (Draft a)) = Inl (MissingKey k)"
        using rfold_del_again by blast
      with Nil False show ?thesis by (auto simp: find apply_one)
    qed
  qed
qed

end
