(* ===== verification/IR_Edit_Effects.thy ===== *)
theory IR_Edit_Effects
  imports IR_Edits
begin

text \<open>
  What single edits do to a valid architecture: the command an error names, edits that change
  nothing, adding and removing again, and the effect of configuring a node.
\<close>

section \<open>The command an error is about\<close>

lemma apply_from_Inl:
  "apply_from i d cs p = Inl e \<Longrightarrow>
   \<exists>k < length cs. \<exists>d' err. apply_from i d (take k cs) p = Inr d' \<and>
     apply_command d' (cs ! k) p = Inl err \<and> e = command_failed (i + k) (cs ! k) err"
proof (induction cs arbitrary: i d)
  case (Cons c cs)
  show ?case
  proof (cases "apply_command d c p")
    case (Inl err)
    with Cons.prems show ?thesis by (intro exI[of _ 0]) simp
  next
    case (Inr d')
    with Cons.prems have "apply_from (i + 1) d' cs p = Inl e" by simp
    from Cons.IH[OF this] obtain k d'' err where "k < length cs" "apply_from (i + 1) d' (take k cs) p = Inr d''"
      "apply_command d'' (cs ! k) p = Inl err" "e = command_failed (i + 1 + k) (cs ! k) err" by blast
    with Inr show ?thesis by (intro exI[of _ "Suc k"]) simp
  qed
qed simp

lemma command_failed_index:
  "command_failed k c err = InvalidArchitectureCommand m details \<Longrightarrow>
   cd_index details = Some k \<and> cd_command details = Some (COMMAND_NAMES c) \<and>
   err = Refused (cd_reason details) m (cd_element_id details)"
  by (cases err) auto

section \<open>Replacing a node\<close>

definition replace_node :: "architecture_ir \<Rightarrow> node \<Rightarrow> architecture_ir" where
  "replace_node a n = a\<lparr>ir_nodes := map (\<lambda>m. if n_id m = n_id n then n else m) (ir_nodes a)\<rparr>"

lemma update_entries:
  "k \<in> key ` set xs \<Longrightarrow> key y = k \<Longrightarrow> distinct (map key xs) \<Longrightarrow>
   AList.update k y (map (\<lambda>x. (key x, x)) xs) = map (\<lambda>x. (key x, x)) (map (\<lambda>x. if key x = k then y else x) xs)"
proof (induction xs)
  case (Cons x xs)
  have "map (\<lambda>x. if key x = k then y else x) xs = xs" if "key x = k"
  proof (rule map_idI)
    fix z
    assume "z \<in> set xs"
    then have "key z \<in> key ` set xs" by (rule imageI)
    then have "key z \<noteq> k" using Cons.prems(3) that by auto
    then show "(if key z = k then y else z) = z" by simp
  qed
  with Cons show ?case by (cases "key x = k") auto
qed simp

lemma Draft_result: "valid_ir a \<Longrightarrow> draft_result a (Draft a) = Inr a"
  by (simp add: draft_result_def Draft_fields comp_def valid_ir_def)

lemma put_node_result:
  assumes v: "valid_ir a" and n: "n_id n \<in> n_id ` set (ir_nodes a)"
    and ok: "draft_result a ((Draft a)\<lparr>d_nodes := AList.update (n_id n) n (d_nodes (Draft a))\<rparr>) = Inr a'"
  shows "a' = replace_node a n"
proof -
  let ?ns = "map (\<lambda>m. if n_id m = n_id n then n else m) (ir_nodes a)"
  have "ArchitectureIR (a\<lparr>ir_nodes := ?ns\<rparr>) = Inr a'"
    using ok update_entries[OF n refl valid_ids(1)[OF v]] by (simp add: draft_result_def Draft_fields[OF v] comp_def)
  then have "a' = normalize_ir (a\<lparr>ir_nodes := ?ns\<rparr>)" by (simp add: architecture.mk_Inr)
  moreover have "map n_id ?ns = map n_id (ir_nodes a)" by simp
  then have "normalize_ir (a\<lparr>ir_nodes := ?ns\<rparr>) = a\<lparr>ir_nodes := ?ns\<rparr>"
    using v unfolding valid_ir_iff normalize_ir_sorted by (simp del: map_map)
  ultimately show ?thesis by (simp add: replace_node_def)
qed

lemma draft_node_in:
  assumes v: "valid_ir a" and n: "n \<in> set (ir_nodes a)"
  shows "draft_node (Draft a) (n_id n) = Inr n"
proof -
  have "distinct (map fst (map (\<lambda>n. (n_id n, n)) (ir_nodes a)))" using valid_ids(1)[OF v] by (simp add: comp_def)
  then have "map_of (map (\<lambda>n. (n_id n, n)) (ir_nodes a)) (n_id n) = Some n"
    using n by (intro map_of_is_SomeI) auto
  then show ?thesis by (simp add: draft_node_def Draft_fields[OF v] outcome_simps)
qed

lemma replace_same: "valid_ir a \<Longrightarrow> n \<in> set (ir_nodes a) \<Longrightarrow> 
    (Draft a)\<lparr>d_nodes := AList.update (n_id n) n (d_nodes (Draft a))\<rparr> = Draft a"
  using draft_node_in[of a n] by (simp add: draft_node_def outcome_simps update_same)

section \<open>Edits that change nothing\<close>

lemma rename_same:
  assumes v: "valid_ir a" and n: "n \<in> set (ir_nodes a)" and name: "clean_line name = n_name n"
  shows "apply_commands a [RenameNode (n_id n) name] p = Inr a"
proof -
  have b: "Node n = Inr n" using v n by (simp add: valid_ir_def node_built_def)
  then have nn: "normalize_node n = n" by (simp add: node.built_iff)
  have "clean_line (n_name n) = n_name n" using arg_cong[OF nn, of n_name] by (simp add: normalize_node_def)
  then have "normalize_node (n\<lparr>n_name := name\<rparr>) = normalize_node n"
    using name by (simp add: normalize_node_def)
  then have "Node (n\<lparr>n_name := name\<rparr>) = Inr n" using b by (simp add: node.mk_Inr)
  then show ?thesis
    using draft_node_in[OF v n] replace_same[OF v n] Draft_result[OF v]
    by (simp add: apply_one stamp_def split: option.split)
qed

lemma value_eq_refl: "v \<noteq> CDec NaN \<Longrightarrow> value_eq v v"
proof (cases v)
  case (CDec d)
  then show "v \<noteq> CDec NaN \<Longrightarrow> value_eq v v" by (cases d) auto
qed auto

lemma sorted_set_Nil [simp]: "sorted_set xs = [] \<longleftrightarrow> xs = []"
  by (metis sorted_set_def remdups_eq_nil_iff set_empty set_sort)

lemma known_not_unknown:
  assumes "config_built c" and "cf_get c k = Some x"
  shows "\<not> is_unknown c k"
proof -
  have "filter (\<lambda>k. k \<in> set (map fst (cf_values c))) (cf_unknown c) = []"
    using config_builtD(4)[OF assms(1)] by (simp add: configuration_problems_def)
  moreover have "k \<in> set (map fst (cf_values c))" using assms(2) by (force simp: cf_get_def dest: map_of_SomeD)
  ultimately show ?thesis by (auto simp: is_unknown_def filter_empty_conv)
qed

lemma configure_node_same:
  assumes v: "valid_ir a" and n: "n \<in> set (ir_nodes a)" and d: "distinct (map fst vs)"
    and same: "\<And>k v. map_of vs k = Some v \<Longrightarrow> \<exists>x. v = Some x \<and> x \<noteq> CDec NaN \<and> cf_get (n_configuration n) k = Some x"
  shows "apply_commands a [UpdateConfiguration (n_id n) vs] p = Inr a"
proof -
  have b: "node_built n" using v n by (simp add: valid_ir_def)
  then have "config_built (n_configuration n)" by (simp add: node_built_def)
  note known = known_not_unknown[OF this]
  have "configure_node n vs p = Inr n"
  proof (rule configurable_node.configure_same[OF b d])
    fix k v
    assume "map_of vs k = Some v"
    with same obtain x where "v = Some x" "x \<noteq> CDec NaN" "cf_get (n_configuration n) k = Some x" by blast
    then show "v \<noteq> None \<and> cf_get (n_configuration n) k = v \<and> value_option_eq v v \<and> \<not> is_unknown (n_configuration n) k"
      using known value_eq_refl by simp
  qed
  then show ?thesis
    using draft_node_in[OF v n] replace_same[OF v n] Draft_result[OF v] by (simp add: apply_one)
qed


section \<open>Replacing a node keeps the graph rules\<close>

text \<open>The graph rules read of a node only its id, its kind and its parent.\<close>

definition place :: "node \<Rightarrow> string \<times> node_kind \<times> string option" where
  "place n = (n_id n, n_kind n, n_parent_id n)"

lemma ids_place: "n_id ` set ns = fst ` place ` set ns"
  by (force simp: place_def)

lemma parent_of_place: "parent_of ns = {(i, p). \<exists>k. (i, k, Some p) \<in> place ` set ns \<and> p \<in> fst ` place ` set ns}"
  unfolding parent_of_def ids_place by (force simp: place_def)

lemma bex_place: "(\<exists>n \<in> set ns. P (n_id n) (n_kind n)) \<longleftrightarrow> (\<exists>(i, k, q) \<in> place ` set ns. P i k)"
  by (auto simp: place_def)

lemma containment_place:
  assumes "place ` set ns = place ` set ms"
  shows "containment_ok ns = containment_ok ms"
proof -
  have "containment_ok xs \<longleftrightarrow>
      (\<forall>x \<in> place ` set xs. \<forall>p. snd (snd x) = Some p \<longrightarrow> (\<exists>(i, k, q) \<in> place ` set xs. i = p \<and> k = BOUNDARY)) \<and>
      acyclic {(i, p). \<exists>k. (i, k, Some p) \<in> place ` set xs \<and> p \<in> fst ` place ` set xs}" for xs
    unfolding containment_ok_def parent_of_place bex_place[where P = "\<lambda>i k. i = _ \<and> k = BOUNDARY"]
    by (simp add: place_def)
  then show ?thesis unfolding assms by (simp only: assms)
qed

lemma connections_place:
  assumes "place ` set ns = place ` set ms"
  shows "connections_ok ns cs = connections_ok ms cs"
  unfolding connections_ok_def bex_place[where P = "\<lambda>i k. i = _ \<and> k \<noteq> BOUNDARY"] assms ..

theorem replace_node_valid:
  assumes v: "valid_ir a" and n: "n \<in> set (ir_nodes a)" and b: "node_built m" and p: "place m = place n"
  shows "valid_ir (replace_node a m)"
proof -
  let ?ns = "map (\<lambda>x. if n_id x = n_id m then m else x) (ir_nodes a)"
  have i: "n_id m = n_id n" using p by (simp add: place_def)
  have "place (if n_id x = n_id m then m else x) = place x" if "x \<in> set (ir_nodes a)" for x
  proof (cases "n_id x = n_id m")
    case True
    then have "x = n" using that n i valid_ids(1)[OF v] by (auto simp: distinct_map dest: inj_onD)
    with True p show ?thesis by simp
  qed simp
  then have s: "place ` set ?ns = place ` set (ir_nodes a)"
    unfolding set_map image_image by (rule image_cong[OF refl])
  have ids: "map n_id ?ns = map n_id (ir_nodes a)" by simp
  have "element_ids (replace_node a m) = element_ids a" "all_ids (replace_node a m) = all_ids a"
    using ids by (simp_all add: element_ids_def all_ids_def replace_node_def del: map_map)
  then have "graph_ok (replace_node a m)"
    using v containment_place[OF s] connections_place[OF s]
    by (simp add: valid_ir_iff graph_ok_def references_ok_def) (simp add: replace_node_def)
  moreover have "own_problems (replace_node a m) = own_problems a" by (simp add: own_problems_def replace_node_def)
  moreover have "normalize_ir (replace_node a m) = replace_node a m"
    using v ids unfolding valid_ir_iff normalize_ir_sorted by (simp add: replace_node_def del: map_map)
  moreover have "limits_ok (replace_node a m)" using v by (simp add: valid_ir_iff limits_ok_def replace_node_def)
  ultimately show ?thesis using v b by (auto simp: valid_ir_iff) (auto simp: replace_node_def)
qed

lemma put_node_valid:
  assumes v: "valid_ir a" and n: "n \<in> set (ir_nodes a)" and b: "node_built m" and p: "place m = place n"
  shows "draft_result a ((Draft a)\<lparr>d_nodes := AList.update (n_id n) m (d_nodes (Draft a))\<rparr>) = Inr (replace_node a m)"
proof -
  have i: "n_id m = n_id n" using p by (simp add: place_def)
  have k: "n_id n \<in> n_id ` set (ir_nodes a)" using n by (rule imageI)
  have "ArchitectureIR (replace_node a m) = Inr (replace_node a m)"
    using replace_node_valid[OF assms] by (simp add: valid_ir_def)
  then show ?thesis
    using update_entries[OF k i valid_ids(1)[OF v]] i
    by (simp add: draft_result_def Draft_fields[OF v] comp_def replace_node_def)
qed

lemma rest_place:
  "n\<lparr>n_configuration := cf, n_field_provenance := fp\<rparr> = m\<lparr>n_configuration := cf, n_field_provenance := fp\<rparr> \<Longrightarrow> place n = place m"
  by (cases n; cases m) (simp add: place_def)

theorem configure_node_exact:
  assumes v: "valid_ir a" and n: "n \<in> set (ir_nodes a)" and d: "distinct (map fst vs)"
  shows "apply_commands a [UpdateConfiguration (n_id n) vs] p =
    (case configure_node n vs p of
       Inl e \<Rightarrow> Inl (command_failed 0 (UpdateConfiguration (n_id n) vs) e) | Inr m \<Rightarrow> Inr (replace_node a m))"
proof (cases "configure_node n vs p")
  case (Inl e)
  with draft_node_in[OF v n] show ?thesis by (simp add: apply_one)
next
  case (Inr m)
  have "node_built n" using v n by (simp add: valid_ir_def)
  from configurable_node.configure_result(1)[OF this d Inr]
  have "node_built m" "place m = place n" by (auto dest: rest_place)
  from put_node_valid[OF v n this] Inr draft_node_in[OF v n] show ?thesis by (simp add: apply_one)
qed

section \<open>Adding a node and removing it again\<close>

lemma drop_absent:
  "set (as_subject_ids s) \<inter> R = {} \<Longrightarrow> drop_assumption R s = s"
  "set (dr_subject_ids d) \<inter> R = {} \<Longrightarrow> drop_decision R d = d"
proof -
  assume "set (as_subject_ids s) \<inter> R = {}"
  then have "filter (\<lambda>i. i \<notin> R) (as_subject_ids s) = as_subject_ids s" by (intro filter_True) blast
  then show "drop_assumption R s = s" by (simp add: drop_assumption_def)
next
  assume "set (dr_subject_ids d) \<inter> R = {}"
  then have "filter (\<lambda>i. i \<notin> R) (dr_subject_ids d) = dr_subject_ids d" by (intro filter_True) blast
  then show "drop_decision R d = d" by (simp add: drop_decision_def)
qed

lemma Node_provenance:
  assumes "node_built n"
  shows "Node (n\<lparr>n_provenance := p\<rparr>) = Inr (n\<lparr>n_provenance := p\<rparr>)"
proof -
  have b: "normalize_node n = n" "node_problems n = []" using assms by (simp_all add: node_built_def node.built_iff)
  have "normalize_node (n\<lparr>n_provenance := p\<rparr>) = (normalize_node n)\<lparr>n_provenance := p\<rparr>"
    by (simp add: normalize_node_def)
  moreover have "node_problems (n\<lparr>n_provenance := p\<rparr>) = node_problems n" by (cases "n_parent_id n") (simp_all add: node_problems_def)
  ultimately show ?thesis using b by (simp add: node.built_iff)
qed

lemma valid_mentions:
  assumes "valid_ir a" and "i \<notin> set (all_ids a)"
  shows "m \<in> set (ir_nodes a) \<Longrightarrow> n_parent_id m \<noteq> Some i"
    and "c \<in> set (ir_connections a) \<Longrightarrow> c_source_id c \<noteq> i \<and> c_target_id c \<noteq> i"
    and "s \<in> set (ir_assumptions a) \<Longrightarrow> i \<notin> set (as_subject_ids s)"
    and "d \<in> set (ir_decisions a) \<Longrightarrow> i \<notin> set (dr_subject_ids d)"
proof -
  have g: "containment_ok (ir_nodes a)" "connections_ok (ir_nodes a) (ir_connections a)" "references_ok a"
    using assms(1) by (simp_all add: valid_ir_iff graph_ok_def)
  have i: "i \<notin> n_id ` set (ir_nodes a)" "i \<notin> set (element_ids a)"
    using assms(2) by (auto simp: all_ids_def element_ids_def)
  show "m \<in> set (ir_nodes a) \<Longrightarrow> n_parent_id m \<noteq> Some i"
    using g(1) i(1) unfolding containment_ok_def by blast
  show "c \<in> set (ir_connections a) \<Longrightarrow> c_source_id c \<noteq> i \<and> c_target_id c \<noteq> i"
    using g(2) i(1) unfolding connections_ok_def by (metis imageI insertCI)
  show "s \<in> set (ir_assumptions a) \<Longrightarrow> i \<notin> set (as_subject_ids s)"
    and "d \<in> set (ir_decisions a) \<Longrightarrow> i \<notin> set (dr_subject_ids d)"
    using g(3) i(2) unfolding references_ok_def by blast+
qed

lemma draft_ids_Draft: "valid_ir a \<Longrightarrow> draft_ids (Draft a) = set (all_ids a)"
  by (auto simp: draft_ids_def Draft_fields all_ids_def image_image)

theorem add_remove_node:
  assumes v: "valid_ir a" and n: "node_built n" and new: "n_id n \<notin> set (all_ids a)"
  shows "apply_commands a [AddNode n, RemoveNodes [n_id n]] p = Inr a"
proof -
  let ?i = "n_id n" and ?n = "n\<lparr>n_provenance := if n_provenance n = None then p else n_provenance n\<rparr>"
  let ?d = "(Draft a)\<lparr>d_nodes := d_nodes (Draft a) @ [(?i, ?n)]\<rparr>"
  have fresh: "?i \<notin> fst ` set (d_nodes (Draft a))" using new by (auto simp: Draft_fields[OF v] all_ids_def)
  have add: "apply_command (Draft a) (AddNode n) p = Inr ?d"
    using new fresh by (simp add: draft_ids_Draft[OF v] Node_provenance[OF n] update_new)
  have node: "draft_node ?d ?i = Inr ?n"
    using fresh[folded map_of_eq_None_iff] by (simp add: draft_node_def outcome_simps map_add_def)
  have find: "List.find (\<lambda>(_, child). n_parent_id child \<in> Some ` set (remdups [?i]) \<and> n_id child \<notin> set (remdups [?i])) (d_nodes ?d) = None"
    using valid_mentions(1)[OF v new] by (auto simp: find_None_iff Draft_fields[OF v])
  have att: "filter (\<lambda>(_, c). c_source_id c \<in> set (remdups [?i]) \<or> c_target_id c \<in> set (remdups [?i])) (d_connections ?d) = []"
    using valid_mentions(2)[OF v new] by (auto simp: filter_empty_conv Draft_fields[OF v])
  have del: "rfold dict_del (remdups [?i]) (d_nodes ?d) = Inr (d_nodes (Draft a))"
    using fresh by (auto simp: dict_del_def AList.delete_eq intro!: filter_True) force
  have "forget (?d\<lparr>d_nodes := d_nodes (Draft a), d_connections := d_connections ?d\<rparr>) [?i] = Inr (Draft a)"
  proof -
    have "?d\<lparr>d_nodes := d_nodes (Draft a), d_connections := d_connections ?d\<rparr> = Draft a" by simp
    moreover have "map (drop_assumption (set [?i])) (ir_assumptions a) = ir_assumptions a"
      "map (drop_decision (set [?i])) (ir_decisions a) = ir_decisions a"
      using valid_mentions(3,4)[OF v new] by (auto intro!: map_idI drop_absent)
    ultimately show ?thesis
      using forget_drops[OF Draft_ok[OF v], of "[?i]"] by (simp add: Draft_fields(3,4)[OF v])
  qed
  then have "remove_nodes ?d [?i] = Inr (Draft a)"
    unfolding remove_nodes_def Let_def find att using node del by simp
  then show ?thesis
    using add Draft_result[OF v] by (simp add: apply_commands_def MAX_COMMANDS_def)
qed

end
