(* ===== verification/IR_Theorems.thy ===== *)
theory IR_Theorems
  imports IR_Edit_Effects
begin

text \<open>
  The properties of the Architecture IR, each with a witness on a small architecture: an API and a
  database inside a boundary, one connection between them and an assumption about both.
\<close>

section \<open>A sample architecture\<close>

definition plain_node :: "string \<Rightarrow> node_kind \<Rightarrow> string \<Rightarrow> string option \<Rightarrow> node" where
  "plain_node i kind name parent = \<lparr>n_id = i, n_kind = kind, n_name = name, n_description = None,
     n_technology = None, n_component = None, n_parent_id = parent, n_configuration = empty_configuration,
     n_requirement_refs = [], n_lifecycle = None, n_metadata = [], n_provenance = None, n_field_provenance = []\<rparr>"

definition plain_connection :: "string \<Rightarrow> string \<Rightarrow> string \<Rightarrow> connection_kind \<Rightarrow> connection" where
  "plain_connection i source target kind = \<lparr>c_id = i, c_source_id = source, c_target_id = target, c_kind = kind,
     c_protocol = None, c_interaction = None, c_bidirectional = False, c_critical = None, c_name = None,
     c_description = None, c_configuration = empty_configuration, c_requirement_refs = [], c_metadata = [],
     c_provenance = None, c_field_provenance = []\<rparr>"

definition stated :: provenance where
  "stated = \<lparr>pv_source = USER_INPUT, pv_reference = None, pv_confidence = None, pv_verified = False,
     pv_inferred = False, pv_actor = None, pv_recorded_at = None\<rparr>"

definition small_orders :: assumption where
  "small_orders = \<lparr>as_id = ''a1'', as_statement = ''Small.'', as_provenance = stated,
     as_subject_ids = [''c1'', ''db''], as_requirement_refs = []\<rparr>"

definition api_node :: node where
  "api_node = (plain_node ''api'' SERVICE ''API'' (Some ''vpc''))\<lparr>
     n_configuration := \<lparr>cf_values = [(''replicas'', CInt 2)], cf_unknown = [''runtime''], cf_extra = []\<rparr>,
     n_field_provenance := [(''name'', stated)]\<rparr>"

definition shop :: architecture_ir where
  "shop = \<lparr>ir_name = ''Shop'', ir_description = None,
     ir_nodes = [api_node, plain_node ''db'' DATABASE ''Orders'' (Some ''vpc''), plain_node ''vpc'' BOUNDARY ''VPC'' None],
     ir_connections = [plain_connection ''c1'' ''api'' ''db'' DATA_ACCESS],
     ir_assumptions = [small_orders], ir_decisions = [], ir_requirement_refs = [], ir_metadata = [],
     ir_provenance = None, ir_schema_version = 1\<rparr>"

lemma api_built: "node_built api_node"
  by code_simp

lemma shop_elements_built:
  "\<forall>n \<in> set (ir_nodes shop). node_built n" "\<forall>c \<in> set (ir_connections shop). connection_built c"
  "\<forall>s \<in> set (ir_assumptions shop). Assumption s = Inr s" "\<forall>d \<in> set (ir_decisions shop). DecisionRef d = Inr d"
  by code_simp+

lemma shop_normal: "normalize_ir shop = shop"
proof -
  have "clean_line ''Shop'' = ''Shop''" by code_simp
  moreover have "optional_block None = None" by (simp add: optional_block_def)
  ultimately show ?thesis
    by (simp add: normalize_ir_sorted shop_def api_node_def plain_node_def plain_connection_def sorted_refs_def frozen_def)
qed

lemma shop_problems: "ir_problems shop = []"
proof -
  have "own_problems shop = []" "shape_problems shop = []" "duplicate_id_problems shop = []"
    "containment_problems shop = []" "connection_rule_problems (ir_nodes shop) [] (ir_connections shop) = []"
    by code_simp+
  moreover have "reference_problems shop = []"
    by (simp add: shop_def reference_problems_Nil references_ok_def element_ids_def api_node_def plain_node_def
        plain_connection_def small_orders_def)
  ultimately show ?thesis by (simp add: ir_problems_def)
qed

lemma shop_valid: "valid_ir shop"
  using shop_normal shop_problems shop_elements_built by (simp add: valid_ir_def architecture.built_iff)


section \<open>Building architectures\<close>

text \<open>
  C15.  The constructor of an architecture accepts exactly what the graph rules allow.  For nodes
  with non-empty ids, \<open>ArchitectureIR\<close> returns a value if and only if its own fields are
  well formed, the size limits hold, all ids are distinct, every parent is a boundary and
  containment has no cycle, every connection joins two components and none is stated twice, and
  assumptions and decisions refer to existing elements; the value is then the canonical form of the
  argument.
\<close>

theorem architecture_accepts_exactly_valid_graphs:
  assumes "[] \<notin> n_id ` set (ir_nodes a)"
  shows "ArchitectureIR a = Inr b \<longleftrightarrow>
    b = normalize_ir a \<and> own_problems b = [] \<and> limits_ok b \<and> graph_ok b"
proof -
  have "[] \<notin> n_id ` set (ir_nodes (normalize_ir a))" using assms by (simp add: normalize_ir_def)
  from ir_problems_Nil[OF this] show ?thesis by (auto simp: architecture.mk_Inr)
qed

theorem architecture_accepts_exactly_valid_graphs_witness:
  "[] \<notin> n_id ` set (ir_nodes shop) \<and> graph_ok shop"
proof -
  have ne: "[] \<notin> n_id ` set (ir_nodes shop)" by (simp add: shop_def api_node_def plain_node_def)
  moreover have "ArchitectureIR shop = Inr shop" using shop_valid by (simp add: valid_ir_def)
  ultimately show ?thesis using architecture_accepts_exactly_valid_graphs[OF ne, of shop] by blast
qed

text \<open>The two constructors that take their fields apart.\<close>

lemma Technology_again: "Technology name version = Inr t \<Longrightarrow> Technology (tech_name t) (tech_version t) = Inr t"
proof -
  assume t: "Technology name version = Inr t"
  then have "t = \<lparr>tech_name = py_lower (py_strip name), tech_version = Option.bind version (\<lambda>v. or_none (py_strip v))\<rparr>"
    and ok: "technology_problems t = []"
    by (auto simp: Technology_def Let_def raise_if_def split: if_splits)
  then have "py_lower (py_strip (tech_name t)) = tech_name t"
    "Option.bind (tech_version t) (\<lambda>v. or_none (py_strip v)) = tech_version t"
    by (auto simp: py_strip_lower or_none_def split: bind_splits)
  with ok show ?thesis by (cases t) (simp add: Technology_def Let_def raise_if_def)
qed

lemma RequirementRef_again:
  "RequirementRef i v = Inr r \<Longrightarrow> RequirementRef (rr_requirement_id r) (rr_version r) = Inr r"
  by (auto simp: RequirementRef_def Let_def raise_if_def split: if_splits)

text \<open>
  C20.  Rebuilding is the identity: what a constructor of the IR returned, it returns unchanged when
  it is given again, for each of the nine classes: technologies, requirement references,
  provenance, decisions, assumptions, nodes, connections, configurations and architectures.
\<close>

theorem rebuilding_is_identity:
  "(Technology name version = Inr t \<longrightarrow> Technology (tech_name t) (tech_version t) = Inr t) \<and>
   (RequirementRef i v = Inr r \<longrightarrow> RequirementRef (rr_requirement_id r) (rr_version r) = Inr r) \<and>
   (Provenance p = Inr p' \<longrightarrow> Provenance p' = Inr p') \<and>
   (DecisionRef d = Inr d' \<longrightarrow> DecisionRef d' = Inr d') \<and>
   (Assumption s = Inr s' \<longrightarrow> Assumption s' = Inr s') \<and>
   (Node n = Inr n' \<longrightarrow> Node n' = Inr n') \<and>
   (Connection c = Inr c' \<longrightarrow> Connection c' = Inr c') \<and>
   (Configuration vs us ex = Inr f \<longrightarrow> Configuration (cf_values f) (cf_unknown f) (cf_extra f) = Inr f) \<and>
   (ArchitectureIR a = Inr a' \<longrightarrow> ArchitectureIR a' = Inr a')"
  by (intro conjI impI) (fact Technology_again RequirementRef_again provenance.mk_again decision.mk_again assumption.mk_again node.mk_again
      connection.mk_again Configuration_again architecture.mk_again)+

theorem rebuilding_is_identity_witness:
  "\<exists>n. Node (plain_node ''db'' DATABASE ''  Order   store '' None) = Inr n \<and> n_name n = ''Order store'' \<and> Node n = Inr n"
proof -
  have n: "Node (plain_node ''db'' DATABASE ''  Order   store '' None) =
      Inr (plain_node ''db'' DATABASE ''Order store'' None)" by code_simp
  then have "Node (plain_node ''db'' DATABASE ''Order store'' None) = Inr (plain_node ''db'' DATABASE ''Order store'' None)"
    by (rule rebuilding_is_identity[THEN conjunct2, THEN conjunct2, THEN conjunct2, THEN conjunct2, THEN conjunct2,
          THEN conjunct1, THEN mp])
  with n show ?thesis by (auto simp: plain_node_def)
qed

text \<open>
  C25.  The canonical form of a number decides its value: two decimals of at most 28 digits are
  numerically equal if and only if \<open>canonical_decimal\<close> maps them to the same representation,
  so equal configurations serialize equally.
\<close>

theorem canonical_decimals_decide_equality:
  assumes "digits c1 \<le> PRECISION" "digits c2 \<le> PRECISION"
  shows "canonical_decimal (Dec c1 e1) = canonical_decimal (Dec c2 e2) \<longleftrightarrow> dec_eq (Dec c1 e1) (Dec c2 e2)"
  by (rule canonical_decimal_decides[OF assms])

theorem canonical_decimals_decide_equality_witness:
  "canonical_decimal (Dec 2000 (- 1)) = canonical_decimal (Dec 2 2)"
proof -
  have "digits 2000 \<le> PRECISION" "digits 2 \<le> PRECISION" "dec_eq (Dec 2000 (- 1)) (Dec 2 2)" by code_simp+
  then show ?thesis using canonical_decimals_decide_equality by blast
qed

section \<open>Graph queries\<close>

text \<open>
  C19.  \<open>reachable_from\<close> and \<open>dependents_of\<close> always end and return exactly the other
  nodes reachable along (against) connections of the given kinds, in the order of the architecture.
\<close>

theorem closures_are_reachability:
  assumes "x \<in> n_id ` set (ir_nodes a)"
  shows "reachable_from a x kinds =
      Some (filter (\<lambda>n. (x, n_id n) \<in> (depends_on a kinds)\<^sup>* \<and> n_id n \<noteq> x) (ir_nodes a)) \<and>
    dependents_of a x kinds =
      Some (filter (\<lambda>n. (n_id n, x) \<in> (depends_on a kinds)\<^sup>* \<and> n_id n \<noteq> x) (ir_nodes a))"
  using closure_reachable[OF assms, of kinds] by simp

theorem closures_are_reachability_witness:
  "\<exists>ns. dependents_of shop ''db'' [] = Some ns \<and> api_node \<in> set ns"
proof -
  have db: "''db'' \<in> n_id ` set (ir_nodes shop)" by (simp add: shop_def plain_node_def)
  have "(''api'', ''db'') \<in> depends_on shop []"
    unfolding depends_on_iff by (simp add: shop_def plain_node_def api_node_def plain_connection_def)
  then have "(n_id api_node, ''db'') \<in> (depends_on shop [])\<^sup>*" by (simp add: api_node_def plain_node_def)
  moreover have "api_node \<in> set (ir_nodes shop)" "n_id api_node \<noteq> ''db''"
    by (simp_all add: shop_def api_node_def plain_node_def)
  ultimately show ?thesis using closures_are_reachability[OF db, of "[]"] by simp
qed

text \<open>
  C24.  In a valid architecture \<open>ancestors\<close> returns exactly the boundaries above a node: the
  elements its parent chain reaches, all of them boundaries, never the node itself.
\<close>

theorem ancestors_are_enclosing_boundaries:
  assumes v: "valid_ir a" and n: "n \<in> set (ir_nodes a)"
  shows "n_id ` set (ancestors a (n_id n)) = {p. (n_id n, p) \<in> (parent_of (ir_nodes a))\<^sup>+} \<and>
    n_id n \<notin> n_id ` set (ancestors a (n_id n)) \<and>
    (\<forall>b \<in> set (ir_nodes a). n_id b \<in> n_id ` set (ancestors a (n_id n)) \<longrightarrow> n_kind b = BOUNDARY)"
proof -
  have d: "distinct (map n_id (ir_nodes a))" by (rule valid_ids(1)[OF v])
  have c: "containment_ok (ir_nodes a)" using v by (simp add: valid_ir_iff graph_ok_def)
  have A: "n_id ` set (ancestors a (n_id n)) = {p. (n_id n, p) \<in> (parent_of (ir_nodes a))\<^sup>+}"
    by (rule ancestors_ids[OF d n])
  moreover have "(n_id n, n_id n) \<notin> (parent_of (ir_nodes a))\<^sup>+"
    using c by (simp add: containment_ok_def acyclic_def)
  moreover have "n_kind b = BOUNDARY" if b: "b \<in> set (ir_nodes a)" "(n_id n, n_id b) \<in> (parent_of (ir_nodes a))\<^sup>+" for b
  proof -
    obtain i where "(i, n_id b) \<in> parent_of (ir_nodes a)" using b(2) by (meson tranclD2)
    then obtain m where "m \<in> set (ir_nodes a)" "n_parent_id m = Some (n_id b)" by (rule parent_ofE)
    then obtain b' where "b' \<in> set (ir_nodes a)" "n_id b' = n_id b" "n_kind b' = BOUNDARY"
      using c unfolding containment_ok_def by blast
    then show ?thesis using d b(1) by (metis distinct_map inj_onD)
  qed
  ultimately show ?thesis by auto
qed


theorem ancestors_are_enclosing_boundaries_witness:
  "''vpc'' \<in> n_id ` set (ancestors shop ''api'')"
proof -
  have n: "api_node \<in> set (ir_nodes shop)" "n_id api_node = ''api''"
    by (simp_all add: shop_def api_node_def plain_node_def)
  have "(''api'', ''vpc'') \<in> parent_of (ir_nodes shop)"
    using parent_ofI[OF n(1)] n(2) by (simp add: shop_def api_node_def plain_node_def)
  then show ?thesis using ancestors_are_enclosing_boundaries[OF shop_valid n(1)] n(2) by auto
qed

section \<open>Edits\<close>

text \<open>
  C16.  Edits keep architectures valid: whatever commands are applied to an architecture that its
  constructors built, a result is again one the constructors return unchanged, made of elements
  their constructors return unchanged, so that it satisfies every rule of the IR.
\<close>

theorem edits_keep_architectures_valid:
  assumes "valid_ir a" and "\<forall>c \<in> set cs. command_built c" and "apply_commands a cs p = Inr a'"
  shows "valid_ir a' \<and> graph_ok a'"
  using edits_valid[OF assms] by (simp add: valid_ir_iff)

theorem edits_keep_architectures_valid_witness:
  "\<exists>a'. apply_commands shop [RemoveNodes [''db'']] None = Inr a' \<and> valid_ir a'"
proof -
  have "List.find (\<lambda>i. i \<notin> n_id ` set (ir_nodes shop)) [''db''] = None"
    "List.find (\<lambda>n. n_parent_id n \<in> Some ` set [''db''] \<and> n_id n \<notin> set [''db'']) (ir_nodes shop) = None"
    by (simp_all add: shop_def api_node_def plain_node_def find_None_iff)
  then have "apply_commands shop [RemoveNodes [''db'']] None =
      Inr (drop_elements (set [''db'']) (attached shop (set [''db''])) shop)"
    by (simp only: remove_nodes_exact[OF shop_valid] option.case)
  with edits_keep_architectures_valid[OF shop_valid _ this] show ?thesis by simp
qed

text \<open>
  C17.  Removing nodes on every branch: refused for the first id that is not a node, refused for
  the first node left inside a removed boundary, and otherwise the result is exactly the
  architecture without those nodes, without the connections attached to them, and without any
  mention of either in the subjects of assumptions and decisions.
\<close>

theorem removing_nodes_exact:
  assumes v: "valid_ir a"
  shows "apply_commands a [RemoveNodes ids] p =
    (case List.find (\<lambda>i. i \<notin> n_id ` set (ir_nodes a)) ids of
       Some u \<Rightarrow> Inl (command_refused (RemoveNodes ids) ''unknown_node''
                        (''There is no node '' @ py_repr u @ ''.'') (Some u))
     | None \<Rightarrow>
         (case List.find (\<lambda>n. n_parent_id n \<in> Some ` set ids \<and> n_id n \<notin> set ids) (ir_nodes a) of
            Some child \<Rightarrow> Inl (command_refused (RemoveNodes ids) ''boundary_not_empty''
              (py_repr (the (n_parent_id child)) @ '' still contains '' @ py_repr (n_id child) @
               ''; move or remove it first.'') (n_parent_id child))
          | None \<Rightarrow> Inr (drop_elements (set ids) (attached a (set ids)) a)))"
  by (rule remove_nodes_exact[OF v])

theorem removing_nodes_exact_witness:
  "\<exists>m. apply_commands shop [RemoveNodes [''vpc'']] None =
     Inl (command_refused (RemoveNodes [''vpc'']) ''boundary_not_empty'' m (Some ''vpc''))"
proof -
  have "List.find (\<lambda>i. i \<notin> n_id ` set (ir_nodes shop)) [''vpc''] = None"
    "List.find (\<lambda>n. n_parent_id n \<in> Some ` set [''vpc''] \<and> n_id n \<notin> set [''vpc'']) (ir_nodes shop) = Some api_node"
    by (simp_all add: shop_def api_node_def plain_node_def)
  moreover have "n_parent_id api_node = Some ''vpc''" by (simp add: api_node_def plain_node_def)
  ultimately show ?thesis by (simp only: removing_nodes_exact[OF shop_valid] option.case) blast
qed

text \<open>
  C26.  Removing connections: refused for the first id that is not a connection; ids given once
  each are removed together with every mention of them; an id given twice passes the check and
  then makes the second deletion raise a \<open>KeyError\<close>, which is not the refusal the code
  documents.
\<close>

theorem removing_connections_exact:
  assumes v: "valid_ir a"
  shows "case List.find (\<lambda>i. i \<notin> c_id ` set (ir_connections a)) ids of
      Some u \<Rightarrow> apply_commands a [RemoveConnections ids] p =
        Inl (command_refused (RemoveConnections ids) ''unknown_connection''
               (''There is no connection '' @ py_repr u @ ''.'') (Some u))
    | None \<Rightarrow>
        if distinct ids then apply_commands a [RemoveConnections ids] p = Inr (drop_elements {} (set ids) a)
        else \<exists>k \<in> set ids. apply_commands a [RemoveConnections ids] p = Inl (KeyError k)"
  by (rule remove_connections_exact[OF v])

theorem removing_connections_exact_witness:
  "apply_commands shop [RemoveConnections [''c1'', ''c1'']] None = Inl (KeyError ''c1'')"
proof -
  have "List.find (\<lambda>i. i \<notin> c_id ` set (ir_connections shop)) [''c1'', ''c1''] = None"
    by (simp add: shop_def plain_connection_def)
  then show ?thesis using removing_connections_exact[OF shop_valid, of "[''c1'', ''c1'']" None] by simp
qed


text \<open>
  C21.  Edits are all or nothing and errors name the first command that failed: whenever
  \<open>apply_commands\<close> reports a command by index, the commands before it apply, that command
  is refused in the state they lead to, and the error carries its name, reason, message and element.
\<close>

theorem first_refused_command:
  assumes "apply_commands a cs p = Inl (InvalidArchitectureCommand m details)"
    and "cd_index details = Some k"
  shows "k < length cs \<and>
    (\<exists>d. apply_from 0 (Draft a) (take k cs) p = Inr d \<and>
       apply_command d (cs ! k) p = Inl (Refused (cd_reason details) m (cd_element_id details)) \<and>
       cd_command details = Some (COMMAND_NAMES (cs ! k)))"
proof -
  have "apply_from 0 (Draft a) cs p = Inl (InvalidArchitectureCommand m details)"
    using assms by (auto simp: apply_commands_def edits_refused_def outcome_simps split: if_splits)
  from apply_from_Inl[OF this] obtain j d err where j: "j < length cs"
    "apply_from 0 (Draft a) (take j cs) p = Inr d" "apply_command d (cs ! j) p = Inl err"
    "InvalidArchitectureCommand m details = command_failed (0 + j) (cs ! j) err" by blast
  with command_failed_index[OF j(4)[symmetric]] assms(2) show ?thesis by auto
qed

theorem first_refused_command_witness:
  "\<exists>m details. apply_commands shop [RemoveNodes [''gone'']] None = Inl (InvalidArchitectureCommand m details) \<and>
     apply_command (Draft shop) (RemoveNodes [''gone'']) None = Inl (Refused (cd_reason details) m (cd_element_id details))"
proof -
  have "List.find (\<lambda>i. i \<notin> n_id ` set (ir_nodes shop)) [''gone''] = Some ''gone''"
    by (simp add: shop_def api_node_def plain_node_def)
  then obtain m details where a: "apply_commands shop [RemoveNodes [''gone'']] None = Inl (InvalidArchitectureCommand m details)"
    "cd_index details = Some 0"
    by (simp add: remove_nodes_exact[OF shop_valid] command_refused_def)
  then show ?thesis using first_refused_command[OF a] by auto
qed

text \<open>
  C23.  Adding a node under a fresh id and removing it again gives back the architecture, whatever
  the node refers to and whoever edits.
\<close>

theorem add_then_remove_node:
  assumes "valid_ir a" and "node_built n" and "n_id n \<notin> set (all_ids a)"
  shows "apply_commands a [AddNode n, RemoveNodes [n_id n]] p = Inr a"
  by (rule add_remove_node[OF assms])

theorem add_then_remove_node_witness:
  "apply_commands shop [AddNode (plain_node ''cdn'' CDN ''Edge'' None), RemoveNodes [''cdn'']] (Some stated) = Inr shop"
proof -
  have n: "node_built (plain_node ''cdn'' CDN ''Edge'' None)" by code_simp
  have "n_id (plain_node ''cdn'' CDN ''Edge'' None) \<notin> set (all_ids shop)"
    by (simp add: all_ids_def shop_def api_node_def plain_node_def plain_connection_def small_orders_def)
  from add_then_remove_node[OF shop_valid n this] show ?thesis by (simp add: plain_node_def)
qed

text \<open>
  C18.  Configuring a node: the edit fails exactly when the constructors refuse the new
  configuration, and otherwise changes that node only, and of it only the configuration and its
  provenance.  Each given property is set to the canonical form of its value or cleared, the others
  keep theirs, a property given a value is no longer unknown, and the preserved settings stay.  Of
  the provenance of fields, exactly the properties given a value that changed, or that were unknown,
  are attributed to the editor; that of a key which names a cleared property, with or without the
  prefix configuration., is dropped; every other key keeps what it had.
\<close>

theorem configuring_a_node:
  assumes v: "valid_ir a" and n: "n \<in> set (ir_nodes a)" and d: "distinct (map fst vs)"
  shows "case configure_node n vs (Some p) of
      Inl e \<Rightarrow> apply_commands a [UpdateConfiguration (n_id n) vs] (Some p) =
        Inl (command_failed 0 (UpdateConfiguration (n_id n) vs) e)
    | Inr n' \<Rightarrow> apply_commands a [UpdateConfiguration (n_id n) vs] (Some p) = Inr (replace_node a n') \<and>
        n'\<lparr>n_configuration := empty_configuration, n_field_provenance := []\<rparr> =
          n\<lparr>n_configuration := empty_configuration, n_field_provenance := []\<rparr> \<and>
        (\<forall>k. cf_get (n_configuration n') k =
           (case map_of vs k of Some w \<Rightarrow> map_option canonical_value w | None \<Rightarrow> cf_get (n_configuration n) k)) \<and>
        (\<forall>k. is_unknown (n_configuration n') k \<longleftrightarrow> is_unknown (n_configuration n) k \<and> k \<notin> fst ` set vs) \<and>
        cf_extra (n_configuration n') = cf_extra (n_configuration n) \<and>
        (\<forall>f. map_of (n_field_provenance n') f =
           (if \<exists>k w. f = ''configuration.'' @ k \<and> map_of vs k = Some (Some w) \<and>
                (\<not> value_option_eq (Some (canonical_value w)) (cf_get (n_configuration n) k) \<or>
                 is_unknown (n_configuration n) k)
            then Some p
            else if map_of vs (remove_prefix ''configuration.'' f) = Some None then None
            else map_of (n_field_provenance n) f))"
proof (cases "configure_node n vs (Some p)")
  case (Inl e)
  then show ?thesis using configure_node_exact[OF v n d, of "Some p"] by simp
next
  case (Inr n')
  have b: "node_built n" using v n by (simp add: valid_ir_def)
  note r = configurable_node.configure_result[OF b d Inr]
  have fp: "map_of (n_field_provenance n') f =
      (if \<exists>k w. f = ''configuration.'' @ k \<and> map_of vs k = Some (Some w) \<and>
           (\<not> value_option_eq (Some (canonical_value w)) (cf_get (n_configuration n) k) \<or> is_unknown (n_configuration n) k)
       then Some p
       else if map_of vs (remove_prefix ''configuration.'' f) = Some None then None
       else map_of (n_field_provenance n) f)" for f
    using r(5)[of f] unfolding cleared_iff[OF d] by simp
  have "apply_commands a [UpdateConfiguration (n_id n) vs] (Some p) = Inr (replace_node a n')"
    using configure_node_exact[OF v n d, of "Some p"] Inr by simp
  with fp r(1-4) show ?thesis unfolding Inr sum.case by blast
qed

lemma shop_api: "api_node \<in> set (ir_nodes shop)" "n_id api_node = ''api''"
  by (simp_all add: shop_def api_node_def plain_node_def)

theorem configuring_a_node_witness:
  "\<exists>n'. apply_commands shop [UpdateConfiguration ''api'' [(''replicas'', Some (CInt 3)), (''runtime'', None)]] (Some stated) =
       Inr (replace_node shop n') \<and>
     cf_get (n_configuration n') ''replicas'' = Some (CInt 3) \<and> \<not> is_unknown (n_configuration n') ''runtime''"
proof -
  let ?vs = "[(''replicas'', Some (CInt 3)), (''runtime'', None)]"
  have "case configure_node api_node ?vs (Some stated) of Inl _ \<Rightarrow> False | Inr _ \<Rightarrow> True" by code_simp
  then obtain n' where n': "configure_node api_node ?vs (Some stated) = Inr n'" by (auto split: sum.splits)
  have "distinct (map fst ?vs)" by simp
  note r = configuring_a_node[OF shop_valid shop_api(1) this, of stated, unfolded n' sum.case]
  from r have "cf_get (n_configuration n') ''replicas'' = Some (CInt 3)" by simp
  moreover from r have "\<not> is_unknown (n_configuration n') ''runtime''" by simp
  ultimately show ?thesis using r shop_api(2) by auto
qed

text \<open>
  C22.  Setting a value to what it already is changes nothing: an edit that gives properties the
  values they have, or a node the name it has (up to white space), returns the architecture itself
  and attributes nothing to the editor.
\<close>

theorem edits_without_change:
  assumes v: "valid_ir a" and n: "n \<in> set (ir_nodes a)" and "distinct (map fst vs)"
    and "\<And>k v. map_of vs k = Some v \<Longrightarrow> \<exists>x. v = Some x \<and> x \<noteq> CDec NaN \<and> cf_get (n_configuration n) k = Some x"
    and "clean_line name = n_name n"
  shows "apply_commands a [UpdateConfiguration (n_id n) vs] p = Inr a \<and>
    apply_commands a [RenameNode (n_id n) name] p = Inr a"
  using configure_node_same[OF v n assms(3,4)] rename_same[OF v n assms(5)] by blast

theorem edits_without_change_witness:
  "apply_commands shop [UpdateConfiguration ''api'' [(''replicas'', Some (CInt 2))]] (Some stated) = Inr shop \<and>
   apply_commands shop [RenameNode ''api'' '' API ''] (Some stated) = Inr shop"
proof -
  have name: "clean_line '' API '' = n_name api_node" by code_simp
  have get: "cf_get (n_configuration api_node) ''replicas'' = Some (CInt 2)" by (simp add: api_node_def cf_get_def)
  have "apply_commands shop [UpdateConfiguration (n_id api_node) [(''replicas'', Some (CInt 2))]] (Some stated) = Inr shop \<and>
      apply_commands shop [RenameNode (n_id api_node) '' API ''] (Some stated) = Inr shop"
    by (rule edits_without_change[OF shop_valid shop_api(1) _ _ name]) (auto simp: get split: if_splits)
  then show ?thesis by (simp only: shop_api(2))
qed

text \<open>
  C27.  Clearing a property called \<open>name\<close> forgets who named the node: the filter on the field
  provenance drops the key \<open>name\<close>, which belongs to the node's own name, although the name is
  untouched.
\<close>

theorem clearing_name_drops_its_provenance:
  assumes "node_built n" and "configure_node n [(''name'', None)] p = Inr n'"
  shows "n_name n' = n_name n \<and> map_of (n_field_provenance n') ''name'' = None"
proof -
  have d: "distinct (map fst [(''name'', None :: config_value option)])" by simp
  note r = configurable_node.configure_result[OF assms(1) d assms(2)]
  have "n_name n' = n_name n" using r(1) by (cases n; cases n') simp
  moreover have "remove_prefix ''configuration.'' ''name'' = ''name''" by (simp add: remove_prefix_def starts_with_def)
  ultimately show ?thesis unfolding r(5) by (simp add: cleared_def)
qed

theorem clearing_name_drops_its_provenance_witness:
  "\<exists>n'. configure_node api_node [(''name'', None)] None = Inr n' \<and>
     map_of (n_field_provenance api_node) ''name'' = Some stated \<and> map_of (n_field_provenance n') ''name'' = None"
proof -
  have "case configure_node api_node [(''name'', None)] None of Inl _ \<Rightarrow> False | Inr _ \<Rightarrow> True" by code_simp
  then obtain n' where n': "configure_node api_node [(''name'', None)] None = Inr n'" by (auto split: sum.splits)
  with clearing_name_drops_its_provenance[OF api_built n'] show ?thesis by (simp add: api_node_def)
qed

end
