(* ===== verification/IR_Writing.thy ===== *)
theory IR_Writing
  imports IR_Model
begin

text \<open>
  Writing an architecture as a document (the writing half of core/architecture_ir/serialization.py):
  every field is present, decimals are plain text, times are UTC in ISO 8601.  A JSON object is the
  list of its entries, in the order the code writes them; lists and tuples, dicts and frozen mappings
  are the same values here, so \<open>_thaw\<close> has no counterpart.
\<close>

section \<open>Numbers and times as text\<close>

text \<open>\<open>format(value.normalize(), "f")\<close>: plain notation.\<close>

fun dec_plain :: "decimal \<Rightarrow> string" where
  "dec_plain NaN = ''NaN''"
| "dec_plain (Inf neg) = (if neg then ''-Infinity'' else ''Infinity'')"
| "dec_plain (Dec c e) =
     (let ds = nat_str (nat \<bar>c\<bar>); k = nat (- e)
      in (if c < 0 then ''-'' else []) @
         (if 0 \<le> e then nat_str (nat \<bar>c\<bar> * 10 ^ nat e)
          else if k < length ds then take (length ds - k) ds @ ''.'' @ drop (length ds - k) ds
          else ''0.'' @ replicate (k - length ds) (CHR ''0'') @ ds))"

definition decimal_to_str :: "decimal \<Rightarrow> string" where
  "decimal_to_str d = dec_plain (normalize d)"

text \<open>
  The proleptic Gregorian calendar of \<open>datetime\<close>: days are numbered from 0 at 1 January of the
  year 1, and a date is the one its number determines, found by searching the year and the month.
\<close>

definition is_leap :: "nat \<Rightarrow> bool" where
  "is_leap y \<longleftrightarrow> y mod 4 = 0 \<and> (y mod 100 \<noteq> 0 \<or> y mod 400 = 0)"

definition days_before_year :: "nat \<Rightarrow> nat" where
  "days_before_year y = (let p = y - 1 in p * 365 + p div 4 - p div 100 + p div 400)"

definition days_in_month :: "nat \<Rightarrow> nat \<Rightarrow> nat" where
  "days_in_month y m =
     (if m = 2 then if is_leap y then 29 else 28 else if m \<in> {4, 6, 9, 11} then 30 else 31)"

function year_from :: "nat \<Rightarrow> nat \<Rightarrow> nat" where
  "year_from y day = (if day < days_before_year (y + 1) then y else year_from (y + 1) day)"
  by pat_completeness auto

termination
  by (relation "measure (\<lambda>(y, day). day + 1 - y)") (auto simp: days_before_year_def Let_def)

declare year_from.simps [simp del]

function month_from :: "nat \<Rightarrow> nat \<Rightarrow> nat \<Rightarrow> nat \<times> nat" where
  "month_from y m day =
     (if m \<ge> 12 \<or> day < days_in_month y m then (m, day) else month_from y (m + 1) (day - days_in_month y m))"
  by pat_completeness auto

termination
  by (relation "measure (\<lambda>(y, m, day). 12 - m)") auto

declare month_from.simps [simp del]

definition dec_pad :: "nat \<Rightarrow> nat \<Rightarrow> string" where
  "dec_pad width n = replicate (width - length (nat_str n)) (CHR ''0'') @ nat_str n"

definition date_str :: "nat \<Rightarrow> string" where
  "date_str day =
     (let y = year_from (day div 366 + 1) day; (m, d) = month_from y 1 (day - days_before_year y)
      in dec_pad 4 y @ ''-'' @ dec_pad 2 m @ ''-'' @ dec_pad 2 (d + 1))"

text \<open>The Unix epoch, from which instants are counted, is day 719162.\<close>

definition EPOCH_DAY :: int where "EPOCH_DAY = 719162"

definition iso_utc :: "instant \<Rightarrow> string" where
  "iso_utc t =
     (let seconds = t div 1000000; micro = nat (t mod 1000000); s = nat (seconds mod 86400)
      in date_str (nat (seconds div 86400 + EPOCH_DAY)) @ ''T'' @
         dec_pad 2 (s div 3600) @ '':'' @ dec_pad 2 (s div 60 mod 60) @ '':'' @ dec_pad 2 (s mod 60) @
         (if micro = 0 then [] else ''.'' @ dec_pad 6 micro) @ ''+00:00'')"

text \<open>
  \<open>recorded_at.astimezone(UTC).isoformat()\<close>.  A provenance never holds a time without a zone;
  such a time is written as on a system whose own zone is UTC.
\<close>

fun time_str :: "timestamp \<Rightarrow> string" where
  "time_str (Aware t) = iso_utc t"
| "time_str (Naive t) = iso_utc t"

section \<open>Documents\<close>

definition text_json :: "string option \<Rightarrow> json" where
  "text_json s = (case s of None \<Rightarrow> JNull | Some t \<Rightarrow> JText t)"

definition texts_json :: "string list \<Rightarrow> json" where
  "texts_json ss = JList (map JText ss)"

definition metadata_dict :: "(string \<times> string) list \<Rightarrow> json" where
  "metadata_dict kvs = JObj (map (\<lambda>(k, v). (k, JText v)) kvs)"

definition provenance_dict :: "provenance option \<Rightarrow> json" where
  "provenance_dict provenance =
     (case provenance of
        None \<Rightarrow> JNull
      | Some p \<Rightarrow> JObj
          [(''source'', JText (source_value (pv_source p))),
           (''reference'', text_json (pv_reference p)),
           (''confidence'', text_json (map_option decimal_to_str (pv_confidence p))),
           (''verified'', JBool (pv_verified p)),
           (''inferred'', JBool (pv_inferred p)),
           (''actor'', text_json (pv_actor p)),
           (''recorded_at'', text_json (map_option time_str (pv_recorded_at p)))])"

definition refs_dict :: "requirement_ref list \<Rightarrow> json" where
  "refs_dict refs = JList (map (\<lambda>r. JObj
     [(''requirement_id'', JText (uuid_str (rr_requirement_id r))),
      (''version'', case rr_version r of None \<Rightarrow> JNull | Some v \<Rightarrow> JInt v)]) refs)"

fun value_json :: "config_value \<Rightarrow> json" where
  "value_json (CInt i) = JInt i"
| "value_json (CDec d) = JText (decimal_to_str d)"
| "value_json (CText s) = JText s"
| "value_json (CBool b) = JBool b"
| "value_json (CList ts) = texts_json ts"

definition configuration_dict :: "configuration \<Rightarrow> json" where
  "configuration_dict c = JObj
     [(''values'', JObj (map (\<lambda>(k, v). (k, value_json v)) (cf_values c))),
      (''unknown'', texts_json (sort (cf_unknown c))),
      (''extra'', JObj (cf_extra c))]"

definition annotations_dict ::
    "configuration \<Rightarrow> requirement_ref list \<Rightarrow> (string \<times> string) list \<Rightarrow> provenance option \<Rightarrow>
     (string \<times> provenance) list \<Rightarrow> (string \<times> json) list" where
  "annotations_dict configuration refs metadata provenance field_provenance =
     [(''configuration'', configuration_dict configuration),
      (''requirement_refs'', refs_dict refs),
      (''metadata'', metadata_dict metadata),
      (''provenance'', provenance_dict provenance),
      (''field_provenance'', JObj (map (\<lambda>(k, p). (k, provenance_dict (Some p))) field_provenance))]"

fun lifecycle_value :: "lifecycle \<Rightarrow> string" where
  "lifecycle_value PLANNED = ''planned''"
| "lifecycle_value ACTIVE = ''active''"
| "lifecycle_value DEPRECATED = ''deprecated''"

fun interaction_value :: "interaction \<Rightarrow> string" where
  "interaction_value SYNCHRONOUS = ''synchronous''"
| "interaction_value ASYNCHRONOUS = ''asynchronous''"

definition technology_dict :: "technology option \<Rightarrow> json" where
  "technology_dict technology =
     (case technology of
        None \<Rightarrow> JNull
      | Some t \<Rightarrow> JObj [(''name'', JText (tech_name t)), (''version'', text_json (tech_version t))])"

definition node_dict :: "node \<Rightarrow> (string \<times> json) list" where
  "node_dict n =
     [(''id'', JText (n_id n)),
      (''kind'', JText (kind_value (n_kind n))),
      (''name'', JText (n_name n)),
      (''description'', text_json (n_description n)),
      (''technology'', technology_dict (n_technology n)),
      (''component'', text_json (n_component n)),
      (''parent_id'', text_json (n_parent_id n)),
      (''lifecycle'', text_json (map_option lifecycle_value (n_lifecycle n)))] @
     annotations_dict (n_configuration n) (n_requirement_refs n) (n_metadata n) (n_provenance n)
       (n_field_provenance n)"

definition connection_dict :: "connection \<Rightarrow> (string \<times> json) list" where
  "connection_dict c =
     [(''id'', JText (c_id c)),
      (''source_id'', JText (c_source_id c)),
      (''target_id'', JText (c_target_id c)),
      (''kind'', JText (connection_kind_value (c_kind c))),
      (''protocol'', text_json (c_protocol c)),
      (''interaction'', text_json (map_option interaction_value (c_interaction c))),
      (''bidirectional'', JBool (c_bidirectional c)),
      (''critical'', case c_critical c of None \<Rightarrow> JNull | Some b \<Rightarrow> JBool b),
      (''name'', text_json (c_name c)),
      (''description'', text_json (c_description c))] @
     annotations_dict (c_configuration c) (c_requirement_refs c) (c_metadata c) (c_provenance c)
       (c_field_provenance c)"

definition assumption_dict :: "assumption \<Rightarrow> (string \<times> json) list" where
  "assumption_dict a =
     [(''id'', JText (as_id a)),
      (''statement'', JText (as_statement a)),
      (''provenance'', provenance_dict (Some (as_provenance a))),
      (''subject_ids'', texts_json (as_subject_ids a)),
      (''requirement_refs'', refs_dict (as_requirement_refs a))]"

definition decision_dict :: "decision_ref \<Rightarrow> (string \<times> json) list" where
  "decision_dict d =
     [(''decision_id'', JText (uuid_str (dr_decision_id d))),
      (''subject_ids'', texts_json (dr_subject_ids d))]"

text \<open>The fields of the document besides its collections and its schema version, and the whole document.\<close>

definition own_dict :: "architecture_ir \<Rightarrow> (string \<times> json) list" where
  "own_dict a =
     [(''name'', JText (ir_name a)),
      (''description'', text_json (ir_description a)),
      (''metadata'', metadata_dict (ir_metadata a)),
      (''provenance'', provenance_dict (ir_provenance a)),
      (''requirement_refs'', refs_dict (ir_requirement_refs a))]"

definition to_dict :: "architecture_ir \<Rightarrow> (string \<times> json) list" where
  "to_dict a =
     (''schema_version'', JInt (ir_schema_version a)) # own_dict a @
     [(''nodes'', JList (map (\<lambda>n. JObj (node_dict n)) (ir_nodes a))),
      (''connections'', JList (map (\<lambda>c. JObj (connection_dict c)) (ir_connections a))),
      (''assumptions'', JList (map (\<lambda>s. JObj (assumption_dict s)) (ir_assumptions a))),
      (''decisions'', JList (map (\<lambda>d. JObj (decision_dict d)) (ir_decisions a)))]"

section \<open>JSON text\<close>

text \<open>\<open>json.dumps(..., sort_keys=True, separators=(",", ":"), ensure_ascii=False)\<close>.\<close>

definition plain_json_char :: "char \<Rightarrow> string" where
  "plain_json_char c =
     (if c = DQ then [BACKSLASH, DQ]
      else if c = BACKSLASH then [BACKSLASH, BACKSLASH]
      else if c = CHR 0x0A then BACKSLASH # ''n''
      else if c = CHR 0x0D then BACKSLASH # ''r''
      else if c = CHR 0x09 then BACKSLASH # ''t''
      else if c = CHR 0x0C then BACKSLASH # ''f''
      else if c = CHR 0x08 then BACKSLASH # ''b''
      else if (of_char c :: nat) < 32 then BACKSLASH # ''u'' @ hex_pad 4 (of_char c)
      else [c])"

definition plain_json_string :: "string \<Rightarrow> string" where
  "plain_json_string s = DQ # concat (map plain_json_char s) @ [DQ]"

fun dumps :: "json \<Rightarrow> string" where
  "dumps JNull = ''null''"
| "dumps (JBool b) = (if b then ''true'' else ''false'')"
| "dumps (JInt i) = int_str i"
| "dumps (JText s) = plain_json_string s"
| "dumps (JList vs) = ''['' @ join '','' (map dumps vs) @ '']''"
| "dumps (JObj kvs) =
     CHR 0x7B # join '','' (map (\<lambda>(k, t). plain_json_string k @ '':'' @ t)
       (sort_key fst (map (\<lambda>(k, v). (k, dumps v)) kvs))) @ [CHR 0x7D]"
| "dumps JOther = []"

definition to_json :: "architecture_ir \<Rightarrow> string" where
  "to_json a = dumps (JObj (to_dict a))"

text \<open>The SHA-256 of the UTF-8 text, in hexadecimal, is an argument.\<close>

definition content_hash :: "(string \<Rightarrow> string) \<Rightarrow> architecture_ir \<Rightarrow> string" where
  "content_hash sha a = sha (to_json a)"

end
