(* ===== verification/IR_Diff.thy ===== *)
theory IR_Diff
  imports IR_Writing
begin

text \<open>
  The comparison of two architectures (core/architecture_ir/diff.py): elements are matched by id, a
  modified element lists its changed fields, and values that look like secrets are not shown.  A
  dict that is filled step by step is the list of its assignments; the last one to a key counts.
\<close>

section \<open>Secrets\<close>

definition RESOURCE_PROPERTIES :: "string list" where
  "RESOURCE_PROPERTIES =
     [''replicas'', ''autoscaling_min_replicas'', ''autoscaling_max_replicas'',
      ''autoscaling_target_cpu_ratio'', ''cpu_request_cores'', ''cpu_limit_cores'',
      ''memory_request_bytes'', ''memory_limit_bytes'', ''storage_bytes'', ''instance_class'',
      ''max_connections'', ''partitions'']"

text \<open>
  The alternatives of the expression, with their optional parts written out; a search for it that
  ignores case is a search in the lower-case text.
\<close>

definition SECRET_WORDS :: "string list" where
  "SECRET_WORDS =
     [''passwd'', ''password'', ''secret'', ''token'', ''apikey'', ''api_key'', ''api-key'',
      ''privatekey'', ''private_key'', ''private-key'', ''accesskey'', ''access_key'', ''access-key'',
      ''credential'', ''authorization'', ''cookie'']"

definition SECRET_FIELD :: "string \<Rightarrow> bool" where
  "SECRET_FIELD s \<longleftrightarrow> list_ex (\<lambda>w. contains_text w (py_lower s)) SECRET_WORDS"

definition REDACTED :: json where
  "REDACTED = JText ''[redacted]''"

definition CLOSED :: "string list" where
  "CLOSED = map p_name (filter (\<lambda>s. p_type s \<in> {CHOICE, BOOLEAN}) (NODE_PROPERTIES @ CONNECTION_PROPERTIES))"

text \<open>The rest of the text after the first occurrence of \<open>p\<close>.\<close>

fun after_first :: "string \<Rightarrow> string \<Rightarrow> string option" where
  "after_first p [] = (if p = [] then Some [] else None)"
| "after_first p (c # cs) = (if starts_with p (c # cs) then Some (drop (length p) (c # cs)) else after_first p cs)"

definition key_after :: "string \<Rightarrow> string \<Rightarrow> string option" where
  "key_after path marker =
     (if starts_with marker path then Some (drop (length marker) path)
      else after_first (''.'' @ marker) path)"

text \<open>\<open>rpartition(".")\<close>: what stands before and after the last dot.\<close>

definition last_part :: "string \<Rightarrow> string \<times> string" where
  "last_part s =
     (if CHR ''.'' \<in> set s
      then (butlast (rev (dropWhile (\<lambda>c. c \<noteq> CHR ''.'') (rev s))),
            rev (takeWhile (\<lambda>c. c \<noteq> CHR ''.'') (rev s)))
      else ([], s))"

definition ends_with :: "string \<Rightarrow> string \<Rightarrow> bool" where
  "ends_with p s \<longleftrightarrow> starts_with (rev p) (rev s)"

definition is_secret_path :: "string \<Rightarrow> bool" where
  "is_secret_path path =
     (case key_after path ''configuration.extra.'' of
        Some key \<Rightarrow> SECRET_FIELD key
      | None \<Rightarrow>
          (case key_after path ''metadata.'' of
             Some key \<Rightarrow> SECRET_FIELD key
           | None \<Rightarrow>
               let (head, name) = last_part path;
                   typed = name \<in> set CLOSED \<and> (head = ''configuration'' \<or> ends_with ''.configuration'' head)
               in SECRET_FIELD name \<and> \<not> typed))"

fun scrubbed :: "json \<Rightarrow> json" where
  "scrubbed (JObj kvs) =
     JObj (map (\<lambda>(k, v). (k, if SECRET_FIELD k \<and> v \<noteq> JNull then REDACTED else scrubbed v)) kvs)"
| "scrubbed (JList vs) = JList (map scrubbed vs)"
| "scrubbed v = v"

definition redacted :: "string \<Rightarrow> json \<Rightarrow> json" where
  "redacted path v =
     (if v = JNull \<or> \<not> (starts_with ''configuration.'' path \<or> starts_with ''metadata.'' path) then v
      else if is_secret_path path then REDACTED
      else scrubbed v)"

section \<open>Changes\<close>

record field_change =
  fc_field :: string
  fc_before :: json
  fc_after :: json
  fc_category :: string

record element_change =
  el_element :: element_type
  el_element_id :: string
  el_change :: change_kind
  el_label :: "string option"
  el_kind :: "string option"
  el_fields :: "field_change list"

record architecture_diff =
  df_architecture :: "field_change list"
  df_nodes :: "element_change list"
  df_connections :: "element_change list"
  df_assumptions :: "element_change list"
  df_decisions :: "element_change list"

definition df_changes :: "architecture_diff \<Rightarrow> element_change list" where
  "df_changes d = df_nodes d @ df_connections d @ df_assumptions d @ df_decisions d"

definition df_is_empty :: "architecture_diff \<Rightarrow> bool" where
  "df_is_empty d \<longleftrightarrow> df_architecture d = [] \<and> df_changes d = []"

fun change_value :: "change_kind \<Rightarrow> string" where
  "change_value ADDED = ''added''"
| "change_value REMOVED = ''removed''"
| "change_value MODIFIED = ''modified''"

definition change_text :: "string \<Rightarrow> element_change list \<Rightarrow> change_kind \<Rightarrow> string list" where
  "change_text noun changes kind =
     (let selected = filter (\<lambda>c. el_change c = kind) changes; count = length selected;
          labels = map (\<lambda>c. the (el_label c)) (filter (\<lambda>c. truthy (el_label c)) selected)
      in if selected = [] then []
         else [nat_str count @ '' '' @ noun @ (if count > 1 then ''s'' else []) @ '' '' @ change_value kind @
               (if kind \<noteq> MODIFIED \<and> labels \<noteq> [] \<and> count \<le> 3 then '' ('' @ join '', '' labels @ '')'' else [])])"

definition df_summary :: "architecture_diff \<Rightarrow> string" where
  "df_summary d =
     (if df_is_empty d then ''No changes.''
      else join ''; ''
        (concat (map (\<lambda>(noun, changes). concat (map (change_text noun changes) [ADDED, REMOVED, MODIFIED]))
           [(''node'', df_nodes d), (''connection'', df_connections d),
            (''assumption'', df_assumptions d), (''decision'', df_decisions d)]) @
         (if df_architecture d \<noteq> [] then [''architecture details changed''] else [])) @ ''.'')"

section \<open>Comparison\<close>

definition WHOLE :: "string list" where
  "WHOLE = [''provenance'', ''requirement_refs'', ''subject_ids'']"

definition entries :: "json \<Rightarrow> (string \<times> json) list" where
  "entries v = (case v of JObj kvs \<Rightarrow> kvs | _ \<Rightarrow> [])"

text \<open>\<open>d.get(k)\<close>; the last assignment to a key counts.\<close>

definition dict_get :: "(string \<times> json) list \<Rightarrow> string \<Rightarrow> json" where
  "dict_get d k = (case map_of (rev d) k of None \<Rightarrow> JNull | Some v \<Rightarrow> v)"

lemma size_entries: "map_of kvs k = Some v \<Longrightarrow> size_list (size_prod (\<lambda>_. 0) size) (entries v) \<le> size_list (size_prod (\<lambda>_. 0) size) kvs"
proof (induction kvs)
  case (Cons kv kvs)
  then show ?case by (cases v; cases kv) (auto simp: entries_def split: if_splits)
qed simp

lemma size_dict_get:
  "size_list (size_prod (\<lambda>_. 0) size) (entries (dict_get d k)) \<le> size_list (size_prod (\<lambda>_. 0) size) d"
proof (cases "map_of (rev d) k")
  case None
  then show ?thesis by (simp add: dict_get_def entries_def)
next
  case (Some v)
  from size_entries[OF this] show ?thesis by (simp add: dict_get_def Some size_list_conv_sum_list flip: rev_map)
qed

lemma size_entries_item: "size_list (size_prod (\<lambda>_. 0) size) (entries v) \<le> size v"
  by (cases v) (simp_all add: entries_def)

lemma size_configuration_part:
  "size_list (size_prod (\<lambda>_. 0) size) (entries (dict_get (entries item) k)) \<le> Suc (size item + n)"
  using size_dict_get[of "entries item" k] size_entries_item[of item] by linarith

function leaves :: "string \<Rightarrow> (string \<times> json) list \<Rightarrow> (string \<times> json) list" where
  "leaves prefix [] = []"
| "leaves prefix ((key, item) # rest) =
     (let path = prefix @ key in
      if path = ''configuration'' then
        leaves ''configuration.'' (entries (dict_get (entries item) ''values'')) @
        (let unknown = dict_get (entries item) ''unknown'' in
         if unknown = JList [] then [] else [(''configuration.unknown'', unknown)]) @
        leaves ''configuration.extra.'' (entries (dict_get (entries item) ''extra''))
      else if path = ''field_provenance'' then map (\<lambda>(k, v). (''field_provenance.'' @ k, v)) (entries item)
      else case item of
             JObj kvs \<Rightarrow> if key \<in> set WHOLE then [(path, item)] else leaves (path @ ''.'') kvs
           | _ \<Rightarrow> [(path, item)]) @ leaves prefix rest"
  by pat_completeness auto

termination
  using size_configuration_part
  by (relation "measure (\<lambda>(prefix, kvs). size_list (size_prod (\<lambda>_. 0) size) kvs)") (auto simp: less_Suc_eq_le)

definition CATEGORIES :: "(string \<times> string) list" where
  "CATEGORIES =
     [(''technology'', ''technology''), (''component'', ''technology''),
      (''source_id'', ''endpoints''), (''target_id'', ''endpoints''),
      (''protocol'', ''semantics''), (''interaction'', ''semantics''),
      (''bidirectional'', ''semantics''), (''critical'', ''semantics''),
      (''kind'', ''kind''), (''metadata'', ''metadata''),
      (''provenance'', ''provenance''), (''field_provenance'', ''provenance''),
      (''requirement_refs'', ''traceability''), (''subject_ids'', ''traceability''),
      (''parent_id'', ''placement''), (''lifecycle'', ''lifecycle'')]"

definition category :: "string \<Rightarrow> string" where
  "category path =
     (let (head, _, rest) = partition_char (CHR ''.'') path in
      if head = ''configuration''
      then if fst (partition_char (CHR ''.'') rest) \<in> set RESOURCE_PROPERTIES then ''resources'' else ''configuration''
      else case map_of CATEGORIES head of None \<Rightarrow> ''description'' | Some c \<Rightarrow> c)"

text \<open>Python's \<open>==\<close> on JSON values: \<open>True == 1\<close>, and dicts are equal whatever their order.\<close>

fun py_eq :: "json \<Rightarrow> json \<Rightarrow> bool" where
  "py_eq JNull w = (w = JNull)"
| "py_eq (JBool b) w = (case w of JBool b' \<Rightarrow> b = b' | JInt i \<Rightarrow> i = of_bool b | _ \<Rightarrow> False)"
| "py_eq (JInt i) w = (case w of JBool b \<Rightarrow> i = of_bool b | JInt i' \<Rightarrow> i = i' | _ \<Rightarrow> False)"
| "py_eq (JText s) w = (w = JText s)"
| "py_eq (JList vs) w =
     (case w of JList ws \<Rightarrow> list_all2 py_eq vs ws | _ \<Rightarrow> False)"
| "py_eq (JObj kvs) w =
     (case w of
        JObj kws \<Rightarrow> length kvs = length kws \<and>
          list_all (\<lambda>(k, v). case map_of kws k of None \<Rightarrow> False | Some w \<Rightarrow> py_eq v w) kvs
      | _ \<Rightarrow> False)"
| "py_eq JOther w = (w = JOther)"

definition field_changes ::
    "(string \<times> json) list \<Rightarrow> (string \<times> json) list \<Rightarrow> string list \<Rightarrow> field_change list" where
  "field_changes earlier later skip =
     (let old = leaves [] earlier; new = leaves [] later in
      map (\<lambda>path. \<lparr>fc_field = path, fc_before = redacted path (dict_get old path),
                   fc_after = redacted path (dict_get new path), fc_category = category path\<rparr>)
        (filter (\<lambda>path. path \<notin> set skip \<and> \<not> py_eq (dict_get old path) (dict_get new path))
           (sorted_set (map fst old @ map fst new))))"

definition text_of :: "json \<Rightarrow> string option" where
  "text_of v = (case v of JText s \<Rightarrow> Some s | _ \<Rightarrow> None)"

definition id_of :: "string \<Rightarrow> (string \<times> json) list \<Rightarrow> string" where
  "id_of id_key e = (case text_of (dict_get e id_key) of None \<Rightarrow> [] | Some i \<Rightarrow> i)"

text \<open>The change of one element: absent, present or both, before and after.\<close>

definition change_of_element ::
    "element_type \<Rightarrow> string \<Rightarrow> string option \<Rightarrow> string \<Rightarrow> (string \<times> json) list option \<Rightarrow>
     (string \<times> json) list option \<Rightarrow> element_change list" where
  "change_of_element element id_key label_key i was now =
     (let change = (\<lambda>kind current fields.
            \<lparr>el_element = element, el_element_id = i, el_change = kind,
             el_label = Option.bind label_key (\<lambda>k. text_of (dict_get current k)),
             el_kind = text_of (dict_get current ''kind''), el_fields = fields\<rparr>)
      in case (was, now) of
           (None, None) \<Rightarrow> []
         | (None, Some n) \<Rightarrow> [change ADDED n []]
         | (Some w, None) \<Rightarrow> [change REMOVED w []]
         | (Some w, Some n) \<Rightarrow>
             (let fields = field_changes w n [id_key] in if fields = [] then [] else [change MODIFIED n fields]))"

definition element_changes ::
    "element_type \<Rightarrow> string \<Rightarrow> string option \<Rightarrow> (string \<times> json) list list \<Rightarrow> (string \<times> json) list list \<Rightarrow>
     element_change list" where
  "element_changes element id_key label_key earlier later =
     (let old = dict_of (id_of id_key) earlier; new = dict_of (id_of id_key) later
      in concat (map (\<lambda>i. change_of_element element id_key label_key i (map_of old i) (map_of new i))
           (sorted_set (map fst old @ map fst new))))"

definition diff :: "architecture_ir \<Rightarrow> architecture_ir \<Rightarrow> architecture_diff" where
  "diff earlier later =
     \<lparr>df_architecture = field_changes (own_dict earlier) (own_dict later) [],
      df_nodes = element_changes NODE ''id'' (Some ''name'')
        (map node_dict (ir_nodes earlier)) (map node_dict (ir_nodes later)),
      df_connections = element_changes CONNECTION ''id'' (Some ''name'')
        (map connection_dict (ir_connections earlier)) (map connection_dict (ir_connections later)),
      df_assumptions = element_changes ASSUMPTION ''id'' None
        (map assumption_dict (ir_assumptions earlier)) (map assumption_dict (ir_assumptions later)),
      df_decisions = element_changes DECISION ''decision_id'' None
        (map decision_dict (ir_decisions earlier)) (map decision_dict (ir_decisions later))\<rparr>"

end
