(* ===== verification/IR_Diff_Props.thy ===== *)
theory IR_Diff_Props
  imports IR_Diff IR_Edits Text_Props
begin

text \<open>
  What a comparison reports: the fields of two documents agree exactly when the documents do, up to
  the preserved settings, whose nested objects are flattened; and which values a comparison shows.
\<close>

section \<open>Flattened documents\<close>

definition agree :: "(string \<times> json) list \<Rightarrow> (string \<times> json) list \<Rightarrow> bool" where
  "agree d1 d2 \<longleftrightarrow> (\<forall>p. py_eq (dict_get d1 p) (dict_get d2 p))"

lemma dict_get_Nil [simp]: "dict_get [] p = JNull"
  by (simp add: dict_get_def)

lemma dict_get_append: "dict_get (xs @ ys) p = (if p \<in> fst ` set ys then dict_get ys p else dict_get xs p)"
proof (cases "p \<in> fst ` set ys")
  case True
  then obtain v where "map_of (rev ys) p = Some v" by (metis map_of_eq_None_iff not_None_eq set_rev)
  with True show ?thesis by (simp add: dict_get_def map_add_def)
next
  case False
  then have "map_of (rev ys) p = None" by (simp add: map_of_eq_None_iff)
  with False show ?thesis by (simp add: dict_get_def map_add_def)
qed

lemma dict_get_absent: "p \<notin> fst ` set d \<Longrightarrow> dict_get d p = JNull"
  using map_of_eq_None_iff[of "rev d" p] by (simp add: dict_get_def)

lemma dict_get_skip: "p \<notin> fst ` set xs \<Longrightarrow> dict_get (xs @ ys) p = dict_get ys p"
  by (simp add: dict_get_append dict_get_absent)

lemma dict_get_distinct:
  assumes "distinct (map fst d)"
  shows "dict_get d p = (case map_of d p of None \<Rightarrow> JNull | Some v \<Rightarrow> v)"
proof -
  have "map_of (rev d) = map_of d"
    using assms by (subst map_of_inject_set) (simp_all add: distinct_map)
  then show ?thesis by (simp add: dict_get_def)
qed

lemma dict_get_single [simp]: "dict_get [(k, v)] p = (if p = k then v else JNull)"
  by (simp add: dict_get_def)

lemma agree_append:
  assumes apart: "(fst ` set a1 \<union> fst ` set a2) \<inter> (fst ` set b1 \<union> fst ` set b2) = {}"
  shows "agree (a1 @ b1) (a2 @ b2) \<longleftrightarrow> agree a1 a2 \<and> agree b1 b2"
proof
  assume l: "agree (a1 @ b1) (a2 @ b2)"
  have "py_eq (dict_get a1 p) (dict_get a2 p) \<and> py_eq (dict_get b1 p) (dict_get b2 p)" for p
  proof (cases "p \<in> fst ` set b1 \<union> fst ` set b2")
    case True
    then have "p \<notin> fst ` set a1" "p \<notin> fst ` set a2" using apart by blast+
    moreover have "py_eq (dict_get (a1 @ b1) p) (dict_get (a2 @ b2) p)" using l by (simp add: agree_def)
    ultimately show ?thesis by (simp add: dict_get_skip dict_get_absent)
  next
    case False
    moreover have "py_eq (dict_get (a1 @ b1) p) (dict_get (a2 @ b2) p)" using l by (simp add: agree_def)
    ultimately show ?thesis by (simp add: dict_get_append dict_get_absent)
  qed
  then show "agree a1 a2 \<and> agree b1 b2" by (simp add: agree_def)
next
  assume r: "agree a1 a2 \<and> agree b1 b2"
  show "agree (a1 @ b1) (a2 @ b2)"
    unfolding agree_def
  proof
    fix p
    have a: "py_eq (dict_get a1 p) (dict_get a2 p)" and b: "py_eq (dict_get b1 p) (dict_get b2 p)"
      using r by (simp_all add: agree_def)
    show "py_eq (dict_get (a1 @ b1) p) (dict_get (a2 @ b2) p)"
    proof (cases "p \<in> fst ` set b1 \<union> fst ` set b2")
      case True
      then have "p \<notin> fst ` set a1" "p \<notin> fst ` set a2" using apart by blast+
      with b show ?thesis by (simp add: dict_get_skip)
    next
      case False
      with a show ?thesis by (simp add: dict_get_append)
    qed
  qed
qed

lemma agree_single: "agree [(k, v)] [(k, w)] \<longleftrightarrow> py_eq v w"
  by (auto simp: agree_def)

lemma leaves_append: "leaves prefix (xs @ ys) = leaves prefix xs @ leaves prefix ys"
  by (induction xs) auto

text \<open>A path continues the key it comes from, at a dot.\<close>

definition extends :: "string \<Rightarrow> string \<Rightarrow> bool" where
  "extends k p \<longleftrightarrow> (\<exists>r. p = k @ r \<and> (r = [] \<or> hd r = CHR ''.''))"

lemma extends_refl [simp]: "extends k k"
  by (simp add: extends_def)

lemma extends_dot [simp]: "extends k (k @ CHR ''.'' # r)"
  by (simp add: extends_def)

lemma extends_shorter: "extends (a @ CHR ''.'' # b) p \<Longrightarrow> extends a p"
  unfolding extends_def by (elim exE conjE) simp

lemma leaves_keys: "p \<in> fst ` set (leaves prefix kvs) \<Longrightarrow> \<exists>k \<in> fst ` set kvs. extends (prefix @ k) p"
proof (induction prefix kvs rule: leaves.induct)
  case (1 prefix)
  then show ?case by simp
next
  case (2 prefix key item rest)
  let ?path = "prefix @ key"
  consider (later) "p \<in> fst ` set (leaves prefix rest)"
    | (configuration) "?path = ''configuration''" "extends ''configuration'' p"
    | (attributed) "?path = ''field_provenance''" "extends ''field_provenance'' p"
    | (leaf) "p = ?path"
    | (nested) kvs where "p \<in> fst ` set (leaves (?path @ ''.'') kvs)" "item = JObj kvs"
        "?path \<noteq> ''configuration''" "?path \<noteq> ''field_provenance''" "key \<notin> set WHOLE"
  proof -
    from 2(5) consider (l) "p \<in> fst ` set (leaves prefix rest)"
      | (h) "p \<in> fst ` set (leaves prefix [(key, item)])"
      using leaves_append[of prefix "[(key, item)]" rest] by (fastforce simp del: leaves.simps)
    then show thesis
    proof cases
      case l
      then show thesis by (rule that(1))
    next
      case h
      show thesis
      proof (cases "?path = ''configuration''")
        case True
        let ?settings = "entries (dict_get (entries item) ''values'')"
        let ?extra = "entries (dict_get (entries item) ''extra'')"
        from h True consider "p \<in> fst ` set (leaves ''configuration.'' ?settings)" | "p = ''configuration.unknown''"
          | "p \<in> fst ` set (leaves ''configuration.extra.'' ?extra)"
          by (simp add: Let_def split: if_splits) blast+
        then have "extends ''configuration'' p"
        proof cases
          case 1
          from 2(1)[OF refl True this] obtain k where "extends (''configuration.'' @ k) p" by (elim bexE)
          then show ?thesis using extends_shorter[of "''configuration''" k] by simp
        next
          case 3
          from 2(2)[OF refl True this] obtain k where "extends (''configuration.extra.'' @ k) p" by (elim bexE)
          then show ?thesis using extends_shorter[of "''configuration''" "''extra.'' @ k"] by simp
        qed (simp add: extends_def)
        with True show thesis by (rule that(2))
      next
        case False
        show thesis
        proof (cases "?path = ''field_provenance''")
          case True
          with h False obtain k where "p = ''field_provenance.'' @ k" by (auto simp: Let_def)
          then have "extends ''field_provenance'' p" by (simp add: extends_def)
          with True show thesis by (rule that(3))
        next
          case other: False
          show thesis
          proof (cases "p = ?path")
            case True
            then show thesis by (rule that(4))
          next
            case no: False
            from h False other no obtain kvs where "item = JObj kvs" "key \<notin> set WHOLE"
              "p \<in> fst ` set (leaves (?path @ ''.'') kvs)"
              by (cases item) (simp_all add: Let_def split: if_splits)
            then show thesis using that(5) False other by blast
          qed
        qed
      qed
    qed
  qed
  then show ?case
  proof cases
    case later
    with 2(4) show ?thesis by auto
  next
    case nested
    from 2(3)[OF refl nested(3,4,2,5,1)] obtain k where "extends ((?path @ ''.'') @ k) p" by (elim bexE)
    then have "extends ?path p" using extends_shorter[of ?path k] by simp
    then show ?thesis by simp
  qed auto
qed

section \<open>Documents entry by entry\<close>

definition plain :: "string \<Rightarrow> bool" where
  "plain k \<longleftrightarrow> CHR ''.'' \<notin> set k"

lemma extends_head: "plain k \<Longrightarrow> extends k p \<Longrightarrow> takeWhile (\<lambda>c. c \<noteq> CHR ''.'') p = k"
proof -
  assume k: "plain k" and "extends k p"
  then obtain r where p: "p = k @ r" "r = [] \<or> hd r = CHR ''.''" by (auto simp: extends_def)
  then have "takeWhile (\<lambda>c. c \<noteq> CHR ''.'') r = []" by (cases r) auto
  moreover have "takeWhile (\<lambda>c. c \<noteq> CHR ''.'') (k @ r) = k @ takeWhile (\<lambda>c. c \<noteq> CHR ''.'') r"
    using k by (intro takeWhile_append2) (auto simp: plain_def)
  ultimately show ?thesis by (simp add: p(1))
qed

lemma entry_keys: "p \<in> fst ` set (leaves [] [(k, v)]) \<Longrightarrow> extends k p"
  using leaves_keys[of p "[]" "[(k, v)]"] by simp

lemma agree_documents:
  assumes "map fst d1 = map fst d2" and "distinct (map fst d1)" and "list_all plain (map fst d1)"
  shows "agree (leaves [] d1) (leaves [] d2) \<longleftrightarrow> list_all2 (\<lambda>e1 e2. agree (leaves [] [e1]) (leaves [] [e2])) d1 d2"
  using assms
proof (induction d1 arbitrary: d2)
  case Nil
  then show ?case by (simp add: agree_def)
next
  case (Cons e1 d1)
  then obtain e2 d2' where d2: "d2 = e2 # d2'" by (cases d2) auto
  obtain k v1 v2 where e: "e1 = (k, v1)" "e2 = (k, v2)" using Cons.prems(1) d2 by (cases e1; cases e2) auto
  have eq: "map fst d1 = map fst d2'" and k: "k \<notin> set (map fst d1)" "plain k"
    using Cons.prems d2 e by auto
  have tail: "takeWhile (\<lambda>c. c \<noteq> CHR ''.'') p \<in> set (map fst d1)"
    if "p \<in> fst ` set (leaves [] d1) \<union> fst ` set (leaves [] d2')" for p
  proof -
    have keys: "\<exists>k' \<in> set (map fst d). extends k' p" if "p \<in> fst ` set (leaves [] d)" for d
      using leaves_keys[OF that] by simp
    have "\<exists>k' \<in> set (map fst d1). extends k' p"
      using that keys[of d1] keys[of d2'] unfolding eq by blast
    then obtain k' where k': "k' \<in> set (map fst d1)" "extends k' p" by blast
    moreover have "plain k'" using k'(1) Cons.prems(3) by (auto simp: list_all_iff)
    ultimately show ?thesis using extends_head by simp
  qed
  have head: "takeWhile (\<lambda>c. c \<noteq> CHR ''.'') p = k"
    if "p \<in> fst ` set (leaves [] [e1]) \<union> fst ` set (leaves [] [e2])" for p
    using that entry_keys[of p k v1] entry_keys[of p k v2] extends_head[OF k(2)]
    unfolding e by (auto simp del: leaves.simps)
  have "agree (leaves [] [e1] @ leaves [] d1) (leaves [] [e2] @ leaves [] d2')
    \<longleftrightarrow> agree (leaves [] [e1]) (leaves [] [e2]) \<and> agree (leaves [] d1) (leaves [] d2')"
  proof (rule agree_append, rule equals0I)
    fix p
    assume "p \<in> (fst ` set (leaves [] [e1]) \<union> fst ` set (leaves [] [e2])) \<inter>
      (fst ` set (leaves [] d1) \<union> fst ` set (leaves [] d2'))"
    then have "p \<in> fst ` set (leaves [] [e1]) \<union> fst ` set (leaves [] [e2])"
      and "p \<in> fst ` set (leaves [] d1) \<union> fst ` set (leaves [] d2')" by blast+
    from head[OF this(1)] tail[OF this(2)] k(1) show False by simp
  qed
  moreover have "agree (leaves [] d1) (leaves [] d2') \<longleftrightarrow> list_all2 (\<lambda>e1 e2. agree (leaves [] [e1]) (leaves [] [e2])) d1 d2'"
    using Cons.prems(2,3) eq by (intro Cons.IH) simp_all
  moreover have "leaves [] (e1 # d1) = leaves [] [e1] @ leaves [] d1" "leaves [] (e2 # d2') = leaves [] [e2] @ leaves [] d2'"
    using leaves_append[of "[]" "[e1]" d1] leaves_append[of "[]" "[e2]" d2'] by (simp_all only: append_Cons append_Nil)
  ultimately show ?case by (simp only: d2 list_all2_Cons)
qed

lemma field_changes_Nil:
  "field_changes d1 d2 skip = [] \<longleftrightarrow>
     (\<forall>p. p \<notin> set skip \<longrightarrow> py_eq (dict_get (leaves [] d1) p) (dict_get (leaves [] d2) p))"
proof -
  have "py_eq (dict_get (leaves [] d1) p) (dict_get (leaves [] d2) p)"
    if "p \<notin> fst ` set (leaves [] d1) \<union> fst ` set (leaves [] d2)" for p
    using that by (simp add: dict_get_absent)
  then show ?thesis
    unfolding field_changes_def by (auto simp: Let_def filter_empty_conv)
qed

lemma field_changes_none: "field_changes d1 d2 [] = [] \<longleftrightarrow> agree (leaves [] d1) (leaves [] d2)"
  by (simp add: field_changes_Nil agree_def)

text \<open>The key of an element is the same in both documents, so leaving it out changes nothing.\<close>

lemma field_changes_id:
  assumes "leaves [] [(k, JText i)] = [(k, JText i)]" and "plain k"
    and "k \<notin> set (map fst d1)" "k \<notin> set (map fst d2)" and "list_all plain (map fst d1)" "list_all plain (map fst d2)"
  shows "field_changes ((k, JText i) # d1) ((k, JText i) # d2) [k] = [] \<longleftrightarrow>
    agree (leaves [] ((k, JText i) # d1)) (leaves [] ((k, JText i) # d2))"
proof -
  have absent: "k \<notin> fst ` set (leaves [] d)" if "k \<notin> set (map fst d)" "list_all plain (map fst d)" for d
  proof
    assume "k \<in> fst ` set (leaves [] d)"
    then obtain k' where k': "k' \<in> fst ` set d" "extends k' k" using leaves_keys[of k "[]" d] by auto
    moreover have "plain k'" using k'(1) that(2) by (auto simp: list_all_iff)
    ultimately have "takeWhile (\<lambda>c. c \<noteq> CHR ''.'') k = k'" using extends_head by blast
    moreover have "takeWhile (\<lambda>c. c \<noteq> CHR ''.'') k = k" using assms(2) extends_head[of k k] by simp
    ultimately show False using k'(1) that(1) by simp
  qed
  have "dict_get (leaves [] ((k, JText i) # d)) k = JText i"
    if "k \<notin> set (map fst d)" "list_all plain (map fst d)" for d
  proof -
    have "leaves [] ((k, JText i) # d) = [(k, JText i)] @ leaves [] d"
      using leaves_append[of "[]" "[(k, JText i)]" d] by (simp only: append_Cons append_Nil assms(1))
    then show ?thesis using absent[OF that] by (simp only: dict_get_append if_False dict_get_single refl if_True)
  qed
  then have "py_eq (dict_get (leaves [] ((k, JText i) # d1)) k) (dict_get (leaves [] ((k, JText i) # d2)) k)"
    using assms(3-6) by (simp del: leaves.simps)
  then show ?thesis
    unfolding field_changes_Nil agree_def by (metis list.set_intros(1) set_ConsD empty_iff empty_set)
qed

section \<open>Entries\<close>

lemma py_eq_JNull [simp]: "py_eq v JNull \<longleftrightarrow> v = JNull"
  by (cases v) auto

lemma leaf_entry:
  assumes "k \<notin> {''configuration'', ''field_provenance''}" and "k \<in> set WHOLE \<or> (\<forall>kvs. v \<noteq> JObj kvs)"
  shows "leaves [] [(k, v)] = [(k, v)]"
  using assms by (cases v) (simp_all add: Let_def)

lemma leaves_flat:
  assumes "\<And>k. prefix @ k \<notin> {''configuration'', ''field_provenance''}"
    and "\<forall>(k, v) \<in> set kvs. \<forall>o'. v \<noteq> JObj o'"
  shows "leaves prefix kvs = map (\<lambda>(k, v). (prefix @ k, v)) kvs"
  using assms(2)
proof (induction kvs)
  case (Cons kv kvs)
  obtain k v where kv: "kv = (k, v)" by fastforce
  with Cons assms(1)[of k] show ?case by (cases v) (simp_all add: Let_def)
qed simp

lemma dict_get_prefixed: "dict_get (map (\<lambda>(k, v). (prefix @ k, v)) d) (prefix @ k) = dict_get d k"
proof -
  have "map_of (map (\<lambda>(k, v). (prefix @ k, v)) d) (prefix @ k) = map_of d k" for d :: "(string \<times> json) list"
    by (induction d) auto
  then show ?thesis by (simp add: dict_get_def rev_map)
qed

lemma agree_prefixed:
  "agree (map (\<lambda>(k, v). (prefix @ k, v)) d1) (map (\<lambda>(k, v). (prefix @ k, v)) d2) \<longleftrightarrow> agree d1 d2"
proof
  assume l: "agree (map (\<lambda>(k, v). (prefix @ k, v)) d1) (map (\<lambda>(k, v). (prefix @ k, v)) d2)"
  then show "agree d1 d2"
    unfolding agree_def using dict_get_prefixed by metis
next
  assume r: "agree d1 d2"
  show "agree (map (\<lambda>(k, v). (prefix @ k, v)) d1) (map (\<lambda>(k, v). (prefix @ k, v)) d2)"
    unfolding agree_def
  proof
    fix p
    show "py_eq (dict_get (map (\<lambda>(k, v). (prefix @ k, v)) d1) p) (dict_get (map (\<lambda>(k, v). (prefix @ k, v)) d2) p)"
    proof (cases "\<exists>k. p = prefix @ k")
      case True
      with r show ?thesis by (auto simp: dict_get_prefixed agree_def)
    next
      case False
      have "dict_get (map (\<lambda>(k, v). (prefix @ k, v)) d) p = JNull" for d :: "(string \<times> json) list"
        using False by (intro dict_get_absent) auto
      then show ?thesis by simp
    qed
  qed
qed

lemma agree_dicts:
  assumes "sorted (map fst d1)" "distinct (map fst d1)" "sorted (map fst d2)" "distinct (map fst d2)"
    and some: "\<forall>(k, v) \<in> set d1. v \<noteq> JNull" "\<forall>(k, v) \<in> set d2. v \<noteq> JNull"
    and same: "\<And>k v w. (k, v) \<in> set d1 \<Longrightarrow> (k, w) \<in> set d2 \<Longrightarrow> py_eq v w \<longleftrightarrow> v = w"
  shows "agree d1 d2 \<longleftrightarrow> d1 = d2"
proof
  assume a: "agree d1 d2"
  have "map_of d1 k = map_of d2 k" for k
  proof -
    have "py_eq (dict_get d1 k) (dict_get d2 k)" using a by (simp add: agree_def)
    moreover have "map_of d1 k \<noteq> Some JNull" "map_of d2 k \<noteq> Some JNull" using some by (auto dest: map_of_SomeD)
    moreover have "py_eq v w \<longleftrightarrow> v = w" if "map_of d1 k = Some v" "map_of d2 k = Some w" for v w
      using that by (intro same) (auto dest: map_of_SomeD)
    ultimately show ?thesis
      by (cases "map_of d1 k"; cases "map_of d2 k") (simp_all add: dict_get_distinct[OF assms(2)] dict_get_distinct[OF assms(4)])
  qed
  then have "set d1 = set d2" using assms(2,4) map_of_inject_set by blast
  then show "d1 = d2"
    using assms(1-4) by (intro map_sorted_distinct_set_unique[of fst]) (simp_all add: distinct_map)
next
  assume "d1 = d2"
  then show "agree d1 d2"
    using same assms(4) map_of_SomeD[of d2] by (auto simp: agree_def dict_get_distinct split: option.splits)
qed

lemma py_eq_text [simp]: "py_eq (text_json a) (text_json b) \<longleftrightarrow> text_json a = text_json b"
  by (auto simp: text_json_def split: option.splits)

lemma list_all2_py_eq:
  "(\<And>x y. py_eq (f x) (f y) \<longleftrightarrow> f x = f y) \<Longrightarrow> list_all2 py_eq (map f xs) (map f ys) \<longleftrightarrow> map f xs = map f ys"
  by (simp add: list_all2_eq[of "map f xs"] list.rel_map)

lemma py_eq_texts [simp]: "py_eq (texts_json a) (texts_json b) \<longleftrightarrow> texts_json a = texts_json b"
  using list_all2_py_eq[of JText a b] by (auto simp: texts_json_def)

lemma py_eq_refs [simp]: "py_eq (refs_dict a) (refs_dict b) \<longleftrightarrow> refs_dict a = refs_dict b"
proof -
  let ?f = "\<lambda>r. JObj [(''requirement_id'', JText (uuid_str (rr_requirement_id r))),
      (''version'', case rr_version r of None \<Rightarrow> JNull | Some v \<Rightarrow> JInt v)]"
  have "py_eq (?f x) (?f y) \<longleftrightarrow> ?f x = ?f y" for x y by (auto split: option.splits)
  from list_all2_py_eq[of ?f, OF this] show ?thesis by (simp add: refs_dict_def)
qed

lemma py_eq_provenance [simp]: "py_eq (provenance_dict p) (provenance_dict q) \<longleftrightarrow> provenance_dict p = provenance_dict q"
proof (cases p; cases q)
  fix x y
  assume "p = Some x" "q = Some y"
  moreover have "py_eq (JBool a) (JBool b) \<longleftrightarrow> a = b" for a b by simp
  ultimately show ?thesis
    by (simp add: provenance_dict_def) (simp only: eq_commute conj_ac)
qed (simp_all add: provenance_dict_def)

lemma sorted_frozen: "frozen kvs = kvs \<Longrightarrow> sorted (map fst kvs)"
  unfolding frozen_def by (metis sorted_sort_key)

lemma prefixed_special:
  "(''metadata.'' @ k) \<notin> {''configuration'', ''field_provenance''}"
  "(''configuration.'' @ k) \<notin> {''configuration'', ''field_provenance''}"
  "(''technology.'' @ k) \<notin> {''configuration'', ''field_provenance''}"
  by simp_all

lemma agree_metadata:
  assumes "frozen m1 = m1" "distinct (map fst m1)" "frozen m2 = m2" "distinct (map fst m2)"
  shows "agree (leaves [] [(''metadata'', metadata_dict m1)]) (leaves [] [(''metadata'', metadata_dict m2)])
    \<longleftrightarrow> metadata_dict m1 = metadata_dict m2"
proof -
  let ?d = "\<lambda>m. map (\<lambda>(k, v). (k, JText v)) m"
  have "leaves [] [(''metadata'', metadata_dict m)] = leaves ''metadata.'' (?d m)" for m
    by (simp add: metadata_dict_def Let_def WHOLE_def)
  moreover have "leaves ''metadata.'' (?d m) = map (\<lambda>(k, v). (''metadata.'' @ k, v)) (?d m)" for m
    by (rule leaves_flat) (use prefixed_special(1) in auto)
  moreover have "agree (?d m1) (?d m2) \<longleftrightarrow> ?d m1 = ?d m2"
    using assms sorted_frozen by (intro agree_dicts) (auto simp: comp_def case_prod_beta)
  ultimately show ?thesis by (simp only: agree_prefixed) (simp add: metadata_dict_def)
qed

lemma agree_field_provenance:
  assumes "frozen f1 = f1" "distinct (map fst f1)" "frozen f2 = f2" "distinct (map fst f2)"
  shows "agree (leaves [] [(''field_provenance'', JObj (map (\<lambda>(k, p). (k, provenance_dict (Some p))) f1))])
      (leaves [] [(''field_provenance'', JObj (map (\<lambda>(k, p). (k, provenance_dict (Some p))) f2))])
    \<longleftrightarrow> map (\<lambda>(k, p). (k, provenance_dict (Some p))) f1 = map (\<lambda>(k, p). (k, provenance_dict (Some p))) f2"
proof -
  let ?d = "\<lambda>f. map (\<lambda>(k, p). (k, provenance_dict (Some p))) f"
  have leaves: "leaves [] [(''field_provenance'', JObj (?d f))] = map (\<lambda>(k, v). (''field_provenance.'' @ k, v)) (?d f)" for f
    by (simp add: entries_def Let_def)
  have "provenance_dict (Some p) \<noteq> JNull" for p by (simp add: provenance_dict_def)
  then have "agree (?d f1) (?d f2) \<longleftrightarrow> ?d f1 = ?d f2"
    using assms sorted_frozen by (intro agree_dicts) (auto simp: comp_def case_prod_beta)
  then show ?thesis unfolding leaves agree_prefixed .
qed

lemma agree_technology:
  "agree (leaves [] [(''technology'', technology_dict t1)]) (leaves [] [(''technology'', technology_dict t2)])
    \<longleftrightarrow> technology_dict t1 = technology_dict t2"
proof -
  have some: "leaves [] [(''technology'', technology_dict (Some t))] =
    [(''technology.name'', JText (tech_name t)), (''technology.version'', text_json (tech_version t))]" for t
    by (simp add: technology_dict_def WHOLE_def Let_def text_json_def split: option.split)
  have none: "leaves [] [(''technology'', technology_dict None)] = [(''technology'', JNull)]"
    by (simp add: technology_dict_def Let_def)
  have apart: "agree [(''technology.name'', v), (''technology.version'', v')] [(''technology.name'', w), (''technology.version'', w')]
    \<longleftrightarrow> py_eq v w \<and> py_eq v' w'" for v v' w w'
    using agree_append[of "[(''technology.name'', v)]" "[(''technology.name'', w)]" "[(''technology.version'', v')]" "[(''technology.version'', w')]"]
    by (simp add: agree_single)
  have "\<not> agree [(''technology'', JNull)] [(''technology.name'', JText x), (''technology.version'', v)]"
    and "\<not> agree [(''technology.name'', JText x), (''technology.version'', v)] [(''technology'', JNull)]" for x v
    unfolding agree_def not_all by (rule exI[of _ "''technology.name''"], simp add: dict_get_def)+
  with some none apart show ?thesis
    by (cases t1; cases t2) (auto simp del: leaves.simps simp: agree_single, auto simp: technology_dict_def)
qed

section \<open>Configurations\<close>

definition bare :: "configuration \<Rightarrow> configuration" where
  "bare c = c\<lparr>cf_extra := []\<rparr>"

definition known_specs :: "property_spec list \<Rightarrow> bool" where
  "known_specs specs \<longleftrightarrow>
     list_all (\<lambda>s. plain (p_name s) \<and> p_name s \<notin> set [''unknown'', ''extra'']) specs"

lemma known_node_specs: "known_specs NODE_PROPERTIES"
  by code_simp

lemma known_connection_specs: "known_specs CONNECTION_PROPERTIES"
  by code_simp

lemma spec_bool: "spec_problems s v path = [] \<Longrightarrow> (\<exists>b. v = CBool b) \<longleftrightarrow> p_type s = BOOLEAN"
  by (cases v; cases "p_type s")
    (simp_all add: spec_problems_def spec_number_problems_def spec_list_problems_def split: if_splits)

lemma problems_for_value:
  assumes "problems_for c specs owner = []" and "(k, v) \<in> set (cf_values c)" and "distinct (map fst (cf_values c))"
  obtains s where "find_spec specs k = Some s" "spec_problems s v k = []"
proof -
  have "k \<in> set (sorted_set (map fst (cf_values c) @ cf_unknown c))" using assms(2) by force
  then have "(case find_spec specs k of
         None \<Rightarrow> [Violation ''unknown_property''
                    (k @ '' is not a known property; unrecognized settings belong in extra.'') (Some k)]
       | Some s \<Rightarrow>
           if owner \<notin> set (p_applies_to s)
           then [Violation ''not_applicable'' (k @ '' does not apply to a '' @ owner @ ''.'') (Some k)]
           else case cf_get c k of None \<Rightarrow> [] | Some v \<Rightarrow> spec_problems s v k) = []"
    using assms(1) unfolding problems_for_def by (simp del: set_sorted_set)
  moreover have "cf_get c k = Some v" using assms(2,3) by (simp add: cf_get_def)
  ultimately show thesis by (auto split: option.splits if_splits intro: that)
qed

lemma known_value_key:
  assumes "known_specs specs" and "find_spec specs k = Some s"
  shows "plain k" "k \<noteq> ''unknown''" "k \<noteq> ''extra''"
  using assms find_Some_mem[of "\<lambda>s. p_name s = k" specs s]
  by (auto simp: known_specs_def find_spec_def list_all_iff)

lemma value_json_plain: "value_json v \<noteq> JNull" "value_json v \<noteq> JObj kvs"
  by (cases v; simp add: texts_json_def)+

lemma py_eq_value:
  assumes "(\<exists>b. v = CBool b) \<longleftrightarrow> (\<exists>b. w = CBool b)"
  shows "py_eq (value_json v) (value_json w) \<longleftrightarrow> value_json v = value_json w"
proof (cases "\<exists>b. v = CBool b")
  case True
  with assms show ?thesis by auto
next
  case False
  with assms have "\<nexists>b. w = CBool b" by simp
  with False show ?thesis by (cases v; cases w) (simp_all, simp_all add: texts_json_def eq_commute)
qed

text \<open>The part of a path after \<open>configuration.\<close> tells which part of the configuration it comes from.\<close>

definition part_of :: "string \<Rightarrow> string" where
  "part_of p = takeWhile (\<lambda>c. c \<noteq> CHR ''.'') (drop 14 p)"

lemma part_of_value: "plain k \<Longrightarrow> part_of (''configuration.'' @ k) = k"
  by (auto simp: part_of_def plain_def takeWhile_eq_all_conv)

lemma part_of_extra: "extends (''configuration.extra.'' @ k) p \<Longrightarrow> part_of p = ''extra''"
  by (auto simp: part_of_def extends_def)

lemma agree_configuration:
  assumes specs: "known_specs specs" and p: "problems_for c1 specs o1 = []" "problems_for c2 specs o2 = []"
    and b: "config_built c1" "config_built c2"
  shows "agree (leaves [] [(''configuration'', configuration_dict c1)]) (leaves [] [(''configuration'', configuration_dict c2)])
    \<longleftrightarrow> configuration_dict (bare c1) = configuration_dict (bare c2) \<and>
       agree (leaves ''configuration.extra.'' (cf_extra c1)) (leaves ''configuration.extra.'' (cf_extra c2))"
proof -
  let ?d = "\<lambda>c. map (\<lambda>(k, v). (k, value_json v)) (cf_values c)"
  let ?v = "\<lambda>c. map (\<lambda>(k, v). (''configuration.'' @ k, v)) (?d c)"
  let ?u = "\<lambda>c. if sort (cf_unknown c) = [] then [] else [(''configuration.unknown'', texts_json (sort (cf_unknown c)))]"
  let ?e = "\<lambda>c. leaves ''configuration.extra.'' (cf_extra c)"
  note vals = problems_for_value[OF p(1) _ config_builtD(5)[OF b(1)]] problems_for_value[OF p(2) _ config_builtD(5)[OF b(2)]]
  have flat: "leaves ''configuration.'' (?d c) = ?v c" for c
    by (rule leaves_flat) (use prefixed_special(2) value_json_plain(2) in auto)
  have "leaves [] [(''configuration'', configuration_dict c)] = ?v c @ (?u c @ ?e c)" for c
    by (simp add: configuration_dict_def entries_def dict_get_def flat texts_json_def)
  moreover have "agree (?v c1 @ (?u c1 @ ?e c1)) (?v c2 @ (?u c2 @ ?e c2)) \<longleftrightarrow> agree (?v c1) (?v c2) \<and> agree (?u c1 @ ?e c1) (?u c2 @ ?e c2)"
  proof (rule agree_append, rule equals0I)
    fix q
    assume q: "q \<in> (fst ` set (?v c1) \<union> fst ` set (?v c2)) \<inter> (fst ` set (?u c1 @ ?e c1) \<union> fst ` set (?u c2 @ ?e c2))"
    have "fst ` set (?v c) = (@) ''configuration.'' ` fst ` set (cf_values c)" for c
      by (simp add: image_image case_prod_beta)
    then have "q \<in> (@) ''configuration.'' ` (fst ` set (cf_values c1) \<union> fst ` set (cf_values c2))"
      using q unfolding image_Un by blast
    then obtain k where k: "q = ''configuration.'' @ k" "k \<in> fst ` set (cf_values c1) \<union> fst ` set (cf_values c2)" ..
    have found: "\<exists>s. find_spec specs k = Some s"
      if "k \<in> fst ` set (cf_values c)" "problems_for c specs w = []" "config_built c" for c w
    proof -
      from that(1) obtain v where "(k, v) \<in> set (cf_values c)" by auto
      from problems_for_value[OF that(2) this config_builtD(5)[OF that(3)]] show ?thesis by blast
    qed
    from k(2) obtain s where "find_spec specs k = Some s" using found p b by blast
    note known = known_value_key[OF specs this]
    have "part_of q \<in> {''unknown'', ''extra''}"
    proof (cases "q = ''configuration.unknown''")
      case True
      then show ?thesis by (simp add: part_of_def)
    next
      case False
      then have "q \<in> fst ` set (?e c1) \<union> fst ` set (?e c2)" using q by (auto split: if_splits)
      then obtain k' where "extends (''configuration.extra.'' @ k') q"
        using leaves_keys[of q "''configuration.extra.''" "cf_extra c1"] leaves_keys[of q "''configuration.extra.''" "cf_extra c2"] by blast
      then show ?thesis using part_of_extra by blast
    qed
    moreover have "part_of q = k" unfolding k(1) by (rule part_of_value[OF known(1)])
    ultimately show False using known(2,3) by blast
  qed
  moreover have "agree (?u c1 @ ?e c1) (?u c2 @ ?e c2) \<longleftrightarrow> agree (?u c1) (?u c2) \<and> agree (?e c1) (?e c2)"
  proof (rule agree_append, rule equals0I)
    fix q
    assume q: "q \<in> (fst ` set (?u c1) \<union> fst ` set (?u c2)) \<inter> (fst ` set (?e c1) \<union> fst ` set (?e c2))"
    then have "q = ''configuration.unknown''" by (auto split: if_splits)
    moreover have "part_of q = ''extra''"
      using q leaves_keys[of q "''configuration.extra.''" "cf_extra c1"] leaves_keys[of q "''configuration.extra.''" "cf_extra c2"] part_of_extra by blast
    ultimately show False by (simp add: part_of_def)
  qed
  moreover have "agree (?v c1) (?v c2) \<longleftrightarrow> ?d c1 = ?d c2"
    unfolding agree_prefixed
  proof (rule agree_dicts)
    fix k v w
    assume "(k, v) \<in> set (?d c1)" "(k, w) \<in> set (?d c2)"
    then obtain x y where xy: "v = value_json x" "(k, x) \<in> set (cf_values c1)" "w = value_json y" "(k, y) \<in> set (cf_values c2)" by auto
    obtain s where s: "find_spec specs k = Some s" "spec_problems s x k = []" by (rule vals(1)[OF xy(2)])
    obtain s' where s': "find_spec specs k = Some s'" "spec_problems s' y k = []" by (rule vals(2)[OF xy(4)])
    show "py_eq v w \<longleftrightarrow> v = w"
      unfolding xy(1,3) using spec_bool[OF s(2)] spec_bool[OF s'(2)] s(1) s'(1) by (intro py_eq_value) simp
  next
    have sorted: "sorted (map fst (cf_values c))" if "config_built c" for c
    proof -
      have "sorted (map fst (frozen (map (\<lambda>(k, v). (k, canonical_value v)) (cf_values c))))"
        by (simp add: frozen_def)
      then show ?thesis using config_builtD(1)[OF that] by simp
    qed
    show "sorted (map fst (?d c1))" "sorted (map fst (?d c2))"
      using sorted b by (simp_all add: comp_def case_prod_beta)
    show "distinct (map fst (?d c1))" "distinct (map fst (?d c2))"
      using config_builtD(5) b by (simp_all add: comp_def case_prod_beta)
    show "\<forall>(k, v) \<in> set (?d c1). v \<noteq> JNull" "\<forall>(k, v) \<in> set (?d c2). v \<noteq> JNull"
      using value_json_plain(1) by auto
  qed
  moreover have "agree (?u c1) (?u c2) \<longleftrightarrow> texts_json (sort (cf_unknown c1)) = texts_json (sort (cf_unknown c2))"
  proof (cases "sort (cf_unknown c1) = [] \<or> sort (cf_unknown c2) = []")
    case True
    then show ?thesis by (auto simp: agree_def texts_json_def)
  next
    case False
    then show ?thesis by (simp add: agree_single)
  qed
  ultimately show ?thesis by (simp add: configuration_dict_def bare_def)
qed

section \<open>Elements\<close>

lemma agree_leaf:
  assumes "k \<notin> {''configuration'', ''field_provenance''}"
    and "k \<in> set WHOLE \<or> (\<forall>kvs. v \<noteq> JObj kvs) \<and> (\<forall>kvs. w \<noteq> JObj kvs)"
  shows "agree (leaves [] [(k, v)]) (leaves [] [(k, w)]) \<longleftrightarrow> py_eq v w"
proof -
  have "leaves [] [(k, v)] = [(k, v)]" "leaves [] [(k, w)] = [(k, w)]"
    using assms by (blast intro: leaf_entry)+
  then show ?thesis by (simp only: agree_single)
qed

lemma agree_plain_entries:
  assumes "k \<notin> {''configuration'', ''field_provenance''}"
  shows "agree (leaves [] [(k, JText s)]) (leaves [] [(k, JText t)]) \<longleftrightarrow> s = t"
    and "agree (leaves [] [(k, text_json a)]) (leaves [] [(k, text_json b)]) \<longleftrightarrow> text_json a = text_json b"
    and "agree (leaves [] [(k, texts_json as)]) (leaves [] [(k, texts_json bs)]) \<longleftrightarrow> texts_json as = texts_json bs"
    and "agree (leaves [] [(k, refs_dict rs)]) (leaves [] [(k, refs_dict qs)]) \<longleftrightarrow> refs_dict rs = refs_dict qs"
    and "agree (leaves [] [(k, JBool x)]) (leaves [] [(k, JBool y)]) \<longleftrightarrow> x = y"
proof -
  have "text_json s \<noteq> JObj kvs" for s kvs by (simp add: text_json_def split: option.split)
  moreover have "texts_json s \<noteq> JObj kvs" for s kvs by (simp add: texts_json_def)
  moreover have "refs_dict s \<noteq> JObj kvs" for s kvs by (simp add: refs_dict_def)
  ultimately show "agree (leaves [] [(k, JText s)]) (leaves [] [(k, JText t)]) \<longleftrightarrow> s = t"
    and "agree (leaves [] [(k, text_json a)]) (leaves [] [(k, text_json b)]) \<longleftrightarrow> text_json a = text_json b"
    and "agree (leaves [] [(k, texts_json as)]) (leaves [] [(k, texts_json bs)]) \<longleftrightarrow> texts_json as = texts_json bs"
    and "agree (leaves [] [(k, refs_dict rs)]) (leaves [] [(k, refs_dict qs)]) \<longleftrightarrow> refs_dict rs = refs_dict qs"
    and "agree (leaves [] [(k, JBool x)]) (leaves [] [(k, JBool y)]) \<longleftrightarrow> x = y"
    using assms by (simp_all add: agree_leaf del: leaves.simps) auto
qed

lemma agree_provenance_entry:
  "agree (leaves [] [(''provenance'', provenance_dict p)]) (leaves [] [(''provenance'', provenance_dict q)])
    \<longleftrightarrow> provenance_dict p = provenance_dict q"
  using agree_leaf[of "''provenance''" "provenance_dict p" "provenance_dict q"] by (simp add: WHOLE_def del: leaves.simps)

definition bare_node :: "node \<Rightarrow> node" where
  "bare_node n = n\<lparr>n_configuration := bare (n_configuration n)\<rparr>"

definition bare_connection :: "connection \<Rightarrow> connection" where
  "bare_connection c = c\<lparr>c_configuration := bare (c_configuration c)\<rparr>"

definition same_extra :: "configuration \<Rightarrow> configuration \<Rightarrow> bool" where
  "same_extra c1 c2 \<longleftrightarrow>
     agree (leaves ''configuration.extra.'' (cf_extra c1)) (leaves ''configuration.extra.'' (cf_extra c2))"

lemma node_problems_for:
  "node_problems n = [] \<Longrightarrow> problems_for (n_configuration n) NODE_PROPERTIES (kind_value (n_kind n)) = []"
  by (simp add: node_problems_def)

lemma connection_problems_for:
  "connection_problems c = [] \<Longrightarrow> problems_for (c_configuration c) CONNECTION_PROPERTIES CONNECTION_OWNER = []"
  by (simp add: connection_problems_def)

lemma agree_annotations:
  assumes "known_specs specs" "problems_for c1 specs o1 = []" "problems_for c2 specs o2 = []" "config_built c1" "config_built c2"
    and "frozen m1 = m1" "distinct (map fst m1)" "frozen m2 = m2" "distinct (map fst m2)"
    and "frozen f1 = f1" "distinct (map fst f1)" "frozen f2 = f2" "distinct (map fst f2)"
  shows "list_all2 (\<lambda>e1 e2. agree (leaves [] [e1]) (leaves [] [e2]))
      (annotations_dict c1 r1 m1 p1 f1) (annotations_dict c2 r2 m2 p2 f2)
    \<longleftrightarrow> annotations_dict (bare c1) r1 m1 p1 f1 = annotations_dict (bare c2) r2 m2 p2 f2 \<and> same_extra c1 c2"
  using agree_configuration[OF assms(1-5)] agree_metadata[OF assms(6-9)] agree_field_provenance[OF assms(10-13)]
  by (auto simp: annotations_dict_def same_extra_def agree_plain_entries agree_provenance_entry simp del: leaves.simps)

lemma agree_node:
  assumes "node_built n" "node_built m" and "distinct (map fst (n_metadata n))" "distinct (map fst (n_metadata m))"
  shows "agree (leaves [] (node_dict n)) (leaves [] (node_dict m)) \<longleftrightarrow>
    node_dict (bare_node n) = node_dict (bare_node m) \<and> same_extra (n_configuration n) (n_configuration m)"
proof -
  have b: "normalize_node n = n" "node_problems n = []" "normalize_node m = m" "node_problems m = []"
    using assms(1,2) by (simp_all add: node_built_def node.built_iff)
  have frozen: "frozen (n_metadata x) = n_metadata x" "frozen (n_field_provenance x) = n_field_provenance x"
    if "normalize_node x = x" for x
    using arg_cong[OF that, of n_metadata] arg_cong[OF that, of n_field_provenance] by (simp_all add: normalize_node_def)
  let ?a = "\<lambda>x. annotations_dict (n_configuration x) (n_requirement_refs x) (n_metadata x) (n_provenance x) (n_field_provenance x)"
  have "agree (leaves [] (node_dict n)) (leaves [] (node_dict m)) \<longleftrightarrow>
      list_all2 (\<lambda>e1 e2. agree (leaves [] [e1]) (leaves [] [e2])) (node_dict n) (node_dict m)"
    by (rule agree_documents) (simp_all add: node_dict_def annotations_dict_def plain_def)
  also have "\<dots> \<longleftrightarrow> node_dict (bare_node n) = node_dict (bare_node m) \<and> same_extra (n_configuration n) (n_configuration m)"
    using agree_annotations[OF known_node_specs node_problems_for[OF b(2)] node_problems_for[OF b(4)], of
        "n_metadata n" "n_metadata m" "n_field_provenance n" "n_field_provenance m" "n_requirement_refs n" "n_provenance n"
        "n_requirement_refs m" "n_provenance m"]
      assms frozen[OF b(1)] frozen[OF b(3)]
    by (auto simp: node_dict_def bare_node_def node_built_def agree_plain_entries agree_technology simp del: leaves.simps)
  finally show ?thesis .
qed

lemma agree_critical:
  "agree (leaves [] [(''critical'', case x of None \<Rightarrow> JNull | Some b \<Rightarrow> JBool b)])
     (leaves [] [(''critical'', case y of None \<Rightarrow> JNull | Some b \<Rightarrow> JBool b)])
    \<longleftrightarrow> (case x of None \<Rightarrow> JNull | Some b \<Rightarrow> JBool b) = (case y of None \<Rightarrow> JNull | Some b \<Rightarrow> JBool b)"
  by (subst agree_leaf) (auto split: option.splits)

lemma agree_connection:
  assumes "connection_built c" "connection_built d" and "distinct (map fst (c_metadata c))" "distinct (map fst (c_metadata d))"
  shows "agree (leaves [] (connection_dict c)) (leaves [] (connection_dict d)) \<longleftrightarrow>
    connection_dict (bare_connection c) = connection_dict (bare_connection d) \<and>
    same_extra (c_configuration c) (c_configuration d)"
proof -
  have b: "normalize_connection c = c" "connection_problems c = []" "normalize_connection d = d" "connection_problems d = []"
    using assms(1,2) by (simp_all add: connection_built_def connection.built_iff)
  have frozen: "frozen (c_metadata x) = c_metadata x" "frozen (c_field_provenance x) = c_field_provenance x"
    if "normalize_connection x = x" for x
    using arg_cong[OF that, of c_metadata] arg_cong[OF that, of c_field_provenance] by (simp_all add: normalize_connection_def)
  have "agree (leaves [] (connection_dict c)) (leaves [] (connection_dict d)) \<longleftrightarrow>
      list_all2 (\<lambda>e1 e2. agree (leaves [] [e1]) (leaves [] [e2])) (connection_dict c) (connection_dict d)"
    by (rule agree_documents) (simp_all add: connection_dict_def annotations_dict_def plain_def)
  also have "\<dots> \<longleftrightarrow> connection_dict (bare_connection c) = connection_dict (bare_connection d) \<and>
      same_extra (c_configuration c) (c_configuration d)"
    using agree_annotations[OF known_connection_specs connection_problems_for[OF b(2)] connection_problems_for[OF b(4)], of
        "c_metadata c" "c_metadata d" "c_field_provenance c" "c_field_provenance d" "c_requirement_refs c" "c_provenance c"
        "c_requirement_refs d" "c_provenance d"]
      assms frozen[OF b(1)] frozen[OF b(3)]
    by (auto simp: connection_dict_def bare_connection_def connection_built_def agree_plain_entries agree_critical
        simp del: leaves.simps)
  finally show ?thesis .
qed

lemma agree_assumption:
  "agree (leaves [] (assumption_dict s)) (leaves [] (assumption_dict t)) \<longleftrightarrow> assumption_dict s = assumption_dict t"
proof -
  have "agree (leaves [] (assumption_dict s)) (leaves [] (assumption_dict t)) \<longleftrightarrow>
      list_all2 (\<lambda>e1 e2. agree (leaves [] [e1]) (leaves [] [e2])) (assumption_dict s) (assumption_dict t)"
    by (rule agree_documents) (simp_all add: assumption_dict_def plain_def)
  then show ?thesis
    by (simp add: assumption_dict_def agree_plain_entries agree_provenance_entry del: leaves.simps)
qed

lemma agree_decision:
  "agree (leaves [] (decision_dict s)) (leaves [] (decision_dict t)) \<longleftrightarrow> decision_dict s = decision_dict t"
proof -
  have "agree (leaves [] (decision_dict s)) (leaves [] (decision_dict t)) \<longleftrightarrow>
      list_all2 (\<lambda>e1 e2. agree (leaves [] [e1]) (leaves [] [e2])) (decision_dict s) (decision_dict t)"
    by (rule agree_documents) (simp_all add: decision_dict_def plain_def)
  then show ?thesis by (simp add: decision_dict_def agree_plain_entries del: leaves.simps)
qed

lemma agree_own:
  assumes "frozen (ir_metadata a) = ir_metadata a" "distinct (map fst (ir_metadata a))"
    "frozen (ir_metadata b) = ir_metadata b" "distinct (map fst (ir_metadata b))"
  shows "agree (leaves [] (own_dict a)) (leaves [] (own_dict b)) \<longleftrightarrow> own_dict a = own_dict b"
proof -
  have "agree (leaves [] (own_dict a)) (leaves [] (own_dict b)) \<longleftrightarrow>
      list_all2 (\<lambda>e1 e2. agree (leaves [] [e1]) (leaves [] [e2])) (own_dict a) (own_dict b)"
    by (rule agree_documents) (simp_all add: own_dict_def plain_def)
  then show ?thesis
    using agree_metadata[OF assms]
    by (simp add: own_dict_def agree_plain_entries agree_provenance_entry del: leaves.simps)
qed

section \<open>Collections\<close>

text \<open>Which ids a list of changes reports, by kind.\<close>

definition changed :: "change_kind \<Rightarrow> element_change list \<Rightarrow> string set" where
  "changed kind cs = el_element_id ` {c \<in> set cs. el_change c = kind}"

lemma changed_simps [simp]:
  "changed kind (xs @ ys) = changed kind xs \<union> changed kind ys"
  "changed kind [] = {}"
  "changed kind (c # cs) = (if el_change c = kind then {el_element_id c} else {}) \<union> changed kind cs"
  by (auto simp: changed_def)

lemma no_changes: "cs = [] \<longleftrightarrow> changed ADDED cs = {} \<and> changed REMOVED cs = {} \<and> changed MODIFIED cs = {}"
proof -
  have "cs = []" if "changed ADDED cs = {}" "changed REMOVED cs = {}" "changed MODIFIED cs = {}"
  proof (rule ccontr)
    assume "cs \<noteq> []"
    then have "hd cs \<in> set cs" by simp
    with that show False by (cases "el_change (hd cs)") (auto simp: changed_def)
  qed
  then show ?thesis by auto
qed

lemma changed_concat: "changed kind (concat (map g is)) = (\<Union>i \<in> set is. changed kind (g i))"
  by (auto simp: changed_def)

lemma changed_change_of:
  "changed ADDED (change_of_element element key label i was now) = (if was = None \<and> now \<noteq> None then {i} else {})"
  "changed REMOVED (change_of_element element key label i was now) = (if was \<noteq> None \<and> now = None then {i} else {})"
  "changed MODIFIED (change_of_element element key label i was now) =
     (if was \<noteq> None \<and> now \<noteq> None \<and> field_changes (the was) (the now) [key] \<noteq> [] then {i} else {})"
  by (cases was; cases now; simp add: change_of_element_def Let_def)+

lemma element_changes_exact:
  assumes ids: "\<And>x. id_of key (f x) = ident x" and d: "distinct (map ident xs)" "distinct (map ident ys)"
  shows "changed ADDED (element_changes element key label (map f xs) (map f ys)) = ident ` set ys - ident ` set xs"
    and "changed REMOVED (element_changes element key label (map f xs) (map f ys)) = ident ` set xs - ident ` set ys"
    and "changed MODIFIED (element_changes element key label (map f xs) (map f ys)) =
      {ident x | x y. x \<in> set xs \<and> y \<in> set ys \<and> ident x = ident y \<and> field_changes (f x) (f y) [key] \<noteq> []}"
proof -
  let ?old = "map (\<lambda>x. (ident x, f x)) xs" and ?new = "map (\<lambda>x. (ident x, f x)) ys"
  let ?cs = "element_changes element key label (map f xs) (map f ys)"
  have of: "dict_of (id_of key) (map f zs) = map (\<lambda>x. (ident x, f x)) zs" if "distinct (map ident zs)" for zs
    using dict_of_distinct[of "id_of key" "map f zs"] that by (simp add: comp_def ids)
  have get: "map_of (map (\<lambda>x. (ident x, f x)) zs) i = Some v \<longleftrightarrow> (\<exists>x \<in> set zs. ident x = i \<and> f x = v)"
    if "distinct (map ident zs)" for zs i v
    using that by (subst map_of_eq_Some_iff) (auto simp: comp_def)
  have none: "map_of (map (\<lambda>x. (ident x, f x)) zs) i = None \<longleftrightarrow> i \<notin> ident ` set zs" for zs i
    by (simp add: map_of_eq_None_iff image_image)
  have keys: "set (sorted_set (map fst ?old @ map fst ?new)) = ident ` set xs \<union> ident ` set ys"
    by (simp add: image_image)
  define change where "change i = change_of_element element key label i (map_of ?old i) (map_of ?new i)" for i
  have "?cs = concat (map change (sorted_set (map fst ?old @ map fst ?new)))"
    unfolding element_changes_def Let_def of[OF d(1)] of[OF d(2)] change_def ..
  then have cs: "changed kind ?cs = (\<Union>i \<in> ident ` set xs \<union> ident ` set ys. changed kind (change i))" for kind
    by (simp only: changed_concat keys)
  have one: "changed ADDED (change i) = (if i \<in> ident ` set ys - ident ` set xs then {i} else {})"
    "changed REMOVED (change i) = (if i \<in> ident ` set xs - ident ` set ys then {i} else {})" for i
    unfolding change_def changed_change_of none by auto
  have two: "changed MODIFIED (change i) =
    {j. j = i \<and> (\<exists>x y. x \<in> set xs \<and> y \<in> set ys \<and> i = ident x \<and> i = ident y \<and> field_changes (f x) (f y) [key] \<noteq> [])}" for i
  proof (cases "map_of ?old i = None \<or> map_of ?new i = None")
    case True
    then have "\<not> (i \<in> ident ` set xs \<and> i \<in> ident ` set ys)" unfolding none by blast
    with True show ?thesis unfolding change_def changed_change_of by auto
  next
    case False
    then obtain was where w: "map_of ?old i = Some was" by (cases "map_of ?old i") simp_all
    from False obtain now where n: "map_of ?new i = Some now" by (cases "map_of ?new i") simp_all
    note a = w n
    have "f x = was" if "x \<in> set xs" "i = ident x" for x using a(1) get[OF d(1)] that by (metis option.inject)
    moreover have "f y = now" if "y \<in> set ys" "i = ident y" for y using a(2) get[OF d(2)] that by (metis option.inject)
    moreover obtain x y where "x \<in> set xs" "i = ident x" "y \<in> set ys" "i = ident y"
      using a(1)[unfolded get[OF d(1)]] a(2)[unfolded get[OF d(2)]] by metis
    ultimately have "(\<exists>x y. x \<in> set xs \<and> y \<in> set ys \<and> i = ident x \<and> i = ident y \<and> field_changes (f x) (f y) [key] \<noteq> [])
      \<longleftrightarrow> field_changes was now [key] \<noteq> []" by metis
    then show ?thesis unfolding change_def changed_change_of a by auto
  qed
  show "changed ADDED ?cs = ident ` set ys - ident ` set xs"
    and "changed REMOVED ?cs = ident ` set xs - ident ` set ys"
    unfolding cs one by (auto split: if_splits)
  show "changed MODIFIED ?cs =
      {ident x | x y. x \<in> set xs \<and> y \<in> set ys \<and> ident x = ident y \<and> field_changes (f x) (f y) [key] \<noteq> []}"
    unfolding cs two by auto metis+
qed

lemma map_eq_rel: "map g xs = map g ys \<longleftrightarrow> list_all2 (\<lambda>x y. g x = g y) xs ys"
  by (simp add: list_all2_eq[of "map g xs"] list.rel_map)

lemma same_list:
  assumes d: "sorted (map ident xs)" "distinct (map ident xs)" "sorted (map ident ys)" "distinct (map ident ys)"
    and det: "\<And>x y. g x = g y \<Longrightarrow> ident x = ident y"
  shows "map g xs = map g ys \<longleftrightarrow>
    ident ` set xs = ident ` set ys \<and> (\<forall>x \<in> set xs. \<forall>y \<in> set ys. ident x = ident y \<longrightarrow> g x = g y)"
proof
  assume eq: "map g xs = map g ys"
  then have "map ident xs = map ident ys"
    unfolding map_eq_rel by (rule list_all2_mono) (rule det)
  moreover have "g x = g y" if xy: "x \<in> set xs" "y \<in> set ys" "ident x = ident y" for x y
  proof -
    have "g x \<in> set (map g ys)" using xy(1) unfolding eq[symmetric] by simp
    then obtain z where z: "z \<in> set ys" "g x = g z" by auto
    then have "ident z = ident y" using det[of x z] xy(3) by simp
    then show ?thesis using d(4) z xy(2) by (metis distinct_map inj_on_def)
  qed
  ultimately show "ident ` set xs = ident ` set ys \<and> (\<forall>x \<in> set xs. \<forall>y \<in> set ys. ident x = ident y \<longrightarrow> g x = g y)"
    by (metis list.set_map)
next
  assume r: "ident ` set xs = ident ` set ys \<and> (\<forall>x \<in> set xs. \<forall>y \<in> set ys. ident x = ident y \<longrightarrow> g x = g y)"
  then have eq: "map ident xs = map ident ys" using d by (intro sorted_distinct_set_unique) simp_all
  then have "length xs = length ys" by (rule map_eq_imp_length_eq)
  then show "map g xs = map g ys"
    using eq r by (auto simp: list_eq_iff_nth_eq)
qed

definition bare_ir :: "architecture_ir \<Rightarrow> architecture_ir" where
  "bare_ir a = a\<lparr>ir_nodes := map bare_node (ir_nodes a), ir_connections := map bare_connection (ir_connections a)\<rparr>"

text \<open>A metadata dict has distinct keys and a UUID 128 bits.\<close>

definition proper :: "architecture_ir \<Rightarrow> bool" where
  "proper a \<longleftrightarrow> distinct (map fst (ir_metadata a)) \<and> list_all (\<lambda>n. distinct (map fst (n_metadata n))) (ir_nodes a) \<and>
     list_all (\<lambda>c. distinct (map fst (c_metadata c))) (ir_connections a) \<and>
     list_all (\<lambda>d. dr_decision_id d < 2 ^ 128) (ir_decisions a)"

lemma uuid_str_inj: "uuid_str u = uuid_str v \<Longrightarrow> u < 2 ^ 128 \<Longrightarrow> v < 2 ^ 128 \<Longrightarrow> u = v"
  by (metis option.inject parse_uuid_str)

lemma valid_collections:
  assumes "valid_ir a" and "proper a"
  shows "sorted (map n_id (ir_nodes a))" "distinct (map n_id (ir_nodes a))"
    and "sorted (map c_id (ir_connections a))" "distinct (map c_id (ir_connections a))"
    and "sorted (map as_id (ir_assumptions a))" "distinct (map as_id (ir_assumptions a))"
    and "sorted (map (\<lambda>d. uuid_str (dr_decision_id d)) (ir_decisions a))"
    and "distinct (map (\<lambda>d. uuid_str (dr_decision_id d)) (ir_decisions a))"
    and "frozen (ir_metadata a) = ir_metadata a"
proof -
  have n: "normalize_ir a = a" and g: "graph_ok a" using assms(1) by (simp_all add: valid_ir_iff)
  have "sort_key n_id (ir_nodes a) = ir_nodes a" "sort_key c_id (ir_connections a) = ir_connections a"
    "sort_key as_id (ir_assumptions a) = ir_assumptions a"
    "sort_key (\<lambda>d. uuid_str (dr_decision_id d)) (ir_decisions a) = ir_decisions a"
    "frozen (ir_metadata a) = ir_metadata a"
    using arg_cong[OF n, of ir_nodes] arg_cong[OF n, of ir_connections] arg_cong[OF n, of ir_assumptions]
      arg_cong[OF n, of ir_decisions] arg_cong[OF n, of ir_metadata] by (simp_all add: normalize_ir_def)
  then show "sorted (map n_id (ir_nodes a))" "sorted (map c_id (ir_connections a))" "sorted (map as_id (ir_assumptions a))"
    "sorted (map (\<lambda>d. uuid_str (dr_decision_id d)) (ir_decisions a))" "frozen (ir_metadata a) = ir_metadata a"
    by (metis sorted_sort_key)+
  show "distinct (map n_id (ir_nodes a))" "distinct (map c_id (ir_connections a))" by (rule valid_ids[OF assms(1)])+
  show "distinct (map as_id (ir_assumptions a))" using g by (simp add: graph_ok_def all_ids_def)
  have "distinct (map dr_decision_id (ir_decisions a))" using g by (simp add: graph_ok_def references_ok_def)
  moreover have "inj_on uuid_str (dr_decision_id ` set (ir_decisions a))"
    using assms(2) uuid_str_inj by (auto simp: proper_def list_all_iff inj_on_def)
  ultimately have "distinct (map uuid_str (map dr_decision_id (ir_decisions a)))" by (simp add: distinct_map comp_inj_on)
  then show "distinct (map (\<lambda>d. uuid_str (dr_decision_id d)) (ir_decisions a))" by (simp add: comp_def)
qed

lemma element_changes_Nil:
  assumes ids: "\<And>x. id_of key (f x) = ident x" and d: "distinct (map ident xs)" "distinct (map ident ys)"
    and same: "\<And>x y. x \<in> set xs \<Longrightarrow> y \<in> set ys \<Longrightarrow> ident x = ident y \<Longrightarrow>
      field_changes (f x) (f y) [key] = [] \<longleftrightarrow> g x = g y \<and> R x y"
    and s: "sorted (map ident xs)" "sorted (map ident ys)" and det: "\<And>x y. g x = g y \<Longrightarrow> ident x = ident y"
  shows "element_changes element key label (map f xs) (map f ys) = [] \<longleftrightarrow>
    map g xs = map g ys \<and> (\<forall>x \<in> set xs. \<forall>y \<in> set ys. ident x = ident y \<longrightarrow> R x y)"
proof -
  let ?cs = "element_changes element key label (map f xs) (map f ys)"
  have "?cs = [] \<longleftrightarrow> ident ` set xs = ident ` set ys \<and>
    (\<forall>x \<in> set xs. \<forall>y \<in> set ys. ident x = ident y \<longrightarrow> field_changes (f x) (f y) [key] = [])"
    unfolding no_changes[of ?cs] element_changes_exact[OF ids d] by blast
  also have "\<dots> \<longleftrightarrow> (ident ` set xs = ident ` set ys \<and> (\<forall>x \<in> set xs. \<forall>y \<in> set ys. ident x = ident y \<longrightarrow> g x = g y)) \<and>
    (\<forall>x \<in> set xs. \<forall>y \<in> set ys. ident x = ident y \<longrightarrow> R x y)"
    using same by blast
  also have "(ident ` set xs = ident ` set ys \<and> (\<forall>x \<in> set xs. \<forall>y \<in> set ys. ident x = ident y \<longrightarrow> g x = g y))
    \<longleftrightarrow> map g xs = map g ys"
    by (rule same_list[OF s(1) d(1) s(2) d(2) det, symmetric])
  finally show ?thesis .
qed

lemma dict_ids:
  "id_of ''id'' (node_dict n) = n_id n" "id_of ''id'' (connection_dict c) = c_id c"
  "id_of ''id'' (assumption_dict s) = as_id s" "id_of ''decision_id'' (decision_dict d) = uuid_str (dr_decision_id d)"
  by (simp_all add: id_of_def node_dict_def connection_dict_def annotations_dict_def assumption_dict_def
      decision_dict_def dict_get_def text_of_def)

text \<open>The fields of two elements with the same id differ exactly when their flattened documents do.\<close>

lemma fields_agree:
  "n_id n = n_id m \<Longrightarrow>
    field_changes (node_dict n) (node_dict m) [''id''] = [] \<longleftrightarrow> agree (leaves [] (node_dict n)) (leaves [] (node_dict m))"
  "c_id c = c_id d \<Longrightarrow> field_changes (connection_dict c) (connection_dict d) [''id''] = [] \<longleftrightarrow>
    agree (leaves [] (connection_dict c)) (leaves [] (connection_dict d))"
  "as_id s = as_id t \<Longrightarrow> field_changes (assumption_dict s) (assumption_dict t) [''id''] = [] \<longleftrightarrow>
    agree (leaves [] (assumption_dict s)) (leaves [] (assumption_dict t))"
  "uuid_str (dr_decision_id x) = uuid_str (dr_decision_id y) \<Longrightarrow>
    field_changes (decision_dict x) (decision_dict y) [''decision_id''] = [] \<longleftrightarrow>
    agree (leaves [] (decision_dict x)) (leaves [] (decision_dict y))"
  unfolding node_dict_def connection_dict_def assumption_dict_def decision_dict_def annotations_dict_def append_Cons
  by (simp only:, rule field_changes_id; simp add: plain_def Let_def)+

text \<open>A comparison is empty exactly when nothing but preserved settings that flatten alike differs.\<close>

theorem diff_is_empty:
  assumes v: "valid_ir a" "valid_ir b" and p: "proper a" "proper b"
  shows "df_is_empty (diff a b) \<longleftrightarrow> to_dict (bare_ir a) = to_dict (bare_ir b) \<and>
    (\<forall>n \<in> set (ir_nodes a). \<forall>m \<in> set (ir_nodes b). n_id n = n_id m \<longrightarrow> same_extra (n_configuration n) (n_configuration m)) \<and>
    (\<forall>c \<in> set (ir_connections a). \<forall>d \<in> set (ir_connections b). c_id c = c_id d \<longrightarrow>
       same_extra (c_configuration c) (c_configuration d))"
proof -
  note ca = valid_collections[OF v(1) p(1)] and cb = valid_collections[OF v(2) p(2)]
  have nodes: "df_nodes (diff a b) = [] \<longleftrightarrow>
      map (\<lambda>n. node_dict (bare_node n)) (ir_nodes a) = map (\<lambda>n. node_dict (bare_node n)) (ir_nodes b) \<and>
      (\<forall>n \<in> set (ir_nodes a). \<forall>m \<in> set (ir_nodes b). n_id n = n_id m \<longrightarrow> same_extra (n_configuration n) (n_configuration m))"
    unfolding diff_def architecture_diff.simps
  proof (rule element_changes_Nil[OF dict_ids(1) ca(2) cb(2) _ ca(1) cb(1)])
    fix n m
    assume "n \<in> set (ir_nodes a)" "m \<in> set (ir_nodes b)" "n_id n = n_id m"
    then show "field_changes (node_dict n) (node_dict m) [''id''] = [] \<longleftrightarrow>
        node_dict (bare_node n) = node_dict (bare_node m) \<and> same_extra (n_configuration n) (n_configuration m)"
      using v p by (simp only: fields_agree(1)) (intro agree_node; simp add: valid_ir_def proper_def list_all_iff)
  qed (simp add: node_dict_def bare_node_def)
  have connections: "df_connections (diff a b) = [] \<longleftrightarrow>
      map (\<lambda>c. connection_dict (bare_connection c)) (ir_connections a) =
        map (\<lambda>c. connection_dict (bare_connection c)) (ir_connections b) \<and>
      (\<forall>c \<in> set (ir_connections a). \<forall>d \<in> set (ir_connections b). c_id c = c_id d \<longrightarrow>
         same_extra (c_configuration c) (c_configuration d))"
    unfolding diff_def architecture_diff.simps
  proof (rule element_changes_Nil[OF dict_ids(2) ca(4) cb(4) _ ca(3) cb(3)])
    fix c d
    assume "c \<in> set (ir_connections a)" "d \<in> set (ir_connections b)" "c_id c = c_id d"
    then show "field_changes (connection_dict c) (connection_dict d) [''id''] = [] \<longleftrightarrow>
        connection_dict (bare_connection c) = connection_dict (bare_connection d) \<and>
        same_extra (c_configuration c) (c_configuration d)"
      using v p by (simp only: fields_agree(2)) (intro agree_connection; simp add: valid_ir_def proper_def list_all_iff)
  qed (simp add: connection_dict_def bare_connection_def)
  have assumptions: "df_assumptions (diff a b) = [] \<longleftrightarrow> map assumption_dict (ir_assumptions a) = map assumption_dict (ir_assumptions b)"
    unfolding diff_def architecture_diff.simps
  proof (rule element_changes_Nil[OF dict_ids(3) ca(6) cb(6) _ ca(5) cb(5), where R = "\<lambda>_ _. True", simplified simp_thms ball_triv])
    fix x y :: assumption
    assume "as_id x = as_id y"
    then show "field_changes (assumption_dict x) (assumption_dict y) [''id''] = [] \<longleftrightarrow> assumption_dict x = assumption_dict y"
      by (simp only: fields_agree(3) agree_assumption)
  qed (simp add: assumption_dict_def)
  have decisions: "df_decisions (diff a b) = [] \<longleftrightarrow> map decision_dict (ir_decisions a) = map decision_dict (ir_decisions b)"
    unfolding diff_def architecture_diff.simps
  proof (rule element_changes_Nil[OF dict_ids(4) ca(8) cb(8) _ ca(7) cb(7), where R = "\<lambda>_ _. True", simplified simp_thms ball_triv])
    fix x y :: decision_ref
    assume "uuid_str (dr_decision_id x) = uuid_str (dr_decision_id y)"
    then show "field_changes (decision_dict x) (decision_dict y) [''decision_id''] = [] \<longleftrightarrow> decision_dict x = decision_dict y"
      by (simp only: fields_agree(4) agree_decision)
  qed (simp add: decision_dict_def)
  have own: "df_architecture (diff a b) = [] \<longleftrightarrow> own_dict a = own_dict b"
    using agree_own[OF ca(9) _ cb(9)] p by (simp add: diff_def field_changes_none proper_def)
  have version: "ir_schema_version a = ir_schema_version b"
  proof -
    have "ir_schema_version x = IR_SCHEMA_VERSION" if "valid_ir x" for x
      using that by (auto simp: valid_ir_iff own_problems_def split: if_splits)
    then show ?thesis using v by simp
  qed
  have bare: "own_dict (bare_ir x) = own_dict x" for x by (simp add: own_dict_def bare_ir_def)
  have objs: "map (\<lambda>x. JObj (h x)) xs = map (\<lambda>x. JObj (h x)) ys \<longleftrightarrow> map h xs = map h ys" for h :: "'z \<Rightarrow> _" and xs ys
    by (simp add: map_eq_rel)
  have "to_dict (bare_ir a) = to_dict (bare_ir b) \<longleftrightarrow> own_dict a = own_dict b \<and>
      map (\<lambda>n. node_dict (bare_node n)) (ir_nodes a) = map (\<lambda>n. node_dict (bare_node n)) (ir_nodes b) \<and>
      map (\<lambda>c. connection_dict (bare_connection c)) (ir_connections a) =
        map (\<lambda>c. connection_dict (bare_connection c)) (ir_connections b) \<and>
      map assumption_dict (ir_assumptions a) = map assumption_dict (ir_assumptions b) \<and>
      map decision_dict (ir_decisions a) = map decision_dict (ir_decisions b)"
    using version unfolding to_dict_def bare by (simp add: bare_ir_def objs comp_def)
  then show ?thesis
    unfolding df_is_empty_def df_changes_def append_is_Nil_conv nodes connections assumptions decisions own by blast
qed

end
