(* ===== verification/IR_Diff_Theorems.thy ===== *)
theory IR_Diff_Theorems
  imports IR_Diff_Props
begin

text \<open>
  The properties of the comparison of architectures, each with a witness on architectures of one
  node, and what it does not see.
\<close>

section \<open>Which values are hidden\<close>

text \<open>A value in which something under a secret-looking key, at any depth, can be read.\<close>

fun discloses :: "json \<Rightarrow> bool" where
  "discloses (JObj kvs) \<longleftrightarrow>
     list_ex (\<lambda>(k, v). SECRET_FIELD k \<and> v \<noteq> JNull \<and> v \<noteq> REDACTED \<or> discloses v) kvs"
| "discloses (JList vs) \<longleftrightarrow> list_ex discloses vs"
| "discloses _ \<longleftrightarrow> False"

lemma scrubbed_clean: "\<not> discloses (scrubbed v)"
proof (induction v rule: scrubbed.induct)
  case (1 kvs)
  have "\<not> (case (k, w) of (k, w) \<Rightarrow> SECRET_FIELD k \<and> w \<noteq> JNull \<and> w \<noteq> REDACTED \<or> discloses w)"
    if "(k, v) \<in> set kvs" "w = (if SECRET_FIELD k \<and> v \<noteq> JNull then REDACTED else scrubbed v)" for k v w
  proof (cases "SECRET_FIELD k \<and> v \<noteq> JNull")
    case True
    with that(2) show ?thesis by (simp add: REDACTED_def)
  next
    case False
    with that 1[OF that(1) refl False] show ?thesis by auto
  qed
  then show ?case
    unfolding scrubbed.simps discloses.simps list_ex_iff set_map by (fastforce split del: if_split)
qed (auto simp: list_ex_iff)

lemma after_first_Some: "after_first p s = Some r \<Longrightarrow> \<exists>u. s = u @ p @ r"
proof (induction s)
  case (Cons c s)
  show ?case
  proof (cases "starts_with p (c # s)")
    case True
    then have "c # s = p @ drop (length p) (c # s)"
      unfolding starts_with_def by (metis append_take_drop_id)
    with Cons.prems True show ?thesis by (metis append_Nil after_first.simps(2) option.inject)
  next
    case False
    with Cons obtain u where "s = u @ p @ r" by auto
    then have "c # s = (c # u) @ p @ r" by simp
    then show ?thesis ..
  qed
qed (simp split: if_splits)

lemma after_first_None: "after_first p s = None \<longleftrightarrow> \<not> contains_text p s"
  by (induction s) auto

lemma starts_with_append [simp]: "starts_with p (p @ s)"
  by (simp add: starts_with_def)

lemma secret_extra: "is_secret_path (''configuration.extra.'' @ k) = SECRET_FIELD k"
proof -
  have "key_after (''configuration.extra.'' @ k) ''configuration.extra.'' = Some k"
    unfolding key_after_def by (simp only: starts_with_append if_True append_eq_conv_conj) simp
  then show ?thesis by (simp only: is_secret_path_def option.case)
qed

lemma secret_metadata:
  assumes "\<not> contains_text ''.configuration.extra.'' (''metadata.'' @ k)"
  shows "is_secret_path (''metadata.'' @ k) = SECRET_FIELD k"
proof -
  have "key_after (''metadata.'' @ k) ''configuration.extra.'' = None"
    using assms by (simp add: key_after_def starts_with_def after_first_None)
  moreover have "key_after (''metadata.'' @ k) ''metadata.'' = Some k"
    unfolding key_after_def by (simp only: starts_with_append if_True append_eq_conv_conj) simp
  ultimately show ?thesis by (simp only: is_secret_path_def option.case)
qed

lemma secret_property:
  assumes "plain k"
  shows "is_secret_path (''configuration.'' @ k) \<longleftrightarrow> SECRET_FIELD k \<and> k \<notin> set CLOSED"
proof -
  let ?path = "''configuration.'' @ k"
  have dots: "count_list ?path (CHR ''.'') = 1"
    using assms by (simp add: plain_def count_notin)
  have none: "after_first p ?path = None" if "1 < count_list p (CHR ''.'')" for p
  proof (rule ccontr)
    assume "after_first p ?path \<noteq> None"
    then obtain u r where "?path = u @ p @ r" using after_first_Some by blast
    then have "count_list ?path (CHR ''.'') = count_list (u @ p @ r) (CHR ''.'')" by (rule arg_cong)
    with dots that show False by simp
  qed
  have "\<not> starts_with ''configuration.extra.'' ?path"
  proof
    assume "starts_with ''configuration.extra.'' ?path"
    then have "take 6 k = ''extra.''" by (simp add: starts_with_def eval_nat_numeral)
    then have "CHR ''.'' \<in> set (take 6 k)" by simp
    with assms show False by (auto simp: plain_def dest: in_set_takeD)
  qed
  then have "key_after ?path ''configuration.extra.'' = None" "key_after ?path ''metadata.'' = None"
    using none[of "''.configuration.extra.''"] none[of "''.metadata.''"]
    by (simp_all add: key_after_def starts_with_def)
  moreover have "last_part ?path = (''configuration'', k)"
  proof -
    have "takeWhile (\<lambda>c. c \<noteq> CHR ''.'') (rev ?path) = rev k \<and> dropWhile (\<lambda>c. c \<noteq> CHR ''.'') (rev ?path) = rev ''configuration.''"
    proof -
      have "\<forall>c \<in> set (rev k). c \<noteq> CHR ''.''" using assms by (auto simp: plain_def)
      from takeWhile_append2[of "rev k" "\<lambda>c. c \<noteq> CHR ''.''" "rev ''configuration.''"]
        dropWhile_append2[of "rev k" "\<lambda>c. c \<noteq> CHR ''.''" "rev ''configuration.''"] this
      show ?thesis by simp
    qed
    then show ?thesis by (simp add: last_part_def)
  qed
  ultimately show ?thesis by (simp add: is_secret_path_def)
qed

definition all_fields :: "architecture_diff \<Rightarrow> field_change list" where
  "all_fields d = df_architecture d @ concat (map el_fields (df_changes d))"

lemma fields_are_redacted:
  assumes "f \<in> set (all_fields (diff a b))"
  shows "\<exists>v w. fc_before f = redacted (fc_field f) v \<and> fc_after f = redacted (fc_field f) w"
proof -
  have field: "\<exists>v w. fc_before f = redacted (fc_field f) v \<and> fc_after f = redacted (fc_field f) w"
    if "f \<in> set (field_changes d1 d2 skip)" for d1 d2 skip
    using that by (auto simp: field_changes_def Let_def)
  have "\<exists>d1 d2 skip. f \<in> set (field_changes d1 d2 skip)"
    if "c \<in> set (element_changes el key label xs ys)" "f \<in> set (el_fields c)" for c el key label xs ys
  proof -
    from that(1) obtain i was now where "c \<in> set (change_of_element el key label i was now)"
      by (auto simp: element_changes_def Let_def)
    with that(2) have "f \<in> set (field_changes (the was) (the now) [key])"
      by (cases was; cases now) (simp_all add: change_of_element_def Let_def split: if_splits)
    then show ?thesis by blast
  qed
  with assms field show ?thesis
    by (simp add: all_fields_def diff_def df_changes_def) blast
qed

lemma redacted_hides:
  assumes "starts_with ''configuration.'' path \<or> starts_with ''metadata.'' path"
  shows "\<not> discloses (redacted path v)" and "is_secret_path path \<Longrightarrow> redacted path v \<in> {JNull, REDACTED}"
  using assms scrubbed_clean by (auto simp: redacted_def REDACTED_def)

section \<open>Sample architectures\<close>

definition lone_node :: "(string \<times> json) list \<Rightarrow> (string \<times> string) list \<Rightarrow> node" where
  "lone_node extra metadata = \<lparr>n_id = ''api'', n_kind = SERVICE, n_name = ''API'', n_description = None,
     n_technology = None, n_component = None, n_parent_id = None,
     n_configuration = \<lparr>cf_values = [], cf_unknown = [], cf_extra = extra\<rparr>,
     n_requirement_refs = [], n_lifecycle = None, n_metadata = metadata, n_provenance = None, n_field_provenance = []\<rparr>"

definition lone :: "node \<Rightarrow> architecture_ir" where
  "lone n = \<lparr>ir_name = ''Shop'', ir_description = None, ir_nodes = [n], ir_connections = [], ir_assumptions = [],
     ir_decisions = [], ir_requirement_refs = [], ir_metadata = [], ir_provenance = None, ir_schema_version = 1\<rparr>"

lemma lone_valid:
  assumes "node_built n" and "n_parent_id n = None"
  shows "valid_ir (lone n)"
proof -
  have "clean_line ''Shop'' = ''Shop''" by code_simp
  then have "normalize_ir (lone n) = lone n"
    by (simp add: normalize_ir_def lone_def optional_block_def sorted_refs_def frozen_def)
  moreover have "own_problems (lone n) = own_problems (lone (lone_node [] []))" by (simp add: own_problems_def lone_def)
  moreover have "own_problems (lone (lone_node [] [])) = []" by code_simp
  moreover have "limits_ok (lone n)" by (simp add: limits_ok_def lone_def MAX_NODES_def)
  moreover have "graph_ok (lone n)"
    using assms(2) by (simp add: graph_ok_def all_ids_def lone_def containment_ok_def connections_ok_def references_ok_def
        parent_of_def acyclic_def)
  ultimately show ?thesis using assms(1) by (simp add: valid_ir_iff) (simp add: lone_def)
qed

lemma lone_proper: "distinct (map fst (n_metadata n)) \<Longrightarrow> proper (lone n)"
  by (simp add: proper_def lone_def)

lemma lone_samples_built:
  "node_built (lone_node [] [])" "node_built (lone_node [] [(''team'', ''shop'')])"
  "node_built (lone_node [(''db_password'', JText ''s3cret'')] [])"
  "node_built (lone_node [(''verbose'', JBool True)] [])" "node_built (lone_node [(''verbose'', JInt 1)] [])"
  "node_built (lone_node [(''options'', JObj [])] [])"
  "node_built (lone_node [] [(''password.configuration.extra.db'', ''s3cret'')])"
  by code_simp+

lemma field_changes_mem:
  assumes "p \<notin> set skip" and "\<not> py_eq (dict_get (leaves [] d1) p) (dict_get (leaves [] d2) p)"
  shows "\<lparr>fc_field = p, fc_before = redacted p (dict_get (leaves [] d1) p),
     fc_after = redacted p (dict_get (leaves [] d2) p), fc_category = category p\<rparr> \<in> set (field_changes d1 d2 skip)"
proof -
  have "p \<in> fst ` set (leaves [] d1) \<union> fst ` set (leaves [] d2)"
  proof (rule ccontr)
    assume "p \<notin> fst ` set (leaves [] d1) \<union> fst ` set (leaves [] d2)"
    with assms(2) show False by (simp add: dict_get_absent)
  qed
  with assms show ?thesis unfolding field_changes_def Let_def set_map set_filter set_sorted_set set_append by blast
qed

lemma lone_fields:
  assumes "n_id n = n_id m"
  shows "set (field_changes (node_dict n) (node_dict m) [''id'']) \<subseteq> set (all_fields (diff (lone n) (lone m)))"
proof (cases "field_changes (node_dict n) (node_dict m) [''id''] = []")
  case False
  have one: "dict_of (id_of ''id'') [d] = [(id_of ''id'' d, d)]" for d by (simp add: dict_of_def)
  from False assms have "\<exists>c \<in> set (df_nodes (diff (lone n) (lone m))). el_fields c = field_changes (node_dict n) (node_dict m) [''id'']"
    by (simp add: diff_def lone_def element_changes_def one dict_ids change_of_element_def sorted_set_def Let_def)
  then show ?thesis by (auto simp: all_fields_def df_changes_def)
qed simp

text \<open>The flattened document of the node: its settings and its metadata among fields that never differ.\<close>

definition lone_head :: "(string \<times> json) list" where
  "lone_head = [(''id'', JText ''api''), (''kind'', JText ''service''), (''name'', JText ''API''), (''description'', JNull),
     (''technology'', JNull), (''component'', JNull), (''parent_id'', JNull), (''lifecycle'', JNull)]"

lemma lone_leaves:
  "leaves [] (node_dict (lone_node extra metadata)) =
     lone_head @ leaves ''configuration.extra.'' extra @ [(''requirement_refs'', JList [])] @
     leaves ''metadata.'' (map (\<lambda>(k, v). (k, JText v)) metadata) @ [(''provenance'', JNull)]"
  by (simp add: lone_head_def lone_node_def node_dict_def annotations_dict_def configuration_dict_def metadata_dict_def
      provenance_dict_def technology_dict_def text_json_def texts_json_def refs_dict_def entries_def dict_get_def Let_def WHOLE_def)

section \<open>Comparisons\<close>

text \<open>
  C36.  A comparison of two architectures reports exactly what changed.  Elements are matched by id:
  those only in the second are added, those only in the first removed, and a node in both is modified
  exactly when its document differs outside the preserved settings or these differ when flattened to
  paths.  The comparison is empty exactly when the documents of the two architectures are equal
  outside the preserved settings and these agree when flattened.
\<close>

theorem comparison_is_exact:
  assumes v: "valid_ir a" "valid_ir b" and p: "proper a" "proper b"
  shows "changed ADDED (df_nodes (diff a b)) = n_id ` set (ir_nodes b) - n_id ` set (ir_nodes a) \<and>
    changed REMOVED (df_nodes (diff a b)) = n_id ` set (ir_nodes a) - n_id ` set (ir_nodes b) \<and>
    changed MODIFIED (df_nodes (diff a b)) =
      {n_id n | n m. n \<in> set (ir_nodes a) \<and> m \<in> set (ir_nodes b) \<and> n_id n = n_id m \<and>
         \<not> (node_dict (bare_node n) = node_dict (bare_node m) \<and> same_extra (n_configuration n) (n_configuration m))} \<and>
    (df_is_empty (diff a b) \<longleftrightarrow> to_dict (bare_ir a) = to_dict (bare_ir b) \<and>
      (\<forall>n \<in> set (ir_nodes a). \<forall>m \<in> set (ir_nodes b). n_id n = n_id m \<longrightarrow>
         same_extra (n_configuration n) (n_configuration m)) \<and>
      (\<forall>c \<in> set (ir_connections a). \<forall>d \<in> set (ir_connections b). c_id c = c_id d \<longrightarrow>
         same_extra (c_configuration c) (c_configuration d)))"
proof -
  note ids = valid_collections(2)[OF v(1) p(1)] valid_collections(2)[OF v(2) p(2)]
  have "field_changes (node_dict n) (node_dict m) [''id''] \<noteq> [] \<longleftrightarrow>
      \<not> (node_dict (bare_node n) = node_dict (bare_node m) \<and> same_extra (n_configuration n) (n_configuration m))"
    if "n \<in> set (ir_nodes a)" "m \<in> set (ir_nodes b)" "n_id n = n_id m" for n m
    using agree_node[of n m] that v p by (simp add: fields_agree(1) valid_ir_def proper_def list_all_iff)
  then have modified: "changed MODIFIED (df_nodes (diff a b)) =
      {n_id n | n m. n \<in> set (ir_nodes a) \<and> m \<in> set (ir_nodes b) \<and> n_id n = n_id m \<and>
         \<not> (node_dict (bare_node n) = node_dict (bare_node m) \<and> same_extra (n_configuration n) (n_configuration m))}"
    unfolding diff_def architecture_diff.simps element_changes_exact(3)[OF dict_ids(1) ids] by blast
  show ?thesis
    using modified diff_is_empty[OF v p] element_changes_exact(1,2)[OF dict_ids(1) ids] by (simp add: diff_def)
qed

theorem comparison_is_exact_witness:
  "changed MODIFIED (df_nodes (diff (lone (lone_node [] [])) (lone (lone_node [] [(''team'', ''shop'')])))) = {''api''}"
proof -
  let ?n = "lone_node [] []" and ?m = "lone_node [] [(''team'', ''shop'')]"
  have v: "valid_ir (lone ?n)" "valid_ir (lone ?m)"
    using lone_valid lone_samples_built(1,2) by (simp_all add: lone_node_def)
  have p: "proper (lone ?n)" "proper (lone ?m)" by (rule lone_proper, simp add: lone_node_def)+
  have "node_dict (bare_node ?n) \<noteq> node_dict (bare_node ?m)"
    by (simp add: lone_node_def bare_node_def node_dict_def annotations_dict_def metadata_dict_def)
  moreover have "n_id ?n = ''api''" "n_id ?m = ''api''" by (simp_all add: lone_node_def)
  ultimately show ?thesis using comparison_is_exact[OF v p] by (auto simp: lone_def)
qed

text \<open>
  C37.  Which secrets a comparison hides.  For a field of a node's or connection's settings and for a
  metadata entry: inside its values everything under a secret-looking key is replaced, at any depth.
  And the whole value is replaced when the field itself is named like a secret: a preserved setting,
  tested by its whole path; a typed property that is a plain name and not one of the closed value sets;
  a metadata entry, tested by its whole key, provided the key does not contain the text
  .configuration.extra.  Without that proviso it would be false: see
  \<open>comparison_shows_a_metadata_secret\<close> below.
\<close>

theorem comparison_hides_secrets:
  assumes f: "f \<in> set (all_fields (diff a b))"
  shows "(starts_with ''configuration.'' (fc_field f) \<or> starts_with ''metadata.'' (fc_field f) \<longrightarrow>
      \<not> discloses (fc_before f) \<and> \<not> discloses (fc_after f)) \<and>
    (\<forall>k. SECRET_FIELD k \<longrightarrow>
      fc_field f = ''configuration.extra.'' @ k \<or>
      fc_field f = ''configuration.'' @ k \<and> plain k \<and> k \<notin> set CLOSED \<or>
      fc_field f = ''metadata.'' @ k \<and> \<not> contains_text ''.configuration.extra.'' (''metadata.'' @ k) \<longrightarrow>
      fc_before f \<in> {JNull, REDACTED} \<and> fc_after f \<in> {JNull, REDACTED})"
proof -
  obtain v w where vw: "fc_before f = redacted (fc_field f) v" "fc_after f = redacted (fc_field f) w"
    using fields_are_redacted[OF f] by blast
  have extra: "starts_with ''configuration.'' (''configuration.extra.'' @ k)" for k by (simp add: starts_with_def)
  have "fc_before f \<in> {JNull, REDACTED} \<and> fc_after f \<in> {JNull, REDACTED}"
    if "SECRET_FIELD k" "fc_field f = ''configuration.extra.'' @ k \<or>
      fc_field f = ''configuration.'' @ k \<and> plain k \<and> k \<notin> set CLOSED \<or>
      fc_field f = ''metadata.'' @ k \<and> \<not> contains_text ''.configuration.extra.'' (''metadata.'' @ k)" for k
  proof -
    have "is_secret_path (fc_field f) \<and> (starts_with ''configuration.'' (fc_field f) \<or> starts_with ''metadata.'' (fc_field f))"
      using that secret_extra[of k] secret_property[of k] secret_metadata[of k] extra[of k]
        starts_with_append[of "''configuration.''" k] starts_with_append[of "''metadata.''" k] by metis
    then show ?thesis unfolding vw using redacted_hides(2) by blast
  qed
  then show ?thesis using redacted_hides(1) unfolding vw by blast
qed

theorem comparison_hides_secrets_witness:
  "\<exists>f \<in> set (all_fields (diff (lone (lone_node [] [])) (lone (lone_node [(''db_password'', JText ''s3cret'')] [])))).
     fc_field f = ''configuration.extra.db_password'' \<and> fc_after f \<in> {JNull, REDACTED}"
proof -
  let ?n = "lone_node [] []" and ?m = "lone_node [(''db_password'', JText ''s3cret'')] []" and ?p = "''configuration.extra.db_password''"
  have "\<not> py_eq (dict_get (leaves [] (node_dict ?n)) ?p) (dict_get (leaves [] (node_dict ?m)) ?p)"
    unfolding lone_leaves by (simp add: lone_head_def dict_get_def WHOLE_def Let_def)
  then obtain f where "f \<in> set (field_changes (node_dict ?n) (node_dict ?m) [''id''])" and p: "fc_field f = ?p"
    using field_changes_mem[of ?p "[''id'']" "node_dict ?n" "node_dict ?m"] by fastforce
  then have f: "f \<in> set (all_fields (diff (lone ?n) (lone ?m)))"
    using lone_fields[of ?n ?m] by (auto simp: lone_node_def)
  have "SECRET_FIELD ''db_password''" by code_simp
  then have "fc_after f \<in> {JNull, REDACTED}"
    using comparison_hides_secrets[OF f] p by simp
  with f p show ?thesis by blast
qed

section \<open>What a comparison does not see\<close>

text \<open>
  Architectures with different content can have an empty comparison: in preserved settings,
  \<open>true\<close> and \<open>1\<close> are equal values of Python, and an empty object adds no field.
\<close>

theorem comparison_misses_extra_changes:
  "df_is_empty (diff (lone (lone_node [(''verbose'', JBool True)] [])) (lone (lone_node [(''verbose'', JInt 1)] []))) \<and>
   df_is_empty (diff (lone (lone_node [(''options'', JObj [])] [])) (lone (lone_node [] []))) \<and>
   to_dict (lone (lone_node [(''verbose'', JBool True)] [])) \<noteq> to_dict (lone (lone_node [(''verbose'', JInt 1)] [])) \<and>
   to_dict (lone (lone_node [(''options'', JObj [])] [])) \<noteq> to_dict (lone (lone_node [] []))"
proof (intro conjI)
  have v: "valid_ir (lone (lone_node [(''verbose'', JBool True)] []))" "valid_ir (lone (lone_node [(''verbose'', JInt 1)] []))"
    "valid_ir (lone (lone_node [(''options'', JObj [])] []))" "valid_ir (lone (lone_node [] []))"
    using lone_samples_built(1,4-6) lone_valid by (simp_all add: lone_node_def)
  have p: "proper (lone (lone_node extra []))" for extra by (rule lone_proper) (simp add: lone_node_def)
  have b: "to_dict (bare_ir (lone (lone_node extra []))) = to_dict (bare_ir (lone (lone_node extra' [])))" for extra extra'
    by (simp add: bare_ir_def lone_def bare_node_def bare_def lone_node_def)
  have "same_extra (n_configuration (lone_node [(''verbose'', JBool True)] [])) (n_configuration (lone_node [(''verbose'', JInt 1)] []))"
    and "same_extra (n_configuration (lone_node [(''options'', JObj [])] [])) (n_configuration (lone_node [] []))"
    by (simp_all add: same_extra_def lone_node_def agree_single Let_def WHOLE_def) (simp add: agree_def)
  then show "df_is_empty (diff (lone (lone_node [(''verbose'', JBool True)] [])) (lone (lone_node [(''verbose'', JInt 1)] [])))"
    "df_is_empty (diff (lone (lone_node [(''options'', JObj [])] [])) (lone (lone_node [] [])))"
    unfolding diff_is_empty[OF v(1,2) p p] diff_is_empty[OF v(3,4) p p] using b by (simp_all add: lone_def)
qed (simp_all add: to_dict_def lone_def lone_node_def node_dict_def annotations_dict_def configuration_dict_def)

text \<open>A metadata entry whose key contains the marker of preserved settings is judged by the rest only.\<close>

theorem comparison_shows_a_metadata_secret:
  "SECRET_FIELD ''password.configuration.extra.db'' \<and>
   valid_ir (lone (lone_node [] [(''password.configuration.extra.db'', ''s3cret'')])) \<and>
   (\<exists>f \<in> set (all_fields (diff (lone (lone_node [] []))
       (lone (lone_node [] [(''password.configuration.extra.db'', ''s3cret'')])))).
      fc_field f = ''metadata.password.configuration.extra.db'' \<and> fc_after f = JText ''s3cret'')"
proof (intro conjI)
  let ?n = "lone_node [] []" and ?m = "lone_node [] [(''password.configuration.extra.db'', ''s3cret'')]"
    and ?p = "''metadata.password.configuration.extra.db''"
  show "SECRET_FIELD ''password.configuration.extra.db''" by code_simp
  show "valid_ir (lone ?m)" using lone_samples_built(7) lone_valid by (simp add: lone_node_def)
  have get: "dict_get (leaves [] (node_dict ?n)) ?p = JNull" "dict_get (leaves [] (node_dict ?m)) ?p = JText ''s3cret''"
    unfolding lone_leaves by (simp_all add: lone_head_def dict_get_def WHOLE_def Let_def)
  have "\<not> is_secret_path ?p" by code_simp
  then have "redacted ?p (JText ''s3cret'') = JText ''s3cret''" by (simp add: redacted_def)
  with get obtain f where "f \<in> set (field_changes (node_dict ?n) (node_dict ?m) [''id''])"
    and "fc_field f = ?p" "fc_after f = JText ''s3cret''"
    using field_changes_mem[of ?p "[''id'']" "node_dict ?n" "node_dict ?m"] by fastforce
  then show "\<exists>f \<in> set (all_fields (diff (lone ?n) (lone ?m))). fc_field f = ?p \<and> fc_after f = JText ''s3cret''"
    using lone_fields[of ?n ?m] by (auto simp: lone_node_def)
qed

end
