(* ===== verification/Mig_Values.thy ===== *)
theory Mig_Values
  imports Py_Text
begin

text \<open>
  The vocabulary of migration planning (core/domain/migrations/values.py, with the evidence
  references of core/domain/evolution): the enumerations, the checks of a part's fields, and the ids
  derived from content.  A check gives the name of a refused field; a constructor that refuses
  raises \<open>InvalidMigrationPlan\<close> with the refused fields in order.  Values are typed, so the
  tests of a value's Python type have no counterpart.  SHA-256 is the argument \<open>sha\<close> (the
  hexadecimal digest of a text).
\<close>

section \<open>Enumerations\<close>

datatype plan_status =
    DRAFT | NEEDS_INFORMATION | READY_FOR_REVIEW | APPROVED | REJECTED | SUPERSEDED | ARCHIVED

fun plan_status_value :: "plan_status \<Rightarrow> string" where
  "plan_status_value DRAFT = ''draft''"
| "plan_status_value NEEDS_INFORMATION = ''needs_information''"
| "plan_status_value READY_FOR_REVIEW = ''ready_for_review''"
| "plan_status_value APPROVED = ''approved''"
| "plan_status_value REJECTED = ''rejected''"
| "plan_status_value SUPERSEDED = ''superseded''"
| "plan_status_value ARCHIVED = ''archived''"

datatype step_type =
    PREPARE | PROVISION | CONFIGURE | REPLICATE | BACKFILL | VERIFY | CUTOVER | DECOMMISSION | ROLLBACK
  | MANUAL_REVIEW

datatype target_kind = REVISION | CANDIDATE

datatype trace_kind =
    CHANGE_TRACE | REQUIREMENT_TRACE | ASSUMPTION_TRACE | PATTERN_TRACE | CONSTRAINT_TRACE | EVIDENCE_TRACE

datatype downtime_status = KNOWN_DOWNTIME | POTENTIAL_DOWNTIME | MODELED_ONLINE | DOWNTIME_UNKNOWN

datatype reversibility =
    REVERSIBLE | CONDITIONALLY_REVERSIBLE | IRREVERSIBLE | REVERSIBILITY_UNKNOWN

datatype risk_category =
    DATA_LOSS | DATA_INCONSISTENCY | DOWNTIME_RISK | CAPACITY_EXHAUSTION | COMPATIBILITY_FAILURE
  | SECURITY_REGRESSION | OBSERVABILITY_GAP | ROLLBACK_LIMITATION | DEPENDENCY_ORDERING | COST_INCREASE
  | OPERATIONAL_COMPLEXITY | IRREVERSIBLE_CHANGE

datatype risk_status = CONFIRMED | POTENTIAL | RISK_UNKNOWN

datatype checkpoint_status = PASS | FAIL | WARNING | NOT_RUN | CANNOT_EVALUATE | MANUAL_VERIFICATION_REQUIRED

datatype checkpoint_basis = MODELED | MANUAL | RUNTIME_OBSERVED

datatype compatibility_status = VERIFIED | INCOMPATIBLE | COMPATIBILITY_UNKNOWN

datatype finding_type =
    UNSUPPORTED_CHANGE | MANUAL_INTERPRETATION | MISSING_INFORMATION | MISSING_EVIDENCE | STALE_EVIDENCE
  | STRATEGY_NOT_SUPPORTED | INVALID_DEPENDENCY | DEPENDENCY_CYCLE | MISSING_PREREQUISITE
  | CONSTRAINT_CONFLICT | NO_CHANGES

fun finding_type_value :: "finding_type \<Rightarrow> string" where
  "finding_type_value UNSUPPORTED_CHANGE = ''unsupported_change''"
| "finding_type_value MANUAL_INTERPRETATION = ''manual_interpretation''"
| "finding_type_value MISSING_INFORMATION = ''missing_information''"
| "finding_type_value MISSING_EVIDENCE = ''missing_evidence''"
| "finding_type_value STALE_EVIDENCE = ''stale_evidence''"
| "finding_type_value STRATEGY_NOT_SUPPORTED = ''strategy_not_supported''"
| "finding_type_value INVALID_DEPENDENCY = ''invalid_dependency''"
| "finding_type_value DEPENDENCY_CYCLE = ''dependency_cycle''"
| "finding_type_value MISSING_PREREQUISITE = ''missing_prerequisite''"
| "finding_type_value CONSTRAINT_CONFLICT = ''constraint_conflict''"
| "finding_type_value NO_CHANGES = ''no_changes''"

section \<open>Checks\<close>

definition MAX_TITLE :: nat where "MAX_TITLE = 200"
definition MAX_TEXT :: nat where "MAX_TEXT = 2000"
definition MAX_REFERENCE :: nat where "MAX_REFERENCE = 256"
definition MAX_ITEMS :: nat where "MAX_ITEMS = 200"

text \<open>A problem is the name of a refused field.\<close>

type_synonym problem = "string option"

definition check :: "problem list \<Rightarrow> string list + unit" where
  "check problems =
     (let found = map the (filter (\<lambda>p. p \<noteq> None \<and> p \<noteq> Some []) problems)
      in if found \<noteq> [] then Inl found else Inr ())"

definition is_text :: "string \<Rightarrow> nat \<Rightarrow> bool" where
  "is_text v limit \<longleftrightarrow> py_strip v \<noteq> [] \<and> length v \<le> limit"

definition problem_if :: "bool \<Rightarrow> string \<Rightarrow> problem" where
  "problem_if wrong name = (if wrong then Some name else None)"

definition text_problem :: "string \<Rightarrow> string \<Rightarrow> nat \<Rightarrow> problem" where
  "text_problem v name limit = problem_if (\<not> is_text v limit) name"

text \<open>With \<open>required=False\<close>.\<close>

definition optional_problem :: "string option \<Rightarrow> string \<Rightarrow> nat \<Rightarrow> problem" where
  "optional_problem v name limit = (case v of None \<Rightarrow> None | Some t \<Rightarrow> text_problem t name limit)"

definition CODE :: "string \<Rightarrow> bool" where
  "CODE s = ident_match is_lower_ascii (\<lambda>c. is_lower_alnum c \<or> c \<in> set ''_.-'') 63 s"

definition hex_lower :: "char \<Rightarrow> bool" where
  "hex_lower c \<longleftrightarrow> is_digit c \<or> c \<in> set ''abcdef''"

definition FINGERPRINT :: "string \<Rightarrow> bool" where
  "FINGERPRINT s \<longleftrightarrow> length s = 64 \<and> list_all hex_lower s"

definition code_problem :: "string \<Rightarrow> string \<Rightarrow> problem" where
  "code_problem v name = problem_if (\<not> CODE v) name"

definition texts_problem :: "string list \<Rightarrow> string \<Rightarrow> nat \<Rightarrow> problem" where
  "texts_problem vs name limit =
     (if length vs > MAX_ITEMS then Some name
      else problem_if (\<not> list_all (\<lambda>v. text_problem v name limit = None) vs) name)"

definition references_problem :: "string list \<Rightarrow> string \<Rightarrow> problem" where
  "references_problem vs name = texts_problem vs name MAX_REFERENCE"

definition items_problem :: "'a list \<Rightarrow> string \<Rightarrow> problem" where
  "items_problem vs name = problem_if (\<not> length vs \<le> MAX_ITEMS) name"

section \<open>Ids from content\<close>

text \<open>\<open>json.dumps\<close> of a tuple of texts: everything but printable ASCII is escaped.\<close>

definition json_char :: "char \<Rightarrow> string" where
  "json_char c =
     (if c = DQ then [BACKSLASH, DQ]
      else if c = BACKSLASH then [BACKSLASH, BACKSLASH]
      else if c = CHR 0x0A then BACKSLASH # ''n''
      else if c = CHR 0x0D then BACKSLASH # ''r''
      else if c = CHR 0x09 then BACKSLASH # ''t''
      else if c = CHR 0x0C then BACKSLASH # ''f''
      else if c = CHR 0x08 then BACKSLASH # ''b''
      else if 32 \<le> (of_char c :: nat) \<and> (of_char c :: nat) \<le> 126 then [c]
      else BACKSLASH # ''u'' @ hex_pad 4 (of_char c))"

definition json_string :: "string \<Rightarrow> string" where
  "json_string s = DQ # concat (map json_char s) @ [DQ]"

definition content_digest :: "(string \<Rightarrow> string) \<Rightarrow> string \<Rightarrow> string list \<Rightarrow> string" where
  "content_digest sha prefix parts =
     prefix @ ''_'' @ take 20 (sha (''['' @ join '','' (map json_string parts) @ '']''))"

section \<open>Evidence references\<close>

datatype evidence_source =
    CAPACITY | COST | RELIABILITY | SECURITY | OBSERVABILITY | VALIDATION | SIMULATION | REQUIREMENT | GOAL

fun evidence_source_value :: "evidence_source \<Rightarrow> string" where
  "evidence_source_value CAPACITY = ''capacity''"
| "evidence_source_value COST = ''cost''"
| "evidence_source_value RELIABILITY = ''reliability''"
| "evidence_source_value SECURITY = ''security''"
| "evidence_source_value OBSERVABILITY = ''observability''"
| "evidence_source_value VALIDATION = ''validation''"
| "evidence_source_value SIMULATION = ''simulation''"
| "evidence_source_value REQUIREMENT = ''requirement''"
| "evidence_source_value GOAL = ''goal''"

datatype evidence_state = CURRENT | STALE | MISSING

record evidence_ref =
  ev_source :: evidence_source
  ev_reference :: string
  ev_state :: evidence_state
  ev_item :: "string option"
  ev_revision_number :: "int option"
  ev_content_hash :: "string option"
  ev_model_version :: "string option"

definition evidence_problems :: "evidence_ref \<Rightarrow> problem list" where
  "evidence_problems e =
     [text_problem (ev_reference e) ''evidence.reference'' MAX_REFERENCE,
      optional_problem (ev_item e) ''evidence.item'' MAX_REFERENCE,
      problem_if (\<exists>n \<in> set_option (ev_revision_number e). n < 1) ''evidence.revision_number'',
      problem_if (\<exists>h \<in> set_option (ev_content_hash e). \<not> FINGERPRINT h) ''evidence.content_hash'',
      optional_problem (ev_model_version e) ''evidence.model_version'' 64]"

definition EvidenceRef :: "evidence_ref \<Rightarrow> string list + evidence_ref" where
  "EvidenceRef e = rbind (check (evidence_problems e)) (\<lambda>_. Inr e)"

definition evidence_key :: "evidence_ref \<Rightarrow> string \<times> string \<times> string" where
  "evidence_key e =
     (evidence_source_value (ev_source e), ev_reference e, case ev_item e of None \<Rightarrow> [] | Some i \<Rightarrow> i)"

section \<open>Checked constructors\<close>

lemma check_ok: "check ps = Inr () \<longleftrightarrow> (\<forall>p \<in> set ps. p = None \<or> p = Some [])"
  by (auto simp: check_def Let_def filter_empty_conv)

lemma problem_if_None [simp]: "problem_if w n = None \<longleftrightarrow> \<not> w"
  by (simp add: problem_if_def)

lemma problem_if_Some [simp]: "problem_if w n = Some m \<longleftrightarrow> w \<and> n = m"
  by (auto simp: problem_if_def)

lemma texts_problem_None [simp]:
  "texts_problem vs name limit = None \<longleftrightarrow> length vs \<le> MAX_ITEMS \<and> (\<forall>v \<in> set vs. is_text v limit)"
  by (auto simp: texts_problem_def text_problem_def list_all_iff not_le)

lemma texts_problem_empty [simp]: "name \<noteq> [] \<Longrightarrow> texts_problem vs name limit \<noteq> Some []"
  by (auto simp: texts_problem_def)

lemma text_problem_None [simp]: "text_problem v name limit = None \<longleftrightarrow> is_text v limit"
  by (simp add: text_problem_def)

lemma text_problem_named [simp]: "name \<noteq> [] \<Longrightarrow> text_problem v name limit \<noteq> Some []"
  by (simp add: text_problem_def)

lemma optional_problem_named [simp]: "name \<noteq> [] \<Longrightarrow> optional_problem v name limit \<noteq> Some []"
  by (simp add: optional_problem_def split: option.split)

text \<open>
  A constructor checks the values it is given and then puts some of them in order.  When the checks
  do not depend on that order, constructing a built value again changes nothing, and what was
  built satisfies the checks.
\<close>

locale checked =
  fixes mk :: "'a \<Rightarrow> string list + 'a" and problems :: "'a \<Rightarrow> problem list" and norm :: "'a \<Rightarrow> 'a"
  assumes mk_def: "mk x = rbind (check (problems x)) (\<lambda>_. Inr (norm x))"
    and stable: "check (problems x) = Inr () \<Longrightarrow> check (problems (norm x)) = Inr ()"
    and norm_idem: "norm (norm x) = norm x"
begin

lemma mk_Inr: "mk x = Inr y \<longleftrightarrow> check (problems x) = Inr () \<and> y = norm x"
  by (cases "check (problems x)") (auto simp: mk_def)

lemma mk_Inl: "mk x = Inl fs \<longleftrightarrow> check (problems x) = Inl fs"
  by (cases "check (problems x)") (auto simp: mk_def)

lemma mk_again: "mk x = Inr y \<Longrightarrow> mk y = Inr y"
  by (simp add: mk_Inr stable norm_idem)

lemma built_iff: "mk y = Inr y \<longleftrightarrow> check (problems y) = Inr () \<and> norm y = y"
  by (auto simp: mk_Inr)

lemma mk_built: "mk x = Inr y \<Longrightarrow> check (problems y) = Inr () \<and> norm y = y"
  using mk_again built_iff by blast

end

interpretation evidence: checked EvidenceRef evidence_problems "\<lambda>e. e"
  by unfold_locales (simp_all add: EvidenceRef_def)

end
