(* ===== verification/Mig_Parts.thy ===== *)
theory Mig_Parts
  imports Mig_Values
begin

text \<open>
  The parts of a migration plan (core/domain/migrations/steps.py): traces, steps, risks,
  verification checkpoints, rollback considerations, data migrations and compatibility checks.
  Each constructor checks its fields, in the code's order, and sorts the ids it names.
\<close>

section \<open>Traces\<close>

definition MAX_KEY :: nat where "MAX_KEY = 128"

definition key_problem :: "string \<Rightarrow> problem" where
  "key_problem v = text_problem v ''key'' MAX_KEY"

definition traced_problem :: "'a list \<Rightarrow> problem" where
  "traced_problem traces = problem_if (traces = []) ''traces''"

definition step_id :: "(string \<Rightarrow> string) \<Rightarrow> string \<Rightarrow> string" where
  "step_id sha key = content_digest sha ''stp'' [key]"

record trace =
  tr_kind :: trace_kind
  tr_reference :: string
  tr_detail :: "string option"

definition trace_problems :: "trace \<Rightarrow> problem list" where
  "trace_problems t =
     [text_problem (tr_reference t) ''trace.reference'' MAX_REFERENCE,
      optional_problem (tr_detail t) ''trace.detail'' MAX_TEXT]"

definition Trace :: "trace \<Rightarrow> string list + trace" where
  "Trace t = rbind (check (trace_problems t)) (\<lambda>_. Inr t)"

section \<open>Steps\<close>

record migration_step =
  ms_key :: string
  ms_type :: step_type
  ms_title :: string
  ms_outcome :: string
  ms_traces :: "trace list"
  ms_completion :: "string list"
  ms_description :: "string option"
  ms_element_ids :: "string list"
  ms_preconditions :: "string list"
  ms_inputs :: "string list"
  ms_depends_on :: "string list"
  ms_parallelizable :: bool
  ms_downtime :: downtime_status
  ms_downtime_note :: "string option"
  ms_traffic :: "string option"
  ms_availability :: "string list"
  ms_data_impact :: "string option"
  ms_reversibility :: reversibility
  ms_manual_verification :: bool
  ms_assumptions :: "string list"

definition missing_text :: "string option \<Rightarrow> bool" where
  "missing_text t \<longleftrightarrow> t = None \<or> t = Some []"

definition step_problems :: "(string \<Rightarrow> string) \<Rightarrow> migration_step \<Rightarrow> problem list" where
  "step_problems sha s =
     [key_problem (ms_key s),
      text_problem (ms_title s) ''title'' MAX_TITLE,
      text_problem (ms_outcome s) ''outcome'' MAX_TEXT,
      items_problem (ms_traces s) ''traces'',
      traced_problem (ms_traces s),
      texts_problem (ms_completion s) ''completion'' MAX_TEXT,
      problem_if (ms_completion s = []) ''completion'',
      optional_problem (ms_description s) ''description'' MAX_TEXT,
      references_problem (ms_element_ids s) ''element_ids'',
      texts_problem (ms_preconditions s) ''preconditions'' MAX_TEXT,
      texts_problem (ms_inputs s) ''inputs'' MAX_TEXT,
      references_problem (ms_depends_on s) ''depends_on'',
      problem_if (step_id sha (ms_key s) \<in> set (ms_depends_on s)) ''depends_on'',
      optional_problem (ms_downtime_note s) ''downtime_note'' MAX_TEXT,
      optional_problem (ms_traffic s) ''traffic'' MAX_TEXT,
      texts_problem (ms_availability s) ''availability'' MAX_TEXT,
      optional_problem (ms_data_impact s) ''data_impact'' MAX_TEXT,
      texts_problem (ms_assumptions s) ''assumptions'' MAX_TEXT,
      problem_if (ms_downtime s = POTENTIAL_DOWNTIME \<and> missing_text (ms_downtime_note s)) ''downtime_note'']"

definition normalize_step :: "migration_step \<Rightarrow> migration_step" where
  "normalize_step s =
     s\<lparr>ms_element_ids := sorted_set (ms_element_ids s), ms_depends_on := sorted_set (ms_depends_on s)\<rparr>"

definition MigrationStep :: "(string \<Rightarrow> string) \<Rightarrow> migration_step \<Rightarrow> string list + migration_step" where
  "MigrationStep sha s = rbind (check (step_problems sha s)) (\<lambda>_. Inr (normalize_step s))"

definition ms_id :: "(string \<Rightarrow> string) \<Rightarrow> migration_step \<Rightarrow> string" where
  "ms_id sha s = step_id sha (ms_key s)"

section \<open>Risks\<close>

record risk =
  rk_key :: string
  rk_category :: risk_category
  rk_status :: risk_status
  rk_description :: string
  rk_impact :: string
  rk_traces :: "trace list"
  rk_element_ids :: "string list"
  rk_step_ids :: "string list"
  rk_preconditions :: "string list"
  rk_mitigation :: "string option"

definition risk_problems :: "risk \<Rightarrow> problem list" where
  "risk_problems r =
     [key_problem (rk_key r),
      text_problem (rk_description r) ''description'' MAX_TEXT,
      text_problem (rk_impact r) ''impact'' MAX_TEXT,
      items_problem (rk_traces r) ''traces'',
      traced_problem (rk_traces r),
      references_problem (rk_element_ids r) ''element_ids'',
      references_problem (rk_step_ids r) ''step_ids'',
      texts_problem (rk_preconditions r) ''preconditions'' MAX_TEXT,
      optional_problem (rk_mitigation r) ''mitigation'' MAX_TEXT,
      problem_if (rk_status r = POTENTIAL \<and> rk_preconditions r = []) ''preconditions'']"

definition normalize_risk :: "risk \<Rightarrow> risk" where
  "normalize_risk r =
     r\<lparr>rk_element_ids := sorted_set (rk_element_ids r), rk_step_ids := sorted_set (rk_step_ids r)\<rparr>"

definition Risk :: "risk \<Rightarrow> string list + risk" where
  "Risk r = rbind (check (risk_problems r)) (\<lambda>_. Inr (normalize_risk r))"

definition rk_id :: "(string \<Rightarrow> string) \<Rightarrow> risk \<Rightarrow> string" where
  "rk_id sha r = content_digest sha ''rsk'' [rk_key r]"

section \<open>Checkpoints\<close>

definition EVALUATED :: "checkpoint_status list" where
  "EVALUATED = [PASS, FAIL, WARNING]"

definition AWAITING :: "checkpoint_status list" where
  "AWAITING = [MANUAL_VERIFICATION_REQUIRED, NOT_RUN]"

record checkpoint =
  cp_key :: string
  cp_subject :: string
  cp_expected :: string
  cp_status :: checkpoint_status
  cp_basis :: checkpoint_basis
  cp_traces :: "trace list"
  cp_blocking :: bool
  cp_step_ids :: "string list"
  cp_evidence :: "evidence_ref list"
  cp_actual :: "string option"

definition checkpoint_problems :: "checkpoint \<Rightarrow> problem list" where
  "checkpoint_problems c =
     (let current = list_ex (\<lambda>e. ev_state e = CURRENT) (cp_evidence c);
          evaluated = (cp_status c \<in> set EVALUATED)
      in [key_problem (cp_key c),
          text_problem (cp_subject c) ''subject'' MAX_TEXT,
          text_problem (cp_expected c) ''expected'' MAX_TEXT,
          items_problem (cp_traces c) ''traces'',
          traced_problem (cp_traces c),
          references_problem (cp_step_ids c) ''step_ids'',
          items_problem (cp_evidence c) ''evidence'',
          optional_problem (cp_actual c) ''actual'' MAX_TEXT,
          problem_if (evaluated \<and> \<not> current) ''evidence'',
          problem_if (evaluated \<and> cp_basis c \<noteq> MODELED) ''basis'',
          problem_if (cp_basis c = MANUAL \<and> cp_status c \<notin> set AWAITING) ''status''])"

text \<open>
  The evidence is put in order by its key (\<open>sorted(set(evidence), key=...)\<close>); two references with
  the same key keep the order of their first occurrence here, where the code's depends on the set.
\<close>

definition normalize_checkpoint :: "checkpoint \<Rightarrow> checkpoint" where
  "normalize_checkpoint c =
     c\<lparr>cp_step_ids := sorted_set (cp_step_ids c),
       cp_evidence := sort_key evidence_key (remdups (cp_evidence c))\<rparr>"

definition Checkpoint :: "checkpoint \<Rightarrow> string list + checkpoint" where
  "Checkpoint c = rbind (check (checkpoint_problems c)) (\<lambda>_. Inr (normalize_checkpoint c))"

definition cp_id :: "(string \<Rightarrow> string) \<Rightarrow> checkpoint \<Rightarrow> string" where
  "cp_id sha c = content_digest sha ''chk'' [cp_key c]"

section \<open>Rollback considerations\<close>

definition RECOVERABLE :: "reversibility list" where
  "RECOVERABLE = [REVERSIBLE, CONDITIONALLY_REVERSIBLE]"

definition UNRECOVERABLE :: "reversibility list" where
  "UNRECOVERABLE = [IRREVERSIBLE, REVERSIBILITY_UNKNOWN]"

record rollback =
  rb_step_id :: string
  rb_reversibility :: reversibility
  rb_traces :: "trace list"
  rb_triggers :: "string list"
  rb_action :: "string option"
  rb_retained :: "string list"
  rb_preconditions :: "string list"
  rb_consistency :: "string option"
  rb_verification :: "string list"
  rb_limitations :: "string list"

definition rollback_problems :: "rollback \<Rightarrow> problem list" where
  "rollback_problems r =
     [text_problem (rb_step_id r) ''step_id'' MAX_REFERENCE,
      items_problem (rb_traces r) ''traces'',
      traced_problem (rb_traces r),
      texts_problem (rb_triggers r) ''triggers'' MAX_TEXT,
      optional_problem (rb_action r) ''action'' MAX_TEXT,
      texts_problem (rb_retained r) ''retained'' MAX_TEXT,
      texts_problem (rb_preconditions r) ''preconditions'' MAX_TEXT,
      optional_problem (rb_consistency r) ''consistency'' MAX_TEXT,
      texts_problem (rb_verification r) ''verification'' MAX_TEXT,
      texts_problem (rb_limitations r) ''limitations'' MAX_TEXT,
      problem_if (rb_reversibility r \<in> set RECOVERABLE \<and> missing_text (rb_action r)) ''action'',
      problem_if (rb_reversibility r = CONDITIONALLY_REVERSIBLE \<and> rb_preconditions r = []) ''preconditions'',
      problem_if (rb_reversibility r \<in> set UNRECOVERABLE \<and> rb_limitations r = []) ''limitations'']"

definition RollbackConsideration :: "rollback \<Rightarrow> string list + rollback" where
  "RollbackConsideration r = rbind (check (rollback_problems r)) (\<lambda>_. Inr r)"

definition rb_id :: "(string \<Rightarrow> string) \<Rightarrow> rollback \<Rightarrow> string" where
  "rb_id sha r = content_digest sha ''rbk'' [rb_step_id r]"

section \<open>Data migrations\<close>

record data_migration =
  dm_key :: string
  dm_traces :: "trace list"
  dm_source_element_id :: "string option"
  dm_destination_element_id :: "string option"
  dm_scope :: "string option"
  dm_method :: "string option"
  dm_backfill :: "string option"
  dm_replication :: "string option"
  dm_cutover :: "string list"
  dm_step_ids :: "string list"
  dm_verification :: "string list"
  dm_retention :: "string list"
  dm_rollback :: "string option"
  dm_data_loss :: "string option"
  dm_missing :: "string list"

definition data_problems :: "data_migration \<Rightarrow> problem list" where
  "data_problems d =
     [key_problem (dm_key d),
      items_problem (dm_traces d) ''traces'',
      traced_problem (dm_traces d),
      optional_problem (dm_source_element_id d) ''source_element_id'' MAX_REFERENCE,
      optional_problem (dm_destination_element_id d) ''destination_element_id'' MAX_REFERENCE,
      problem_if (missing_text (dm_source_element_id d) \<and> missing_text (dm_destination_element_id d))
        ''source_element_id'',
      optional_problem (dm_scope d) ''scope'' MAX_TEXT,
      optional_problem (dm_method d) ''method'' MAX_TEXT,
      optional_problem (dm_backfill d) ''backfill'' MAX_TEXT,
      optional_problem (dm_replication d) ''replication'' MAX_TEXT,
      texts_problem (dm_cutover d) ''cutover'' MAX_TEXT,
      references_problem (dm_step_ids d) ''step_ids'',
      texts_problem (dm_verification d) ''verification'' MAX_TEXT,
      texts_problem (dm_retention d) ''retention'' MAX_TEXT,
      optional_problem (dm_rollback d) ''rollback'' MAX_TEXT,
      optional_problem (dm_data_loss d) ''data_loss'' MAX_TEXT,
      texts_problem (dm_missing d) ''missing'' MAX_TEXT]"

definition normalize_data :: "data_migration \<Rightarrow> data_migration" where
  "normalize_data d = d\<lparr>dm_step_ids := sorted_set (dm_step_ids d)\<rparr>"

definition DataMigration :: "data_migration \<Rightarrow> string list + data_migration" where
  "DataMigration d = rbind (check (data_problems d)) (\<lambda>_. Inr (normalize_data d))"

definition dm_id :: "(string \<Rightarrow> string) \<Rightarrow> data_migration \<Rightarrow> string" where
  "dm_id sha d = content_digest sha ''dat'' [dm_key d]"

section \<open>Compatibility checks\<close>

datatype compatibility_aspect =
    DATA_MODEL | APPLICATION | PROTOCOL_ASPECT | SCHEMA | VERSION_ASPECT | AUTHENTICATION | CLIENT_CHANGES
  | ROLLBACK_ASPECT

record compatibility =
  cc_key :: string
  cc_aspect :: compatibility_aspect
  cc_status :: compatibility_status
  cc_question :: string
  cc_traces :: "trace list"
  cc_element_ids :: "string list"
  cc_note :: "string option"

definition compatibility_problems :: "compatibility \<Rightarrow> problem list" where
  "compatibility_problems c =
     (let evidenced = list_ex (\<lambda>t. tr_kind t = EVIDENCE_TRACE) (cc_traces c)
      in [key_problem (cc_key c),
          text_problem (cc_question c) ''question'' MAX_TEXT,
          items_problem (cc_traces c) ''traces'',
          traced_problem (cc_traces c),
          references_problem (cc_element_ids c) ''element_ids'',
          optional_problem (cc_note c) ''note'' MAX_TEXT,
          problem_if (cc_status c = VERIFIED \<and> \<not> evidenced) ''traces''])"

definition normalize_compatibility :: "compatibility \<Rightarrow> compatibility" where
  "normalize_compatibility c = c\<lparr>cc_element_ids := sorted_set (cc_element_ids c)\<rparr>"

definition CompatibilityCheck :: "compatibility \<Rightarrow> string list + compatibility" where
  "CompatibilityCheck c = rbind (check (compatibility_problems c)) (\<lambda>_. Inr (normalize_compatibility c))"

definition cc_id :: "(string \<Rightarrow> string) \<Rightarrow> compatibility \<Rightarrow> string" where
  "cc_id sha c = content_digest sha ''cmp'' [cc_key c]"

section \<open>The constructors' contract\<close>

lemma references_sorted: "references_problem vs name = None \<Longrightarrow> references_problem (sorted_set vs) name = None"
  using length_sorted_set[of vs] by (simp add: references_problem_def)

lemma references_named [simp]: "name \<noteq> [] \<Longrightarrow> references_problem vs name \<noteq> Some []"
  by (simp add: references_problem_def)

interpretation trace: checked Trace trace_problems "\<lambda>t. t"
  by unfold_locales (simp_all add: Trace_def)

interpretation mstep: checked "MigrationStep sha" "step_problems sha" normalize_step
  by unfold_locales (auto simp: MigrationStep_def check_ok step_problems_def normalize_step_def references_sorted)

interpretation risk: checked Risk risk_problems normalize_risk
  by unfold_locales (auto simp: Risk_def check_ok risk_problems_def normalize_risk_def references_sorted)

interpretation rollback: checked RollbackConsideration rollback_problems "\<lambda>r. r"
  by unfold_locales (simp_all add: RollbackConsideration_def)

interpretation data: checked DataMigration data_problems normalize_data
  by unfold_locales (auto simp: DataMigration_def check_ok data_problems_def normalize_data_def references_sorted)

interpretation compatibility: checked CompatibilityCheck compatibility_problems normalize_compatibility
  by unfold_locales (auto simp: CompatibilityCheck_def check_ok compatibility_problems_def
      normalize_compatibility_def Let_def references_sorted)

interpretation checkpoint: checked Checkpoint checkpoint_problems normalize_checkpoint
proof unfold_locales
  fix c
  show "Checkpoint c = rbind (check (checkpoint_problems c)) (\<lambda>_. Inr (normalize_checkpoint c))"
    by (rule Checkpoint_def)
  have "list_ex P (sort_key evidence_key (remdups es)) = list_ex P es" for P es
    by (simp add: list_ex_iff)
  moreover have "length (remdups es) \<le> MAX_ITEMS" if "length es \<le> MAX_ITEMS" for es :: "evidence_ref list"
    using that length_remdups_leq le_trans by blast
  ultimately show "check (checkpoint_problems c) = Inr () \<Longrightarrow> check (checkpoint_problems (normalize_checkpoint c)) = Inr ()"
    by (auto simp: check_ok checkpoint_problems_def normalize_checkpoint_def Let_def references_sorted items_problem_def)
  show "normalize_checkpoint (normalize_checkpoint c) = normalize_checkpoint c"
    by (simp add: normalize_checkpoint_def distinct_remdups_id)
qed

text \<open>What a step that was built satisfies.\<close>

lemma built_step:
  assumes "MigrationStep sha s = Inr s"
  shows "step_id sha (ms_key s) \<notin> set (ms_depends_on s)" "distinct (ms_depends_on s)"
    "distinct (ms_element_ids s)" "sorted (ms_depends_on s)" "is_text (ms_key s) MAX_KEY"
    "length (ms_element_ids s) \<le> MAX_ITEMS" "length (ms_depends_on s) \<le> MAX_ITEMS"
    "\<forall>e \<in> set (ms_element_ids s). is_text e MAX_REFERENCE" "\<forall>d \<in> set (ms_depends_on s). is_text d MAX_REFERENCE"
proof -
  have ok: "check (step_problems sha s) = Inr ()" and n: "normalize_step s = s"
    using assms mstep.built_iff by blast+
  from n have "ms_element_ids s = sorted_set (ms_element_ids s)" "ms_depends_on s = sorted_set (ms_depends_on s)"
    by (metis migration_step.select_convs migration_step.surjective migration_step.update_convs normalize_step_def)+
  then show "distinct (ms_depends_on s)" "distinct (ms_element_ids s)" "sorted (ms_depends_on s)"
    by (metis distinct_sorted_set, metis distinct_sorted_set, metis sorted_set_def sorted_sort)
  from ok show "step_id sha (ms_key s) \<notin> set (ms_depends_on s)" "is_text (ms_key s) MAX_KEY"
    "length (ms_element_ids s) \<le> MAX_ITEMS" "length (ms_depends_on s) \<le> MAX_ITEMS"
    "\<forall>e \<in> set (ms_element_ids s). is_text e MAX_REFERENCE" "\<forall>d \<in> set (ms_depends_on s). is_text d MAX_REFERENCE"
    by (simp_all add: check_ok step_problems_def references_problem_def key_problem_def)
qed

end
