(* ===== verification/Mig_Plans.thy ===== *)
theory Mig_Plans
  imports Mig_Parts
begin

text \<open>
  A migration proposal and what it holds besides its parts (core/domain/migrations/plans.py and
  evidence.py): the exact source and target, findings, strategy options, stages of the sequence and
  evidence coverage, the checks that make a proposal consistent, and the status that follows from
  its findings.
\<close>

section \<open>Source and target\<close>

definition MAX_STEPS :: nat where "MAX_STEPS = 500"
definition MAX_FINDINGS :: nat where "MAX_FINDINGS = 1000"

definition BLOCKING_FINDINGS :: "finding_type list" where
  "BLOCKING_FINDINGS =
     [MISSING_INFORMATION, UNSUPPORTED_CHANGE, MANUAL_INTERPRETATION, INVALID_DEPENDENCY, DEPENDENCY_CYCLE,
      MISSING_PREREQUISITE, CONSTRAINT_CONFLICT, STALE_EVIDENCE]"

definition count_ok :: "int \<Rightarrow> bool" where
  "count_ok v \<longleftrightarrow> 1 \<le> v"

definition hash_problem :: "string \<Rightarrow> string \<Rightarrow> problem" where
  "hash_problem v name = problem_if (\<not> FINGERPRINT v) name"

record source_ref =
  sr_architecture_id :: uuid
  sr_revision_number :: int
  sr_content_hash :: string

definition SourceRef :: "source_ref \<Rightarrow> string list + source_ref" where
  "SourceRef s = rbind (check
     [problem_if (\<not> count_ok (sr_revision_number s)) ''source.revision_number'',
      hash_problem (sr_content_hash s) ''source.content_hash'']) (\<lambda>_. Inr s)"

definition CANDIDATE_ID :: "string \<Rightarrow> bool" where
  "CANDIDATE_ID s \<longleftrightarrow> length s = 24 \<and> starts_with s ''evo_'' \<and> list_all hex_lower (drop 4 s)"

record target_ref =
  tg_kind :: target_kind
  tg_architecture_id :: uuid
  tg_revision_number :: int
  tg_content_hash :: string
  tg_analysis_id :: "uuid option"
  tg_candidate_id :: "string option"

definition TargetRef :: "target_ref \<Rightarrow> string list + target_ref" where
  "TargetRef t =
     (let candidate = (tg_kind t = CANDIDATE);
          analysis_ok = ((tg_analysis_id t \<noteq> None) = candidate);
          candidate_ok = ((tg_candidate_id t \<noteq> None) = candidate \<and>
             (case tg_candidate_id t of None \<Rightarrow> True | Some c \<Rightarrow> CANDIDATE_ID c))
      in rbind (check
           [problem_if (\<not> count_ok (tg_revision_number t)) ''target.revision_number'',
            hash_problem (tg_content_hash t) ''target.content_hash'',
            problem_if (\<not> analysis_ok) ''target.analysis_id'',
            problem_if (\<not> candidate_ok) ''target.candidate_id'']) (\<lambda>_. Inr t))"

definition pair_problems :: "source_ref \<Rightarrow> target_ref \<Rightarrow> problem list" where
  "pair_problems s t =
     (let same = (tg_architecture_id t = sr_architecture_id s);
          placed = (if tg_kind t = REVISION then tg_revision_number t > sr_revision_number s
                    else tg_revision_number t = sr_revision_number s)
      in [problem_if (\<not> same) ''target.architecture_id'', problem_if (\<not> placed) ''target.revision_number''])"

section \<open>Findings, strategies, stages and coverage\<close>

record plan_finding =
  pf_type :: finding_type
  pf_key :: string
  pf_message :: string
  pf_element_ids :: "string list"
  pf_step_ids :: "string list"
  pf_missing :: "string list"
  pf_traces :: "trace list"

definition finding_problems :: "plan_finding \<Rightarrow> problem list" where
  "finding_problems f =
     [text_problem (pf_key f) ''finding.key'' 128,
      text_problem (pf_message f) ''finding.message'' MAX_TEXT,
      references_problem (pf_element_ids f) ''finding.element_ids'',
      references_problem (pf_step_ids f) ''finding.step_ids'',
      texts_problem (pf_missing f) ''finding.missing'' MAX_TEXT,
      items_problem (pf_traces f) ''finding.traces'']"

definition normalize_finding :: "plan_finding \<Rightarrow> plan_finding" where
  "normalize_finding f =
     f\<lparr>pf_element_ids := sorted_set (pf_element_ids f), pf_step_ids := sorted_set (pf_step_ids f)\<rparr>"

definition PlanFinding :: "plan_finding \<Rightarrow> string list + plan_finding" where
  "PlanFinding f = rbind (check (finding_problems f)) (\<lambda>_. Inr (normalize_finding f))"

definition pf_id :: "(string \<Rightarrow> string) \<Rightarrow> plan_finding \<Rightarrow> string" where
  "pf_id sha f = content_digest sha ''mfd'' [finding_type_value (pf_type f), pf_key f]"

definition pf_sort_key :: "plan_finding \<Rightarrow> string \<times> string" where
  "pf_sort_key f = (finding_type_value (pf_type f), pf_key f)"

record strategy_option =
  so_pattern :: string
  so_name :: string
  so_applies :: bool
  so_supported :: bool
  so_subjects :: "string list"
  so_missing :: "string list"
  so_tradeoffs :: "string list"
  so_downtime :: downtime_status
  so_reversibility :: reversibility

definition strategy_problems :: "strategy_option \<Rightarrow> problem list" where
  "strategy_problems o' =
     [text_problem (so_pattern o') ''strategy.pattern'' 64,
      text_problem (so_name o') ''strategy.name'' 100,
      problem_if (so_supported o' \<and> (\<not> so_applies o' \<or> so_missing o' \<noteq> [])) ''strategy.supported'',
      references_problem (so_subjects o') ''strategy.subjects'',
      texts_problem (so_missing o') ''strategy.missing'' MAX_TEXT,
      texts_problem (so_tradeoffs o') ''strategy.tradeoffs'' MAX_TEXT]"

definition normalize_strategy :: "strategy_option \<Rightarrow> strategy_option" where
  "normalize_strategy o' = o'\<lparr>so_subjects := sorted_set (so_subjects o')\<rparr>"

definition StrategyOption :: "strategy_option \<Rightarrow> string list + strategy_option" where
  "StrategyOption o' = rbind (check (strategy_problems o')) (\<lambda>_. Inr (normalize_strategy o'))"

record stage =
  sg_number :: int
  sg_step_ids :: "string list"
  sg_parallel :: bool

definition stage_problems :: "stage \<Rightarrow> problem list" where
  "stage_problems s =
     [problem_if (\<not> count_ok (sg_number s)) ''stage.number'',
      (if sg_step_ids s \<noteq> [] then references_problem (sg_step_ids s) ''stage.step_ids'' else Some ''stage.step_ids''),
      problem_if (sg_parallel s \<and> length (sg_step_ids s) < 2) ''stage.parallel'',
      problem_if (\<not> sg_parallel s \<and> length (sg_step_ids s) \<noteq> 1) ''stage.step_ids'']"

definition Stage :: "stage \<Rightarrow> string list + stage" where
  "Stage s = rbind (check (stage_problems s)) (\<lambda>_. Inr s)"

datatype side = SOURCE_SIDE | TARGET_SIDE

fun side_value :: "side \<Rightarrow> string" where
  "side_value SOURCE_SIDE = ''source''"
| "side_value TARGET_SIDE = ''target''"

datatype coverage_state = COVERED | COVERAGE_STALE | COVERAGE_MISSING | UNSUPPORTED

record evidence_coverage =
  ec_source :: evidence_source
  ec_side :: side
  ec_state :: coverage_state
  ec_analysis_ids :: "string list"
  ec_note :: "string option"

definition EvidenceCoverage :: "evidence_coverage \<Rightarrow> string list + evidence_coverage" where
  "EvidenceCoverage c = rbind (check
     [references_problem (ec_analysis_ids c) ''coverage.analysis_ids'',
      optional_problem (ec_note c) ''coverage.note'' MAX_TEXT,
      problem_if (ec_state c \<in> {COVERED, COVERAGE_STALE} \<and> ec_analysis_ids c = []) ''coverage.analysis_ids''])
     (\<lambda>_. Inr c)"

definition ec_key :: "evidence_coverage \<Rightarrow> string \<times> string" where
  "ec_key c = (evidence_source_value (ec_source c), side_value (ec_side c))"

section \<open>The proposal\<close>

record migration_proposal =
  mp_source :: source_ref
  mp_target :: target_ref
  mp_steps :: "migration_step list"
  mp_risks :: "risk list"
  mp_checkpoints :: "checkpoint list"
  mp_rollbacks :: "rollback list"
  mp_data_migrations :: "data_migration list"
  mp_compatibility :: "compatibility list"
  mp_findings :: "plan_finding list"
  mp_evidence :: "evidence_ref list"
  mp_assumptions :: "string list"
  mp_strategy :: "string option"
  mp_models :: "(string \<times> int) list"
  mp_diff_summary :: "string option"
  mp_alternatives :: "strategy_option list"
  mp_sequence :: "stage list"
  mp_coverage :: "evidence_coverage list"

definition findings_problem :: "plan_finding list \<Rightarrow> problem" where
  "findings_problem fs = problem_if (\<not> length fs \<le> MAX_FINDINGS) ''findings''"

definition models_problem :: "(string \<times> int) list \<Rightarrow> problem" where
  "models_problem ms = problem_if (\<not> list_all (\<lambda>(k, v). count_ok v) ms) ''models''"

text \<open>\<open>o.pattern.split("@")[0]\<close>\<close>

definition pattern_name :: "string \<Rightarrow> string" where
  "pattern_name p = takeWhile (\<lambda>c. c \<noteq> CHR 0x40) p"

definition proposal_problems :: "migration_proposal \<Rightarrow> problem list" where
  "proposal_problems p =
     [(if length (mp_steps p) \<le> MAX_STEPS then items_problem (mp_steps p) ''steps'' else Some ''steps''),
      items_problem (mp_risks p) ''risks'',
      items_problem (mp_checkpoints p) ''checkpoints'',
      items_problem (mp_rollbacks p) ''rollbacks'',
      items_problem (mp_data_migrations p) ''data_migrations'',
      items_problem (mp_compatibility p) ''compatibility'',
      findings_problem (mp_findings p),
      items_problem (mp_evidence p) ''evidence'',
      texts_problem (mp_assumptions p) ''assumptions'' MAX_TEXT,
      (case mp_strategy p of None \<Rightarrow> None | Some s \<Rightarrow> code_problem s ''strategy''),
      models_problem (mp_models p),
      optional_problem (mp_diff_summary p) ''diff_summary'' MAX_TEXT,
      items_problem (mp_alternatives p) ''alternatives'',
      items_problem (mp_sequence p) ''sequence'',
      items_problem (mp_coverage p) ''coverage'',
      (case mp_strategy p of
         None \<Rightarrow> None
       | Some s \<Rightarrow> problem_if (\<not> list_ex (\<lambda>o'. so_supported o' \<and> pattern_name (so_pattern o') = s)
                                (mp_alternatives p)) ''strategy'')]"

text \<open>
  \<open>_sequence_problem\<close>: empty, or every step exactly once in numbered stages, parallel only when every
  step of the stage is parallelizable.  \<open>parallelizable\<close> is a dict by step id (a later step with
  the same id replaces the value).
\<close>

definition parallelizable :: "(string \<Rightarrow> string) \<Rightarrow> migration_step list \<Rightarrow> (string \<times> bool) list" where
  "parallelizable sha steps = map (\<lambda>(i, s). (i, ms_parallelizable s)) (dict_of (ms_id sha) steps)"

definition sequence_ok :: "(string \<Rightarrow> string) \<Rightarrow> migration_step list \<Rightarrow> stage list \<Rightarrow> bool" where
  "sequence_ok sha steps stages \<longleftrightarrow>
     (let par = parallelizable sha steps; placed = concat (map sg_step_ids stages)
      in map sg_number stages = map int [1..<length stages + 1] \<and>
         sort placed = sort (map fst par) \<and>
         list_all (\<lambda>st. sg_parallel st \<longrightarrow> list_all (\<lambda>i. map_of par i = Some True) (sg_step_ids st)) stages)"

definition sequence_problem :: "(string \<Rightarrow> string) \<Rightarrow> migration_proposal \<Rightarrow> problem" where
  "sequence_problem sha p =
     (if mp_sequence p = [] then None
      else problem_if (\<not> sequence_ok sha (mp_steps p) (mp_sequence p)) ''sequence'')"

definition consistency :: "(string \<Rightarrow> string) \<Rightarrow> migration_proposal \<Rightarrow> problem list" where
  "consistency sha p =
     (let steps = map (ms_id sha) (mp_steps p);
          refers = (\<lambda>name ids. problem_if (\<not> set ids \<subseteq> set steps) (name @ ''.step_ids''));
          unique = (\<lambda>name ids. problem_if (\<not> distinct (ids :: string list)) name)
      in [refers ''risks'' (concat (map rk_step_ids (mp_risks p))),
          refers ''checkpoints'' (concat (map cp_step_ids (mp_checkpoints p))),
          refers ''rollbacks'' (map rb_step_id (mp_rollbacks p)),
          refers ''data_migrations'' (concat (map dm_step_ids (mp_data_migrations p))),
          unique ''steps'' steps,
          unique ''risks'' (map (rk_id sha) (mp_risks p)),
          unique ''checkpoints'' (map (cp_id sha) (mp_checkpoints p)),
          unique ''rollbacks'' (map (rb_id sha) (mp_rollbacks p)),
          unique ''data_migrations'' (map (dm_id sha) (mp_data_migrations p)),
          unique ''compatibility'' (map (cc_id sha) (mp_compatibility p)),
          unique ''findings'' (map (pf_id sha) (remdups (mp_findings p))),
          sequence_problem sha p])"

definition normalize_proposal :: "(string \<Rightarrow> string) \<Rightarrow> migration_proposal \<Rightarrow> migration_proposal" where
  "normalize_proposal sha p = p\<lparr>
     mp_steps := sort_key (ms_id sha) (mp_steps p),
     mp_risks := sort_key (rk_id sha) (mp_risks p),
     mp_checkpoints := sort_key (cp_id sha) (mp_checkpoints p),
     mp_rollbacks := sort_key (rb_id sha) (mp_rollbacks p),
     mp_data_migrations := sort_key (dm_id sha) (mp_data_migrations p),
     mp_compatibility := sort_key (cc_id sha) (mp_compatibility p),
     mp_findings := sort_key pf_sort_key (remdups (mp_findings p)),
     mp_evidence := sort_key evidence_key (remdups (mp_evidence p)),
     mp_models := sort_key fst (mp_models p),
     mp_alternatives := sort_key so_pattern (mp_alternatives p),
     mp_coverage := sort_key ec_key (mp_coverage p)\<rparr>"

definition MigrationProposal :: "(string \<Rightarrow> string) \<Rightarrow> migration_proposal \<Rightarrow> string list + migration_proposal" where
  "MigrationProposal sha p =
     rbind (check (proposal_problems p)) (\<lambda>_.
     rbind (check (pair_problems (mp_source p) (mp_target p))) (\<lambda>_.
     rbind (check (consistency sha p)) (\<lambda>_.
     Inr (normalize_proposal sha p))))"

definition mp_status :: "migration_proposal \<Rightarrow> plan_status" where
  "mp_status p =
     (if list_ex (\<lambda>f. pf_type f \<in> set BLOCKING_FINDINGS) (mp_findings p) \<or> mp_steps p = []
      then NEEDS_INFORMATION else DRAFT)"

section \<open>The constructors' contract\<close>

interpretation finding: checked PlanFinding finding_problems normalize_finding
  by unfold_locales (auto simp: PlanFinding_def check_ok finding_problems_def normalize_finding_def references_sorted)

interpretation strategy: checked StrategyOption strategy_problems normalize_strategy
  by unfold_locales (auto simp: StrategyOption_def check_ok strategy_problems_def normalize_strategy_def references_sorted)

interpretation stage: checked Stage stage_problems "\<lambda>s. s"
  by unfold_locales (simp_all add: Stage_def)

lemma checks_append: "check (xs @ ys) = Inr () \<longleftrightarrow> check xs = Inr () \<and> check ys = Inr ()"
  by (auto simp: check_ok)

text \<open>A proposal is accepted exactly when none of its three groups of checks refuses it.\<close>

lemma MigrationProposal_Inr:
  "MigrationProposal sha p = Inr q \<longleftrightarrow>
     check (proposal_problems p) = Inr () \<and> check (pair_problems (mp_source p) (mp_target p)) = Inr () \<and>
     check (consistency sha p) = Inr () \<and> q = normalize_proposal sha p"
  by (auto simp: MigrationProposal_def outcome_simps)

end
