(* ===== verification/Strong_Groups.thy ===== *)
theory Strong_Groups
  imports Worklist "HOL-Library.Monad_Syntax"
begin

text \<open>
  The strongly connected groups of a graph, found with a stack and an explicit work list
  (engines/migration/dependency_graph.py \<open>cycles\<close>).  The graph is its successor function; the
  caller says how a group is ordered.  The loop is a partial function: \<open>None\<close> stands for a loop
  that does not return and for a lookup or a pop that raises, and \<open>strong_groups_exact\<close> shows
  that on a finite graph neither happens, and that the groups are exactly the strongly connected
  components with more than one vertex.
\<close>

section \<open>The algorithm\<close>

text \<open>The local variables of \<open>cycles\<close>; the last element of a Python list comes first.\<close>

record 'a search =
  index :: "('a \<times> nat) list"
  low :: "('a \<times> nat) list"
  stack :: "'a list"
  on_stack :: "'a set"
  work :: "('a \<times> 'a list) list"
  groups :: "'a list list"

definition indexed :: "'a search \<Rightarrow> 'a \<Rightarrow> bool" where
  "indexed s x \<longleftrightarrow> x \<in> fst ` set (index s)"

definition enter :: "'a \<Rightarrow> 'a search \<Rightarrow> 'a search" where
  "enter node s = s\<lparr>index := AList.update node (length (index s)) (index s),
                    low := AList.update node (length (index s)) (low s),
                    stack := node # stack s, on_stack := insert node (on_stack s)\<rparr>"

text \<open>\<open>while not group or group[-1] != node: group.append(stack.pop())\<close>\<close>

fun pop_group :: "'a \<Rightarrow> 'a list \<Rightarrow> ('a list \<times> 'a list) option" where
  "pop_group node [] = None"
| "pop_group node (x # rest) =
     (if x = node then Some ([x], rest)
      else map_option (\<lambda>(g, left). (x # g, left)) (pop_group node rest))"

definition close_group :: "('a \<Rightarrow> 'k::linorder) \<Rightarrow> 'a \<Rightarrow> 'a search \<Rightarrow> 'a search option" where
  "close_group key node s = do {
     l \<leftarrow> map_of (low s) node;
     i \<leftarrow> map_of (index s) node;
     (if l = i then do {
        (g, left) \<leftarrow> pop_group node (stack s);
        Some (s\<lparr>stack := left, on_stack := on_stack s - set g,
                groups := groups s @ (if length g > 1 then [sort_key key g] else [])\<rparr>)
      } else Some s)
   }"

definition leave :: "('a \<Rightarrow> 'k::linorder) \<Rightarrow> 'a \<Rightarrow> ('a \<times> 'a list) list \<Rightarrow> 'a search \<Rightarrow> 'a search option"
  where
  "leave key node rest s =
     (case rest of
        [] \<Rightarrow> close_group key node (s\<lparr>work := rest\<rparr>)
      | (parent, _) # _ \<Rightarrow> do {
          p \<leftarrow> map_of (low s) parent;
          l \<leftarrow> map_of (low s) node;
          close_group key node (s\<lparr>low := AList.update parent (min p l) (low s), work := rest\<rparr>)
        })"

definition follow ::
    "('a \<Rightarrow> 'a list) \<Rightarrow> 'a \<Rightarrow> 'a \<Rightarrow> 'a list \<Rightarrow> ('a \<times> 'a list) list \<Rightarrow> 'a search \<Rightarrow> 'a search option" where
  "follow succ node nxt later rest s =
     (if indexed s nxt then do {
        l \<leftarrow> map_of (low s) node;
        i \<leftarrow> map_of (index s) nxt;
        Some (s\<lparr>low := AList.update node (min l i) (low s), work := (node, later) # rest\<rparr>)
      } else Some ((enter nxt s)\<lparr>work := (nxt, succ nxt) # (node, later) # rest\<rparr>))"

definition search_step ::
    "('a \<Rightarrow> 'a list) \<Rightarrow> ('a \<Rightarrow> 'k::linorder) \<Rightarrow> 'a \<Rightarrow> 'a list \<Rightarrow> ('a \<times> 'a list) list \<Rightarrow> 'a search \<Rightarrow>
     'a search option" where
  "search_step succ key node es rest s =
     (case dropWhile (\<lambda>e. \<not> (\<not> indexed s e \<or> e \<in> on_stack s)) es of
        [] \<Rightarrow> leave key node rest s
      | nxt # later \<Rightarrow> follow succ node nxt later rest s)"

partial_function (option) search_loop ::
    "('a \<Rightarrow> 'a list) \<Rightarrow> ('a \<Rightarrow> 'k::linorder) \<Rightarrow> 'a search \<Rightarrow> 'a search option" where
  [code]: "search_loop succ key s =
     (case work s of
        [] \<Rightarrow> Some s
      | (node, es) # rest \<Rightarrow>
          Option.bind (search_step succ key node es rest s) (search_loop succ key))"

fun search_from :: "('a \<Rightarrow> 'a list) \<Rightarrow> ('a \<Rightarrow> 'k::linorder) \<Rightarrow> 'a list \<Rightarrow> 'a search \<Rightarrow> 'a search option"
  where
  "search_from succ key [] s = Some s"
| "search_from succ key (root # roots) s =
     (if indexed s root then search_from succ key roots s
      else Option.bind (search_loop succ key ((enter root s)\<lparr>work := [(root, succ root)]\<rparr>))
             (search_from succ key roots))"

definition strong_groups :: "('a \<Rightarrow> 'a list) \<Rightarrow> ('a \<Rightarrow> 'k::linorder) \<Rightarrow> 'a list \<Rightarrow> 'a list list option" where
  "strong_groups succ key nodes =
     map_option (\<lambda>s. sort_key (\<lambda>g. key (hd g)) (groups s))
       (search_from succ key nodes
          \<lparr>index = [], low = [], stack = [], on_stack = {}, work = [], groups = []\<rparr>)"

section \<open>The invariant\<close>

text \<open>The vertices that reach \<open>x\<close> and are reached from it.\<close>

definition component :: "('a \<Rightarrow> 'a list) \<Rightarrow> 'a \<Rightarrow> 'a set" where
  "component succ x = {y. (x, y) \<in> (edges succ)\<^sup>* \<and> (y, x) \<in> (edges succ)\<^sup>*}"

text \<open>
  The invariant is stated over the known vertices \<open>K\<close>, their numbers, the stack, the work list, the
  low numbers and the groups.  \<open>owner\<close> is the deepest vertex being worked on that was
  entered no later than \<open>x\<close>; its low number bounds every edge seen so far from \<open>x\<close>.
\<close>

definition pending :: "('a \<times> 'a list) list \<Rightarrow> 'a \<Rightarrow> 'a set" where
  "pending W x = (case map_of W x of None \<Rightarrow> {} | Some es \<Rightarrow> set es)"

definition owner :: "('a \<Rightarrow> nat) \<Rightarrow> 'a set \<Rightarrow> 'a \<Rightarrow> 'a \<Rightarrow> bool" where
  "owner num N v x \<longleftrightarrow> v \<in> N \<and> num v \<le> num x \<and> (\<forall>w \<in> N. num v < num w \<longrightarrow> num x < num w)"

definition numbered :: "'a set \<Rightarrow> ('a \<Rightarrow> nat) \<Rightarrow> 'a list \<Rightarrow> ('a \<times> 'a list) list \<Rightarrow> bool" where
  "numbered K num st W \<longleftrightarrow> finite K \<and> inj_on num K \<and> (\<forall>x \<in> K. num x < card K) \<and>
     set st \<subseteq> K \<and> fst ` set W \<subseteq> set st \<and> sorted_wrt (\<lambda>a b. num b < num a) st \<and>
     sorted_wrt (\<lambda>a b. num b < num a) (map fst W)"

definition connected :: "('a \<Rightarrow> 'a list) \<Rightarrow> ('a \<Rightarrow> nat) \<Rightarrow> 'a list \<Rightarrow> ('a \<times> 'a list) list \<Rightarrow> bool" where
  "connected succ num st W \<longleftrightarrow>
     (\<forall>v \<in> fst ` set W. \<forall>x \<in> set st. num v \<le> num x \<longrightarrow> (v, x) \<in> (edges succ)\<^sup>*) \<and>
     (\<forall>x \<in> set st. \<exists>v \<in> fst ` set W. num v \<le> num x \<and> (x, v) \<in> (edges succ)\<^sup>*)"

definition lows :: "('a \<Rightarrow> 'a list) \<Rightarrow> ('a \<Rightarrow> nat) \<Rightarrow> 'a list \<Rightarrow> ('a \<times> 'a list) list \<Rightarrow> ('a \<Rightarrow> nat) \<Rightarrow> bool"
  where
  "lows succ num st W lo \<longleftrightarrow>
     (\<forall>v \<in> fst ` set W. lo v \<le> num v \<and> (\<exists>u \<in> set st. num u = lo v \<and> (v, u) \<in> (edges succ)\<^sup>*))"

definition scanned ::
    "('a \<Rightarrow> 'a list) \<Rightarrow> 'a set \<Rightarrow> ('a \<Rightarrow> nat) \<Rightarrow> 'a list \<Rightarrow> ('a \<times> 'a list) list \<Rightarrow> ('a \<Rightarrow> nat) \<Rightarrow> bool" where
  "scanned succ K num st W lo \<longleftrightarrow>
     (\<forall>x \<in> K - set st. set (succ x) \<subseteq> K - set st) \<and>
     (\<forall>(v, es) \<in> set W. set es \<subseteq> set (succ v)) \<and>
     (\<forall>x \<in> set st. \<forall>y \<in> set (succ x) - pending W x.
        y \<in> K \<and> (y \<in> set st \<longrightarrow> (\<forall>v. owner num (fst ` set W) v x \<longrightarrow> lo v \<le> num y)))"

definition grouped :: "('a \<Rightarrow> 'a list) \<Rightarrow> ('a \<Rightarrow> 'k::linorder) \<Rightarrow> 'a set \<Rightarrow> 'a list list \<Rightarrow> bool" where
  "grouped succ key D gs \<longleftrightarrow>
     (\<forall>g \<in> set gs. distinct g \<and> 1 < length g \<and> sorted (map key g) \<and> set g \<subseteq> D \<and>
        (\<forall>x \<in> set g. set g = component succ x)) \<and>
     (\<forall>x \<in> D. component succ x \<subseteq> D \<and>
        (component succ x \<noteq> {x} \<longrightarrow> (\<exists>g \<in> set gs. set g = component succ x))) \<and>
     distinct (map set gs)"

lemma scannedD:
  assumes "scanned succ K num st W lo" "x \<in> set st" "y \<in> set (succ x) - pending W x"
    "owner num (fst ` set W) v x"
  shows "y \<in> K \<and> (y \<in> set st \<longrightarrow> lo v \<le> num y)"
  using assms unfolding scanned_def by blast

lemma component_self [simp]: "x \<in> component succ x"
  by (simp add: component_def)

lemma component_sym: "y \<in> component succ x \<Longrightarrow> component succ y = component succ x"
  unfolding component_def by (auto intro: rtrancl_trans)

lemma pending_Cons: "pending ((v, es) # W) x = (if x = v then set es else pending W x)"
  by (simp add: pending_def)

lemma pending_None: "x \<notin> fst ` set W \<Longrightarrow> pending W x = {}"
  by (simp add: pending_def map_of_eq_None_iff[THEN iffD2])

lemma numbered_distinct: "sorted_wrt (\<lambda>a b. num b < (num a :: nat)) xs \<Longrightarrow> distinct xs"
  by (induction xs) auto

text \<open>Only the vertex on top owns itself and what was entered after it.\<close>

lemma owner_top:
  assumes "\<And>w. w \<in> N \<Longrightarrow> num w < num v" and "num v \<le> num x"
  shows "owner num (insert v N) u x \<longleftrightarrow> u = v"
proof
  assume "owner num (insert v N) u x"
  then have "u = v \<or> u \<in> N" "num v \<le> num u \<or> num x < num v"
    unfolding owner_def by (auto simp: not_less[symmetric])
  with assms show "u = v" by (meson leD not_less)
next
  assume "u = v"
  with assms show "owner num (insert v N) u x"
    unfolding owner_def by (auto dest: less_asym)
qed

subsection \<open>Each step keeps it\<close>

text \<open>Edges that are known, and bounded by the low number of their source, are taken off.\<close>

lemma owner_self:
  assumes "inj_on num N" "v \<in> N"
  shows "owner num N u v \<longleftrightarrow> u = v"
proof
  assume "owner num N u v"
  then have "u \<in> N" "num u = num v" using assms(2) unfolding owner_def by force+
  with assms show "u = v" by (auto dest: inj_onD)
qed (use assms in \<open>simp add: owner_def\<close>)

lemma scanned_drop:
  assumes "scanned succ K num st (V @ (v, es) # W) lo"
    and inj: "inj_on num (fst ` set (V @ (v, es) # W))" and new: "v \<notin> fst ` set V"
    and "set later \<subseteq> set es"
    and known: "\<And>y. y \<in> set es \<Longrightarrow> y \<notin> set later \<Longrightarrow> y \<in> K \<and> (y \<in> set st \<longrightarrow> lo v \<le> num y)"
  shows "scanned succ K num st (V @ (v, later) # W) lo"
proof -
  let ?N = "fst ` set (V @ (v, es) # W)"
  have N: "fst ` set (V @ (v, later) # W) = ?N" by simp
  have pend: "pending (V @ (v, l) # W) x = (if x = v then set l else pending (V @ W) x)" for x l
    using new map_of_eq_None_iff[of V v] by (simp add: pending_def map_add_def split: option.splits)
  have "y \<in> K \<and> (y \<in> set st \<longrightarrow> (\<forall>u. owner num ?N u x \<longrightarrow> lo u \<le> num y))"
    if x: "x \<in> set st" and y: "y \<in> set (succ x) - pending (V @ (v, later) # W) x" for x y
  proof (cases "x = v \<and> y \<in> set es")
    case True
    then have "owner num ?N u x \<longleftrightarrow> u = v" for u
      using owner_self[OF inj] by simp
    with True known[of y] y show ?thesis by (auto simp: pend)
  next
    case False
    with y have "y \<in> set (succ x) - pending (V @ (v, es) # W) x" by (auto simp: pend split: if_splits)
    with assms(1) x show ?thesis unfolding scanned_def by blast
  qed
  moreover have "\<forall>(v, es) \<in> set (V @ (v, later) # W). set es \<subseteq> set (succ v)"
    using assms(1,4) unfolding scanned_def by auto
  ultimately show ?thesis using assms(1) unfolding scanned_def N by blast
qed

text \<open>A low number decreases to the number of a vertex on the stack that can be reached.\<close>

lemma lows_lower:
  assumes "lows succ num st W lo" "u \<in> set st" "(v, u) \<in> (edges succ)\<^sup>*"
  shows "lows succ num st W (lo(v := min (lo v) (num u)))"
  using assms unfolding lows_def by (auto simp: min_def)

lemma scanned_lower:
  assumes "scanned succ K num st W lo" "\<And>v. lo' v \<le> lo v"
  shows "scanned succ K num st W lo'"
  using assms unfolding scanned_def by (meson le_trans)

text \<open>A vertex is entered: it gets the next number.\<close>

lemma numbered_enter:
  assumes "numbered K num st W" "z \<notin> K"
  shows "numbered (insert z K) (num(z := card K)) (z # st) ((z, es) # W)"
proof -
  have *: "sorted_wrt (\<lambda>a b. (num(z := card K)) b < (num(z := card K)) a) xs \<longleftrightarrow>
      sorted_wrt (\<lambda>a b. num b < num a) xs" if "set xs \<subseteq> K" for xs
    using that
  proof (induction xs)
    case (Cons a xs)
    with assms(2) have "z \<noteq> a" "z \<notin> set xs" by auto
    with Cons show ?case by auto
  qed simp
  have sub: "set st \<subseteq> K" "set (map fst W) \<subseteq> K" "inj_on num K" "finite K" "\<forall>x \<in> K. num x < card K"
    using assms(1) unfolding numbered_def by auto
  have "card K \<notin> num ` K" using sub(5) by (metis image_iff less_irrefl)
  then have "inj_on (num(z := card K)) (insert z K)"
    using sub(3) assms(2) by (auto simp: inj_on_fun_updI)
  moreover have "\<forall>x \<in> insert z K. (num(z := card K)) x < card (insert z K)"
    using sub(4,5) assms(2) by (auto simp: less_Suc_eq)
  moreover have "sorted_wrt (\<lambda>a b. (num(z := card K)) b < (num(z := card K)) a) (z # xs)"
    if "set xs \<subseteq> K" "sorted_wrt (\<lambda>a b. num b < num a) xs" for xs
    using that sub(5) assms(2) *[OF that(1)] by auto
  note new = calculation this
  have old: "set (z # st) \<subseteq> insert z K" "fst ` set ((z, es) # W) \<subseteq> set (z # st)"
    "sorted_wrt (\<lambda>a b. num b < num a) st" "sorted_wrt (\<lambda>a b. num b < num a) (map fst W)"
    using assms(1) unfolding numbered_def by auto
  show ?thesis unfolding numbered_def
    using sub(4) new(1,2) old(1,2) new(3)[OF sub(1) old(3)] new(3)[OF sub(2) old(4)]
    by (intro conjI) simp_all
qed

lemma connected_enter:
  assumes "numbered K num st W" "z \<notin> K" "connected succ num st W"
    and "\<And>v. v \<in> fst ` set W \<Longrightarrow> (v, z) \<in> (edges succ)\<^sup>*"
  shows "connected succ (num(z := card K)) (z # st) ((z, es) # W)"
proof -
  have "set st \<subseteq> K" "fst ` set W \<subseteq> K" using assms(1) unfolding numbered_def by auto
  then have "x \<noteq> z" "num x < card K" if "x \<in> set st \<or> x \<in> fst ` set W" for x
    using that assms(1,2) unfolding numbered_def by auto
  note old = this
  have "(v, x) \<in> (edges succ)\<^sup>*"
    if "v \<in> insert z (fst ` set W)" "x \<in> insert z (set st)" "(num(z := card K)) v \<le> (num(z := card K)) x" for v x
    using that old[of v] old[of x] assms(3,4) unfolding connected_def by (auto split: if_splits)
  moreover have "\<exists>v \<in> insert z (fst ` set W). (num(z := card K)) v \<le> (num(z := card K)) x \<and> (x, v) \<in> (edges succ)\<^sup>*"
    if x: "x \<in> insert z (set st)" for x
  proof (cases "x = z")
    case False
    with x assms(3) obtain v where "v \<in> fst ` set W" "num v \<le> num x" "(x, v) \<in> (edges succ)\<^sup>*"
      unfolding connected_def by blast
    with False old[of v] show ?thesis by (intro bexI[of _ v]) auto
  qed simp
  ultimately show ?thesis unfolding connected_def by simp
qed

lemma lows_enter:
  assumes "numbered K num st W" "z \<notin> K" "lows succ num st W lo"
  shows "lows succ (num(z := card K)) (z # st) ((z, es) # W) (lo(z := card K))"
proof -
  have "set st \<subseteq> K" "fst ` set W \<subseteq> K" using assms(1) unfolding numbered_def by auto
  then have "z \<notin> set st" "z \<notin> fst ` set W" using assms(2) by auto
  with assms(3) show ?thesis unfolding lows_def by auto
qed

lemma scanned_enter:
  assumes "numbered K num st W" "z \<notin> K" "scanned succ K num st W lo"
  shows "scanned succ (insert z K) (num(z := card K)) (z # st) ((z, succ z) # W) (lo(z := card K))"
proof -
  let ?num = "num(z := card K)"
  have sub: "set st \<subseteq> K" "fst ` set W \<subseteq> K" using assms(1) unfolding numbered_def by auto
  have "y \<in> insert z K \<and> (y \<in> set (z # st) \<longrightarrow>
      (\<forall>v. owner ?num (insert z (fst ` set W)) v x \<longrightarrow> (lo(z := card K)) v \<le> ?num y))"
    if x: "x \<in> set (z # st)" and y: "y \<in> set (succ x) - pending ((z, succ z) # W) x" for x y
  proof -
    from y have xz: "x \<noteq> z" by (auto simp: pending_Cons)
    with x y assms(3) have old: "y \<in> K \<and> (y \<in> set st \<longrightarrow> (\<forall>v. owner num (fst ` set W) v x \<longrightarrow> lo v \<le> num y))"
      by (simp add: scanned_def pending_Cons)
    have "x \<in> K" "num x < card K" using x xz sub(1) assms(1) by (auto simp: numbered_def)
    then have "v \<noteq> z \<and> owner num (fst ` set W) v x" if "owner ?num (insert z (fst ` set W)) v x" for v
      using that xz assms(2) sub(2) by (auto simp: owner_def split: if_splits)
    with old assms(2) show ?thesis by auto
  qed
  moreover have "insert z K - set (z # st) = K - set st" using assms(2) by auto
  moreover have "\<forall>(v, es) \<in> set W. set es \<subseteq> set (succ v)" using assms(3) by (simp add: scanned_def)
  ultimately show ?thesis using assms(3) unfolding scanned_def by auto
qed

text \<open>A vertex is left while it reaches one below it: it stays on the stack.\<close>

lemma connected_leave:
  assumes n: "numbered K num st ((v, es) # W)" and c: "connected succ num st ((v, es) # W)"
    and "lows succ num st ((v, es) # W) lo" and less: "lo v < num v"
  shows "connected succ num st W"
proof -
  obtain u where u: "u \<in> set st" "num u < num v" "(v, u) \<in> (edges succ)\<^sup>*"
    using assms(3) less unfolding lows_def by auto
  then obtain w where w: "w \<in> fst ` set W" "num w \<le> num u" "(u, w) \<in> (edges succ)\<^sup>*"
    using c unfolding connected_def by (metis image_insert insertE leD list.simps(15) fst_conv)
  have "\<exists>w \<in> fst ` set W. num w \<le> num x \<and> (x, w) \<in> (edges succ)\<^sup>*" if x: "x \<in> set st" for x
  proof -
    obtain w' where w': "w' = v \<or> w' \<in> fst ` set W" "num w' \<le> num x" "(x, w') \<in> (edges succ)\<^sup>*"
      using c x unfolding connected_def by (metis image_insert insertE list.simps(15) fst_conv)
    show ?thesis
    proof (cases "w' \<in> fst ` set W")
      case False
      with w' have "num v \<le> num x" "(x, v) \<in> (edges succ)\<^sup>*" by auto
      with u w have "num w \<le> num x" "(x, w) \<in> (edges succ)\<^sup>*" by (auto intro: rtrancl_trans)
      with w(1) show ?thesis by blast
    qed (use w' in blast)
  qed
  with c show ?thesis unfolding connected_def by auto
qed

lemma scanned_leave:
  assumes n: "numbered K num st ((v, []) # (p, es) # W)" and s: "scanned succ K num st ((v, []) # (p, es) # W) lo"
    and le: "lo p \<le> lo v"
  shows "scanned succ K num st ((p, es) # W) lo"
proof -
  let ?N = "insert p (fst ` set W)"
  have sorted: "\<And>w. w \<in> ?N \<Longrightarrow> num w < num v" "\<And>w. w \<in> fst ` set W \<Longrightarrow> num w < num p"
    using n unfolding numbered_def by auto
  then have "v \<notin> ?N" by blast
  then have "pending ((v, []) # (p, es) # W) x = pending ((p, es) # W) x" for x
    using pending_None[of v "(p, es) # W"] by (simp add: pending_Cons)
  moreover have "\<exists>u'. owner num (insert v ?N) u' x \<and> lo u \<le> lo u'" if "owner num ?N u x" for u x
  proof (cases "num v \<le> num x")
    case True
    have "u = p" using that owner_top[of "fst ` set W" num p x u] sorted True
      by (meson insertI1 less_imp_le order_trans)
    moreover have "owner num (insert v ?N) v x" using owner_top[of ?N num v x v] sorted(1) True by blast
    ultimately show ?thesis using le by blast
  next
    case False
    with that have "owner num (insert v ?N) u x" by (auto simp: owner_def)
    then show ?thesis by blast
  qed
  ultimately show ?thesis using s unfolding scanned_def
    by simp (meson le_trans)
qed

text \<open>
  A vertex is left that reaches none below it: it and everything above it on the stack is a
  strongly connected component.
\<close>

lemma pop_group_split:
  assumes "sorted_wrt (\<lambda>a b. num b < (num a :: nat)) st" "v \<in> set st"
  shows "\<exists>g left. pop_group v st = Some (g, left) \<and> st = g @ left \<and>
    set g = {x \<in> set st. num v \<le> num x} \<and> set left = {x \<in> set st. num x < num v}"
  using assms
proof (induction st)
  case (Cons x st)
  have less: "num y < num x" if "y \<in> set st" for y using Cons.prems(1) that by simp
  show ?case
  proof (cases "x = v")
    case True
    have "{y \<in> set (x # st). num v \<le> num y} = {v}" "{y \<in> set (x # st). num y < num v} = set st"
      using True less by (auto dest: leD)
    with True show ?thesis by simp
  next
    case False
    with Cons.prems have v: "v \<in> set st" "num v < num x" by auto
    have "sorted_wrt (\<lambda>a b. num b < num a) st" using Cons.prems(1) by simp
    from Cons.IH[OF this v(1)] obtain g left where gl: "pop_group v st = Some (g, left)"
      "st = g @ left" "set g = {x \<in> set st. num v \<le> num x}" "set left = {x \<in> set st. num x < num v}"
      by blast
    have "set (x # g) = {y \<in> set (x # st). num v \<le> num y}"
      "set left = {y \<in> set (x # st). num y < num v}"
      using gl(3,4) v(2) by auto
    moreover have "pop_group v (x # st) = Some (x # g, left)" using False gl(1) by simp
    moreover have "x # st = (x # g) @ left" using gl(2) by simp
    ultimately show ?thesis by blast
  qed
qed simp

definition closing ::
    "('a \<Rightarrow> 'a list) \<Rightarrow> 'a set \<Rightarrow> ('a \<Rightarrow> nat) \<Rightarrow> 'a list \<Rightarrow> 'a \<Rightarrow> ('a \<times> 'a list) list \<Rightarrow> ('a \<Rightarrow> nat) \<Rightarrow> bool" where
  "closing succ K num st v W lo \<longleftrightarrow>
     numbered K num st ((v, []) # W) \<and> connected succ num st ((v, []) # W) \<and>
     lows succ num st ((v, []) # W) lo \<and> scanned succ K num st ((v, []) # W) lo \<and> lo v = num v"

lemma closing_facts:
  assumes "closing succ K num st v W lo"
  shows "w \<in> fst ` set W \<Longrightarrow> num w < num v" "v \<in> set st" "set st \<subseteq> K"
  using assms unfolding closing_def numbered_def by auto

lemma top_closed:
  assumes cl: "closing succ K num st v W lo"
    and x: "x \<in> set st" "num v \<le> num x" and y: "y \<in> set (succ x)"
  shows "y \<in> K \<and> (y \<in> set st \<longrightarrow> num v \<le> num y)"
proof -
  have own: "owner num (insert v (fst ` set W)) v x"
    using owner_top[of "fst ` set W" num v x v] closing_facts(1)[OF cl] x(2) by blast
  have "x \<notin> fst ` set W" using closing_facts(1)[OF cl] x(2) leD by blast
  then have "y \<in> set (succ x) - pending ((v, []) # W) x" using y by (simp add: pending_Cons pending_None)
  moreover have "scanned succ K num st ((v, []) # W) lo" "lo v = num v"
    using cl unfolding closing_def by auto
  ultimately show ?thesis
    using scannedD[of succ K num st "(v, []) # W" lo x y v] x(1) own by simp
qed

lemma done_closed:
  assumes "scanned succ K num st W lo" "(x, y) \<in> (edges succ)\<^sup>*" "x \<in> K - set st"
  shows "y \<in> K - set st"
  using assms(2,3)
proof (induction rule: rtrancl_induct)
  case (step y z)
  with assms(1) show ?case unfolding scanned_def by auto
qed simp

lemma reach_closed:
  assumes cl: "closing succ K num st v W lo" and "(v, y) \<in> (edges succ)\<^sup>*"
  shows "y \<in> K - set st \<or> (y \<in> set st \<and> num v \<le> num y)"
  using assms(2)
proof (induction rule: rtrancl_induct)
  case (step y z)
  then show ?case
  proof (cases "y \<in> K - set st")
    case True
    with cl step.hyps(2) show ?thesis unfolding closing_def scanned_def by auto
  next
    case False
    with step have "y \<in> set st" "num v \<le> num y" "z \<in> set (succ y)" by auto
    with top_closed[OF cl] show ?thesis by blast
  qed
qed (use closing_facts(2)[OF cl] in simp)

lemma component_top:
  assumes cl: "closing succ K num st v W lo"
  shows "component succ v = {x \<in> set st. num v \<le> num x}"
proof (rule set_eqI, rule iffI)
  fix x
  assume x: "x \<in> component succ v"
  then have "x \<in> K - set st \<or> (x \<in> set st \<and> num v \<le> num x)"
    using reach_closed[OF cl] by (simp add: component_def)
  moreover have "x \<notin> K - set st"
    using done_closed[of succ K num st _ lo x v] cl x closing_facts(2)[OF cl]
    unfolding component_def closing_def by blast
  ultimately show "x \<in> {x \<in> set st. num v \<le> num x}" by blast
next
  fix x
  assume "x \<in> {x \<in> set st. num v \<le> num x}"
  then have x: "x \<in> set st" "num v \<le> num x" by auto
  have c: "connected succ num st ((v, []) # W)" using cl unfolding closing_def by blast
  with x have vx: "(v, x) \<in> (edges succ)\<^sup>*" unfolding connected_def by auto
  obtain w where w: "w \<in> insert v (fst ` set W)" "num w \<le> num x" "(x, w) \<in> (edges succ)\<^sup>*"
    using c x(1) unfolding connected_def by (metis image_insert fst_conv list.simps(15))
  have "num w \<le> num v" using w(1) closing_facts(1)[OF cl] by (metis insertE less_imp_le order_refl)
  with c w(1) closing_facts(2)[OF cl] have "(w, v) \<in> (edges succ)\<^sup>*" unfolding connected_def by auto
  with vx w(3) show "x \<in> component succ v" by (auto simp: component_def intro: rtrancl_trans)
qed

lemma close_numbered:
  assumes "closing succ K num st v W lo" "st = g @ left" "set left = {x \<in> set st. num x < num v}"
  shows "numbered K num left W"
proof -
  have n: "numbered K num st ((v, []) # W)" using assms(1) unfolding closing_def by blast
  then have "fst ` set W \<subseteq> set left" "set left \<subseteq> K"
    using closing_facts(1)[OF assms(1)] assms(3) unfolding numbered_def by auto
  moreover have "sorted_wrt (\<lambda>a b. num b < num a) left" "sorted_wrt (\<lambda>a b. num b < num a) (map fst W)"
    using n assms(2) unfolding numbered_def by (auto simp: sorted_wrt_append)
  ultimately show ?thesis using n unfolding numbered_def by blast
qed

lemma close_connected:
  assumes cl: "closing succ K num st v W lo" and left: "set left = {x \<in> set st. num x < num v}"
  shows "connected succ num left W" "lows succ num left W lo"
proof -
  have c: "connected succ num st ((v, []) # W)" and l: "lows succ num st ((v, []) # W) lo"
    using cl unfolding closing_def by blast+
  have "\<exists>w \<in> fst ` set W. num w \<le> num x \<and> (x, w) \<in> (edges succ)\<^sup>*" if x: "x \<in> set left" for x
  proof -
    obtain w where w: "w \<in> insert v (fst ` set W)" "num w \<le> num x" "(x, w) \<in> (edges succ)\<^sup>*"
      using c x left unfolding connected_def by (metis (mono_tags, lifting) fst_conv image_insert list.simps(15) mem_Collect_eq)
    with x left have "w \<in> fst ` set W" by auto
    with w show ?thesis by blast
  qed
  with c left show "connected succ num left W" unfolding connected_def by auto
  have "lo w \<le> num w \<and> (\<exists>u \<in> set left. num u = lo w \<and> (w, u) \<in> (edges succ)\<^sup>*)"
    if w: "w \<in> fst ` set W" for w
  proof -
    obtain u where u: "lo w \<le> num w" "u \<in> set st" "num u = lo w" "(w, u) \<in> (edges succ)\<^sup>*"
      using l w unfolding lows_def by (metis insertI2 image_insert list.simps(15))
    moreover have "num w < num v" using closing_facts(1)[OF cl w] .
    ultimately have "u \<in> set left" using left by simp
    with u show ?thesis by blast
  qed
  then show "lows succ num left W lo" unfolding lows_def by blast
qed

lemma close_scanned:
  assumes cl: "closing succ K num st v W lo" and left: "set left = {x \<in> set st. num x < num v}"
  shows "scanned succ K num left W lo"
proof -
  have s: "scanned succ K num st ((v, []) # W) lo" using cl unfolding closing_def by blast
  have "y \<in> K - set left" if x: "x \<in> K - set left" and y: "y \<in> set (succ x)" for x y
  proof (cases "x \<in> set st")
    case True
    with x left have "num v \<le> num x" by auto
    from top_closed[OF cl True this y] show ?thesis by (simp add: left not_less)
  next
    case False
    with s x y have "y \<in> K - set st" unfolding scanned_def by blast
    with left show ?thesis by simp
  qed
  moreover have "y \<in> K \<and> (y \<in> set left \<longrightarrow> (\<forall>u. owner num (fst ` set W) u x \<longrightarrow> lo u \<le> num y))"
    if x: "x \<in> set left" and y: "y \<in> set (succ x) - pending W x" for x y
  proof -
    have x': "x \<in> set st" "num x < num v" "x \<noteq> v" using x left by auto
    then have "y \<in> set (succ x) - pending ((v, []) # W) x" using y by (simp add: pending_Cons)
    moreover have "owner num (insert v (fst ` set W)) u x" if "owner num (fst ` set W) u x" for u
      using that x'(2) by (auto simp: owner_def)
    moreover have "y \<in> set st" if "y \<in> set left" using that left by simp
    ultimately show ?thesis using s x'(1) unfolding scanned_def by simp
  qed
  moreover have "\<forall>(v, es) \<in> set W. set es \<subseteq> set (succ v)" using s by (auto simp: scanned_def)
  ultimately show ?thesis unfolding scanned_def by blast
qed

lemma close_grouped:
  assumes cl: "closing succ K num st v W lo" and gr: "grouped succ key (K - set st) gs"
    and st: "st = g @ left" "set g = {x \<in> set st. num v \<le> num x}" "set left = {x \<in> set st. num x < num v}"
  shows "grouped succ key (K - set left) (gs @ (if 1 < length g then [sort_key key g] else []))"
proof -
  have comp: "component succ x = set g" if "x \<in> set g" for x
    using that component_sym[of x succ v] component_top[OF cl] st(2) by simp
  have vg: "v \<in> set g" using st(2) closing_facts(2)[OF cl] by simp
  have "sorted_wrt (\<lambda>a b. num b < num a) st" using cl unfolding closing_def numbered_def by blast
  from numbered_distinct[OF this] have dst: "distinct st" .
  then have d: "distinct g" using st(1) by simp
  have D: "K - set left = (K - set st) \<union> set g"
    using st(2,3) closing_facts(3)[OF cl] by (auto simp: not_le)
  have new: "set g \<noteq> set h" if "h \<in> set gs" for h
    using gr that vg st(1) unfolding grouped_def by fastforce
  have long: "1 < length g" if "set g \<noteq> {x}" "x \<in> set g" for x
  proof (rule ccontr)
    assume "\<not> 1 < length g"
    then have "length g \<le> Suc 0" by simp
    with that show False by (cases g) auto
  qed
  let ?gs = "gs @ (if 1 < length g then [sort_key key g] else [])"
  have "distinct h \<and> 1 < length h \<and> sorted (map key h) \<and> set h \<subseteq> K - set left \<and>
      (\<forall>x \<in> set h. set h = component succ x)" if "h \<in> set ?gs" for h
  proof (cases "h \<in> set gs")
    case True
    with gr show ?thesis unfolding grouped_def D by blast
  next
    case False
    with that have "1 < length g" "h = sort_key key g" by (auto split: if_splits)
    with d comp show ?thesis unfolding D by simp
  qed
  moreover have "component succ x \<subseteq> K - set left \<and>
      (component succ x \<noteq> {x} \<longrightarrow> (\<exists>h \<in> set ?gs. set h = component succ x))" if "x \<in> K - set left" for x
  proof (cases "x \<in> set g")
    case True
    with comp[OF True] long[of x] show ?thesis unfolding D by auto
  next
    case False
    with that have "x \<in> K - set st" unfolding D by blast
    with gr show ?thesis unfolding grouped_def D by (metis Un_iff le_supI1 set_append)
  qed
  moreover have "distinct (map set ?gs)"
    using gr new unfolding grouped_def by auto
  ultimately show ?thesis unfolding grouped_def by blast
qed

section \<open>The search\<close>

definition known :: "'a search \<Rightarrow> 'a set" where
  "known s = fst ` set (index s)"

definition num :: "'a search \<Rightarrow> 'a \<Rightarrow> nat" where
  "num s x = the (map_of (index s) x)"

definition lo :: "'a search \<Rightarrow> 'a \<Rightarrow> nat" where
  "lo s x = the (map_of (low s) x)"

definition search_inv :: "('a \<Rightarrow> 'a list) \<Rightarrow> ('a \<Rightarrow> 'k::linorder) \<Rightarrow> 'a set \<Rightarrow> 'a search \<Rightarrow> bool" where
  "search_inv succ key U s \<longleftrightarrow>
     distinct (map fst (index s)) \<and> known s \<subseteq> U \<and> fst ` set (low s) = known s \<and> on_stack s = set (stack s) \<and>
     numbered (known s) (num s) (stack s) (work s) \<and> connected succ (num s) (stack s) (work s) \<and>
     lows succ (num s) (stack s) (work s) (lo s) \<and>
     scanned succ (known s) (num s) (stack s) (work s) (lo s) \<and>
     grouped succ key (known s - set (stack s)) (groups s)"

lemma known_work [simp]: "known (s\<lparr>work := W\<rparr>) = known s" "num (s\<lparr>work := W\<rparr>) = num s" "lo (s\<lparr>work := W\<rparr>) = lo s"
  by (simp_all add: known_def num_def lo_def fun_eq_iff)

lemma known_low [simp]: "known (s\<lparr>low := l\<rparr>) = known s" "num (s\<lparr>low := l\<rparr>) = num s"
  by (simp_all add: known_def num_def fun_eq_iff)

lemma lo_low [simp]: "lo (s\<lparr>low := AList.update v n (low s)\<rparr>) = (lo s)(v := n)"
  by (simp add: lo_def fun_eq_iff update_conv')

lemma known_enter [simp]: "known (enter z s) = insert z (known s)"
  by (auto simp: known_def enter_def dom_update)

lemma num_enter: "distinct (map fst (index s)) \<Longrightarrow> num (enter z s) = (num s)(z := card (known s))"
  "distinct (map fst (index s)) \<Longrightarrow> lo (enter z s) = (lo s)(z := card (known s))"
  using distinct_card[of "map fst (index s)"]
  by (simp_all add: num_def lo_def known_def enter_def fun_eq_iff update_conv')

lemma lookup_known: "x \<in> known s \<Longrightarrow> map_of (index s) x = Some (num s x)"
  "x \<in> fst ` set (low s) \<Longrightarrow> map_of (low s) x = Some (lo s x)"
  by (auto simp: known_def num_def lo_def dest!: weak_map_of_SomeI)

lemma enter_fields [simp]: "stack (enter z s) = z # stack s" "on_stack (enter z s) = insert z (on_stack s)"
  "work (enter z s) = work s" "groups (enter z s) = groups s" "fst ` set (low (enter z s)) = insert z (fst ` set (low s))"
  by (auto simp: enter_def dom_update)

lemma inv_enter:
  assumes i: "search_inv succ key U s" and z: "z \<in> U" "z \<notin> known s"
    and reach: "\<And>v. v \<in> fst ` set (work s) \<Longrightarrow> (v, z) \<in> (edges succ)\<^sup>*"
  shows "search_inv succ key U ((enter z s)\<lparr>work := (z, succ z) # work s\<rparr>)"
proof -
  have d: "distinct (map fst (index s))" using i by (simp add: search_inv_def)
  have "distinct (map fst (index (enter z s)))" using d by (simp add: enter_def distinct_update)
  moreover have "insert z (known s) - set (z # stack s) = known s - set (stack s)" using z(2) by auto
  ultimately show ?thesis
    using i z numbered_enter[of "known s" "num s" "stack s" "work s" z "succ z"]
      connected_enter[of "known s" "num s" "stack s" "work s" z succ "succ z"] reach
      lows_enter[of "known s" "num s" "stack s" "work s" z succ "lo s" "succ z"]
      scanned_enter[of "known s" "num s" "stack s" "work s" z succ "lo s"]
    by (simp add: search_inv_def num_enter[OF d])
qed

lemma inv_drop:
  assumes i: "search_inv succ key U s" and w: "work s = V @ (v, es) # W" and later: "set later \<subseteq> set es"
    and "\<And>y. y \<in> set es \<Longrightarrow> y \<notin> set later \<Longrightarrow> y \<in> known s \<and> (y \<in> set (stack s) \<longrightarrow> lo s v \<le> num s y)"
  shows "search_inv succ key U (s\<lparr>work := V @ (v, later) # W\<rparr>)"
proof -
  have n: "numbered (known s) (num s) (stack s) (V @ (v, es) # W)" using i w by (simp add: search_inv_def)
  then have "inj_on (num s) (fst ` set (V @ (v, es) # W))"
    unfolding numbered_def by (metis inj_on_subset subset_trans)
  moreover have "v \<notin> fst ` set V"
    using n numbered_distinct[of "num s" "map fst (V @ (v, es) # W)"] unfolding numbered_def by auto
  ultimately have "scanned succ (known s) (num s) (stack s) (V @ (v, later) # W) (lo s)"
    using i w assms(4) later
    by (intro scanned_drop[of succ "known s" "num s" "stack s" V v es W "lo s" later])
      (simp_all add: search_inv_def)
  with i w show ?thesis unfolding search_inv_def
    by (simp add: numbered_def connected_def lows_def)
qed

lemma inv_facts:
  assumes "search_inv succ key U s"
  shows "fst ` set (work s) \<subseteq> set (stack s)" "set (stack s) \<subseteq> known s" "on_stack s = set (stack s)"
    "fst ` set (low s) = known s" "known s \<subseteq> U"
  using assms unfolding search_inv_def numbered_def by auto

lemma inv_lower:
  assumes i: "search_inv succ key U s" and v: "v \<in> fst ` set (work s)"
    and u: "u \<in> set (stack s)" "(v, u) \<in> (edges succ)\<^sup>*"
  shows "search_inv succ key U (s\<lparr>low := AList.update v (min (lo s v) (num s u)) (low s)\<rparr>)"
proof -
  have "fst ` set (AList.update v (min (lo s v) (num s u)) (low s)) = known s"
    using inv_facts[OF i] v by (auto simp: dom_update)
  with i show ?thesis
    using lows_lower[of succ "num s" "stack s" "work s" "lo s" u v] u
      scanned_lower[of succ "known s" "num s" "stack s" "work s" "lo s" "(lo s)(v := min (lo s v) (num s u))"]
    unfolding search_inv_def by simp
qed

text \<open>The loop decreases this: fewer vertices to enter, or fewer edges to follow.\<close>

definition effort :: "'a set \<Rightarrow> ('a search \<times> 'a search) set" where
  "effort U = measures [\<lambda>s. card (U - known s), \<lambda>s. sum_list (map (\<lambda>(v, es). Suc (length es)) (work s))]"

lemma wf_effort [simp]: "wf (effort U)"
  by (simp add: effort_def)

lemma inv_close:
  assumes i: "search_inv succ key U s" and w: "work s = (v, []) # W"
    and parent: "\<And>p es W'. W = (p, es) # W' \<Longrightarrow> lo s p \<le> lo s v"
  shows "\<exists>t. close_group key v (s\<lparr>work := W\<rparr>) = Some t \<and> search_inv succ key U t \<and> known t = known s \<and> work t = W"
proof -
  let ?s = "s\<lparr>work := W\<rparr>"
  note f = inv_facts[OF i]
  have v: "v \<in> known s" "v \<in> set (stack s)" using f(1,2) w by auto
  have look: "map_of (low ?s) v = Some (lo s v)" "map_of (index ?s) v = Some (num s v)"
    using lookup_known[of v s] v f(4) by simp_all
  have n: "numbered (known s) (num s) (stack s) ((v, []) # W)" and c: "connected succ (num s) (stack s) ((v, []) # W)"
    and l: "lows succ (num s) (stack s) ((v, []) # W) (lo s)"
    and sc: "scanned succ (known s) (num s) (stack s) ((v, []) # W) (lo s)"
    and g: "grouped succ key (known s - set (stack s)) (groups s)"
    using i w by (simp_all add: search_inv_def)
  show ?thesis
  proof (cases "lo s v = num s v")
    case True
    with n c l sc have cl: "closing succ (known s) (num s) (stack s) v W (lo s)" by (simp add: closing_def)
    have "sorted_wrt (\<lambda>a b. num s b < num s a) (stack s)" using n by (simp add: numbered_def)
    from pop_group_split[OF this v(2)] obtain h left where h: "pop_group v (stack s) = Some (h, left)"
      "stack s = h @ left" "set h = {x \<in> set (stack s). num s v \<le> num s x}"
      "set left = {x \<in> set (stack s). num s x < num s v}" by blast
    let ?t = "?s\<lparr>stack := left, on_stack := on_stack s - set h,
      groups := groups s @ (if 1 < length h then [sort_key key h] else [])\<rparr>"
    have "set (stack s) - set h = set left" using h(3,4) by (auto simp: not_le)
    moreover have "known ?t = known s" "num ?t = num s" "lo ?t = lo s"
      by (simp_all add: known_def num_def lo_def fun_eq_iff)
    ultimately have "search_inv succ key U ?t"
      using i f(3) close_numbered[OF cl h(2,4)] close_connected[OF cl h(4)] close_scanned[OF cl h(4)]
        close_grouped[OF cl g h(2,3,4)]
      unfolding search_inv_def by simp
    with True h(1) look \<open>known ?t = known s\<close> show ?thesis by (simp add: close_group_def)
  next
    case False
    have le: "lo s v \<le> num s v" using l by (simp add: lows_def)
    with False have less: "lo s v < num s v" by simp
    note cW = connected_leave[OF n c l less]
    with v(2) have "W \<noteq> []" unfolding connected_def by auto
    then obtain p es W' where W: "W = (p, es) # W'" by (cases W) auto
    have "scanned succ (known s) (num s) (stack s) W (lo s)"
      using scanned_leave[of "known s" "num s" "stack s" v p es W' succ "lo s"] n sc parent[OF W] W by simp
    with i w cW have "search_inv succ key U ?s"
      by (simp add: search_inv_def numbered_def lows_def)
    with False look show ?thesis by (simp add: close_group_def)
  qed
qed

lemma inv_leave:
  assumes i: "search_inv succ key U s" and w: "work s = (v, []) # W"
  shows "\<exists>t. leave key v W s = Some t \<and> search_inv succ key U t \<and> known t = known s \<and> work t = W"
proof (cases W)
  case Nil
  with inv_close[OF i w] show ?thesis by (simp add: leave_def)
next
  case (Cons pe W')
  then obtain p es where W: "W = (p, es) # W'" by (cases pe) auto
  note f = inv_facts[OF i]
  have "v \<in> fst ` set (work s)" "p \<in> fst ` set (work s)" using w W by auto
  then have vp: "v \<in> set (stack s)" "p \<in> set (stack s)" using f(1) by auto
  have look: "map_of (low s) p = Some (lo s p)" "map_of (low s) v = Some (lo s v)"
    using lookup_known(2)[of p s] lookup_known(2)[of v s] vp f(2,4) by (simp_all add: subset_iff)
  have "num s p < num s v" using i w W by (simp add: search_inv_def numbered_def)
  then have pv: "(p, v) \<in> (edges succ)\<^sup>*" "p \<noteq> v" using i w W vp by (auto simp: search_inv_def connected_def)
  obtain u where u: "u \<in> set (stack s)" "num s u = lo s v" "(v, u) \<in> (edges succ)\<^sup>*"
    using i w unfolding search_inv_def lows_def by auto
  let ?s = "s\<lparr>low := AList.update p (min (lo s p) (lo s v)) (low s)\<rparr>"
  have "search_inv succ key U ?s"
    using inv_lower[OF i _ u(1), of p] pv(1) u(2,3) w W by (auto intro: rtrancl_trans)
  from inv_close[OF this, of v W] w pv(2) W
  obtain t where "close_group key v (?s\<lparr>work := W\<rparr>) = Some t" "search_inv succ key U t" "known t = known s" "work t = W"
    by auto
  with look W show ?thesis unfolding leave_def by simp
qed

text \<open>What \<open>next\<close> passes over is known and no longer on the stack.\<close>

lemma inv_skip:
  assumes i: "search_inv succ key U s" and w: "work s = (v, es) # W"
    and later: "later = dropWhile (\<lambda>e. \<not> (\<not> indexed s e \<or> e \<in> on_stack s)) es"
  shows "search_inv succ key U (s\<lparr>work := (v, later) # W\<rparr>)"
proof (rule inv_drop[OF i, of "[]", simplified, OF w])
  show "set later \<subseteq> set es" using later by (auto dest: set_dropWhileD)
  fix y
  assume "y \<in> set es" "y \<notin> set later"
  then have "y \<in> set (takeWhile (\<lambda>e. \<not> (\<not> indexed s e \<or> e \<in> on_stack s)) es)"
    unfolding later by (metis Un_iff set_append takeWhile_dropWhile_id)
  then have "indexed s y" "y \<notin> on_stack s" by (auto dest: set_takeWhileD)
  with inv_facts(3)[OF i] show "y \<in> known s \<and> (y \<in> set (stack s) \<longrightarrow> lo s v \<le> num s y)"
    by (simp add: indexed_def known_def)
qed

lemma inv_next:
  assumes i: "search_inv succ key U s" and w: "work s = (v, z # later) # W" and zU: "z \<in> U" "finite U"
    and z: "z \<notin> known s \<or> z \<in> set (stack s)"
  shows "\<exists>t. follow succ v z later W s = Some t \<and>
    search_inv succ key U t \<and> known s \<subseteq> known t \<and> (t, s) \<in> effort U"
proof -
  note f = inv_facts[OF i]
  have v: "v \<in> fst ` set (work s)" "v \<in> set (stack s)" "v \<in> known s" using f(1,2) w by auto
  have E: "(v, z) \<in> edges succ" using i w unfolding search_inv_def scanned_def by auto
  show ?thesis
  proof (cases "z \<in> known s")
    case True
    with z have zs: "z \<in> set (stack s)" by simp
    let ?t = "s\<lparr>low := AList.update v (min (lo s v) (num s z)) (low s)\<rparr>"
    have j: "search_inv succ key U ?t" using inv_lower[OF i v(1) zs] E by blast
    have "search_inv succ key U (?t\<lparr>work := (v, later) # W\<rparr>)"
      by (rule inv_drop[OF j, of "[]" v "z # later", simplified]) (use w True in \<open>auto simp: True\<close>)
    moreover have "(?t\<lparr>work := (v, later) # W\<rparr>, s) \<in> effort U" using w by (simp add: effort_def)
    moreover have "map_of (low s) v = Some (lo s v)" "map_of (index s) z = Some (num s z)"
      using lookup_known[of _ s] v(3) f(4) True by simp_all
    ultimately show ?thesis using True by (simp add: follow_def indexed_def flip: known_def)
  next
    case False
    let ?e = "(enter z s)\<lparr>work := (z, succ z) # work s\<rparr>"
    have "(x, z) \<in> (edges succ)\<^sup>*" if "x \<in> fst ` set (work s)" for x
    proof -
      have "num s x \<le> num s v" using i w that unfolding search_inv_def numbered_def by (auto intro: less_imp_le)
      then have "(x, v) \<in> (edges succ)\<^sup>*" using i that v(2) unfolding search_inv_def connected_def by blast
      with E show ?thesis by (rule rtrancl.rtrancl_into_rtrancl[rotated])
    qed
    from inv_enter[OF i zU(1) False this] have j: "search_inv succ key U ?e" by blast
    have "lo s v \<le> num s v" "num s v < card (known s)"
      using i v(1,3) unfolding search_inv_def lows_def numbered_def by auto
    then have lowv: "lo ?e v \<le> num ?e z"
      using i False v(3) num_enter[of s z] by (auto simp: search_inv_def)
    have t: "search_inv succ key U ((enter z s)\<lparr>work := (z, succ z) # (v, later) # W\<rparr>)"
      using inv_drop[OF j, of "[(z, succ z)]" v "z # later" W later] w lowv by auto
    have "card (U - insert z (known s)) < card (U - known s)"
      using zU False by (intro psubset_card_mono) auto
    with t False show ?thesis by (auto simp: follow_def indexed_def effort_def simp flip: known_def)
  qed
qed

context worklist
begin

lemma step_total:
  assumes i: "search_inv step key universe s" and w: "work s = (v, es) # W"
  shows "\<exists>t. search_step step key v es W s = Some t \<and> search_inv step key universe t \<and> known s \<subseteq> known t \<and>
    (t, s) \<in> effort universe"
proof -
  let ?drop = "dropWhile (\<lambda>e. \<not> (\<not> indexed s e \<or> e \<in> on_stack s)) es"
  let ?s = "s\<lparr>work := (v, ?drop) # W\<rparr>"
  have j: "search_inv step key universe ?s" by (rule inv_skip[OF i w refl])
  have len: "length ?drop \<le> length es" by (rule length_dropWhile_le)
  show ?thesis
  proof (cases ?drop)
    case Nil
    from j have "search_inv step key universe (s\<lparr>work := (v, []) # W\<rparr>)" unfolding Nil .
    from inv_leave[OF this, of v W] obtain t where t: "leave key v W (s\<lparr>work := (v, []) # W\<rparr>) = Some t"
      "search_inv step key universe t" "known t = known s" "work t = W" by auto
    moreover have "leave key v W (s\<lparr>work := (v, []) # W\<rparr>) = leave key v W s"
      by (simp add: leave_def split: list.splits)
    ultimately have "search_step step key v es W s = Some t" unfolding search_step_def Nil by simp
    moreover have "(t, s) \<in> effort universe" using t(3,4) w by (simp add: effort_def)
    ultimately show ?thesis using t(2,3) by blast
  next
    case (Cons z later)
    have z: "z \<notin> known s \<or> z \<in> set (stack s)"
      using Cons inv_facts(3)[OF i] by (simp add: dropWhile_eq_Cons_conv indexed_def known_def)
    have "v \<in> universe" using inv_facts(1,2,5)[OF i] w by auto
    moreover have "z \<in> set (step v)" using j Cons unfolding search_inv_def scanned_def by auto
    ultimately have "z \<in> universe" using step_universe by blast
    moreover have "follow step v z later W ?s = follow step v z later W s"
      by (simp add: follow_def indexed_def enter_def)
    ultimately obtain t where t: "follow step v z later W s = Some t"
      "search_inv step key universe t" "known s \<subseteq> known t" "(t, ?s) \<in> effort universe"
      using inv_next[OF j _ _ finite_universe, of v z later W] z Cons by auto
    from t(4) len w have "(t, s) \<in> effort universe" by (auto simp: effort_def)
    moreover have "search_step step key v es W s = Some t"
      using t(1) unfolding search_step_def Cons by simp
    ultimately show ?thesis using t(2,3) by blast
  qed
qed

lemma loop_total:
  assumes "search_inv step key universe s"
  shows "\<exists>t. search_loop step key s = Some t \<and> search_inv step key universe t \<and> known s \<subseteq> known t \<and> work t = []"
  using wf_effort[of universe] assms
proof (induction s rule: wf_induct_rule)
  case (less s)
  show ?case
  proof (cases "work s")
    case Nil
    with less.prems show ?thesis by (subst search_loop.simps) simp
  next
    case (Cons ve W)
    then obtain v es where w: "work s = (v, es) # W" by (cases ve) auto
    from step_total[OF less.prems w] obtain t where t: "search_step step key v es W s = Some t"
      "search_inv step key universe t" "known s \<subseteq> known t" "(t, s) \<in> effort universe" by blast
    with less.IH[OF t(4,2)] show ?thesis by (subst search_loop.simps) (auto simp: w)
  qed
qed

lemma idle_stack: "search_inv step key universe s \<Longrightarrow> work s = [] \<Longrightarrow> stack s = []"
  unfolding search_inv_def connected_def by (cases "stack s") auto

lemma from_total:
  assumes "search_inv step key universe s" "work s = []" "set nodes \<subseteq> universe"
  shows "\<exists>t. search_from step key nodes s = Some t \<and> search_inv step key universe t \<and> known s \<union> set nodes \<subseteq> known t \<and>
    work t = []"
  using assms
proof (induction nodes arbitrary: s)
  case (Cons r nodes)
  show ?case
  proof (cases "indexed s r")
    case True
    then have "r \<in> known s" by (simp add: indexed_def known_def)
    with True Cons.IH[OF Cons.prems(1,2)] Cons.prems(3) show ?thesis by auto
  next
    case False
    then have "r \<notin> known s" "r \<in> universe" using Cons.prems by (auto simp: indexed_def known_def)
    from inv_enter[OF Cons.prems(1) this(2,1)] Cons.prems(2)
    have "search_inv step key universe ((enter r s)\<lparr>work := [(r, step r)]\<rparr>)" by simp
    from loop_total[OF this] obtain t where t: "search_loop step key ((enter r s)\<lparr>work := [(r, step r)]\<rparr>) = Some t"
      "search_inv step key universe t" "insert r (known s) \<subseteq> known t" "work t = []" by auto
    from Cons.IH[OF t(2,4)] Cons.prems(3) obtain u where "search_from step key nodes t = Some u"
      "search_inv step key universe u" "known t \<union> set nodes \<subseteq> known u" "work u = []" by auto
    with False t(1,3) show ?thesis by auto
  qed
qed simp

theorem strong_groups_exact:
  assumes "set nodes = universe"
  shows "\<exists>gs. strong_groups step key nodes = Some gs \<and>
    set ` set gs = {C. \<exists>x \<in> universe. C = component step x \<and> C \<noteq> {x}} \<and>
    distinct (map set gs) \<and> sorted (map (\<lambda>g. key (hd g)) gs) \<and>
    (\<forall>g \<in> set gs. distinct g \<and> sorted (map key g) \<and> 1 < length g)"
proof -
  let ?s = "\<lparr>index = [], low = [], stack = [], on_stack = {}, work = [], groups = []\<rparr> :: 'a search"
  have "search_inv step key universe ?s"
    by (simp add: search_inv_def known_def numbered_def connected_def lows_def scanned_def grouped_def)
  from from_total[OF this, of nodes] assms obtain t where t: "search_from step key nodes ?s = Some t"
    "search_inv step key universe t" "known t = universe" "work t = []"
    using inv_facts(5) by fastforce
  have "grouped step key universe (groups t)"
    using t(2,3) idle_stack[OF t(2,4)] unfolding search_inv_def by simp
  note g = this[unfolded grouped_def]
  let ?gs = "sort_key (\<lambda>g. key (hd g)) (groups t)"
  have "set ` set ?gs = {C. \<exists>x \<in> universe. C = component step x \<and> C \<noteq> {x}}"
  proof (rule set_eqI, rule iffI)
    fix C
    assume "C \<in> set ` set ?gs"
    then obtain h where h: "h \<in> set (groups t)" "C = set h" by auto
    with g have hs: "distinct h" "1 < length h" "set h \<subseteq> universe" "\<forall>x \<in> set h. set h = component step x"
      by blast+
    moreover obtain x where x: "x \<in> set h" using hs(2) by (cases h) auto
    moreover have "card (set h) \<noteq> 1" using hs(1,2) distinct_card[of h] by simp
    then have "set h \<noteq> {x}" by force
    ultimately show "C \<in> {C. \<exists>x \<in> universe. C = component step x \<and> C \<noteq> {x}}" using h(2) by blast
  next
    fix C
    assume "C \<in> {C. \<exists>x \<in> universe. C = component step x \<and> C \<noteq> {x}}"
    with g obtain h where "h \<in> set (groups t)" "set h = C" by blast
    then show "C \<in> set ` set ?gs" by auto
  qed
  moreover have "distinct (map set ?gs)" using g by (simp add: distinct_map)
  moreover have "\<forall>h \<in> set ?gs. distinct h \<and> sorted (map key h) \<and> 1 < length h" using g by simp
  ultimately show ?thesis using t(1) by (auto simp: strong_groups_def)
qed

end

end
