(* ===== verification/Topological.thy ===== *)
theory Topological
  imports Worklist "HOL-Library.Monad_Syntax"
begin

text \<open>
  The loops that order a dependency graph (engines/migration/dependency_graph.py): the vertices a
  vertex waits for (\<open>ancestors\<close>), Kahn's order with ties broken by key (\<open>order\<close>) and the
  levels (\<open>levels\<close>), over a successor function.  \<open>topological\<close> specifies the order without
  the loop: at every position stands the vertex with the least key among those whose dependencies
  all came before, and what is left out at the end waits for something left out.  It determines
  the order when keys are distinct, and leaves out exactly the vertices that wait for a cycle.
\<close>

section \<open>The loops\<close>

text \<open>\<open>ancestors\<close>: the last element of \<open>todo\<close> comes first.\<close>

partial_function (option) gather :: "('a \<Rightarrow> 'a list) \<Rightarrow> 'a list \<Rightarrow> 'a list \<Rightarrow> 'a list option" where
  [code]: "gather succ seen todo =
     (case todo of
        [] \<Rightarrow> Some seen
      | current # rest \<Rightarrow>
          if current \<in> set seen then gather succ seen rest
          else gather succ (current # seen) (rev (succ current) @ rest))"

definition ancestors_of :: "('a \<Rightarrow> 'a list) \<Rightarrow> 'a \<Rightarrow> 'a set option" where
  "ancestors_of succ x = map_option set (gather succ [] (rev (succ x)))"

text \<open>One turn of \<open>order\<close>'s loop: what \<open>current\<close> was the last to be waited for.\<close>

definition released :: "'a \<Rightarrow> ('a \<times> 'a set) list \<Rightarrow> 'a list" where
  "released current waiting = map fst (filter (\<lambda>(i, deps). current \<in> deps \<and> deps - {current} = {}) waiting)"

definition discard :: "'a \<Rightarrow> ('a \<times> 'a set) list \<Rightarrow> ('a \<times> 'a set) list" where
  "discard current waiting = map (\<lambda>(i, deps). (i, deps - {current})) waiting"

lemma released_discard:
  "length (released c w) + length (filter (\<lambda>(i, d). d \<noteq> {}) (discard c w)) =
   length (filter (\<lambda>(i, d). d \<noteq> {}) w)"
  by (induction w) (auto simp: released_def discard_def)

function kahn :: "('a \<Rightarrow> 'k::linorder) \<Rightarrow> ('a \<times> 'a set) list \<Rightarrow> 'a list \<Rightarrow> 'a list \<Rightarrow> 'a list" where
  "kahn key waiting [] ordered = ordered"
| "kahn key waiting (current # rest) ordered =
     kahn key (discard current waiting) (sort_key key (rest @ released current waiting)) (ordered @ [current])"
  by pat_completeness auto
termination
proof (relation "measure (\<lambda>(key, w, ready, os). length ready + length (filter (\<lambda>(i, d). d \<noteq> {}) w))",
    goal_cases)
  case (2 key w c rest os)
  show ?case using released_discard[of c w] by simp
qed simp

definition kahn_order :: "('a \<Rightarrow> 'a list) \<Rightarrow> ('a \<Rightarrow> 'k::linorder) \<Rightarrow> 'a list \<Rightarrow> 'a list" where
  "kahn_order succ key nodes =
     (let waiting = map (\<lambda>i. (i, set (succ i))) nodes
      in kahn key waiting (sort_key key (map fst (filter (\<lambda>(i, deps). deps = {}) waiting))) [])"

text \<open>
  \<open>1 + max(xs, default=-1)\<close>, for numbers that are not negative, and the level of each vertex
  of an order; \<open>None\<close> stands for the \<open>KeyError\<close> of a dependency without a level.
\<close>

definition one_more :: "nat list \<Rightarrow> nat" where
  "one_more xs = fold max (map Suc xs) 0"

fun place_levels :: "('a \<Rightarrow> 'a list) \<Rightarrow> 'a list \<Rightarrow> ('a \<times> nat) list \<Rightarrow> ('a \<times> nat) list option" where
  "place_levels succ [] level = Some level"
| "place_levels succ (x # xs) level = do {
     ds \<leftarrow> those (map (map_of level) (succ x));
     place_levels succ xs (AList.update x (one_more ds) level)
   }"

definition by_level :: "('a \<Rightarrow> 'k::linorder) \<Rightarrow> ('a \<times> nat) list \<Rightarrow> 'a list list" where
  "by_level key level =
     map (\<lambda>n. sort_key key (map fst (filter (\<lambda>(x, l). l = n) level))) [0..<one_more (map snd level)]"

section \<open>What a vertex waits for\<close>

context worklist
begin

lemma gather_total:
  assumes "set seen \<subseteq> universe" "set todo \<subseteq> universe"
    "\<And>x. x \<in> set seen \<Longrightarrow> set (step x) \<subseteq> set seen \<union> set todo"
  shows "\<exists>S. gather step seen todo = Some S \<and> set seen \<union> set todo \<subseteq> set S \<and>
    (\<forall>x \<in> set S. set (step x) \<subseteq> set S) \<and> set S \<subseteq> (edges step)\<^sup>* `` (set seen \<union> set todo)"
proof -
  have "wf (measures [\<lambda>(seen, todo). card (universe - set seen), \<lambda>(seen, todo). length todo])" by simp
  then show ?thesis using assms
  proof (induction "(seen, todo)" arbitrary: seen todo rule: wf_induct_rule)
    case less
    show ?case
    proof (cases todo)
      case Nil
      with less.prems show ?thesis by (subst gather.simps) auto
    next
      case (Cons c rest)
      show ?thesis
      proof (cases "c \<in> set seen")
        case True
        then have "set seen \<union> set todo = set seen \<union> set rest" using Cons by auto
        with less.hyps[of seen rest] less.prems Cons True show ?thesis
          by (subst gather.simps) simp
      next
        case False
        let ?todo = "rev (step c) @ rest"
        have c: "c \<in> universe" using less.prems(2) Cons by simp
        have "card (universe - set (c # seen)) < card (universe - set seen)"
          using c False finite_universe by (intro psubset_card_mono) auto
        moreover have "set ?todo \<subseteq> universe" using less.prems(2) Cons step_universe[OF c] by auto
        moreover have "set (step x) \<subseteq> set (c # seen) \<union> set ?todo" if "x \<in> set (c # seen)" for x
          using that less.prems(3)[of x] Cons by auto
        ultimately obtain S where S: "gather step (c # seen) ?todo = Some S"
          "set (c # seen) \<union> set ?todo \<subseteq> set S" "\<forall>x \<in> set S. set (step x) \<subseteq> set S"
          "set S \<subseteq> (edges step)\<^sup>* `` (set (c # seen) \<union> set ?todo)"
          using less.hyps[of "c # seen" ?todo] less.prems(1) c by auto
        have "(edges step)\<^sup>* `` (set (c # seen) \<union> set ?todo) \<subseteq> (edges step)\<^sup>* `` (set seen \<union> set todo)"
        proof
          fix z
          assume "z \<in> (edges step)\<^sup>* `` (set (c # seen) \<union> set ?todo)"
          then obtain y where "(y, z) \<in> (edges step)\<^sup>*" "y \<in> set seen \<union> set todo \<or> y \<in> set (step c)"
            using Cons by auto
          then show "z \<in> (edges step)\<^sup>* `` (set seen \<union> set todo)"
            using Cons by (metis Image_iff Un_iff converse_rtrancl_into_rtrancl edges_iff list.set_intros(1))
        qed
        with S Cons False show ?thesis by (subst gather.simps) auto
      qed
    qed
  qed
qed

theorem ancestors_exact:
  assumes "x \<in> universe"
  shows "ancestors_of step x = Some {y. (x, y) \<in> (edges step)\<^sup>+}"
proof -
  obtain S where S: "gather step [] (rev (step x)) = Some S" "set (step x) \<subseteq> set S"
    "\<forall>z \<in> set S. set (step z) \<subseteq> set S" "set S \<subseteq> (edges step)\<^sup>* `` set (step x)"
    using gather_total[of "[]" "rev (step x)"] step_universe[OF assms] by auto
  have "y \<in> set S" if "(x, y) \<in> (edges step)\<^sup>+" for y
    using that by induction (use S in auto)
  moreover have "(x, y) \<in> (edges step)\<^sup>+" if "y \<in> set S" for y
    using S(4) that by (meson Image_iff edges_iff rtrancl_into_trancl2 subsetD)
  ultimately show ?thesis using S(1) by (auto simp: ancestors_of_def)
qed

end

section \<open>Kahn's order\<close>

definition topological :: "('a \<Rightarrow> 'a list) \<Rightarrow> ('a \<Rightarrow> 'k::linorder) \<Rightarrow> 'a set \<Rightarrow> 'a list \<Rightarrow> bool" where
  "topological succ key nodes os \<longleftrightarrow>
     distinct os \<and> set os \<subseteq> nodes \<and>
     (\<forall>k < length os. set (succ (os ! k)) \<subseteq> set (take k os) \<and>
        (\<forall>i \<in> nodes - set (take k os). set (succ i) \<subseteq> set (take k os) \<longrightarrow> key (os ! k) \<le> key i)) \<and>
     (\<forall>i \<in> nodes - set os. \<not> set (succ i) \<subseteq> set os)"

text \<open>What the loop keeps: who waits for what, and who is ready.\<close>

definition kahn_inv ::
    "('a \<Rightarrow> 'a list) \<Rightarrow> ('a \<Rightarrow> 'k::linorder) \<Rightarrow> 'a list \<Rightarrow> ('a \<times> 'a set) list \<Rightarrow> 'a list \<Rightarrow> 'a list \<Rightarrow> bool" where
  "kahn_inv succ key nodes waiting ready ordered \<longleftrightarrow>
     waiting = map (\<lambda>i. (i, set (succ i) - set ordered)) nodes \<and> distinct (ordered @ ready) \<and>
     sorted (map key ready) \<and> set ordered \<subseteq> set nodes \<and>
     set ready = {i \<in> set nodes - set ordered. set (succ i) \<subseteq> set ordered} \<and>
     (\<forall>k < length ordered. set (succ (ordered ! k)) \<subseteq> set (take k ordered) \<and>
        (\<forall>i \<in> set nodes - set (take k ordered). set (succ i) \<subseteq> set (take k ordered) \<longrightarrow>
           key (ordered ! k) \<le> key i))"

lemma kahn_inv_next:
  assumes i: "kahn_inv succ key nodes waiting (c # rest) os" and d: "distinct nodes"
  shows "kahn_inv succ key nodes (discard c waiting) (sort_key key (rest @ released c waiting)) (os @ [c])"
proof -
  have w: "waiting = map (\<lambda>i. (i, set (succ i) - set os)) nodes" and dist: "distinct (os @ c # rest)"
    and ready: "set (c # rest) = {i \<in> set nodes - set os. set (succ i) \<subseteq> set os}"
    and sorted: "sorted (map key (c # rest))" and sub: "set os \<subseteq> set nodes"
    using i unfolding kahn_inv_def by blast+
  have c: "c \<in> set nodes" "c \<notin> set os" "set (succ c) \<subseteq> set os" using ready by auto
  then have irrefl: "c \<notin> set (succ c)" by blast
  have disc: "discard c waiting = map (\<lambda>i. (i, set (succ i) - set (os @ [c]))) nodes"
    by (auto simp: w discard_def)
  have rel: "released c waiting = filter (\<lambda>i. c \<in> set (succ i) - set os \<and> set (succ i) - set os - {c} = {}) nodes"
    by (simp add: w released_def filter_map comp_def)
  have new: "set (released c waiting) = {i \<in> set nodes. c \<in> set (succ i) \<and> set (succ i) \<subseteq> insert c (set os)}"
    using c(2) unfolding rel by auto
  have out: "i \<notin> set os" if "c \<in> set (succ i)" for i
  proof
    assume "i \<in> set os"
    then obtain k where "k < length os" "i = os ! k" by (auto simp: in_set_conv_nth)
    with i that have "c \<in> set (take k os)" unfolding kahn_inv_def by auto
    with c(2) show False by (auto dest: in_set_takeD)
  qed
  have "set (rest @ released c waiting) = {i \<in> set nodes - set (os @ [c]). set (succ i) \<subseteq> set (os @ [c])}"
  proof (rule set_eqI, rule iffI)
    fix x
    assume "x \<in> set (rest @ released c waiting)"
    then show "x \<in> {i \<in> set nodes - set (os @ [c]). set (succ i) \<subseteq> set (os @ [c])}"
      using ready dist new out irrefl by (auto simp: set_eq_iff)
  next
    fix x
    assume x: "x \<in> {i \<in> set nodes - set (os @ [c]). set (succ i) \<subseteq> set (os @ [c])}"
    show "x \<in> set (rest @ released c waiting)"
    proof (cases "c \<in> set (succ x)")
      case False
      with x have "x \<in> set (c # rest)" unfolding ready by auto
      with x show ?thesis by auto
    qed (use x new in auto)
  qed
  moreover have "distinct ((os @ [c]) @ rest @ released c waiting)"
  proof -
    have "distinct (released c waiting)" using d unfolding rel by simp
    moreover have "x \<notin> set (os @ [c])" "x \<notin> set rest" if "x \<in> set (released c waiting)" for x
    proof -
      have x: "c \<in> set (succ x)" using that new by simp
      with out irrefl show "x \<notin> set (os @ [c])" by auto
      show "x \<notin> set rest"
      proof
        assume "x \<in> set rest"
        then have "x \<in> set (c # rest)" by simp
        with x c(2) show False unfolding ready by auto
      qed
    qed
    ultimately show ?thesis using dist by auto
  qed
  moreover have "\<forall>k < length (os @ [c]). set (succ ((os @ [c]) ! k)) \<subseteq> set (take k (os @ [c])) \<and>
      (\<forall>i \<in> set nodes - set (take k (os @ [c])). set (succ i) \<subseteq> set (take k (os @ [c])) \<longrightarrow>
         key ((os @ [c]) ! k) \<le> key i)"
  proof (intro allI impI)
    fix k
    assume "k < length (os @ [c])"
    then consider "k < length os" | "k = length os" by force
    then show "set (succ ((os @ [c]) ! k)) \<subseteq> set (take k (os @ [c])) \<and>
      (\<forall>i \<in> set nodes - set (take k (os @ [c])). set (succ i) \<subseteq> set (take k (os @ [c])) \<longrightarrow>
         key ((os @ [c]) ! k) \<le> key i)"
    proof cases
      case 1
      with i show ?thesis unfolding kahn_inv_def by (simp add: nth_append)
    next
      case 2
      have "key c \<le> key i" if "i \<in> set nodes - set os" "set (succ i) \<subseteq> set os" for i
      proof -
        have "i \<in> set (c # rest)" using that unfolding ready by blast
        with sorted show ?thesis by auto
      qed
      with 2 c(3) show ?thesis by simp
    qed
  qed
  ultimately show ?thesis using disc sub c(1) unfolding kahn_inv_def by auto
qed

lemma kahn_topological:
  assumes "kahn_inv succ key nodes waiting ready ordered" "distinct nodes"
  shows "topological succ key (set nodes) (kahn key waiting ready ordered)"
  using assms
proof (induction key waiting ready ordered rule: kahn.induct)
  case (1 key waiting ordered)
  then show ?case by (auto simp: kahn_inv_def topological_def)
next
  case (2 key waiting c rest os)
  from 2(1)[OF kahn_inv_next[OF 2(2,3)] 2(3)] show ?case by simp
qed

theorem kahn_order_topological:
  assumes "distinct nodes"
  shows "topological succ key (set nodes) (kahn_order succ key nodes)"
proof -
  have "kahn_inv succ key nodes (map (\<lambda>i. (i, set (succ i))) nodes)
      (sort_key key (map fst (filter (\<lambda>(i, deps). deps = {}) (map (\<lambda>i. (i, set (succ i))) nodes)))) []"
    using assms by (auto simp: kahn_inv_def filter_map comp_def)
  from kahn_topological[OF this assms] show ?thesis by (simp add: kahn_order_def Let_def)
qed

subsection \<open>What the order says\<close>

lemma topologicalD:
  assumes "topological succ key nodes os" "k < length os"
  shows "os ! k \<in> nodes - set (take k os)" "set (succ (os ! k)) \<subseteq> set (take k os)"
    "i \<in> nodes - set (take k os) \<Longrightarrow> set (succ i) \<subseteq> set (take k os) \<Longrightarrow> key (os ! k) \<le> key i"
proof -
  have "distinct os" "set os \<subseteq> nodes" using assms(1) unfolding topological_def by auto
  moreover have "os ! k \<notin> set (take k os)"
    using \<open>distinct os\<close> assms(2) by (auto simp: in_set_conv_nth nth_eq_iff_index_eq)
  ultimately show "os ! k \<in> nodes - set (take k os)" using assms(2) by (auto dest: nth_mem)
qed (use assms in \<open>auto simp: topological_def\<close>)

lemma topological_longest:
  assumes "topological succ key nodes os" "topological succ key nodes os'"
    "take (length os) os' = os"
  shows "length os' \<le> length os"
proof (rule ccontr)
  assume "\<not> length os' \<le> length os"
  then have k: "length os < length os'" by simp
  from topologicalD(1,2)[OF assms(2) k] assms(1,3) show False unfolding topological_def by metis
qed

text \<open>With distinct keys there is one such order.\<close>

lemma topological_unique:
  assumes os: "topological succ key nodes os" and os': "topological succ key nodes os'" and "inj_on key nodes"
  shows "os = os'"
proof -
  have same: "take k os = take k os'" if "k \<le> length os" "k \<le> length os'" for k
    using that
  proof (induction k)
    case (Suc k)
    then have k: "k < length os" "k < length os'" and eq: "take k os = take k os'" by auto
    note D = topologicalD(1,2)[OF os k(1)] topologicalD(1,2)[OF os' k(2), folded eq]
    have "key (os ! k) \<le> key (os' ! k)" using topologicalD(3)[OF os k(1) D(3,4)] .
    moreover have "key (os' ! k) \<le> key (os ! k)"
      using topologicalD(3)[OF os' k(2), folded eq, OF D(1,2)] .
    ultimately have "os ! k = os' ! k" using D(1,3) assms(3) by (auto dest: inj_onD)
    with eq k show ?case by (simp add: take_Suc_conv_app_nth)
  qed simp
  have "length os = length os'"
  proof (cases "length os \<le> length os'")
    case True
    with same[of "length os"] topological_longest[OF os os'] show ?thesis by simp
  next
    case False
    with same[of "length os'"] topological_longest[OF os' os] show ?thesis by simp
  qed
  with same[of "length os"] show ?thesis by simp
qed

lemma topological_before:
  assumes "topological succ key nodes os" "x \<in> set os" "y \<in> set (succ x)"
  shows "\<exists>i j. i < j \<and> j < length os \<and> os ! i = y \<and> os ! j = x"
proof -
  obtain j where j: "j < length os" "os ! j = x" using assms(2) by (auto simp: in_set_conv_nth)
  with assms(1,3) have "y \<in> set (take j os)" unfolding topological_def by blast
  then obtain i where "i < j" "os ! i = y" by (auto simp: in_set_conv_nth)
  with j show ?thesis by blast
qed

text \<open>A vertex of a finite set that can always go on within it reaches a cycle.\<close>

lemma endless_reaches_cycle:
  assumes "finite B" "\<And>x. x \<in> B \<Longrightarrow> \<exists>y \<in> B. (x, y) \<in> E" "x \<in> B"
  shows "\<exists>y. (x, y) \<in> E\<^sup>* \<and> (y, y) \<in> E\<^sup>+"
proof (rule ccontr)
  assume no: "\<not> ?thesis"
  let ?R = "B \<inter> E\<^sup>* `` {x}"
  let ?E = "E \<inter> ?R \<times> ?R"
  have "finite ?E" using assms(1) by (auto intro: finite_subset[of _ "B \<times> B"])
  moreover have "acyclic ?E"
  proof (rule acyclicI, rule allI, rule notI)
    fix y
    assume "(y, y) \<in> ?E\<^sup>+"
    then have "(y, y) \<in> E\<^sup>+" by (rule trancl_mono) blast
    moreover have "y \<in> ?R" using \<open>(y, y) \<in> ?E\<^sup>+\<close> by (metis (no_types, lifting) IntE SigmaE2 tranclE)
    ultimately show False using no by blast
  qed
  ultimately have "wf (?E\<inverse>)" by (rule finite_acyclic_wf_converse)
  moreover have "x \<in> ?R" using assms(3) by blast
  ultimately obtain z where z: "z \<in> ?R" "\<And>y. (y, z) \<in> ?E\<inverse> \<Longrightarrow> y \<notin> ?R"
    unfolding wf_eq_minimal by metis
  from z(1) assms(2) obtain y where "y \<in> B" "(z, y) \<in> E" by blast
  with z show False by (auto intro: rtrancl.rtrancl_into_rtrancl)
qed

context worklist
begin

lemma universe_reach: "(x, y) \<in> (edges step)\<^sup>* \<Longrightarrow> x \<in> universe \<Longrightarrow> y \<in> universe"
  by (induction rule: rtrancl_induct) (use step_universe in auto)

theorem topological_leaves_out:
  assumes "topological step key universe os"
  shows "set os = {x \<in> universe. \<forall>y. (x, y) \<in> (edges step)\<^sup>* \<longrightarrow> (y, y) \<notin> (edges step)\<^sup>+}"
proof (rule set_eqI, rule iffI)
  fix x
  assume x: "x \<in> set os"
  have closed: "y \<in> set os" if "(x, y) \<in> (edges step)\<^sup>*" for y
    using that by induction (use x topological_before[OF assms] in \<open>auto, force\<close>)
  have d: "distinct os" "set os \<subseteq> universe" using assms unfolding topological_def by auto
  have order: "\<exists>i j. i < j \<and> j < length os \<and> os ! i = z \<and> os ! j = y"
    if "(y, z) \<in> (edges step)\<^sup>+" "y \<in> set os" for y z
    using that(1)
  proof (induction rule: trancl_induct)
    case (step z w)
    then obtain i j where ij: "i < j" "j < length os" "os ! i = z" "os ! j = y" by blast
    moreover from step.hyps(2) ij obtain i' j' where "i' < j'" "j' < length os" "os ! i' = w" "os ! j' = z"
      using topological_before[OF assms, of z w] by auto
    ultimately show ?case using d(1) by (metis less_trans nth_eq_iff_index_eq)
  qed (use topological_before[OF assms that(2)] in auto)
  have "(y, y) \<notin> (edges step)\<^sup>+" if "y \<in> set os" for y
    using order[of y y] that d(1) by (metis less_irrefl less_trans nth_eq_iff_index_eq)
  with closed x d(2) show "x \<in> {x \<in> universe. \<forall>y. (x, y) \<in> (edges step)\<^sup>* \<longrightarrow> (y, y) \<notin> (edges step)\<^sup>+}" by blast
next
  fix x
  assume x: "x \<in> {x \<in> universe. \<forall>y. (x, y) \<in> (edges step)\<^sup>* \<longrightarrow> (y, y) \<notin> (edges step)\<^sup>+}"
  show "x \<in> set os"
  proof (rule ccontr)
    assume "x \<notin> set os"
    moreover have "\<exists>z \<in> universe - set os. (y, z) \<in> edges step" if "y \<in> universe - set os" for y
      using that assms step_universe[of y] unfolding topological_def by (auto 0 3)
    ultimately show False
      using endless_reaches_cycle[of "universe - set os" "edges step" x] finite_universe x by auto
  qed
qed

end

section \<open>Levels\<close>

lemma fold_max_ge: "x \<in> set (a # xs) \<Longrightarrow> x \<le> fold max xs a" for x :: nat
  by (metis List.finite_set Max.set_eq_fold Max_ge)

lemma one_more_greater: "x \<in> set xs \<Longrightarrow> x < one_more xs"
  unfolding one_more_def by (intro Suc_le_lessD fold_max_ge) simp

lemma those_map: "(\<And>x. x \<in> set xs \<Longrightarrow> f x = Some (g x)) \<Longrightarrow> those (map f xs) = Some (map g xs)"
  by (induction xs) auto

text \<open>Every vertex of an order gets a level, above the level of each vertex it waits for.\<close>

lemma place_levels_total:
  assumes "distinct (map fst level @ xs)"
    and "\<And>k. k < length xs \<Longrightarrow> set (succ (xs ! k)) \<subseteq> fst ` set level \<union> set (take k xs)"
  shows "\<exists>lv. place_levels succ xs level = Some lv \<and> map fst lv = map fst level @ xs \<and>
    (\<forall>x \<in> fst ` set level. map_of lv x = map_of level x) \<and>
    (\<forall>x \<in> set xs. map_of lv x = Some (one_more (map (\<lambda>y. the (map_of lv y)) (succ x))))"
  using assms
proof (induction xs arbitrary: level)
  case (Cons x xs)
  let ?n = "one_more (map (\<lambda>y. the (map_of level y)) (succ x))"
  have sub: "set (succ x) \<subseteq> fst ` set level" using Cons.prems(2)[of 0] by simp
  have look: "map_of level y = Some (the (map_of level y))" if "y \<in> fst ` set level" for y
    using that by (metis map_of_eq_None_iff option.collapse)
  then have those: "those (map (map_of level) (succ x)) = Some (map (\<lambda>y. the (map_of level y)) (succ x))"
    using sub by (intro those_map) blast
  have x: "x \<notin> fst ` set level" "x \<notin> set xs" using Cons.prems(1) by auto
  then have upd: "AList.update x ?n level = level @ [(x, ?n)]" by (simp add: update_new)
  have "set (succ (xs ! k)) \<subseteq> fst ` set (level @ [(x, ?n)]) \<union> set (take k xs)" if "k < length xs" for k
    using Cons.prems(2)[of "Suc k"] that by auto
  moreover have "distinct (map fst (level @ [(x, ?n)]) @ xs)" using Cons.prems(1) by auto
  ultimately obtain lv where lv: "place_levels succ xs (level @ [(x, ?n)]) = Some lv"
    "map fst lv = map fst (level @ [(x, ?n)]) @ xs"
    "\<forall>y \<in> fst ` set (level @ [(x, ?n)]). map_of lv y = map_of (level @ [(x, ?n)]) y"
    "\<forall>y \<in> set xs. map_of lv y = Some (one_more (map (\<lambda>y. the (map_of lv y)) (succ y)))"
    using Cons.IH[of "level @ [(x, ?n)]"] by blast
  have ext: "map_of (level @ [(x, ?n)]) = (map_of level)(x \<mapsto> ?n)"
    using x(1) by (simp flip: upd add: update_conv')
  have old: "map_of lv y = map_of level y" if "y \<in> fst ` set level" for y
  proof -
    have "y \<in> fst ` set (level @ [(x, ?n)])" "y \<noteq> x" using that x(1) by auto
    with lv(3) show ?thesis unfolding ext by (metis fun_upd_other)
  qed
  have "x \<in> fst ` set (level @ [(x, ?n)])" by simp
  with lv(3) have "map_of lv x = Some ?n" unfolding ext by simp
  moreover have "map (\<lambda>y. the (map_of lv y)) (succ x) = map (\<lambda>y. the (map_of level y)) (succ x)"
    using old sub by (intro map_cong refl arg_cong[of _ _ the]) blast
  ultimately have "map_of lv x = Some (one_more (map (\<lambda>y. the (map_of lv y)) (succ x)))" by argo
  with lv(4) have "\<forall>y \<in> set (x # xs). map_of lv y = Some (one_more (map (\<lambda>y. the (map_of lv y)) (succ y)))"
    by simp
  moreover have "place_levels succ (x # xs) level = Some lv" using those upd lv(1) by simp
  moreover have "map fst lv = map fst level @ x # xs" using lv(2) by simp
  ultimately show ?case using old by blast
qed simp

lemma by_level_nth:
  assumes "distinct (map fst lv)" "n < length (by_level key lv)"
  shows "set (by_level key lv ! n) = {x. map_of lv x = Some n}" "distinct (by_level key lv ! n)"
    "sorted (map key (by_level key lv ! n))"
  using assms by (auto simp: by_level_def distinct_map_filter map_of_is_SomeI image_iff dest: map_of_SomeD
      intro!: rev_bexI)

lemma by_level_length: "map_of lv x = Some n \<Longrightarrow> n < length (by_level key lv)"
  by (force simp: by_level_def intro: one_more_greater dest: map_of_SomeD)

end
