(* ===== verification/Mig_Sequencing.thy ===== *)
theory Mig_Sequencing
  imports Mig_Plans Strong_Groups Topological
begin

text \<open>
  The dependency graph of a plan's steps (engines/migration/dependency_graph.py) and the validation
  of transitions and sequencing built on it (engines/migration/sequencing.py).  A finding or a stage
  the constructors refuse makes the whole call raise \<open>InvalidMigrationPlan\<close>.  \<open>Stuck\<close> stands for
  a loop that does not return, or a lookup or pop that raises; no call of \<open>sequence\<close> ends so.
\<close>

section \<open>The dependency graph\<close>

datatype plan_error = InvalidMigrationPlan "string list" | LevelsOfInvalidGraph | Stuck

text \<open>A dict of the steps by id, in the order of their keys.\<close>

type_synonym dependency_graph = "(string \<times> migration_step) list"

definition graph_of :: "(string \<Rightarrow> string) \<Rightarrow> migration_step list \<Rightarrow> dependency_graph" where
  "graph_of sha steps = dict_of (ms_id sha) (sort_key ms_key steps)"

definition step_key :: "dependency_graph \<Rightarrow> string \<Rightarrow> string" where
  "step_key g i = (case map_of g i of None \<Rightarrow> [] | Some s \<Rightarrow> ms_key s)"

definition unknown :: "dependency_graph \<Rightarrow> (string \<times> string list) list" where
  "unknown g = filter (\<lambda>(i, missing). missing \<noteq> [])
     (map (\<lambda>(i, s). (i, filter (\<lambda>d. d \<notin> set (map fst g)) (ms_depends_on s))) g)"

definition dep_edges :: "dependency_graph \<Rightarrow> string \<Rightarrow> string list" where
  "dep_edges g i =
     (case map_of g i of
        None \<Rightarrow> []
      | Some s \<Rightarrow> sort_key (step_key g) (filter (\<lambda>d. d \<in> set (map fst g)) (ms_depends_on s)))"

definition cycles :: "dependency_graph \<Rightarrow> string list list option" where
  "cycles g = strong_groups (dep_edges g) (step_key g) (map fst g)"

definition step_ancestors :: "dependency_graph \<Rightarrow> string \<Rightarrow> string set option" where
  "step_ancestors g i = ancestors_of (dep_edges g) i"

definition order :: "dependency_graph \<Rightarrow> string list" where
  "order g = kahn_order (dep_edges g) (step_key g) (map fst g)"

definition returned :: "'a option \<Rightarrow> plan_error + 'a" where
  "returned r = (case r of None \<Rightarrow> Inl Stuck | Some x \<Rightarrow> Inr x)"

definition levels :: "dependency_graph \<Rightarrow> plan_error + string list list" where
  "levels g =
     rbind (returned (cycles g)) (\<lambda>groups.
     if unknown g \<noteq> [] \<or> groups \<noteq> [] then Inl LevelsOfInvalidGraph
     else rbind (returned (place_levels (dep_edges g) (order g) [])) (\<lambda>level.
          Inr (by_level (step_key g) level)))"

definition valid :: "string list + 'a \<Rightarrow> plan_error + 'a" where
  "valid r = (case r of Inl fs \<Rightarrow> Inl (InvalidMigrationPlan fs) | Inr x \<Rightarrow> Inr x)"

fun each :: "('a \<Rightarrow> 'e + 'b) \<Rightarrow> 'a list \<Rightarrow> 'e + 'b list" where
  "each f [] = Inr []"
| "each f (x # xs) = rbind (f x) (\<lambda>y. rbind (each f xs) (\<lambda>ys. Inr (y # ys)))"

definition unknown_finding :: "dependency_graph \<Rightarrow> string \<times> string list \<Rightarrow> plan_finding" where
  "unknown_finding g im =
     (let (i, missing) = im
      in \<lparr>pf_type = INVALID_DEPENDENCY, pf_key = step_key g i,
          pf_message = step_key g i @ '' depends on '' @ nat_str (length missing) @
            '' step(s) the plan does not contain.'',
          pf_element_ids = [], pf_step_ids = [i],
          pf_missing = map (\<lambda>m. ''The step '' @ m @ '', or no dependency on it.'') missing,
          pf_traces = []\<rparr>)"

definition cycle_finding :: "dependency_graph \<Rightarrow> string list \<Rightarrow> plan_finding" where
  "cycle_finding g members =
     (let keys = map (step_key g) members
      in \<lparr>pf_type = DEPENDENCY_CYCLE, pf_key = hd keys,
          pf_message = ''These steps wait for each other, so none can be carried out first: '' @
            join '', '' keys @ ''.'',
          pf_element_ids = concat (map (\<lambda>i. case map_of g i of None \<Rightarrow> [] | Some s \<Rightarrow> ms_element_ids s) members),
          pf_step_ids = members,
          pf_missing = [''A dependency removed so that one of them can be carried out first.''],
          pf_traces = []\<rparr>)"

definition findings :: "dependency_graph \<Rightarrow> plan_error + plan_finding list" where
  "findings g =
     rbind (each (\<lambda>im. valid (PlanFinding (unknown_finding g im)))
              (sort_key (\<lambda>(i, missing). step_key g i) (unknown g))) (\<lambda>unknowns.
     rbind (returned (cycles g)) (\<lambda>groups.
     rbind (each (\<lambda>members. valid (PlanFinding (cycle_finding g members))) groups) (\<lambda>cyclic.
     Inr (unknowns @ cyclic))))"

section \<open>Transitions\<close>

datatype relevance = MIGRATION | METADATA

text \<open>What the transitions read of a classified change (core/domain/migrations/changes.py).\<close>

record migration_change =
  mc_element :: string
  mc_element_id :: string
  mc_change :: change_kind
  mc_relevance :: relevance

definition relevant :: "migration_change list \<Rightarrow> migration_change list" where
  "relevant changes = filter (\<lambda>c. mc_relevance c = MIGRATION) changes"

record transitions =
  tn_added :: "string list"
  tn_connections :: "string list"
  tn_removed :: "string list"

definition Transitions :: "migration_change list \<Rightarrow> transitions" where
  "Transitions changes =
     (let added = filter (\<lambda>c. mc_change c = ADDED) (relevant changes)
      in \<lparr>tn_added = map mc_element_id added,
          tn_connections = map mc_element_id (filter (\<lambda>c. mc_element c = ''connection'') added),
          tn_removed = map mc_element_id (filter (\<lambda>c. mc_change c = REMOVED) (relevant changes))\<rparr>)"

definition provisions :: "transitions \<Rightarrow> migration_step \<Rightarrow> string \<Rightarrow> bool" where
  "provisions t step element \<longleftrightarrow>
     (if ms_type step \<noteq> PROVISION \<or> element \<notin> set (ms_element_ids step) then False
      else ms_element_ids step = [element] \<or> element \<in> set (tn_connections t))"

definition missing_finding ::
    "(string \<Rightarrow> string) \<Rightarrow> migration_step \<Rightarrow> string \<Rightarrow> string \<Rightarrow> string \<Rightarrow> plan_finding" where
  "missing_finding sha step rule message needed =
     \<lparr>pf_type = MISSING_PREREQUISITE, pf_key = rule @ '':'' @ ms_key step, pf_message = message,
      pf_element_ids = ms_element_ids step, pf_step_ids = [ms_id sha step], pf_missing = [needed],
      pf_traces = []\<rparr>"

definition CUTOVER_AFTER :: "step_type list" where
  "CUTOVER_AFTER = [VERIFY, PREPARE]"

definition DOWNTIME :: "downtime_status list" where
  "DOWNTIME = [KNOWN_DOWNTIME, POTENTIAL_DOWNTIME]"

definition consequential :: "migration_step \<Rightarrow> bool" where
  "consequential step \<longleftrightarrow> ms_type step = CUTOVER \<or> ms_reversibility step = IRREVERSIBLE \<or>
     ms_downtime step \<in> set DOWNTIME"

text \<open>The keys of the steps that still concern an element, though its removal does not wait for them.\<close>

definition still_concern ::
    "dependency_graph \<Rightarrow> transitions \<Rightarrow> string \<Rightarrow> string set \<Rightarrow> string \<Rightarrow> string list" where
  "still_concern g t this_id ancs element =
     sort (map (\<lambda>(i, s). ms_key s)
       (filter (\<lambda>(i, s). element \<in> set (tn_removed t) \<and> i \<noteq> this_id \<and> element \<in> set (ms_element_ids s) \<and>
                i \<notin> ancs) g))"

definition transition_findings ::
    "(string \<Rightarrow> string) \<Rightarrow> dependency_graph \<Rightarrow> transitions \<Rightarrow> string \<Rightarrow> migration_step \<Rightarrow> string set \<Rightarrow>
     plan_finding list" where
  "transition_findings sha g t this_id step ancs =
     (let earlier = map snd (filter (\<lambda>(i, s). i \<in> ancs) g);
          types = map ms_type earlier;
          provisioned = map (\<lambda>e. missing_finding sha step (''provisioned:'' @ e)
              (ms_key step @ '' concerns '' @ e @ '', which the target adds, before it is provisioned.'')
              (''A dependency on the step provisioning '' @ e @ ''.''))
            (filter (\<lambda>e. \<not> provisions t step e \<and> \<not> list_ex (\<lambda>a. provisions t a e) earlier)
              (sorted_set (filter (\<lambda>e. e \<in> set (tn_added t)) (ms_element_ids step))));
          retired = (case ms_element_ids step of
              [e] \<Rightarrow> (let later = still_concern g t this_id ancs e in
                 if ms_type step = DECOMMISSION \<and> later \<noteq> [] then
                   [missing_finding sha step (''retired:'' @ e)
                     (ms_key step @ '' removes '' @ e @ '' before steps that still concern it: '' @
                      join '', '' later @ ''.'')
                     (''Dependencies on '' @ join '', '' later @ ''.'')]
                 else [])
            | _ \<Rightarrow> []);
          cutover = (if ms_type step = CUTOVER \<and> set types \<inter> set CUTOVER_AFTER = {} then
              [missing_finding sha step ''verified''
                (ms_key step @ '' switches over without a verification or preparation before it.'')
                ''A dependency on a step verifying or preparing what it switches to.'']
            else []);
          decommission = (if ms_type step = DECOMMISSION \<and> VERIFY \<notin> set types then
              [missing_finding sha step ''verified''
                (ms_key step @ '' removes something without a verification before it.'')
                ''A dependency on a step verifying that nothing uses what it removes.'']
            else []);
          manual = (if consequential step \<and> \<not> ms_manual_verification step then
              [missing_finding sha step ''manual''
                (ms_key step @ '' is a cutover, is irreversible or causes downtime, and no person verifies it '' @
                 ''before the plan proceeds.'')
                ''Manual verification of this step.'']
            else [])
      in provisioned @ retired @ cutover @ decommission @ manual)"

definition check_transition ::
    "(string \<Rightarrow> string) \<Rightarrow> dependency_graph \<Rightarrow> transitions \<Rightarrow> string \<times> migration_step \<Rightarrow>
     plan_error + plan_finding list" where
  "check_transition sha g t entry =
     rbind (returned (step_ancestors g (fst entry))) (\<lambda>ancs.
     each (\<lambda>f. valid (PlanFinding f)) (transition_findings sha g t (fst entry) (snd entry) ancs))"

section \<open>The sequence\<close>

record sequencing =
  sq_sequence :: "stage list"
  sq_findings :: "plan_finding list"

definition together :: "dependency_graph \<Rightarrow> string list \<Rightarrow> string list" where
  "together g level =
     (let par = filter (\<lambda>i. case map_of g i of None \<Rightarrow> False | Some s \<Rightarrow> ms_parallelizable s) level
      in if length par < 2 then [] else par)"

text \<open>
  The steps of the stages a level adds, and whether they run in parallel; the stages are numbered
  in turn.
\<close>

definition level_groups :: "dependency_graph \<Rightarrow> string list \<Rightarrow> (string list \<times> bool) list" where
  "level_groups g level =
     (let par = together g level
      in (if par = [] then [] else [(par, True)]) @
         map (\<lambda>i. ([i], False)) (filter (\<lambda>i. i \<notin> set par) level))"

fun number_stages :: "nat \<Rightarrow> (string list \<times> bool) list \<Rightarrow> plan_error + stage list" where
  "number_stages n [] = Inr []"
| "number_stages n ((ids, par) # rest) =
     rbind (valid (Stage \<lparr>sg_number = int n + 1, sg_step_ids = ids, sg_parallel = par\<rparr>)) (\<lambda>stage.
     rbind (number_stages (Suc n) rest) (\<lambda>stages. Inr (stage # stages)))"

definition stages :: "dependency_graph \<Rightarrow> plan_error + stage list" where
  "stages g = rbind (levels g) (\<lambda>ls. number_stages 0 (concat (map (level_groups g) ls)))"

definition sequence :: "(string \<Rightarrow> string) \<Rightarrow> migration_step list \<Rightarrow> migration_change list \<Rightarrow> plan_error + sequencing"
  where
  "sequence sha steps changes =
     (let g = graph_of sha steps in
      rbind (findings g) (\<lambda>fs.
      if fs \<noteq> [] then Inr \<lparr>sq_sequence = [], sq_findings = fs\<rparr>
      else rbind (stages g) (\<lambda>sts.
           rbind (each (check_transition sha g (Transitions changes)) g) (\<lambda>found.
           Inr \<lparr>sq_sequence = sts, sq_findings = concat found\<rparr>))))"

section \<open>The graph's own facts\<close>

lemma set_dep_edges:
  "set (dep_edges g i) = {d. \<exists>s. map_of g i = Some s \<and> d \<in> set (ms_depends_on s) \<and> d \<in> set (map fst g)}"
  by (cases "map_of g i") (auto simp: dep_edges_def image_iff)

interpretation deps: worklist "dep_edges g" "set (map fst g)"
  by unfold_locales (auto simp: set_dep_edges)

end
