(* ===== verification/Mig_Sequence_Props.thy ===== *)
theory Mig_Sequence_Props
  imports Mig_Sequencing "HOL-Library.Multiset"
begin

text \<open>
  What the dependency graph and the sequencing guarantee: cycles are the strongly connected groups,
  the order exists exactly when nothing waits for a cycle, the stages hold every step once with each
  dependency in an earlier stage, and a plan without findings has its prerequisites.
\<close>

section \<open>Cycles and the order\<close>

abbreviation waits :: "dependency_graph \<Rightarrow> (string \<times> string) set" where
  "waits g \<equiv> edges (dep_edges g)"

lemma graph_distinct: "distinct (map fst (graph_of sha steps))"
  by (simp add: graph_of_def dict_of_keys_distinct)

lemmas cycles_exact = deps.strong_groups_exact[OF refl, of g "step_key g", folded cycles_def] for g

lemma cycles_total: "\<exists>gs. cycles g = Some gs"
  using cycles_exact[of g] by (elim exE conjE) (rule exI)

lemma waits_nodes: "(i, d) \<in> waits g \<Longrightarrow> i \<in> set (map fst g) \<and> d \<in> set (map fst g)"
  by (auto simp: set_dep_edges dest: map_of_SomeD intro: rev_image_eqI)

lemma cycles_Nil:
  assumes "\<And>i. i \<notin> set (dep_edges g i)"
  shows "cycles g = Some [] \<longleftrightarrow> acyclic (waits g)"
proof -
  obtain gs where gs: "cycles g = Some gs"
    "set ` set gs = {C. \<exists>x \<in> set (map fst g). C = component (dep_edges g) x \<and> C \<noteq> {x}}"
    using cycles_exact[of g] by (elim exE conjE) (rule that)
  have "(\<exists>x \<in> set (map fst g). component (dep_edges g) x \<noteq> {x}) \<longleftrightarrow> \<not> acyclic (waits g)"
  proof
    assume "\<exists>x \<in> set (map fst g). component (dep_edges g) x \<noteq> {x}"
    then obtain x where x: "component (dep_edges g) x \<noteq> {x}" by blast
    with component_self[of x "dep_edges g"] obtain y where "y \<in> component (dep_edges g) x" "y \<noteq> x" by blast
    then have "(x, y) \<in> (waits g)\<^sup>+" "(y, x) \<in> (waits g)\<^sup>*" by (auto simp: component_def rtrancl_eq_or_trancl)
    then have "(x, x) \<in> (waits g)\<^sup>+" by (rule trancl_rtrancl_trancl)
    then show "\<not> acyclic (waits g)" by (auto simp: acyclic_def)
  next
    assume "\<not> acyclic (waits g)"
    then obtain x where "(x, x) \<in> (waits g)\<^sup>+" by (auto simp: acyclic_def)
    then obtain y where y: "(x, y) \<in> waits g" "(y, x) \<in> (waits g)\<^sup>*" by (meson tranclD)
    then have "y \<in> component (dep_edges g) x" by (auto simp: component_def)
    moreover have "y \<noteq> x" using y(1) assms by auto
    ultimately show "\<exists>x \<in> set (map fst g). component (dep_edges g) x \<noteq> {x}" using waits_nodes[OF y(1)] by auto
  qed
  moreover have "gs = [] \<longleftrightarrow> \<not> (\<exists>x \<in> set (map fst g). component (dep_edges g) x \<noteq> {x})"
  proof -
    have "gs = [] \<longleftrightarrow> set ` set gs = {}" by simp
    then show ?thesis unfolding gs(2) by blast
  qed
  ultimately show ?thesis using gs(1) by simp
qed

lemma update_subset: "set (AList.update k v al) \<subseteq> insert (k, v) (set al)"
  by (induction al) auto

lemma fold_update_entries:
  "\<forall>(k, x) \<in> set al. k = key x \<Longrightarrow> \<forall>(k, x) \<in> set (fold (\<lambda>x. AList.update (key x) x) xs al). k = key x"
proof (induction xs arbitrary: al)
  case (Cons x xs)
  have "\<forall>(k, y) \<in> set (AList.update (key x) x al). k = key y"
    using Cons.prems update_subset[of "key x" x al] by blast
  then show ?case using Cons.IH by simp
qed simp

lemma graph_entry: "map_of (graph_of sha steps) i = Some s \<Longrightarrow> i = ms_id sha s"
  using fold_update_entries[of "[]" "ms_id sha" "sort_key ms_key steps"]
  by (auto simp: graph_of_def dict_of_def dest: map_of_SomeD)

text \<open>Ids are derived from keys, so different steps of the graph have different keys.\<close>

lemma graph_key_inj: "inj_on (step_key (graph_of sha steps)) (set (map fst (graph_of sha steps)))"
proof (rule inj_onI)
  fix i j
  let ?g = "graph_of sha steps"
  assume "i \<in> set (map fst ?g)" "j \<in> set (map fst ?g)" and eq: "step_key ?g i = step_key ?g j"
  then obtain s t where "map_of ?g i = Some s" "map_of ?g j = Some t"
    by (metis list.set_map map_of_eq_None_iff option.exhaust)
  with eq graph_entry show "i = j" by (metis ms_id_def option.simps(5) step_key_def)
qed

lemma order_topological:
  assumes "distinct (map fst g)"
  shows "topological (dep_edges g) (step_key g) (set (map fst g)) (order g)"
  unfolding order_def by (rule kahn_order_topological[OF assms])

lemma order_all:
  assumes "distinct (map fst g)" "acyclic (waits g)"
  shows "set (order g) = set (map fst g)"
  using deps.topological_leaves_out[OF order_topological[OF assms(1)]] assms(2)
  by (auto simp: acyclic_def)

section \<open>Levels\<close>

lemma levels_ok:
  assumes d: "distinct (map fst g)" and u: "unknown g = []" and c: "cycles g = Some []"
    and ac: "acyclic (waits g)"
  shows "\<exists>ls lv. levels g = Inr ls \<and> (\<forall>i. lv i \<noteq> None \<longleftrightarrow> i \<in> set (map fst g)) \<and>
    (\<forall>n < length ls. set (ls ! n) = {i. lv i = Some n} \<and> distinct (ls ! n)) \<and>
    (\<forall>i n. lv i = Some n \<longrightarrow> n < length ls) \<and>
    (\<forall>i d. (i, d) \<in> waits g \<longrightarrow> (\<exists>m n. lv d = Some m \<and> lv i = Some n \<and> m < n))"
proof -
  let ?os = "order g"
  note top = order_topological[OF d]
  have os: "set ?os = set (map fst g)" "distinct ?os"
    using order_all[OF d ac] top by (auto simp: topological_def)
  have "set (dep_edges g (?os ! k)) \<subseteq> set (take k ?os)" if "k < length ?os" for k
    by (rule topologicalD(2)[OF top that])
  with place_levels_total[of "[]" ?os "dep_edges g"] os(2) obtain level where
    lv: "place_levels (dep_edges g) ?os [] = Some level" "map fst level = ?os"
    "\<forall>x \<in> set ?os. map_of level x = Some (one_more (map (\<lambda>y. the (map_of level y)) (dep_edges g x)))"
    by auto
  have dl: "distinct (map fst level)" using lv(2) os(2) by simp
  have dom: "map_of level i \<noteq> None \<longleftrightarrow> i \<in> set (map fst g)" for i
    using lv(2) os(1) by (metis map_of_eq_None_iff list.set_map)
  have "\<exists>m n. map_of level d = Some m \<and> map_of level i = Some n \<and> m < n" if w: "(i, d) \<in> waits g" for i d
  proof -
    have "i \<in> set ?os" "d \<in> set ?os" using waits_nodes[OF w] os(1) by auto
    then obtain m where m: "map_of level d = Some m" using lv(3) by blast
    have "the (map_of level d) \<in> set (map (\<lambda>y. the (map_of level y)) (dep_edges g i))" using w by auto
    from one_more_greater[OF this] m lv(3) \<open>i \<in> set ?os\<close> show ?thesis by auto
  qed
  moreover have "levels g = Inr (by_level (step_key g) level)"
    using u c lv(1) by (simp add: levels_def returned_def)
  ultimately show ?thesis
    using dom by_level_nth(1,2)[OF dl, of _ "step_key g"] by_level_length[of level _ _ "step_key g"] by blast
qed

section \<open>Stages\<close>

lemma valid_Inr [simp]: "valid r = Inr x \<longleftrightarrow> r = Inr x"
  by (cases r) (auto simp: valid_def)

lemma valid_Inl: "valid r = Inl e \<Longrightarrow> \<exists>fs. e = InvalidMigrationPlan fs"
  by (cases r) (auto simp: valid_def)

lemma number_stages_Inr:
  "number_stages n gs = Inr sts \<Longrightarrow>
     map (\<lambda>s. (sg_step_ids s, sg_parallel s)) sts = gs \<and> map sg_number sts = map int [n + 1..<n + length sts + 1]"
proof (induction n gs arbitrary: sts rule: number_stages.induct)
  case (2 n ids par rest)
  then obtain st sts' where st: "Stage \<lparr>sg_number = int n + 1, sg_step_ids = ids, sg_parallel = par\<rparr> = Inr st"
    "number_stages (Suc n) rest = Inr sts'" "sts = st # sts'"
    by (auto simp: outcome_simps)
  with 2 have "map (\<lambda>s. (sg_step_ids s, sg_parallel s)) sts' = rest"
    "map sg_number sts' = map int [Suc n + 1..<Suc n + length sts' + 1]" by auto
  moreover have "[n + 1..<n + length sts + 1] = (n + 1) # [Suc n + 1..<Suc n + length sts' + 1]"
    using st(3) upt_conv_Cons[of "n + 1" "n + length sts + 1"] by (simp del: upt.simps)
  ultimately show ?case using st(1,3) by (simp add: stage.mk_Inr)
qed simp

lemma number_stages_Inl: "number_stages n gs = Inl e \<Longrightarrow> \<exists>fs. e = InvalidMigrationPlan fs"
  by (induction n gs rule: number_stages.induct) (auto simp: outcome_simps dest: valid_Inl)

lemma level_groups_mset: "mset (concat (map fst (level_groups g level))) = mset level"
proof -
  have *: "together g level = [] \<or> together g level = filter (\<lambda>i. case map_of g i of None \<Rightarrow> False | Some s \<Rightarrow> ms_parallelizable s) level"
    by (simp add: together_def Let_def)
  have "concat (map fst (level_groups g level)) = together g level @ filter (\<lambda>i. i \<notin> set (together g level)) level"
    by (simp add: level_groups_def Let_def comp_def concat_map_singleton)
  moreover have "mset (filter P xs @ filter (\<lambda>i. i \<notin> set (filter P xs)) xs) = mset xs" for P and xs :: "string list"
  proof -
    have "filter (\<lambda>i. i \<notin> set (filter P xs)) xs = filter (\<lambda>i. \<not> P i) xs" by (intro filter_cong) auto
    then show ?thesis using multiset_partition[of "mset xs" P] by simp
  qed
  ultimately show ?thesis using * by (elim disjE) simp_all
qed

lemma level_groups_mem:
  assumes "i \<in> set level"
  shows "\<exists>x \<in> set (level_groups g level). i \<in> set (fst x)"
proof -
  have "i \<in> set (concat (map fst (level_groups g level)))"
    using assms level_groups_mset[of g level, THEN mset_eq_setD] by simp
  then show ?thesis by auto
qed

lemma level_groups_parallel:
  assumes "(ids, True) \<in> set (level_groups g level)" "i \<in> set ids"
  shows "\<exists>s. map_of g i = Some s \<and> ms_parallelizable s"
  using assms by (auto simp: level_groups_def together_def Let_def split: if_splits option.splits)

text \<open>Members of an earlier list come earlier in the concatenation.\<close>

lemma concat_before:
  assumes "m < n" "n < length xss" "x \<in> set (xss ! m)" "y \<in> set (xss ! n)"
  shows "\<exists>a b. a < b \<and> b < length (concat xss) \<and> concat xss ! a = x \<and> concat xss ! b = y"
proof -
  have "xss = take n xss @ xss ! n # drop (Suc n) xss" using assms(2) by (rule id_take_nth_drop)
  then have c: "concat xss = concat (take n xss) @ xss ! n @ concat (drop (Suc n) xss)"
    by (metis concat.simps(2) concat_append)
  have "xss ! m = take n xss ! m" "m < length (take n xss)" using assms(1,2) by auto
  then have "x \<in> set (concat (take n xss))" using assms(3) by (metis nth_mem UN_I set_concat)
  then obtain a where a: "a < length (concat (take n xss))" "concat (take n xss) ! a = x"
    by (metis in_set_conv_nth)
  obtain b where b: "b < length (xss ! n)" "xss ! n ! b = y" using assms(4) by (auto simp: in_set_conv_nth)
  have "concat xss ! a = x" "concat xss ! (length (concat (take n xss)) + b) = y"
    using a b unfolding c by (simp_all add: nth_append)
  with a(1) b(1) show ?thesis unfolding c by (intro exI[of _ a] exI[of _ "length (concat (take n xss)) + b"]) auto
qed

lemma distinct_concat_nth:
  assumes "\<And>n. n < length xss \<Longrightarrow> distinct (xss ! n)"
    and "\<And>m n. m < n \<Longrightarrow> n < length xss \<Longrightarrow> set (xss ! m) \<inter> set (xss ! n) = {}"
  shows "distinct (concat xss)"
  using assms
proof (induction xss)
  case (Cons xs xss)
  have "distinct (concat xss)"
  proof (rule Cons.IH)
    show "distinct (xss ! n)" if "n < length xss" for n using Cons.prems(1)[of "Suc n"] that by simp
    show "set (xss ! m) \<inter> set (xss ! n) = {}" if "m < n" "n < length xss" for m n
      using Cons.prems(2)[of "Suc m" "Suc n"] that by simp
  qed
  moreover have "set xs \<inter> set ys = {}" if ys: "ys \<in> set xss" for ys
  proof -
    obtain n where n: "n < length xss" "ys = xss ! n" using ys by (metis in_set_conv_nth)
    from Cons.prems(2)[of 0 "Suc n"] n(1) show ?thesis unfolding n(2) by simp
  qed
  then have "set xs \<inter> set (concat xss) = {}" by auto
  moreover have "distinct xs" using Cons.prems(1)[of 0] by simp
  ultimately show ?case by simp
qed simp

lemma groups_mset: "mset (concat (map fst (concat (map (level_groups g) ls)))) = mset (concat ls)"
proof (induction ls)
  case (Cons level ls)
  then show ?case using level_groups_mset[of g level] by simp
qed simp

lemma stages_ok:
  assumes g: "distinct (map fst g)" "unknown g = []" "cycles g = Some []" "acyclic (waits g)"
    and sts: "stages g = Inr sts"
  shows "map sg_number sts = map int [1..<length sts + 1]"
    "mset (concat (map sg_step_ids sts)) = mset (map fst g)"
    "st \<in> set sts \<Longrightarrow> sg_parallel st \<Longrightarrow> i \<in> set (sg_step_ids st) \<Longrightarrow> \<exists>s. map_of g i = Some s \<and> ms_parallelizable s"
    "(i, d) \<in> waits g \<Longrightarrow>
       \<exists>a b. a < b \<and> b < length sts \<and> d \<in> set (sg_step_ids (sts ! a)) \<and> i \<in> set (sg_step_ids (sts ! b))"
proof -
  obtain ls lv where ls: "levels g = Inr ls" "\<forall>i. lv i \<noteq> None \<longleftrightarrow> i \<in> set (map fst g)"
    "\<forall>n < length ls. set (ls ! n) = {i. lv i = Some n} \<and> distinct (ls ! n)"
    "\<forall>i n. lv i = Some n \<longrightarrow> n < length ls"
    "\<forall>i d. (i, d) \<in> waits g \<longrightarrow> (\<exists>m n. lv d = Some m \<and> lv i = Some n \<and> m < n)"
    using levels_ok[OF g] by blast
  let ?xss = "map (level_groups g) ls"
  from sts ls(1) have "number_stages 0 (concat ?xss) = Inr sts" by (simp add: stages_def)
  from number_stages_Inr[OF this] have num: "map sg_number sts = map int [1..<length sts + 1]"
    and eq: "map (\<lambda>s. (sg_step_ids s, sg_parallel s)) sts = concat ?xss" by simp_all
  show "map sg_number sts = map int [1..<length sts + 1]" by (rule num)
  have ids: "map sg_step_ids sts = map fst (concat ?xss)" by (simp flip: eq)
  have "distinct (concat ls)"
    by (rule distinct_concat_nth) (use ls(3) in auto)
  moreover have "set (concat ls) = set (map fst g)"
  proof (rule set_eqI, rule iffI)
    fix i
    assume "i \<in> set (concat ls)"
    then obtain n where "n < length ls" "i \<in> set (ls ! n)" by (metis in_set_conv_nth UN_E set_concat)
    with ls(2,3) show "i \<in> set (map fst g)" by (metis mem_Collect_eq option.discI)
  next
    fix i
    assume "i \<in> set (map fst g)"
    with ls(2) obtain n where n: "lv i = Some n" by blast
    with ls(3,4) have "n < length ls" "i \<in> set (ls ! n)" by blast+
    then show "i \<in> set (concat ls)" by auto
  qed
  ultimately have "mset (concat ls) = mset (map fst g)"
    using g(1) by (metis set_eq_iff_mset_eq_distinct)
  then show "mset (concat (map sg_step_ids sts)) = mset (map fst g)"
    unfolding ids groups_mset .
  show "\<exists>s. map_of g i = Some s \<and> ms_parallelizable s"
    if st: "st \<in> set sts" "sg_parallel st" "i \<in> set (sg_step_ids st)" for st i
  proof -
    have "(sg_step_ids st, True) \<in> set (concat ?xss)" using st(1,2) unfolding eq[symmetric] by force
    with st(3) show ?thesis using level_groups_parallel by auto
  qed
  show "\<exists>a b. a < b \<and> b < length sts \<and> d \<in> set (sg_step_ids (sts ! a)) \<and> i \<in> set (sg_step_ids (sts ! b))"
    if w: "(i, d) \<in> waits g" for i d
  proof -
    obtain m n where mn: "lv d = Some m" "lv i = Some n" "m < n" using ls(5) w by blast
    then have len: "n < length ls" "m < length ls" using ls(4) by (auto dest: order.strict_trans)
    with mn ls(3) have "d \<in> set (ls ! m)" "i \<in> set (ls ! n)" by auto
    with level_groups_mem obtain x y where x: "x \<in> set (level_groups g (ls ! m))" "d \<in> set (fst x)"
      and y: "y \<in> set (level_groups g (ls ! n))" "i \<in> set (fst y)" by metis
    have "x \<in> set (?xss ! m)" "y \<in> set (?xss ! n)" using x(1) y(1) len by simp_all
    from concat_before[OF mn(3) _ this] len obtain a b where ab: "a < b" "b < length (concat ?xss)"
      "concat ?xss ! a = x" "concat ?xss ! b = y" by auto
    have l: "length sts = length (concat ?xss)" by (metis eq length_map)
    have "sg_step_ids (sts ! k) = fst (concat ?xss ! k)" if "k < length sts" for k
      using that by (metis ids l nth_map)
    with ab l x(2) y(2) show ?thesis by (metis less_trans)
  qed
qed

section \<open>Findings\<close>

lemma each_Inr: "each f xs = Inr ys \<longleftrightarrow> list_all2 (\<lambda>x y. f x = Inr y) xs ys"
proof (induction xs arbitrary: ys)
  case (Cons x xs)
  then show ?case by (cases ys) (auto simp: outcome_simps)
qed (auto)

lemma list_all2_mem: "list_all2 P xs ys \<Longrightarrow> y \<in> set ys \<Longrightarrow> \<exists>x \<in> set xs. P x y"
  by (induction rule: list_all2_induct) auto

lemma list_all2_mem_left: "list_all2 P xs ys \<Longrightarrow> x \<in> set xs \<Longrightarrow> \<exists>y \<in> set ys. P x y"
  by (induction rule: list_all2_induct) auto

lemma each_Inl: "each f xs = Inl e \<Longrightarrow> \<exists>x \<in> set xs. f x = Inl e"
  by (induction xs) (auto simp: outcome_simps)

lemma findings_raise: "findings g = Inl e \<Longrightarrow> \<exists>fs. e = InvalidMigrationPlan fs"
  using cycles_total[of g]
  by (auto simp: findings_def outcome_simps returned_def split: option.splits dest!: each_Inl dest: valid_Inl)

lemma findings_Inr:
  assumes "findings g = Inr fs"
  shows "fs = [] \<longleftrightarrow> unknown g = [] \<and> cycles g = Some []"
    "f \<in> set fs \<Longrightarrow> pf_type f \<in> {INVALID_DEPENDENCY, DEPENDENCY_CYCLE}"
proof -
  obtain us gs cs where u: "each (\<lambda>im. valid (PlanFinding (unknown_finding g im))) (sort_key (\<lambda>(i, m). step_key g i) (unknown g)) = Inr us"
    and gs: "cycles g = Some gs"
    and c: "each (\<lambda>m. valid (PlanFinding (cycle_finding g m))) gs = Inr cs" and fs: "fs = us @ cs"
    using assms by (auto simp: findings_def outcome_simps returned_def split: option.splits)
  have u2: "list_all2 (\<lambda>x y. PlanFinding (unknown_finding g x) = Inr y) (sort_key (\<lambda>(i, m). step_key g i) (unknown g)) us"
    using u by (simp add: each_Inr)
  have c2: "list_all2 (\<lambda>x y. PlanFinding (cycle_finding g x) = Inr y) gs cs" using c by (simp add: each_Inr)
  have "us = [] \<longleftrightarrow> unknown g = []" using list_all2_lengthD[OF u2] by (metis length_0_conv length_sort)
  moreover have "cs = [] \<longleftrightarrow> gs = []" using list_all2_lengthD[OF c2] by (metis length_0_conv)
  ultimately show "fs = [] \<longleftrightarrow> unknown g = [] \<and> cycles g = Some []" using fs gs by simp
  assume "f \<in> set fs"
  then consider "f \<in> set us" | "f \<in> set cs" using fs by auto
  then show "pf_type f \<in> {INVALID_DEPENDENCY, DEPENDENCY_CYCLE}"
  proof cases
    case 1
    then obtain x where "PlanFinding (unknown_finding g x) = Inr f" using list_all2_mem[OF u2] by blast
    then show ?thesis by (simp add: finding.mk_Inr normalize_finding_def unknown_finding_def split: prod.splits)
  next
    case 2
    then obtain x where "PlanFinding (cycle_finding g x) = Inr f" using list_all2_mem[OF c2] by blast
    then show ?thesis by (simp add: finding.mk_Inr normalize_finding_def cycle_finding_def Let_def)
  qed
qed

section \<open>The graph of a plan's steps\<close>

definition depends :: "(string \<Rightarrow> string) \<Rightarrow> migration_step list \<Rightarrow> (string \<times> string) set" where
  "depends sha steps = {(ms_id sha s, d) | s d. s \<in> set steps \<and> d \<in> set (ms_depends_on s)}"

definition closed_under :: "(string \<Rightarrow> string) \<Rightarrow> migration_step list \<Rightarrow> bool" where
  "closed_under sha steps \<longleftrightarrow> (\<forall>s \<in> set steps. set (ms_depends_on s) \<subseteq> ms_id sha ` set steps)"

lemma graph_of_distinct:
  assumes "distinct (map (ms_id sha) steps)"
  shows "graph_of sha steps = map (\<lambda>s. (ms_id sha s, s)) (sort_key ms_key steps)"
proof -
  have "mset (map (ms_id sha) (sort_key ms_key steps)) = mset (map (ms_id sha) steps)" by simp
  with assms have "distinct (map (ms_id sha) (sort_key ms_key steps))" by (metis mset_eq_imp_distinct_iff)
  then show ?thesis unfolding graph_of_def by (rule dict_of_distinct)
qed

lemma graph_nodes:
  assumes "distinct (map (ms_id sha) steps)"
  shows "set (map fst (graph_of sha steps)) = ms_id sha ` set steps"
    "mset (map fst (graph_of sha steps)) = mset (map (ms_id sha) steps)"
    "map_of (graph_of sha steps) i = Some s \<longleftrightarrow> s \<in> set steps \<and> i = ms_id sha s"
proof -
  note g = graph_of_distinct[OF assms]
  show "set (map fst (graph_of sha steps)) = ms_id sha ` set steps" by (simp add: g image_image)
  show "mset (map fst (graph_of sha steps)) = mset (map (ms_id sha) steps)" by (simp add: g comp_def)
  show "map_of (graph_of sha steps) i = Some s \<longleftrightarrow> s \<in> set steps \<and> i = ms_id sha s"
    using graph_distinct[of sha steps] by (auto simp: g)
qed

lemma graph_unknown:
  assumes "distinct (map (ms_id sha) steps)"
  shows "unknown (graph_of sha steps) = [] \<longleftrightarrow> closed_under sha steps"
  using graph_nodes(1)[OF assms]
  by (auto simp: unknown_def closed_under_def filter_empty_conv graph_of_distinct[OF assms])

lemma graph_waits:
  assumes "distinct (map (ms_id sha) steps)"
  shows "waits (graph_of sha steps) = {(i, d) \<in> depends sha steps. d \<in> ms_id sha ` set steps}"
  using graph_nodes[OF assms] by (auto simp: edges_def set_dep_edges depends_def)

lemma graph_irreflexive:
  assumes "distinct (map (ms_id sha) steps)" "\<forall>s \<in> set steps. MigrationStep sha s = Inr s"
  shows "i \<notin> set (dep_edges (graph_of sha steps) i)"
  using assms(2) built_step(1)[of sha] by (auto simp: set_dep_edges graph_nodes(3)[OF assms(1)] ms_id_def)

lemma stages_sequence_ok:
  assumes ids: "distinct (map (ms_id sha) steps)"
    and g: "unknown (graph_of sha steps) = []" "cycles (graph_of sha steps) = Some []" "acyclic (waits (graph_of sha steps))"
    and sts: "stages (graph_of sha steps) = Inr sts"
  shows "sequence_ok sha steps sts"
proof -
  note ok = stages_ok[OF graph_distinct g sts]
  have par: "parallelizable sha steps = map (\<lambda>s. (ms_id sha s, ms_parallelizable s)) steps"
    using dict_of_distinct[OF ids] by (simp add: parallelizable_def)
  have "mset (concat (map sg_step_ids sts)) = mset (map fst (parallelizable sha steps))"
    using ok(2) graph_nodes(2)[OF ids] by (simp add: par comp_def)
  then have "sort (concat (map sg_step_ids sts)) = sort (map fst (parallelizable sha steps))"
    by (intro sort_key_eq_sort_key) auto
  moreover have "map_of (parallelizable sha steps) i = Some True"
    if st: "st \<in> set sts" "sg_parallel st" "i \<in> set (sg_step_ids st)" for st i
  proof -
    obtain s where "map_of (graph_of sha steps) i = Some s" "ms_parallelizable s" using ok(3)[OF st] by blast
    then have "s \<in> set steps" "i = ms_id sha s" "ms_parallelizable s" using graph_nodes(3)[OF ids] by auto
    then show ?thesis using ids by (simp add: par comp_def)
  qed
  ultimately show ?thesis using ok(1) by (auto simp: sequence_ok_def Let_def list_all_iff)
qed

section \<open>Transitions\<close>

lemma sort_Nil: "sort_key f xs = [] \<longleftrightarrow> xs = []"
  by (metis set_empty set_sort)

text \<open>What a step needs before it, given the steps it waits for.\<close>

definition prerequisites ::
    "(string \<Rightarrow> string) \<Rightarrow> migration_step list \<Rightarrow> migration_change list \<Rightarrow> migration_step \<Rightarrow> bool" where
  "prerequisites sha steps changes s \<longleftrightarrow>
     (let t = Transitions changes; before = {a \<in> set steps. (ms_id sha s, ms_id sha a) \<in> (depends sha steps)\<^sup>+}
      in (\<forall>e \<in> set (ms_element_ids s). e \<in> set (tn_added t) \<longrightarrow>
            provisions t s e \<or> (\<exists>a \<in> before. provisions t a e)) \<and>
         (\<forall>e. ms_type s = DECOMMISSION \<and> ms_element_ids s = [e] \<and> e \<in> set (tn_removed t) \<longrightarrow>
            (\<forall>o' \<in> set steps. e \<in> set (ms_element_ids o') \<longrightarrow> o' = s \<or> o' \<in> before)) \<and>
         (ms_type s = CUTOVER \<longrightarrow> (\<exists>a \<in> before. ms_type a \<in> {VERIFY, PREPARE})) \<and>
         (ms_type s = DECOMMISSION \<longrightarrow> (\<exists>a \<in> before. ms_type a = VERIFY)) \<and>
         (consequential s \<longrightarrow> ms_manual_verification s))"

lemma still_concern_Nil:
  assumes ids: "distinct (map (ms_id sha) steps)" and s: "s \<in> set steps"
    and ancs: "ancs = {y. (ms_id sha s, y) \<in> (depends sha steps)\<^sup>+}"
  shows "still_concern (graph_of sha steps) t (ms_id sha s) ancs e = [] \<longleftrightarrow>
    (e \<in> set (tn_removed t) \<longrightarrow> (\<forall>o' \<in> set steps. e \<in> set (ms_element_ids o') \<longrightarrow>
       o' = s \<or> (ms_id sha s, ms_id sha o') \<in> (depends sha steps)\<^sup>+))"
proof -
  have "ms_id sha o' = ms_id sha s \<longleftrightarrow> o' = s" if "o' \<in> set steps" for o'
    using ids s that by (auto simp: distinct_map dest: inj_onD)
  then show ?thesis
    by (auto simp: still_concern_def filter_empty_conv sort_Nil graph_of_distinct[OF ids] ancs)
qed

text \<open>A step has no finding exactly when it has its prerequisites.\<close>

lemma transition_findings_Nil:
  assumes ids: "distinct (map (ms_id sha) steps)" and s: "s \<in> set steps"
    and ancs: "ancs = {y. (ms_id sha s, y) \<in> (depends sha steps)\<^sup>+}"
  shows "transition_findings sha (graph_of sha steps) (Transitions changes) (ms_id sha s) s ancs = [] \<longleftrightarrow>
    prerequisites sha steps changes s"
proof -
  let ?g = "graph_of sha steps" and ?t = "Transitions changes"
  let ?before = "map snd (filter (\<lambda>(i, a). i \<in> ancs) ?g)"
  have before: "set ?before = {a \<in> set steps. (ms_id sha s, ms_id sha a) \<in> (depends sha steps)\<^sup>+}"
    by (auto simp: graph_of_distinct[OF ids] ancs image_iff)
  have added: "filter (\<lambda>e. \<not> provisions ?t s e \<and> \<not> list_ex (\<lambda>a. provisions ?t a e) ?before)
        (sorted_set (filter (\<lambda>e. e \<in> set (tn_added ?t)) (ms_element_ids s))) = [] \<longleftrightarrow>
      (\<forall>e \<in> set (ms_element_ids s). e \<in> set (tn_added ?t) \<longrightarrow> provisions ?t s e \<or> (\<exists>a \<in> set ?before. provisions ?t a e))"
    unfolding filter_empty_conv list_ex_iff by auto
  have retired: "(case ms_element_ids s of
        [e] \<Rightarrow> if ms_type s = DECOMMISSION \<and> still_concern ?g ?t (ms_id sha s) ancs e \<noteq> [] then [f e] else []
      | _ \<Rightarrow> []) = [] \<longleftrightarrow>
      (\<forall>e. ms_type s = DECOMMISSION \<and> ms_element_ids s = [e] \<and> e \<in> set (tn_removed ?t) \<longrightarrow>
         (\<forall>o' \<in> set steps. e \<in> set (ms_element_ids o') \<longrightarrow> o' = s \<or> o' \<in> set ?before))" for f :: "string \<Rightarrow> plan_finding"
    unfolding before using still_concern_Nil[OF ids s ancs] by (auto split: list.splits)
  have types: "set (map ms_type xs) \<inter> set CUTOVER_AFTER = {} \<longleftrightarrow> \<not> (\<exists>a \<in> set xs. ms_type a \<in> {VERIFY, PREPARE})"
    "VERIFY \<notin> set (map ms_type xs) \<longleftrightarrow> \<not> (\<exists>a \<in> set xs. ms_type a = VERIFY)" for xs
    by (auto simp: CUTOVER_AFTER_def image_iff)
  have one: "(if c then [f] else []) = [] \<longleftrightarrow> \<not> c" for c and f :: plan_finding by simp
  show ?thesis
    unfolding transition_findings_def prerequisites_def Let_def append_is_Nil_conv before[symmetric] one types
      map_is_Nil_conv added retired by blast
qed

section \<open>The sequence\<close>

lemma check_transition_raise: "check_transition sha g t (i, s) = Inl e \<Longrightarrow> i \<in> set (map fst g) \<Longrightarrow> \<exists>fs. e = InvalidMigrationPlan fs"
  using deps.ancestors_exact[of i g]
  by (auto simp: check_transition_def step_ancestors_def outcome_simps returned_def dest!: each_Inl dest: valid_Inl)

lemma sequence_valid:
  assumes ids: "distinct (map (ms_id sha) steps)" and built: "\<forall>s \<in> set steps. MigrationStep sha s = Inr s"
    and fs: "findings (graph_of sha steps) = Inr []"
  shows "unknown (graph_of sha steps) = []" "cycles (graph_of sha steps) = Some []"
    "acyclic (waits (graph_of sha steps))" "closed_under sha steps" "acyclic (depends sha steps)"
    "waits (graph_of sha steps) = depends sha steps"
proof -
  show u: "unknown (graph_of sha steps) = []" and c: "cycles (graph_of sha steps) = Some []"
    using findings_Inr(1)[OF fs] by auto
  show w: "acyclic (waits (graph_of sha steps))"
    using cycles_Nil graph_irreflexive[OF ids built] c by blast
  show cl: "closed_under sha steps" using u graph_unknown[OF ids] by simp
  show eq: "waits (graph_of sha steps) = depends sha steps"
    using cl unfolding graph_waits[OF ids] closed_under_def by (auto simp: depends_def)
  show "acyclic (depends sha steps)" using w unfolding eq .
qed

lemma sequence_raise:
  assumes ids: "distinct (map (ms_id sha) steps)" and built: "\<forall>s \<in> set steps. MigrationStep sha s = Inr s"
    and e: "sequence sha steps changes = Inl e"
  shows "\<exists>fs. e = InvalidMigrationPlan fs"
proof (cases "findings (graph_of sha steps)")
  case (Inl e')
  then show ?thesis using e findings_raise[OF Inl] by (simp add: sequence_def Let_def)
next
  case (Inr fs)
  show ?thesis
  proof (cases "fs = []")
    case True
    note v = sequence_valid[OF ids built Inr[unfolded True]]
    obtain ls where ls: "levels (graph_of sha steps) = Inr ls"
      using levels_ok[OF graph_distinct v(1-3)] by blast
    have "stages (graph_of sha steps) = Inl e \<or>
        each (check_transition sha (graph_of sha steps) (Transitions changes)) (graph_of sha steps) = Inl e"
      using e Inr True by (auto simp: sequence_def Let_def outcome_simps)
    then show ?thesis
    proof
      assume "stages (graph_of sha steps) = Inl e"
      then show ?thesis using ls number_stages_Inl by (simp add: stages_def)
    next
      assume "each (check_transition sha (graph_of sha steps) (Transitions changes)) (graph_of sha steps) = Inl e"
      then obtain i s where x: "(i, s) \<in> set (graph_of sha steps)"
        "check_transition sha (graph_of sha steps) (Transitions changes) (i, s) = Inl e"
        by (auto dest: each_Inl)
      then have "i \<in> set (map fst (graph_of sha steps))" by force
      with check_transition_raise[OF x(2)] show ?thesis .
    qed
  qed (use e Inr in \<open>simp add: sequence_def Let_def\<close>)
qed

lemma no_dependency_findings:
  assumes ids: "distinct (map (ms_id sha) steps)" and built: "\<forall>s \<in> set steps. MigrationStep sha s = Inr s"
    and fs: "findings (graph_of sha steps) = Inr fs"
  shows "fs = [] \<longleftrightarrow> closed_under sha steps \<and> acyclic (depends sha steps)"
proof
  assume "fs = []"
  then show "closed_under sha steps \<and> acyclic (depends sha steps)" using sequence_valid[OF ids built] fs by simp
next
  assume a: "closed_under sha steps \<and> acyclic (depends sha steps)"
  then have "acyclic (waits (graph_of sha steps))" unfolding graph_waits[OF ids] by (auto intro: acyclic_subset)
  with a show "fs = []"
    using findings_Inr(1)[OF fs] graph_unknown[OF ids] cycles_Nil graph_irreflexive[OF ids built] by blast
qed

lemma sequence_exact:
  assumes ids: "distinct (map (ms_id sha) steps)" and built: "\<forall>s \<in> set steps. MigrationStep sha s = Inr s"
    and r: "sequence sha steps changes = Inr r"
  shows "if closed_under sha steps \<and> acyclic (depends sha steps)
    then sequence_ok sha steps (sq_sequence r) \<and>
      (\<forall>(i, d) \<in> depends sha steps. \<exists>a b. a < b \<and> b < length (sq_sequence r) \<and>
         d \<in> set (sg_step_ids (sq_sequence r ! a)) \<and> i \<in> set (sg_step_ids (sq_sequence r ! b)))
    else sq_sequence r = [] \<and> (\<exists>f \<in> set (sq_findings r). pf_type f \<in> {INVALID_DEPENDENCY, DEPENDENCY_CYCLE})"
proof -
  let ?g = "graph_of sha steps"
  obtain fs where fs: "findings ?g = Inr fs" using r by (auto simp: sequence_def Let_def outcome_simps)
  note no_dependency_findings[OF ids built fs]
  moreover have "sequence_ok sha steps (sq_sequence r) \<and>
      (\<forall>(i, d) \<in> depends sha steps. \<exists>a b. a < b \<and> b < length (sq_sequence r) \<and>
         d \<in> set (sg_step_ids (sq_sequence r ! a)) \<and> i \<in> set (sg_step_ids (sq_sequence r ! b)))" if "fs = []"
  proof -
    note v = sequence_valid[OF ids built fs[unfolded that]]
    have sts: "stages ?g = Inr (sq_sequence r)"
      using r fs that by (auto simp: sequence_def Let_def outcome_simps)
    from stages_sequence_ok[OF ids v(1-3) sts] stages_ok(4)[OF graph_distinct v(1-3) sts]
    show ?thesis unfolding v(6) by blast
  qed
  moreover have "sq_sequence r = [] \<and> (\<exists>f \<in> set (sq_findings r). pf_type f \<in> {INVALID_DEPENDENCY, DEPENDENCY_CYCLE})"
    if ne: "fs \<noteq> []"
  proof -
    have "r = \<lparr>sq_sequence = [], sq_findings = fs\<rparr>" using r fs ne by (simp add: sequence_def Let_def)
    moreover obtain f where "f \<in> set fs" using ne by (cases fs) auto
    ultimately show ?thesis using findings_Inr(2)[OF fs] by auto
  qed
  ultimately show ?thesis by presburger
qed

text \<open>Without dependency findings, what is left are the findings of the steps.\<close>

lemma checked_step:
  assumes ids: "distinct (map (ms_id sha) steps)" and built: "\<forall>s \<in> set steps. MigrationStep sha s = Inr s"
    and fs: "findings (graph_of sha steps) = Inr []" and s: "s \<in> set steps"
    and c: "check_transition sha (graph_of sha steps) (Transitions changes) (ms_id sha s, s) = Inr found"
  shows "found = [] \<longleftrightarrow> prerequisites sha steps changes s"
proof -
  let ?g = "graph_of sha steps"
  have "(ms_id sha s, s) \<in> set ?g" using s by (simp add: graph_of_distinct[OF ids])
  then have node: "ms_id sha s \<in> set (map fst ?g)" by force
  let ?ancs = "{y. (ms_id sha s, y) \<in> (depends sha steps)\<^sup>+}"
  have "step_ancestors ?g (ms_id sha s) = Some ?ancs"
    using deps.ancestors_exact[OF node] by (simp add: step_ancestors_def sequence_valid(6)[OF ids built fs])
  with c have "each (\<lambda>f. valid (PlanFinding f))
      (transition_findings sha ?g (Transitions changes) (ms_id sha s) s ?ancs) = Inr found"
    by (simp add: check_transition_def returned_def)
  then have "found = [] \<longleftrightarrow> transition_findings sha ?g (Transitions changes) (ms_id sha s) s ?ancs = []"
    by (auto simp: each_Inr)
  then show ?thesis using transition_findings_Nil[OF ids s refl] by simp
qed

lemma sequence_safe:
  assumes ids: "distinct (map (ms_id sha) steps)" and built: "\<forall>s \<in> set steps. MigrationStep sha s = Inr s"
    and r: "sequence sha steps changes = Inr r"
  shows "sq_findings r = [] \<longleftrightarrow> closed_under sha steps \<and> acyclic (depends sha steps) \<and>
    (\<forall>s \<in> set steps. prerequisites sha steps changes s)"
proof -
  let ?g = "graph_of sha steps" and ?t = "Transitions changes"
  obtain fs where fs: "findings ?g = Inr fs" using r by (auto simp: sequence_def Let_def outcome_simps)
  note deps = no_dependency_findings[OF ids built fs]
  show ?thesis
  proof (cases "fs = []")
    case False
    then have "sq_findings r = fs" using r fs by (auto simp: sequence_def Let_def)
    with False deps show ?thesis by blast
  next
    case True
    then obtain found where found: "each (check_transition sha ?g ?t) ?g = Inr found" "sq_findings r = concat found"
      using r fs by (auto simp: sequence_def Let_def outcome_simps)
    have all: "list_all2 (\<lambda>(i, s) f. f = [] \<longleftrightarrow> prerequisites sha steps changes s) ?g found"
      using found(1)[unfolded each_Inr]
    proof (rule list.rel_mono_strong)
      fix x f assume x: "x \<in> set ?g" "f \<in> set found" "check_transition sha ?g ?t x = Inr f"
      then obtain s where s: "x = (ms_id sha s, s)" "s \<in> set steps" by (auto simp: graph_of_distinct[OF ids])
      with checked_step[OF ids built fs[unfolded True] s(2)] x(3)
      show "(case x of (i, s) \<Rightarrow> \<lambda>f. f = [] \<longleftrightarrow> prerequisites sha steps changes s) f" by simp
    qed
    have "(\<forall>f \<in> set found. f = []) \<longleftrightarrow> (\<forall>(i, s) \<in> set ?g. prerequisites sha steps changes s)"
      using all by induction auto
    moreover have "(\<forall>(i, s) \<in> set ?g. prerequisites sha steps changes s) \<longleftrightarrow>
        (\<forall>s \<in> set steps. prerequisites sha steps changes s)"
      by (auto simp: graph_of_distinct[OF ids])
    ultimately show ?thesis using True deps unfolding found(2) by simp
  qed
qed

lemma sequence_permuted:
  assumes "mset steps = mset steps'" "distinct (map ms_key steps)"
  shows "sequence sha steps changes = sequence sha steps' changes"
proof -
  have "sort_key ms_key steps = sort_key ms_key steps'"
    using assms by (intro sort_key_eq_sort_key) (simp_all add: distinct_map)
  then show ?thesis by (simp add: sequence_def graph_of_def)
qed

end
