(* ===== verification/Mig_Review.thy ===== *)
theory Mig_Review
  imports Mig_Plans
begin

text \<open>
  Migration requests, and a plan's versions with their review (core/domain/migrations/entities.py and
  versioning.py), with the table that stores them (persistence/repositories/migrations.py).  A
  version's content never changes; a review appends an event and moves the status along
  \<open>TRANSITIONS\<close>.  The fingerprint of a proposal (SHA-256 of its content) is the argument
  \<open>fp\<close>: what is shown holds for every such function.  \<open>plan_step\<close> is what the review and
  planning calls do to the table, in any order; who may call is not modelled here.
\<close>

section \<open>Requests\<close>

datatype review_error =
    InvalidMigrationRequest string string
  | InvalidPlanTransition plan_status plan_status
  | PlanVersionMismatch int string
  | StaleMigrationPlan "string list"
  | ReviewedPlanNotReplaced int plan_status

definition MAX_GOALS :: nat where "MAX_GOALS = 20"
definition MAX_STATEMENTS :: nat where "MAX_STATEMENTS = 50"
definition MAX_REQUIREMENTS :: nat where "MAX_REQUIREMENTS = 200"
definition MAX_ELEMENT_ID :: nat where "MAX_ELEMENT_ID = 128"
definition MAX_COMMENT :: nat where "MAX_COMMENT = 2000"

definition require_that :: "bool \<Rightarrow> string \<Rightarrow> string \<Rightarrow> review_error + unit" where
  "require_that c field reason = ensure c (InvalidMigrationRequest field reason)"

definition statements :: "string list \<Rightarrow> string \<Rightarrow> nat \<Rightarrow> review_error + string list" where
  "statements vs field limit =
     rbind (require_that (length vs \<le> limit) field ''too_many'') (\<lambda>_.
     rbind (require_that (list_all (\<lambda>v. is_text v MAX_TEXT) vs) field ''invalid_text'') (\<lambda>_.
     Inr (map py_strip vs)))"

record target_spec =
  ts_revision :: "int option"
  ts_analysis_id :: "uuid option"
  ts_candidate_id :: "string option"

definition TargetSpec :: "target_spec \<Rightarrow> review_error + target_spec" where
  "TargetSpec t =
     (let by_revision = (ts_revision t \<noteq> None);
          by_candidate = (ts_analysis_id t \<noteq> None \<or> ts_candidate_id t \<noteq> None)
      in rbind (require_that (by_revision \<noteq> by_candidate) ''target'' ''one_of_revision_or_candidate'') (\<lambda>_.
         rbind (require_that (\<not> (\<exists>n \<in> set_option (ts_revision t). \<not> count_ok n)) ''target.revision'' ''invalid_revision'') (\<lambda>_.
         rbind (require_that (\<not> (by_candidate \<and> ts_analysis_id t = None)) ''target.analysis_id'' ''required'') (\<lambda>_.
         rbind (require_that (by_candidate \<longrightarrow> (\<exists>c \<in> set_option (ts_candidate_id t). CANDIDATE_ID c))
                  ''target.candidate_id'' ''invalid_candidate'') (\<lambda>_.
         Inr t)))))"

record constraints =
  mk_downtime_allowed :: "bool option"
  mk_maintenance_window :: "string option"
  mk_statements :: "string list"

definition MigrationConstraints :: "constraints \<Rightarrow> review_error + constraints" where
  "MigrationConstraints c =
     rbind (require_that (\<forall>w \<in> set_option (mk_maintenance_window c). is_text w MAX_TITLE)
              ''constraints.maintenance_window'' ''invalid_text'') (\<lambda>_.
     rbind (statements (mk_statements c) ''constraints.statements'' MAX_STATEMENTS) (\<lambda>ss.
     Inr (c\<lparr>mk_statements := ss\<rparr>)))"

record data_requirement =
  dq_element_id :: string
  dq_statement :: string

definition DataRequirement :: "data_requirement \<Rightarrow> review_error + data_requirement" where
  "DataRequirement d =
     rbind (require_that (is_text (dq_element_id d) MAX_ELEMENT_ID) ''data_requirements.element_id'' ''invalid_reference'') (\<lambda>_.
     rbind (require_that (is_text (dq_statement d) MAX_TEXT) ''data_requirements.statement'' ''invalid_text'') (\<lambda>_.
     Inr d))"

record plan_assumption =
  pa_key :: string
  pa_statement :: string

definition PlanAssumption :: "plan_assumption \<Rightarrow> review_error + plan_assumption" where
  "PlanAssumption a =
     rbind (require_that (CODE (pa_key a)) ''assumptions.key'' ''invalid_key'') (\<lambda>_.
     rbind (require_that (is_text (pa_statement a) MAX_TEXT) ''assumptions.statement'' ''invalid_text'') (\<lambda>_.
     Inr a))"

record migration_request =
  rq_architecture_id :: uuid
  rq_source_revision :: int
  rq_target :: target_spec
  rq_goals :: "string list"
  rq_constraints :: constraints
  rq_data_requirements :: "data_requirement list"
  rq_requirement_ids :: "uuid list option"
  rq_strategy :: "string option"
  rq_assumptions :: "plan_assumption list"
  rq_title :: "string option"

definition check_lists :: "migration_request \<Rightarrow> review_error + migration_request" where
  "check_lists r =
     rbind (require_that (length (rq_data_requirements r) \<le> MAX_STATEMENTS) ''data_requirements'' ''too_many'') (\<lambda>_.
     rbind (require_that (\<forall>is' \<in> set_option (rq_requirement_ids r). length is' \<le> MAX_REQUIREMENTS)
              ''requirement_ids'' ''too_many'') (\<lambda>_.
     rbind (require_that (length (rq_assumptions r) \<le> MAX_STATEMENTS) ''assumptions'' ''too_many'') (\<lambda>_.
     rbind (require_that (distinct (map pa_key (rq_assumptions r))) ''assumptions'' ''duplicate'') (\<lambda>_.
     Inr (r\<lparr>rq_requirement_ids := map_option sorted_set (rq_requirement_ids r),
            rq_assumptions := sort_key pa_key (rq_assumptions r)\<rparr>)))))"

definition MigrationRequest :: "migration_request \<Rightarrow> review_error + migration_request" where
  "MigrationRequest r =
     rbind (require_that (count_ok (rq_source_revision r)) ''source_revision'' ''invalid_revision'') (\<lambda>_.
     rbind (require_that (\<forall>n \<in> set_option (ts_revision (rq_target r)). rq_source_revision r < n)
              ''target.revision'' ''not_after_the_source'') (\<lambda>_.
     rbind (statements (rq_goals r) ''goals'' MAX_GOALS) (\<lambda>goals.
     rbind (check_lists (r\<lparr>rq_goals := goals\<rparr>)) (\<lambda>r.
     rbind (require_that (\<forall>s \<in> set_option (rq_strategy r). CODE s) ''strategy'' ''invalid_strategy'') (\<lambda>_.
     rbind (require_that (\<forall>t \<in> set_option (rq_title r). is_text t MAX_TITLE) ''title'' ''invalid_text'') (\<lambda>_.
     Inr r))))))"

section \<open>Versions and their review\<close>

fun TRANSITIONS :: "plan_status \<Rightarrow> plan_status list" where
  "TRANSITIONS DRAFT = [READY_FOR_REVIEW, SUPERSEDED, ARCHIVED]"
| "TRANSITIONS NEEDS_INFORMATION = [SUPERSEDED, ARCHIVED]"
| "TRANSITIONS READY_FOR_REVIEW = [APPROVED, REJECTED, SUPERSEDED]"
| "TRANSITIONS APPROVED = [SUPERSEDED, ARCHIVED]"
| "TRANSITIONS REJECTED = [SUPERSEDED, ARCHIVED]"
| "TRANSITIONS SUPERSEDED = [ARCHIVED]"
| "TRANSITIONS ARCHIVED = []"

definition FEEDBACK_REQUIRED :: "plan_status list" where "FEEDBACK_REQUIRED = [REJECTED]"
definition EXACT :: "plan_status list" where "EXACT = [APPROVED, REJECTED]"
definition UNDER_REVIEW :: "plan_status list" where "UNDER_REVIEW = [READY_FOR_REVIEW, APPROVED]"

record review_event =
  re_from_status :: plan_status
  re_to_status :: plan_status
  re_user_id :: uuid
  re_at :: instant
  re_comment :: "string option"
  re_fingerprint :: "string option"

record plan_version =
  pv_id :: uuid
  pv_plan_id :: uuid
  pv_version :: int
  pv_project_id :: uuid
  pv_request :: migration_request
  pv_proposal :: migration_proposal
  pv_status :: plan_status
  pv_created_by :: uuid
  pv_created_at :: instant
  pv_reviews :: "review_event list"

definition MigrationPlanVersion :: "plan_version \<Rightarrow> review_error + plan_version" where
  "MigrationPlanVersion v =
     rbind (require_that (count_ok (pv_version v)) ''version'' ''invalid_version'') (\<lambda>_.
     rbind (require_that (rq_architecture_id (pv_request v) = sr_architecture_id (mp_source (pv_proposal v)))
              ''request'' ''does_not_match_the_proposal'') (\<lambda>_.
     rbind (require_that (rq_source_revision (pv_request v) = sr_revision_number (mp_source (pv_proposal v)))
              ''request'' ''does_not_match_the_proposal'') (\<lambda>_.
     Inr v)))"

definition move ::
    "(migration_proposal \<Rightarrow> string) \<Rightarrow> plan_status \<Rightarrow> uuid \<Rightarrow> instant \<Rightarrow> string option \<Rightarrow> string option \<Rightarrow>
     plan_version \<Rightarrow> review_error + plan_version" where
  "move fp to user_id at comment fingerprint v =
     rbind (ensure (to \<in> set (TRANSITIONS (pv_status v))) (InvalidPlanTransition (pv_status v) to)) (\<lambda>_.
     rbind (ensure (\<not> (to \<in> set EXACT \<and> fingerprint \<noteq> Some (fp (pv_proposal v))))
              (PlanVersionMismatch (pv_version v) ''content_mismatch'')) (\<lambda>_.
     rbind (require_that (\<forall>c \<in> set_option comment. is_text c MAX_COMMENT) ''comment'' ''invalid_text'') (\<lambda>_.
     rbind (require_that (\<not> (to \<in> set FEEDBACK_REQUIRED \<and> missing_text comment)) ''comment'' ''required'') (\<lambda>_.
     MigrationPlanVersion (v\<lparr>pv_status := to,
       pv_reviews := pv_reviews v @ [\<lparr>re_from_status = pv_status v, re_to_status = to, re_user_id = user_id,
         re_at = at, re_comment = comment,
         re_fingerprint = (if to \<in> set EXACT then fingerprint else None)\<rparr>]\<rparr>)))))"

definition approved_by :: "plan_version \<Rightarrow> review_event option" where
  "approved_by v = find (\<lambda>r. re_to_status r = APPROVED) (rev (pv_reviews v))"

section \<open>Staleness\<close>

datatype stale_reason = SOURCE_CHANGED | TARGET_CHANGED | NEWER_REVISION | MODELS_CHANGED | EVIDENCE_STALE

fun stale_reason_value :: "stale_reason \<Rightarrow> string" where
  "stale_reason_value SOURCE_CHANGED = ''source_changed''"
| "stale_reason_value TARGET_CHANGED = ''target_changed''"
| "stale_reason_value NEWER_REVISION = ''newer_revision''"
| "stale_reason_value MODELS_CHANGED = ''models_changed''"
| "stale_reason_value EVIDENCE_STALE = ''evidence_stale''"

record current_state =
  cs_source_hash :: "string option"
  cs_target_hash :: "string option"
  cs_latest_revision :: int
  cs_models :: "(string \<times> int) list"
  cs_evidence :: "((string \<times> string \<times> string) \<times> evidence_state) list"

definition freshness :: "migration_proposal \<Rightarrow> current_state \<Rightarrow> stale_reason list" where
  "freshness p now =
     (let source = mp_source p; target = mp_target p;
          reached = (if tg_kind target = REVISION then tg_revision_number target else sr_revision_number source);
          cited = filter (\<lambda>e. ev_state e = CURRENT) (mp_evidence p);
          checks =
            [(SOURCE_CHANGED, cs_source_hash now \<noteq> Some (sr_content_hash source)),
             (TARGET_CHANGED, cs_target_hash now \<noteq> Some (tg_content_hash target)),
             (NEWER_REVISION, cs_latest_revision now > reached),
             (MODELS_CHANGED, list_ex (\<lambda>(m, v). map_of (cs_models now) m \<noteq> Some v) (mp_models p)),
             (EVIDENCE_STALE, list_ex (\<lambda>e. (case map_of (cs_evidence now) (evidence_key e) of
                 None \<Rightarrow> MISSING | Some st \<Rightarrow> st) \<noteq> CURRENT) cited)]
      in map fst (filter snd checks))"

text \<open>
  The state \<open>_current\<close> of migration_service.py compares with: the hashes, the latest revision and the
  planner's models are read; the evidence is the proposal's own.
\<close>

definition service_state ::
    "migration_proposal \<Rightarrow> string option \<Rightarrow> string option \<Rightarrow> int \<Rightarrow> (string \<times> int) list \<Rightarrow> current_state" where
  "service_state p source_hash target_hash latest models =
     \<lparr>cs_source_hash = source_hash, cs_target_hash = target_hash, cs_latest_revision = latest,
      cs_models = models,
      cs_evidence = map (\<lambda>e. (evidence_key e, CURRENT)) (filter (\<lambda>e. ev_state e = CURRENT) (mp_evidence p))\<rparr>"

definition fresh :: "stale_reason list \<Rightarrow> review_error + unit" where
  "fresh reasons = ensure (reasons = []) (StaleMigrationPlan (map stale_reason_value reasons))"

section \<open>Operations on versions\<close>

definition first_version ::
    "uuid \<Rightarrow> uuid \<Rightarrow> uuid \<Rightarrow> migration_request \<Rightarrow> migration_proposal \<Rightarrow> uuid \<Rightarrow> instant \<Rightarrow> review_error + plan_version"
  where
  "first_version version_id plan_id project_id request proposal user_id at =
     MigrationPlanVersion \<lparr>pv_id = version_id, pv_plan_id = plan_id, pv_version = 1, pv_project_id = project_id,
       pv_request = request, pv_proposal = proposal, pv_status = mp_status proposal, pv_created_by = user_id,
       pv_created_at = at, pv_reviews = []\<rparr>"

definition regenerate ::
    "(migration_proposal \<Rightarrow> string) \<Rightarrow> plan_version \<Rightarrow> uuid \<Rightarrow> migration_request \<Rightarrow> migration_proposal \<Rightarrow> uuid \<Rightarrow>
     instant \<Rightarrow> bool \<Rightarrow> review_error + (plan_version \<times> plan_version option)" where
  "regenerate fp latest version_id request proposal user_id at replace_reviewed =
     rbind (require_that (rq_architecture_id request = rq_architecture_id (pv_request latest))
              ''architecture_id'' ''another_architecture'') (\<lambda>_.
     if request = pv_request latest \<and> fp proposal = fp (pv_proposal latest) then Inr (latest, None)
     else
     rbind (ensure (SUPERSEDED \<in> set (TRANSITIONS (pv_status latest)))
              (InvalidPlanTransition (pv_status latest) SUPERSEDED)) (\<lambda>_.
     rbind (ensure (\<not> (pv_status latest \<in> set UNDER_REVIEW \<and> \<not> replace_reviewed))
              (ReviewedPlanNotReplaced (pv_version latest) (pv_status latest))) (\<lambda>_.
     rbind (move fp SUPERSEDED user_id at
              (Some (''Superseded by version '' @ int_str (pv_version latest + 1) @ ''.'')) None latest) (\<lambda>previous.
     rbind (MigrationPlanVersion \<lparr>pv_id = version_id, pv_plan_id = pv_plan_id latest,
              pv_version = pv_version latest + 1, pv_project_id = pv_project_id latest, pv_request = request,
              pv_proposal = proposal, pv_status = mp_status proposal, pv_created_by = user_id,
              pv_created_at = at, pv_reviews = []\<rparr>) (\<lambda>created.
     Inr (previous, Some created))))))"

definition submit ::
    "(migration_proposal \<Rightarrow> string) \<Rightarrow> stale_reason list \<Rightarrow> uuid \<Rightarrow> instant \<Rightarrow> plan_version \<Rightarrow> review_error + plan_version"
  where
  "submit fp current user_id at v =
     rbind (fresh current) (\<lambda>_. move fp READY_FOR_REVIEW user_id at None None v)"

definition exact ::
    "(migration_proposal \<Rightarrow> string) \<Rightarrow> plan_version \<Rightarrow> int \<Rightarrow> string \<Rightarrow> review_error + unit" where
  "exact fp v number fingerprint =
     rbind (ensure (number = pv_version v) (PlanVersionMismatch (pv_version v) ''version_mismatch'')) (\<lambda>_.
     ensure (fingerprint = fp (pv_proposal v)) (PlanVersionMismatch (pv_version v) ''content_mismatch''))"

definition approve ::
    "(migration_proposal \<Rightarrow> string) \<Rightarrow> int \<Rightarrow> string \<Rightarrow> stale_reason list \<Rightarrow> uuid \<Rightarrow> instant \<Rightarrow> string option \<Rightarrow>
     plan_version \<Rightarrow> review_error + plan_version" where
  "approve fp number fingerprint current user_id at comment v =
     rbind (exact fp v number fingerprint) (\<lambda>_.
     rbind (fresh current) (\<lambda>_.
     move fp APPROVED user_id at comment (Some fingerprint) v))"

definition reject ::
    "(migration_proposal \<Rightarrow> string) \<Rightarrow> int \<Rightarrow> string \<Rightarrow> string \<Rightarrow> uuid \<Rightarrow> instant \<Rightarrow> plan_version \<Rightarrow>
     review_error + plan_version" where
  "reject fp number fingerprint comment user_id at v =
     rbind (exact fp v number fingerprint) (\<lambda>_.
     move fp REJECTED user_id at (Some comment) (Some fingerprint) v)"

definition archive ::
    "(migration_proposal \<Rightarrow> string) \<Rightarrow> uuid \<Rightarrow> instant \<Rightarrow> plan_version \<Rightarrow> review_error + plan_version" where
  "archive fp user_id at v = move fp ARCHIVED user_id at None None v"

section \<open>The table of versions\<close>

definition migrations_get :: "uuid \<Rightarrow> uuid \<Rightarrow> int option \<Rightarrow> plan_version list \<Rightarrow> plan_version option" where
  "migrations_get project_id plan_id version rows =
     (case sort_key (\<lambda>r. - pv_version r)
             (filter (\<lambda>r. pv_project_id r = project_id \<and> pv_plan_id r = plan_id \<and>
                (case version of None \<Rightarrow> True | Some n \<Rightarrow> pv_version r = n)) rows) of
        [] \<Rightarrow> None
      | r # _ \<Rightarrow> Some r)"

definition migrations_history :: "uuid \<Rightarrow> uuid \<Rightarrow> plan_version list \<Rightarrow> plan_version list" where
  "migrations_history project_id plan_id rows =
     sort_key pv_version (filter (\<lambda>r. pv_project_id r = project_id \<and> pv_plan_id r = plan_id) rows)"

definition migrations_update_review :: "plan_version \<Rightarrow> plan_version list \<Rightarrow> plan_version list" where
  "migrations_update_review v rows =
     update_where (\<lambda>r. pv_id r = pv_id v \<and> pv_project_id r = pv_project_id v)
       (\<lambda>r. r\<lparr>pv_status := pv_status v, pv_reviews := pv_reviews v\<rparr>) rows"

text \<open>The primary key and the unique constraint on plan and version.\<close>

definition migrations_add :: "plan_version \<Rightarrow> plan_version list \<Rightarrow> plan_version list option" where
  "migrations_add v rows =
     (if pv_id v \<in> set (map pv_id rows) \<or> (pv_plan_id v, pv_version v) \<in> set (map (\<lambda>r. (pv_plan_id r, pv_version r)) rows)
      then None else Some (rows @ [v]))"

definition migrations_list_latest ::
    "uuid \<Rightarrow> uuid option \<Rightarrow> plan_status option \<Rightarrow> (instant \<times> uuid) option \<Rightarrow> nat \<Rightarrow> plan_version list \<Rightarrow>
     plan_version list" where
  "migrations_list_latest project_id architecture_id status after limit rows =
     take limit (rev (sort_key (\<lambda>r. (pv_created_at r, pv_id r))
       (filter (\<lambda>r. pv_project_id r = project_id \<and> pv_status r \<noteq> SUPERSEDED \<and>
          (case architecture_id of None \<Rightarrow> True | Some a \<Rightarrow> sr_architecture_id (mp_source (pv_proposal r)) = a) \<and>
          (case status of None \<Rightarrow> True | Some s \<Rightarrow> pv_status r = s) \<and>
          (case after of None \<Rightarrow> True | Some p \<Rightarrow> (pv_created_at r, pv_id r) < p)) rows)))"

text \<open>A person's action on one version.\<close>

datatype review =
    Submit "stale_reason list" | Approve string "stale_reason list" "string option" | Reject string string | Archive

fun apply_review ::
    "(migration_proposal \<Rightarrow> string) \<Rightarrow> review \<Rightarrow> int \<Rightarrow> uuid \<Rightarrow> instant \<Rightarrow> plan_version \<Rightarrow> review_error + plan_version" where
  "apply_review fp (Submit current) n user_id at v = submit fp current user_id at v"
| "apply_review fp (Approve fingerprint current comment) n user_id at v =
     approve fp n fingerprint current user_id at comment v"
| "apply_review fp (Reject fingerprint comment) n user_id at v = reject fp n fingerprint comment user_id at v"
| "apply_review fp Archive n user_id at v = archive fp user_id at v"

inductive plan_step :: "(migration_proposal \<Rightarrow> string) \<Rightarrow> plan_version list \<Rightarrow> plan_version list \<Rightarrow> bool" for fp where
  created: "first_version version_id plan_id project_id request proposal user_id at = Inr v \<Longrightarrow>
     plan_id \<notin> set (map pv_plan_id rows) \<Longrightarrow> migrations_add v rows = Some rows' \<Longrightarrow> plan_step fp rows rows'"
| reviewed: "migrations_get project_id plan_id (Some n) rows = Some v \<Longrightarrow>
     apply_review fp review n user_id at v = Inr v' \<Longrightarrow>
     plan_step fp rows (migrations_update_review v' rows)"
| regenerated: "migrations_get project_id plan_id None rows = Some latest \<Longrightarrow>
     regenerate fp latest version_id request proposal user_id at replace_reviewed = Inr (previous, Some v) \<Longrightarrow>
     migrations_add v (migrations_update_review previous rows) = Some rows' \<Longrightarrow> plan_step fp rows rows'"

definition plan_tables :: "(migration_proposal \<Rightarrow> string) \<Rightarrow> plan_version list set" where
  "plan_tables fp = {rows. (plan_step fp)\<^sup>*\<^sup>* [] rows}"

inductive_cases plan_stepE: "plan_step fp rows rows'"

end
