(* ===== verification/Mig_Review_Props.thy ===== *)
theory Mig_Review_Props
  imports Mig_Review
begin

text \<open>
  What the review of plan versions guarantees, whatever the order of the calls: a version's history
  is a path of allowed transitions from the status its proposal warrants, verdicts name its exact
  content, content is never overwritten, and only the latest version of a plan can be under review
  or approved.
\<close>

section \<open>One version\<close>

fun chain :: "plan_status \<Rightarrow> review_event list \<Rightarrow> plan_status \<Rightarrow> bool" where
  "chain s [] t \<longleftrightarrow> s = t"
| "chain s (e # es) t \<longleftrightarrow>
     re_from_status e = s \<and> re_to_status e \<in> set (TRANSITIONS s) \<and> chain (re_to_status e) es t"

definition event_ok :: "string \<Rightarrow> review_event \<Rightarrow> bool" where
  "event_ok f e \<longleftrightarrow>
     re_fingerprint e = (if re_to_status e \<in> {APPROVED, REJECTED} then Some f else None) \<and>
     (re_to_status e = REJECTED \<longrightarrow> (\<exists>c. re_comment e = Some c \<and> is_text c MAX_COMMENT))"

definition lawful :: "(migration_proposal \<Rightarrow> string) \<Rightarrow> plan_version \<Rightarrow> bool" where
  "lawful fp v \<longleftrightarrow> MigrationPlanVersion v = Inr v \<and>
     chain (mp_status (pv_proposal v)) (pv_reviews v) (pv_status v) \<and>
     (\<forall>e \<in> set (pv_reviews v). event_ok (fp (pv_proposal v)) e)"

text \<open>The same version, reviewed further.\<close>

definition same_content :: "plan_version \<Rightarrow> plan_version \<Rightarrow> bool" where
  "same_content v w \<longleftrightarrow> pv_id w = pv_id v \<and> pv_plan_id w = pv_plan_id v \<and> pv_version w = pv_version v \<and>
     pv_project_id w = pv_project_id v \<and> pv_request w = pv_request v \<and> pv_proposal w = pv_proposal v \<and>
     pv_created_by w = pv_created_by v \<and> pv_created_at w = pv_created_at v"

definition reviewed_from :: "plan_version \<Rightarrow> plan_version \<Rightarrow> bool" where
  "reviewed_from v w \<longleftrightarrow> same_content v w \<and>
     (\<exists>es. pv_reviews w = pv_reviews v @ es \<and> chain (pv_status v) es (pv_status w))"

lemma ensure_bind: "rbind (ensure c e) f = Inr y \<longleftrightarrow> c \<and> f () = Inr y"
  by (simp add: ensure_def)

lemma rbind_assoc: "rbind (rbind m f) g = rbind m (\<lambda>x. rbind (f x) g)"
  by (cases m) simp_all

lemma version_Inr: "MigrationPlanVersion v = Inr w \<Longrightarrow> w = v"
  by (simp add: MigrationPlanVersion_def require_that_def outcome_simps)

lemma version_content:
  "pv_version w = pv_version v \<Longrightarrow> pv_request w = pv_request v \<Longrightarrow> pv_proposal w = pv_proposal v \<Longrightarrow>
   MigrationPlanVersion v = Inr v \<Longrightarrow> MigrationPlanVersion w = Inr w"
  by (simp add: MigrationPlanVersion_def require_that_def outcome_simps)

lemma chain_append: "chain s (es @ fs) t \<longleftrightarrow> (\<exists>u. chain s es u \<and> chain u fs t)"
  by (induction es arbitrary: s) auto

lemma reviewed_refl [simp]: "reviewed_from v v"
  by (simp add: reviewed_from_def same_content_def)

lemma reviewed_trans: "reviewed_from u v \<Longrightarrow> reviewed_from v w \<Longrightarrow> reviewed_from u w"
  unfolding reviewed_from_def same_content_def by (auto simp: chain_append)

lemma reviewed_content:
  assumes "reviewed_from v w"
  shows "pv_id w = pv_id v" "pv_plan_id w = pv_plan_id v" "pv_version w = pv_version v"
    "pv_project_id w = pv_project_id v" "pv_proposal w = pv_proposal v"
  using assms by (simp_all add: reviewed_from_def same_content_def)

lemma move_Inr:
  assumes "move fp to u at comment fingerprint v = Inr w"
  shows "reviewed_from v w" "to \<in> set (TRANSITIONS (pv_status v))" "pv_status w = to"
    "lawful fp v \<Longrightarrow> lawful fp w"
proof -
  let ?e = "\<lparr>re_from_status = pv_status v, re_to_status = to, re_user_id = u, re_at = at, re_comment = comment,
    re_fingerprint = (if to \<in> set EXACT then fingerprint else None)\<rparr>"
  have all: "to \<in> set (TRANSITIONS (pv_status v)) \<and> (to \<in> set EXACT \<longrightarrow> fingerprint = Some (fp (pv_proposal v))) \<and>
      (\<forall>c \<in> set_option comment. is_text c MAX_COMMENT) \<and> (to \<in> set FEEDBACK_REQUIRED \<longrightarrow> \<not> missing_text comment) \<and>
      MigrationPlanVersion (v\<lparr>pv_status := to, pv_reviews := pv_reviews v @ [?e]\<rparr>) = Inr w"
    using assms unfolding move_def require_that_def ensure_bind by (elim conjE) (intro conjI impI; blast)
  note to = all[THEN conjunct1] and fpr = all[THEN conjunct2, THEN conjunct1]
    and com = all[THEN conjunct2, THEN conjunct2, THEN conjunct1]
      all[THEN conjunct2, THEN conjunct2, THEN conjunct2, THEN conjunct1]
    and m = all[THEN conjunct2, THEN conjunct2, THEN conjunct2, THEN conjunct2]
  note w = version_Inr[OF m]
  show "to \<in> set (TRANSITIONS (pv_status v))" by (rule to)
  show "pv_status w = to" by (simp add: w)
  show "reviewed_from v w" unfolding reviewed_from_def same_content_def using to by (simp add: w)
  assume l: "lawful fp v"
  have "event_ok (fp (pv_proposal v)) ?e"
    using fpr com by (auto simp: event_ok_def EXACT_def FEEDBACK_REQUIRED_def missing_text_def)
  with l to show "lawful fp w"
    using version_content[of w v] by (auto simp: lawful_def w chain_append)
qed

lemma review_moves:
  assumes "apply_review fp review n u at v = Inr w"
  shows "\<exists>to c f. move fp to u at c f v = Inr w"
proof (cases review)
  case (Submit current)
  from assms have "move fp READY_FOR_REVIEW u at None None v = Inr w"
    unfolding Submit apply_review.simps submit_def fresh_def ensure_bind by blast
  then show ?thesis by blast
next
  case (Approve f current c)
  from assms have "move fp APPROVED u at c (Some f) v = Inr w"
    unfolding Approve apply_review.simps approve_def exact_def fresh_def rbind_assoc ensure_bind by blast
  then show ?thesis by blast
next
  case (Reject f c)
  from assms have "move fp REJECTED u at (Some c) (Some f) v = Inr w"
    unfolding Reject apply_review.simps reject_def exact_def rbind_assoc ensure_bind by blast
  then show ?thesis by blast
next
  case Archive
  with assms have "move fp ARCHIVED u at None None v = Inr w" by (simp add: archive_def)
  then show ?thesis by blast
qed

lemma review_Inr:
  assumes "apply_review fp review n u at v = Inr w"
  shows "reviewed_from v w" "pv_status w \<in> set (TRANSITIONS (pv_status v))" "lawful fp v \<Longrightarrow> lawful fp w"
proof -
  obtain to c f where m: "move fp to u at c f v = Inr w" using review_moves[OF assms] by blast
  from move_Inr[OF m] show "reviewed_from v w" "pv_status w \<in> set (TRANSITIONS (pv_status v))"
    "lawful fp v \<Longrightarrow> lawful fp w" by auto
qed

lemma regenerate_Inr:
  assumes "regenerate fp latest i request proposal u at rr = Inr (previous, Some v)"
  shows "reviewed_from latest previous" "pv_status previous = SUPERSEDED" "lawful fp latest \<Longrightarrow> lawful fp previous"
    "lawful fp v" "pv_plan_id v = pv_plan_id latest" "pv_project_id v = pv_project_id latest"
    "pv_version v = pv_version latest + 1" "pv_reviews v = []"
proof -
  obtain m where m: "move fp SUPERSEDED u at m None latest = Inr previous"
    and v: "MigrationPlanVersion \<lparr>pv_id = i, pv_plan_id = pv_plan_id latest,
              pv_version = pv_version latest + 1, pv_project_id = pv_project_id latest, pv_request = request,
              pv_proposal = proposal, pv_status = mp_status proposal, pv_created_by = u,
              pv_created_at = at, pv_reviews = []\<rparr> = Inr v"
    using assms unfolding regenerate_def require_that_def ensure_bind
    by (auto simp: ensure_bind rbind_Inr split: if_splits)
  from move_Inr[OF m] show "reviewed_from latest previous" "pv_status previous = SUPERSEDED"
    "lawful fp latest \<Longrightarrow> lawful fp previous" by blast+
  from version_Inr[OF v] v show "lawful fp v" "pv_plan_id v = pv_plan_id latest" "pv_project_id v = pv_project_id latest"
    "pv_version v = pv_version latest + 1" "pv_reviews v = []" by (simp_all add: lawful_def)
qed

text \<open>An approved version was submitted as a draft and then approved, and nothing else.\<close>

lemma lawful_approved:
  assumes "lawful fp v" "pv_status v = APPROVED"
  shows "mp_status (pv_proposal v) = DRAFT \<and> (\<exists>e1 e2. pv_reviews v = [e1, e2] \<and>
    re_from_status e1 = DRAFT \<and> re_to_status e1 = READY_FOR_REVIEW \<and>
    re_from_status e2 = READY_FOR_REVIEW \<and> re_to_status e2 = APPROVED \<and>
    re_fingerprint e2 = Some (fp (pv_proposal v)))"
proof -
  have dead: "\<not> chain s es APPROVED" if "s \<in> {SUPERSEDED, ARCHIVED, REJECTED, NEEDS_INFORMATION}" for s es
    using that
  proof (induction es arbitrary: s)
    case (Cons e es)
    then show ?case by (cases s) auto
  qed auto
  have stop: "es = []" if "chain APPROVED es APPROVED" for es
    using that dead by (cases es) auto
  have ready: "\<exists>e. es = [e] \<and> re_from_status e = READY_FOR_REVIEW \<and> re_to_status e = APPROVED"
    if "chain READY_FOR_REVIEW es APPROVED" for es
    using that dead stop by (cases es) auto
  let ?s = "mp_status (pv_proposal v)"
  have c: "chain ?s (pv_reviews v) APPROVED" using assms by (simp add: lawful_def)
  have "?s = DRAFT \<or> ?s = NEEDS_INFORMATION" by (simp add: mp_status_def)
  with c dead have s: "?s = DRAFT" by auto
  with c obtain e1 es where e1: "pv_reviews v = e1 # es" "re_from_status e1 = DRAFT"
    "re_to_status e1 \<in> {READY_FOR_REVIEW, SUPERSEDED, ARCHIVED}" "chain (re_to_status e1) es APPROVED"
    by (cases "pv_reviews v") auto
  then have "re_to_status e1 = READY_FOR_REVIEW" using dead by auto
  with ready e1 obtain e2 where e2: "es = [e2]" "re_from_status e2 = READY_FOR_REVIEW" "re_to_status e2 = APPROVED"
    by auto
  moreover have "event_ok (fp (pv_proposal v)) e2" using assms(1) e1(1) e2(1) by (simp add: lawful_def)
  ultimately show ?thesis using s e1 \<open>re_to_status e1 = READY_FOR_REVIEW\<close> by (simp add: event_ok_def)
qed

section \<open>The table\<close>

definition settled :: "plan_version \<Rightarrow> bool" where
  "settled v \<longleftrightarrow> pv_status v \<in> {SUPERSEDED, ARCHIVED}"

definition table_ok :: "(migration_proposal \<Rightarrow> string) \<Rightarrow> plan_version list \<Rightarrow> bool" where
  "table_ok fp rows \<longleftrightarrow>
     distinct (map pv_id rows) \<and> (\<forall>v \<in> set rows. lawful fp v \<and> 1 \<le> pv_version v) \<and>
     (\<forall>v \<in> set rows. \<forall>w \<in> set rows. pv_plan_id v = pv_plan_id w \<longrightarrow>
        pv_project_id v = pv_project_id w \<and> (pv_version v < pv_version w \<longrightarrow> settled v) \<and>
        (pv_version v = pv_version w \<longrightarrow> v = w)) \<and>
     (\<forall>v \<in> set rows. \<forall>k. 1 \<le> k \<and> k < pv_version v \<longrightarrow>
        (\<exists>w \<in> set rows. pv_plan_id w = pv_plan_id v \<and> pv_version w = k))"

text \<open>Every row is still there, with the same content and a longer history.\<close>

definition kept :: "plan_version list \<Rightarrow> plan_version list \<Rightarrow> bool" where
  "kept rows rows' \<longleftrightarrow> (\<forall>v \<in> set rows. \<exists>w \<in> set rows'. reviewed_from v w)"

lemma kept_refl [simp]: "kept rows rows"
  unfolding kept_def using reviewed_refl by blast

lemma kept_trans: "kept a b \<Longrightarrow> kept b c \<Longrightarrow> kept a c"
  unfolding kept_def by (meson reviewed_trans)

lemma sort_key_hd:
  assumes "sort_key f xs = x # ys"
  shows "x \<in> set xs" "\<And>y. y \<in> set xs \<Longrightarrow> f x \<le> f y"
proof -
  have "set (x # ys) = set xs" "sorted (map f (x # ys))"
    using assms by (metis set_sort, metis sorted_sort_key)
  then show "x \<in> set xs" "\<And>y. y \<in> set xs \<Longrightarrow> f x \<le> f y" by auto
qed

lemma get_Some:
  assumes "migrations_get project_id plan_id version rows = Some v"
  shows "v \<in> set rows" "pv_plan_id v = plan_id" "pv_project_id v = project_id"
    "\<And>w. version = None \<Longrightarrow> w \<in> set rows \<Longrightarrow> pv_plan_id w = plan_id \<Longrightarrow> pv_project_id w = project_id \<Longrightarrow>
       pv_version w \<le> pv_version v"
proof -
  obtain vs where vs: "sort_key (\<lambda>r. - pv_version r)
      (filter (\<lambda>r. pv_project_id r = project_id \<and> pv_plan_id r = plan_id \<and>
        (case version of None \<Rightarrow> True | Some n \<Rightarrow> pv_version r = n)) rows) = v # vs"
    using assms by (auto simp: migrations_get_def split: list.splits)
  from sort_key_hd(1)[OF vs] show "v \<in> set rows" "pv_plan_id v = plan_id" "pv_project_id v = project_id" by auto
  show "pv_version w \<le> pv_version v" if "version = None" "w \<in> set rows" "pv_plan_id w = plan_id"
    "pv_project_id w = project_id" for w
    using sort_key_hd(2)[OF vs, of w] that by simp
qed

lemma reviewed_eq:
  assumes "reviewed_from v w"
  shows "v\<lparr>pv_status := pv_status w, pv_reviews := pv_reviews w\<rparr> = w"
  using assms unfolding reviewed_from_def same_content_def by (cases v; cases w) simp

text \<open>Updating one row's review replaces that row.\<close>

lemma update_review_set:
  assumes "table_ok fp rows" "v \<in> set rows" "reviewed_from v w"
  shows "set (migrations_update_review w rows) = insert w (set rows - {v})"
    "map pv_id (migrations_update_review w rows) = map pv_id rows"
proof -
  have d: "distinct (map pv_id rows)" using assms(1) by (simp add: table_ok_def)
  note c = reviewed_content[OF assms(3)]
  have "(if pv_id r = pv_id w \<and> pv_project_id r = pv_project_id w
      then r\<lparr>pv_status := pv_status w, pv_reviews := pv_reviews w\<rparr> else r) = (if r = v then w else r)"
    if "r \<in> set rows" for r
  proof (cases "r = v")
    case True
    with c reviewed_eq[OF assms(3)] show ?thesis by simp
  next
    case False
    then have "pv_id r \<noteq> pv_id v" using d that assms(2) by (metis distinct_map inj_onD)
    with False c show ?thesis by simp
  qed
  then have eq: "migrations_update_review w rows = map (\<lambda>r. if r = v then w else r) rows"
    by (simp add: migrations_update_review_def update_where_def)
  show "set (migrations_update_review w rows) = insert w (set rows - {v})"
    using assms(2) unfolding eq by auto
  show "map pv_id (migrations_update_review w rows) = map pv_id rows"
    using c(1) unfolding eq by simp
qed

lemma update_review_kept:
  assumes "table_ok fp rows" "v \<in> set rows" "reviewed_from v w"
  shows "kept rows (migrations_update_review w rows)"
  unfolding kept_def update_review_set(1)[OF assms] using assms(3) reviewed_refl by blast

lemma settled_stays: "settled v \<Longrightarrow> s \<in> set (TRANSITIONS (pv_status v)) \<Longrightarrow> s = ARCHIVED"
  by (auto simp: settled_def)

lemma table_update:
  assumes ok: "table_ok fp rows" and v: "v \<in> set rows" and w: "reviewed_from v w" "lawful fp w"
    and "settled v \<Longrightarrow> settled w"
  shows "table_ok fp (migrations_update_review w rows)"
proof -
  note S = update_review_set[OF ok v w(1)]
  note c = reviewed_content[OF w(1)]
  have vals: "\<And>x. x \<in> set rows \<Longrightarrow> lawful fp x \<and> 1 \<le> pv_version x"
    and pair: "\<And>x y. x \<in> set rows \<Longrightarrow> y \<in> set rows \<Longrightarrow> pv_plan_id x = pv_plan_id y \<Longrightarrow>
      pv_project_id x = pv_project_id y \<and> (pv_version x < pv_version y \<longrightarrow> settled x) \<and> (pv_version x = pv_version y \<longrightarrow> x = y)"
    and full: "\<And>x k. x \<in> set rows \<Longrightarrow> 1 \<le> k \<Longrightarrow> k < pv_version x \<Longrightarrow>
      \<exists>y \<in> set rows. pv_plan_id y = pv_plan_id x \<and> pv_version y = k"
    using ok unfolding table_ok_def by blast+
  have "pv_project_id x = pv_project_id y \<and> (pv_version x < pv_version y \<longrightarrow> settled x) \<and> (pv_version x = pv_version y \<longrightarrow> x = y)"
    if xy: "x \<in> insert w (set rows - {v})" "y \<in> insert w (set rows - {v})" "pv_plan_id x = pv_plan_id y" for x y
  proof -
    define was where "was z = (if z = w then v else z)" for z
    have b: "was x \<in> set rows" "was y \<in> set rows" using xy(1,2) v by (auto simp: was_def)
    have same: "pv_plan_id (was z) = pv_plan_id z" "pv_project_id (was z) = pv_project_id z"
      "pv_version (was z) = pv_version z" for z using c by (simp_all add: was_def)
    have "settled (was x) \<Longrightarrow> settled x" using assms(5) by (simp add: was_def split: if_splits)
    moreover have "x = y" if "was x = was y" using that xy(1,2) by (auto simp: was_def split: if_splits)
    ultimately show ?thesis using pair[OF b] xy(3) same by metis
  qed
  moreover have "lawful fp x \<and> 1 \<le> pv_version x" if "x \<in> insert w (set rows - {v})" for x
    using that vals vals[OF v] w(2) c(3) by auto
  moreover have "\<exists>y \<in> insert w (set rows - {v}). pv_plan_id y = pv_plan_id x \<and> pv_version y = k"
    if "x \<in> insert w (set rows - {v})" "1 \<le> k" "k < pv_version x" for x k
  proof -
    have "\<exists>y \<in> set rows. pv_plan_id y = pv_plan_id x \<and> pv_version y = k"
      using that full[of x k] full[OF v, of k] c by auto
    then show ?thesis using c by (metis Diff_iff insert_iff singletonD)
  qed
  moreover have "distinct (map pv_id (migrations_update_review w rows))"
    using ok unfolding S(2) by (simp add: table_ok_def)
  ultimately show ?thesis unfolding table_ok_def S(1) by blast
qed

lemma table_add:
  assumes ok: "table_ok fp rows" and add: "migrations_add v rows = Some rows'" and l: "lawful fp v" "1 \<le> pv_version v"
    and old: "\<And>x. x \<in> set rows \<Longrightarrow> pv_plan_id x = pv_plan_id v \<Longrightarrow>
      pv_project_id x = pv_project_id v \<and> pv_version x < pv_version v \<and> settled x"
    and full: "\<And>k. 1 \<le> k \<Longrightarrow> k < pv_version v \<Longrightarrow> \<exists>y \<in> set rows. pv_plan_id y = pv_plan_id v \<and> pv_version y = k"
  shows "table_ok fp rows'" "kept rows rows'"
proof -
  have rows': "rows' = rows @ [v]" "pv_id v \<notin> set (map pv_id rows)"
    using add by (auto simp: migrations_add_def split: if_splits)
  show "kept rows rows'" unfolding kept_def rows'(1) by (metis UnI1 reviewed_refl set_append)
  have "distinct (map pv_id rows')" using ok rows' by (simp add: table_ok_def)
  moreover have "\<forall>x \<in> set rows'. \<forall>y \<in> set rows'. pv_plan_id x = pv_plan_id y \<longrightarrow>
        pv_project_id x = pv_project_id y \<and> (pv_version x < pv_version y \<longrightarrow> settled x) \<and>
        (pv_version x = pv_version y \<longrightarrow> x = y)"
  proof (intro ballI impI)
    fix x y
    assume "x \<in> set rows'" "y \<in> set rows'" and p: "pv_plan_id x = pv_plan_id y"
    then consider "x \<in> set rows" "y \<in> set rows" | "x = v" "y \<in> set rows" | "y = v" "x \<in> set rows" | "x = v" "y = v"
      unfolding rows'(1) by auto
    then show "pv_project_id x = pv_project_id y \<and> (pv_version x < pv_version y \<longrightarrow> settled x) \<and>
        (pv_version x = pv_version y \<longrightarrow> x = y)"
    proof cases
      case 1
      with ok p show ?thesis unfolding table_ok_def by blast
    next
      case 2
      with old[of y] p show ?thesis by simp
    next
      case 3
      with old[of x] p show ?thesis by simp
    qed simp
  qed
  moreover have "\<forall>x \<in> set rows'. lawful fp x \<and> 1 \<le> pv_version x"
    using ok l unfolding rows'(1) table_ok_def by auto
  moreover have "\<exists>w \<in> set rows'. pv_plan_id w = pv_plan_id x \<and> pv_version w = k"
    if "x \<in> set rows'" "1 \<le> k" "k < pv_version x" for x k
    using that full[of k] ok unfolding rows'(1) table_ok_def by auto
  ultimately show "table_ok fp rows'" unfolding table_ok_def by blast
qed

lemma plan_step_ok:
  assumes "plan_step fp rows rows'" "table_ok fp rows"
  shows "table_ok fp rows' \<and> kept rows rows'"
  using assms
proof (cases rule: plan_step.cases)
  case (created i plan_id project_id request proposal u at v)
  have v: "v = \<lparr>pv_id = i, pv_plan_id = plan_id, pv_version = 1, pv_project_id = project_id, pv_request = request,
      pv_proposal = proposal, pv_status = mp_status proposal, pv_created_by = u, pv_created_at = at, pv_reviews = []\<rparr>"
    and m: "MigrationPlanVersion v = Inr v"
    using created(1) version_Inr unfolding first_version_def by auto
  have "lawful fp v" using m by (simp add: lawful_def v)
  from table_add[OF assms(2) created(3) this] created(2) show ?thesis by (auto simp: v)
next
  case (reviewed project_id plan_id n v review u at v')
  note v = get_Some(1)[OF reviewed(2)] and r = review_Inr[OF reviewed(3)]
  have "lawful fp v'" using r(3) v assms(2) by (simp add: table_ok_def)
  moreover have "settled v \<Longrightarrow> settled v'" using settled_stays r(2) by (metis insertCI settled_def)
  ultimately show ?thesis
    using table_update[OF assms(2) v r(1)] update_review_kept[OF assms(2) v r(1)] reviewed(1) by blast
next
  case (regenerated project_id plan_id latest i request proposal u at rr previous v)
  note g = get_Some[OF regenerated(1)] and r = regenerate_Inr[OF regenerated(2)]
  let ?rows = "migrations_update_review previous rows"
  have lp: "lawful fp previous" using r(3) g(1) assms(2) by (simp add: table_ok_def)
  have sp: "settled previous" using r(2) by (simp add: settled_def)
  have ok: "table_ok fp ?rows" by (rule table_update[OF assms(2) g(1) r(1) lp sp])
  note S = update_review_set(1)[OF assms(2) g(1) r(1)] and c = reviewed_content[OF r(1)]
  have pin: "previous \<in> set ?rows" using S by simp
  have old: "pv_project_id x = pv_project_id v \<and> pv_version x < pv_version v \<and> settled x"
    if x: "x \<in> set ?rows" "pv_plan_id x = pv_plan_id v" for x
  proof -
    have p: "pv_plan_id x = pv_plan_id previous" using x(2) r(5) c(2) by simp
    with ok x(1) pin have q: "pv_project_id x = pv_project_id previous"
      "pv_version x < pv_version previous \<longrightarrow> settled x" "pv_version x = pv_version previous \<longrightarrow> x = previous"
      unfolding table_ok_def by blast+
    have "pv_version x \<le> pv_version previous"
    proof (cases "x = previous")
      case False
      with x(1) S have "x \<in> set rows" by auto
      then show ?thesis using g(4)[OF refl, of x] g(2,3) p q(1) c by simp
    qed simp
    with q sp r(6,7) c show ?thesis by (metis add.commute le_less less_add_one zless_add1_eq)
  qed
  have full: "\<exists>y \<in> set ?rows. pv_plan_id y = pv_plan_id v \<and> pv_version y = k" if k: "1 \<le> k" "k < pv_version v" for k
  proof (cases "k = pv_version latest")
    case True
    with pin r(5) c show ?thesis by auto
  next
    case False
    with k r(7) c(3) have "k < pv_version previous" by simp
    with ok pin k(1) have "\<exists>y \<in> set ?rows. pv_plan_id y = pv_plan_id previous \<and> pv_version y = k"
      unfolding table_ok_def by blast
    with r(5) c(2) show ?thesis by simp
  qed
  have "1 \<le> pv_version v" using r(7) g(1) assms(2) unfolding table_ok_def by fastforce
  from table_add[OF ok regenerated(3) r(4) this old full] update_review_kept[OF assms(2) g(1) r(1)]
  show ?thesis using kept_trans by blast
qed

lemma plan_steps_ok:
  assumes "(plan_step fp)\<^sup>*\<^sup>* rows rows'" "table_ok fp rows"
  shows "table_ok fp rows' \<and> kept rows rows'"
  using assms
proof (induction rule: rtranclp_induct)
  case (step b c)
  with plan_step_ok[of fp b c] kept_trans show ?case by blast
qed simp

lemma plan_tables_ok:
  assumes "rows \<in> plan_tables fp"
  shows "table_ok fp rows"
proof -
  have "table_ok fp []" by (simp add: table_ok_def)
  with plan_steps_ok[of fp "[]" rows] assms show ?thesis by (simp add: plan_tables_def)
qed

text \<open>The evidence the service compares a version with is the version's own.\<close>

lemma service_evidence: "EVIDENCE_STALE \<notin> set (freshness p (service_state p a b n ms))"
proof -
  let ?now = "service_state p a b n ms"
  have "map_of (cs_evidence ?now) (evidence_key e) = Some CURRENT"
    if "e \<in> set (filter (\<lambda>e. ev_state e = CURRENT) (mp_evidence p))" for e
  proof -
    have "map_of (map (\<lambda>e. (evidence_key e, CURRENT)) es) (evidence_key e) = Some CURRENT"
      if "e \<in> set es" for es using that by (induction es) auto
    with that show ?thesis by (simp add: service_state_def)
  qed
  then have "\<not> list_ex (\<lambda>e. (case map_of (cs_evidence ?now) (evidence_key e) of None \<Rightarrow> MISSING | Some st \<Rightarrow> st) \<noteq> CURRENT)
      (filter (\<lambda>e. ev_state e = CURRENT) (mp_evidence p))"
    by (auto simp: list_ex_iff)
  then show ?thesis by (simp add: freshness_def Let_def)
qed

end
