(* ===== verification/Mig_Theorems.thy ===== *)
theory Mig_Theorems
  imports Mig_Sequence_Props Mig_Review_Props
begin

text \<open>
  The properties of migration planning: the dependency graph and the sequence of a plan's steps, and
  the review of its versions, each with a concrete plan it applies to.
\<close>

section \<open>Sample plan\<close>

text \<open>Retiring a database: verify that nothing uses it, switch over, remove it.\<close>

definition plain_sha :: "string \<Rightarrow> string" where
  "plain_sha s = s"

definition sample_step :: "string \<Rightarrow> step_type \<Rightarrow> string list \<Rightarrow> migration_step" where
  "sample_step key type deps =
     \<lparr>ms_key = key, ms_type = type, ms_title = key, ms_outcome = ''Completed.'',
      ms_traces = [\<lparr>tr_kind = CHANGE_TRACE, tr_reference = ''node:db:removed'', tr_detail = None\<rparr>],
      ms_completion = [''Checked.''], ms_description = None, ms_element_ids = [''db''],
      ms_preconditions = [], ms_inputs = [], ms_depends_on = map (step_id plain_sha) deps,
      ms_parallelizable = False, ms_downtime = MODELED_ONLINE, ms_downtime_note = None, ms_traffic = None,
      ms_availability = [], ms_data_impact = None, ms_reversibility = REVERSIBLE,
      ms_manual_verification = (type = CUTOVER), ms_assumptions = []\<rparr>"

definition retire_db :: "migration_step list" where
  "retire_db =
     [sample_step ''v'' VERIFY [], sample_step ''c'' CUTOVER [''v''], sample_step ''r'' DECOMMISSION [''c'']]"

definition db_removed :: "migration_change list" where
  "db_removed = [\<lparr>mc_element = ''node'', mc_element_id = ''db'', mc_change = REMOVED, mc_relevance = MIGRATION\<rparr>]"

definition retire_db_sequencing :: sequencing where
  "retire_db_sequencing =
     \<lparr>sq_sequence =
        [\<lparr>sg_number = 1, sg_step_ids = [step_id plain_sha ''v''], sg_parallel = False\<rparr>,
         \<lparr>sg_number = 2, sg_step_ids = [step_id plain_sha ''c''], sg_parallel = False\<rparr>,
         \<lparr>sg_number = 3, sg_step_ids = [step_id plain_sha ''r''], sg_parallel = False\<rparr>],
      sq_findings = []\<rparr>"

lemma retire_db_built: "\<forall>s \<in> set retire_db. MigrationStep plain_sha s = Inr s"
  by code_simp

lemma retire_db_ids: "distinct (map (ms_id plain_sha) retire_db)"
  by code_simp

lemma retire_db_sequence: "sequence plain_sha retire_db db_removed = Inr retire_db_sequencing"
  by code_simp

section \<open>The dependency graph\<close>

text \<open>
  C28.  The cycles of a dependency graph are exactly its strongly connected groups of more than one
  step: the search always returns, the groups it returns are, as sets, the groups of steps that wait
  for each other, none twice, each in key order, and the groups in the order of their first keys.
\<close>

theorem cycles_are_strong_components:
  "\<exists>gs. cycles g = Some gs \<and>
     set ` set gs = {C. \<exists>i \<in> set (map fst g). C = component (dep_edges g) i \<and> C \<noteq> {i}} \<and>
     distinct (map set gs) \<and> sorted (map (\<lambda>m. step_key g (hd m)) gs) \<and>
     list_all (\<lambda>m. distinct m \<and> sorted (map (step_key g) m) \<and> 1 < length m) gs"
  using cycles_exact[of g] unfolding list_all_iff by (elim exE conjE) (intro exI conjI; assumption)

text \<open>
  C29.  The order of a plan's steps is the only list in which, at every position, stands the step
  with the least key among those whose known dependencies all came before, and in which nothing that
  is left out could follow; it leaves out exactly the steps that wait, directly or through others,
  for a cycle.
\<close>

theorem order_is_the_topological_order:
  "{os. topological (dep_edges (graph_of sha steps)) (step_key (graph_of sha steps))
          (set (map fst (graph_of sha steps))) os} = {order (graph_of sha steps)} \<and>
   set (order (graph_of sha steps)) =
     {i \<in> set (map fst (graph_of sha steps)).
        \<not> (\<exists>j. (i, j) \<in> (edges (dep_edges (graph_of sha steps)))\<^sup>* \<and>
                (j, j) \<in> (edges (dep_edges (graph_of sha steps)))\<^sup>+)}"
proof
  let ?g = "graph_of sha steps"
  note top = order_topological[OF graph_distinct[of sha steps]]
  show "{os. topological (dep_edges ?g) (step_key ?g) (set (map fst ?g)) os} = {order ?g}"
    using top topological_unique[OF _ top graph_key_inj] by blast
  show "set (order ?g) = {i \<in> set (map fst ?g). \<not> (\<exists>j. (i, j) \<in> (waits ?g)\<^sup>* \<and> (j, j) \<in> (waits ?g)\<^sup>+)}"
    using deps.topological_leaves_out[OF top] by blast
qed

text \<open>
  C30.  Sequencing built steps with distinct ids always returns: it gives a sequence and findings, or
  raises because a finding or a stage it builds is refused as malformed; no loop runs forever, no
  lookup fails, and an invalid graph is never ordered.
\<close>

theorem sequence_returns:
  assumes "distinct (map (ms_id sha) steps)" and "\<forall>s \<in> set steps. MigrationStep sha s = Inr s"
  shows "(\<exists>r. sequence sha steps changes = Inr r) \<or> (\<exists>fs. sequence sha steps changes = Inl (InvalidMigrationPlan fs))"
  using sequence_raise[OF assms, of changes] by (cases "sequence sha steps changes") auto

theorem sequence_returns_witness:
  "(\<exists>r. sequence plain_sha retire_db db_removed = Inr r) \<or>
   (\<exists>fs. sequence plain_sha retire_db db_removed = Inl (InvalidMigrationPlan fs))"
  by (rule sequence_returns[OF retire_db_ids retire_db_built])

text \<open>
  C31.  The sequence follows from the dependencies alone.  When every dependency is a step of the
  plan and none waits for itself through others, the stages satisfy the proposal's own check (every
  step exactly once, numbered from 1, parallel only when every step of the stage is parallelizable)
  and each dependency stands in a strictly earlier stage; otherwise there is no sequence, and a
  finding says which dependencies are invalid or cyclic.
\<close>

theorem sequence_follows_dependencies:
  assumes "distinct (map (ms_id sha) steps)" and "\<forall>s \<in> set steps. MigrationStep sha s = Inr s"
    and "sequence sha steps changes = Inr r"
  shows "if closed_under sha steps \<and> acyclic (depends sha steps)
    then sequence_ok sha steps (sq_sequence r) \<and>
      (\<forall>(i, d) \<in> depends sha steps. \<exists>a b. a < b \<and> b < length (sq_sequence r) \<and>
         d \<in> set (sg_step_ids (sq_sequence r ! a)) \<and> i \<in> set (sg_step_ids (sq_sequence r ! b)))
    else sq_sequence r = [] \<and> (\<exists>f \<in> set (sq_findings r). pf_type f \<in> {INVALID_DEPENDENCY, DEPENDENCY_CYCLE})"
  by (rule sequence_exact[OF assms])

theorem sequence_follows_dependencies_witness:
  "closed_under plain_sha retire_db \<and> acyclic (depends plain_sha retire_db) \<and>
   sequence_ok plain_sha retire_db (sq_sequence retire_db_sequencing)"
  using sequence_follows_dependencies[OF retire_db_ids retire_db_built retire_db_sequence]
  by (simp add: retire_db_sequencing_def split: if_splits)

text \<open>
  C32.  A plan is sequenced without findings exactly when its dependencies are steps of it and
  acyclic, and each step has its prerequisites: an element the target adds is provisioned by the step
  itself or by one it waits for; the decommissioning of one removed element, and no other, waits
  for every other step concerning it; a cutover waits for a verification or a preparation, a
  decommissioning for a verification; and a person verifies every cutover, irreversible step and
  step with known or potential downtime.
\<close>

theorem plan_without_findings_is_prepared:
  assumes "distinct (map (ms_id sha) steps)" and "\<forall>s \<in> set steps. MigrationStep sha s = Inr s"
    and "sequence sha steps changes = Inr r"
  shows "sq_findings r = [] \<longleftrightarrow> closed_under sha steps \<and> acyclic (depends sha steps) \<and>
    (\<forall>s \<in> set steps. prerequisites sha steps changes s)"
  by (rule sequence_safe[OF assms])

theorem plan_without_findings_is_prepared_witness:
  "list_all (prerequisites plain_sha retire_db db_removed) retire_db"
  using plan_without_findings_is_prepared[OF retire_db_ids retire_db_built retire_db_sequence]
  by (simp add: retire_db_sequencing_def list_all_iff)

text \<open>
  C33.  The same steps give the same sequence and the same findings, whatever the order in which they
  were generated.
\<close>

theorem sequence_ignores_input_order:
  assumes "mset steps = mset steps'" and "distinct (map ms_key steps)"
  shows "sequence sha steps changes = sequence sha steps' changes"
  by (rule sequence_permuted[OF assms])

theorem sequence_ignores_input_order_witness:
  "sequence plain_sha (rev retire_db) db_removed = Inr retire_db_sequencing"
proof -
  have "distinct (map ms_key retire_db)" by code_simp
  from sequence_ignores_input_order[OF _ this, of "rev retire_db" plain_sha db_removed] retire_db_sequence
  show ?thesis by simp
qed

section \<open>Limits\<close>

text \<open>
  A proposal holds at most 200 steps: the check for at most 500 steps is followed by the check every
  list of parts passes, which allows 200.
\<close>

theorem proposals_hold_200_steps:
  "MigrationProposal sha p = Inr q \<Longrightarrow> length (mp_steps p) \<le> 200"
  by (auto simp: MigrationProposal_Inr check_ok proposal_problems_def items_problem_def MAX_ITEMS_def split: if_splits)

text \<open>
  A step's key may have 128 characters, and so may a finding's key; the findings about a step prefix
  the step's key.  So a step that lacks a prerequisite, with a long key, is not reported: the call
  raises.
\<close>

theorem long_keys_refuse_sequencing:
  "\<exists>s. MigrationStep plain_sha s = Inr s \<and>
     sequence plain_sha [s] [] = Inl (InvalidMigrationPlan [''finding.key''])"
proof (intro exI conjI)
  let ?s = "sample_step (replicate 120 CHR 0x6B) CUTOVER []"
  show "MigrationStep plain_sha ?s = Inr ?s" by code_simp
  show "sequence plain_sha [?s] [] = Inl (InvalidMigrationPlan [''finding.key''])" by code_simp
qed

text \<open>
  The removal of several elements by one step is not held back: nothing makes it wait for the other
  steps that concern them.
\<close>

theorem joint_decommissions_do_not_wait:
  "\<exists>steps r. (\<forall>s \<in> set steps. MigrationStep plain_sha s = Inr s) \<and>
     sequence plain_sha steps db_removed = Inr r \<and> sq_findings r = [] \<and>
     (\<exists>s \<in> set steps. \<exists>o' \<in> set steps. ms_type s = DECOMMISSION \<and> ms_element_ids s = [''cache'', ''db''] \<and>
        ms_element_ids o' = [''db''] \<and> ms_depends_on s \<noteq> [] \<and> step_id plain_sha (ms_key o') \<notin> set (ms_depends_on s) \<and>
        ms_depends_on o' = [])"
proof -
  let ?steps = "[sample_step ''v'' VERIFY [], sample_step ''w'' CONFIGURE [],
    (sample_step ''x'' DECOMMISSION [''v''])\<lparr>ms_element_ids := [''cache'', ''db'']\<rparr>]"
  have "\<forall>s \<in> set ?steps. MigrationStep plain_sha s = Inr s" by code_simp
  moreover have "case sequence plain_sha ?steps db_removed of Inl _ \<Rightarrow> False | Inr r \<Rightarrow> sq_findings r = []" by code_simp
  then have "\<exists>r. sequence plain_sha ?steps db_removed = Inr r \<and> sq_findings r = []" by (simp split: sum.splits)
  moreover have "step_id plain_sha ''w'' \<notin> set (map (step_id plain_sha) [''v''])" by code_simp
  ultimately show ?thesis by (intro exI[of _ ?steps]) (auto simp: sample_step_def)
qed

section \<open>Sample versions\<close>

definition plain_fp :: "migration_proposal \<Rightarrow> string" where
  "plain_fp p = (case mp_diff_summary p of None \<Rightarrow> ''none'' | Some d \<Rightarrow> d)"

definition sample_hash :: string where
  "sample_hash = replicate 64 CHR 0x30"

definition sample_proposal :: migration_proposal where
  "sample_proposal =
     \<lparr>mp_source = \<lparr>sr_architecture_id = 1, sr_revision_number = 1, sr_content_hash = sample_hash\<rparr>,
      mp_target = \<lparr>tg_kind = REVISION, tg_architecture_id = 1, tg_revision_number = 2,
        tg_content_hash = sample_hash, tg_analysis_id = None, tg_candidate_id = None\<rparr>,
      mp_steps = retire_db, mp_risks = [], mp_checkpoints = [], mp_rollbacks = [], mp_data_migrations = [],
      mp_compatibility = [], mp_findings = [], mp_evidence = [], mp_assumptions = [], mp_strategy = None,
      mp_models = [], mp_diff_summary = Some ''db removed'', mp_alternatives = [],
      mp_sequence = sq_sequence retire_db_sequencing, mp_coverage = []\<rparr>"

definition sample_request :: "string option \<Rightarrow> migration_request" where
  "sample_request title =
     \<lparr>rq_architecture_id = 1, rq_source_revision = 1,
      rq_target = \<lparr>ts_revision = Some 2, ts_analysis_id = None, ts_candidate_id = None\<rparr>, rq_goals = [],
      rq_constraints = \<lparr>mk_downtime_allowed = None, mk_maintenance_window = None, mk_statements = []\<rparr>,
      rq_data_requirements = [], rq_requirement_ids = None, rq_strategy = None, rq_assumptions = [],
      rq_title = title\<rparr>"

definition sample_version :: plan_version where
  "sample_version =
     \<lparr>pv_id = 10, pv_plan_id = 3, pv_version = 1, pv_project_id = 5, pv_request = sample_request None,
      pv_proposal = sample_proposal, pv_status = DRAFT, pv_created_by = 7, pv_created_at = 100, pv_reviews = []\<rparr>"

definition event :: "plan_status \<Rightarrow> plan_status \<Rightarrow> instant \<Rightarrow> string option \<Rightarrow> string option \<Rightarrow> review_event" where
  "event from to at comment fingerprint =
     \<lparr>re_from_status = from, re_to_status = to, re_user_id = 7, re_at = at, re_comment = comment,
      re_fingerprint = fingerprint\<rparr>"

definition submitted_version :: plan_version where
  "submitted_version = sample_version\<lparr>pv_status := READY_FOR_REVIEW,
     pv_reviews := [event DRAFT READY_FOR_REVIEW 110 None None]\<rparr>"

definition approved_version :: plan_version where
  "approved_version = sample_version\<lparr>pv_status := APPROVED,
     pv_reviews := [event DRAFT READY_FOR_REVIEW 110 None None,
                    event READY_FOR_REVIEW APPROVED 120 None (Some ''db removed'')]\<rparr>"

lemma plan_tables_Nil: "[] \<in> plan_tables fp"
  by (simp add: plan_tables_def)

lemma plan_tables_step: "rows \<in> plan_tables fp \<Longrightarrow> plan_step fp rows rows' \<Longrightarrow> rows' \<in> plan_tables fp"
  unfolding plan_tables_def by (auto intro: rtranclp.rtrancl_into_rtrancl)

lemma sample_created: "plan_step plain_fp [] [sample_version]"
proof (rule plan_step.created)
  show "first_version 10 3 5 (sample_request None) sample_proposal 7 100 = Inr sample_version" by code_simp
  show "migrations_add sample_version [] = Some [sample_version]" by (simp add: migrations_add_def)
qed simp

lemma sample_submitted: "plan_step plain_fp [sample_version] [submitted_version]"
proof -
  have "plan_step plain_fp [sample_version] (migrations_update_review submitted_version [sample_version])"
  proof (rule plan_step.reviewed)
    show "migrations_get 5 3 (Some 1) [sample_version] = Some sample_version" by code_simp
    show "apply_review plain_fp (Submit []) 1 7 110 sample_version = Inr submitted_version" by code_simp
  qed
  moreover have "migrations_update_review submitted_version [sample_version] = [submitted_version]" by code_simp
  ultimately show ?thesis by simp
qed

lemma sample_approved: "plan_step plain_fp [submitted_version] [approved_version]"
proof -
  have "plan_step plain_fp [submitted_version] (migrations_update_review approved_version [submitted_version])"
  proof (rule plan_step.reviewed)
    show "migrations_get 5 3 (Some 1) [submitted_version] = Some submitted_version" by code_simp
    show "apply_review plain_fp (Approve ''db removed'' [] None) 1 7 120 submitted_version = Inr approved_version"
      by code_simp
  qed
  moreover have "migrations_update_review approved_version [submitted_version] = [approved_version]" by code_simp
  ultimately show ?thesis by simp
qed

lemma approved_table: "[approved_version] \<in> plan_tables plain_fp"
  by (rule plan_tables_step[OF plan_tables_step[OF plan_tables_step[OF plan_tables_Nil sample_created]
        sample_submitted] sample_approved])

section \<open>The review of versions\<close>

text \<open>
  C34.  Whatever planning and review calls were made, in whatever order, an approved version was
  generated without a blocking finding, and its history is exactly a submission followed by an
  approval that names the fingerprint of its proposal; and it is the latest version of its plan.
\<close>

theorem approval_is_exact:
  assumes "rows \<in> plan_tables fp" and "v \<in> set rows" and "pv_status v = APPROVED"
  shows "mp_status (pv_proposal v) = DRAFT \<and>
    (\<exists>e1 e2. pv_reviews v = [e1, e2] \<and>
       re_from_status e1 = DRAFT \<and> re_to_status e1 = READY_FOR_REVIEW \<and>
       re_from_status e2 = READY_FOR_REVIEW \<and> re_to_status e2 = APPROVED \<and>
       re_fingerprint e2 = Some (fp (pv_proposal v))) \<and>
    (\<forall>w \<in> set rows. pv_plan_id w = pv_plan_id v \<longrightarrow> pv_version w \<le> pv_version v)"
proof -
  have ok: "table_ok fp rows" by (rule plan_tables_ok[OF assms(1)])
  then have "lawful fp v" using assms(2) by (simp add: table_ok_def)
  moreover have "pv_version w \<le> pv_version v" if "w \<in> set rows" "pv_plan_id w = pv_plan_id v" for w
  proof (rule ccontr)
    assume "\<not> pv_version w \<le> pv_version v"
    with ok that assms(2) have "settled v" unfolding table_ok_def by (metis not_le)
    with assms(3) show False by (simp add: settled_def)
  qed
  ultimately show ?thesis using lawful_approved[OF _ assms(3)] by blast
qed

theorem approval_is_exact_witness:
  "mp_status (pv_proposal approved_version) = DRAFT \<and> length (pv_reviews approved_version) = 2"
proof -
  have "approved_version \<in> set [approved_version]" "pv_status approved_version = APPROVED"
    by (simp_all add: approved_version_def)
  from approval_is_exact[OF approved_table this] show ?thesis by auto
qed

text \<open>
  C35.  Versions are never lost and their content never changes: after any further calls, each version
  of the table is still there, with the same request, proposal and number, and its review history
  continues the earlier one along the allowed transitions.
\<close>

theorem versions_are_kept:
  assumes "rows \<in> plan_tables fp" and "(plan_step fp)\<^sup>*\<^sup>* rows rows'" and "v \<in> set rows"
  shows "\<exists>w \<in> set rows'. same_content v w \<and>
    (\<exists>es. pv_reviews w = pv_reviews v @ es \<and> chain (pv_status v) es (pv_status w))"
proof -
  have "kept rows rows'" using plan_steps_ok[OF assms(2) plan_tables_ok[OF assms(1)]] by blast
  with assms(3) show ?thesis unfolding kept_def reviewed_from_def by blast
qed

theorem versions_are_kept_witness:
  "\<exists>w \<in> set [approved_version]. same_content submitted_version w"
proof -
  have "[submitted_version] \<in> plan_tables plain_fp"
    by (rule plan_tables_step[OF plan_tables_step[OF plan_tables_Nil sample_created] sample_submitted])
  moreover have "(plan_step plain_fp)\<^sup>*\<^sup>* [submitted_version] [approved_version]"
    by (rule r_into_rtranclp, rule sample_approved)
  moreover have "submitted_version \<in> set [submitted_version]" by simp
  ultimately show ?thesis using versions_are_kept by blast
qed

section \<open>Staleness and listing\<close>

text \<open>
  The service never finds a plan's evidence stale: it compares the evidence the proposal cites with
  the states recorded in the proposal itself.
\<close>

theorem service_never_finds_stale_evidence:
  "EVIDENCE_STALE \<notin> set (freshness p (service_state p source_hash target_hash latest models))"
  by (rule service_evidence)

definition superseded_version :: plan_version where
  "superseded_version = sample_version\<lparr>pv_status := SUPERSEDED,
     pv_reviews := [event DRAFT SUPERSEDED 130 (Some ''Superseded by version 2.'') None]\<rparr>"

definition archived_version :: plan_version where
  "archived_version = sample_version\<lparr>pv_status := ARCHIVED,
     pv_reviews := [event DRAFT SUPERSEDED 130 (Some ''Superseded by version 2.'') None,
                    event SUPERSEDED ARCHIVED 140 None None]\<rparr>"

definition second_version :: plan_version where
  "second_version =
     \<lparr>pv_id = 11, pv_plan_id = 3, pv_version = 2, pv_project_id = 5, pv_request = sample_request (Some ''Retire''),
      pv_proposal = sample_proposal, pv_status = DRAFT, pv_created_by = 7, pv_created_at = 130, pv_reviews = []\<rparr>"

lemma sample_regenerated: "plan_step plain_fp [sample_version] [superseded_version, second_version]"
proof (rule plan_step.regenerated)
  show "migrations_get 5 3 None [sample_version] = Some sample_version" by code_simp
  show "regenerate plain_fp sample_version 11 (sample_request (Some ''Retire'')) sample_proposal 7 130 False =
    Inr (superseded_version, Some second_version)" by code_simp
  show "migrations_add second_version (migrations_update_review superseded_version [sample_version]) =
    Some [superseded_version, second_version]" by code_simp
qed

lemma sample_archived: "plan_step plain_fp [superseded_version, second_version] [archived_version, second_version]"
proof -
  have "plan_step plain_fp [superseded_version, second_version]
      (migrations_update_review archived_version [superseded_version, second_version])"
  proof (rule plan_step.reviewed)
    show "migrations_get 5 3 (Some 1) [superseded_version, second_version] = Some superseded_version" by code_simp
    show "apply_review plain_fp Archive 1 7 140 superseded_version = Inr archived_version" by code_simp
  qed
  moreover have "migrations_update_review archived_version [superseded_version, second_version] =
    [archived_version, second_version]" by code_simp
  ultimately show ?thesis by simp
qed

text \<open>
  The listing of a project's latest versions leaves out superseded versions.  Archiving a superseded
  version makes it appear there again, beside the version that replaced it.
\<close>

theorem listing_repeats_archived_plans:
  "\<exists>rows \<in> plan_tables plain_fp.
     migrations_list_latest 5 None None None 50 rows = [second_version, archived_version] \<and>
     pv_plan_id archived_version = pv_plan_id second_version \<and>
     pv_version archived_version < pv_version second_version"
proof (intro bexI conjI)
  show "[archived_version, second_version] \<in> plan_tables plain_fp"
    by (rule plan_tables_step[OF plan_tables_step[OF plan_tables_step[OF plan_tables_Nil sample_created]
          sample_regenerated] sample_archived])
  show "migrations_list_latest 5 None None None 50 [archived_version, second_version] =
    [second_version, archived_version]" by code_simp
  show "pv_plan_id archived_version = pv_plan_id second_version" by code_simp
  show "pv_version archived_version < pv_version second_version" by code_simp
qed

end
