(* ===== verification/Project_Values.thy ===== *)
theory Project_Values
  imports Errors IR_Model
begin

text \<open>
  Project names, descriptions, slugs and settings (core/domain/projects/value_objects.py) and the
  architecture policy of a project (policies.py).  The details of an error are the reason or field
  a caller reads; a policy's flags are the list of its boolean attributes by name, in the order
  the constructor checks them.
\<close>

section \<open>Names, descriptions and slugs\<close>

definition MAX_PROJECT_NAME_LENGTH :: nat where "MAX_PROJECT_NAME_LENGTH = 100"
definition MAX_PROJECT_DESCRIPTION_LENGTH :: nat where "MAX_PROJECT_DESCRIPTION_LENGTH = 2000"
definition MAX_SLUG_LENGTH :: nat where "MAX_SLUG_LENGTH = 63"
definition HYPHEN :: char where "HYPHEN = CHR ''-''"

definition normalize_project_name :: "string \<Rightarrow> domain_error + string" where
  "normalize_project_name raw =
     (let name = join '' '' (py_split raw)
      in if name = [] \<or> length name > MAX_PROJECT_NAME_LENGTH \<or> has_forbidden_characters name []
         then Inl InvalidProjectName else Inr name)"

definition normalize_project_description :: "string \<Rightarrow> domain_error + string" where
  "normalize_project_description raw =
     (let description = py_strip (py_replace CRLF [CHR 0x0A] raw)
      in if length description > MAX_PROJECT_DESCRIPTION_LENGTH then Inl (InvalidProjectDescription None)
         else if has_forbidden_characters description [CHR 0x0A, CHR 0x09]
         then Inl (InvalidProjectDescription (Some ''control_characters''))
         else Inr description)"

text \<open>
  \<open>unicodedata.normalize("NFKD", c).encode("ascii", "ignore")\<close>: what is left of one Latin-1
  character, a letter without its accent, a digit of a superscript or fraction, or nothing.
\<close>

definition ascii_only :: "char \<Rightarrow> string" where
  "ascii_only c =
     (let n = code c in
      if n < 128 then [c]
      else if n \<in> {160, 168, 175, 180, 184} then '' ''
      else if n = 170 then ''a'' else if n = 186 then ''o''
      else if n = 178 then ''2'' else if n = 179 then ''3'' else if n = 185 then ''1''
      else if n = 188 then ''14'' else if n = 189 then ''12'' else if n = 190 then ''34''
      else if 192 \<le> n \<and> n \<le> 197 then ''A'' else if n = 199 then ''C''
      else if 200 \<le> n \<and> n \<le> 203 then ''E'' else if 204 \<le> n \<and> n \<le> 207 then ''I''
      else if n = 209 then ''N'' else if 210 \<le> n \<and> n \<le> 214 then ''O''
      else if 217 \<le> n \<and> n \<le> 220 then ''U'' else if n = 221 then ''Y''
      else if 224 \<le> n \<and> n \<le> 229 then ''a'' else if n = 231 then ''c''
      else if 232 \<le> n \<and> n \<le> 235 then ''e'' else if 236 \<le> n \<and> n \<le> 239 then ''i''
      else if n = 241 then ''n'' else if 242 \<le> n \<and> n \<le> 246 then ''o''
      else if 249 \<le> n \<and> n \<le> 252 then ''u'' else if n = 253 \<or> n = 255 then ''y''
      else [])"

text \<open>\<open>re.sub("[^a-z0-9]+", "-", s)\<close>: the last character of every run becomes the hyphen.\<close>

fun hyphenated :: "string \<Rightarrow> string" where
  "hyphenated [] = []"
| "hyphenated (c # cs) =
     (if is_lower_alnum c then c # hyphenated cs
      else case cs of
             d # _ \<Rightarrow> if is_lower_alnum d then HYPHEN # hyphenated cs else hyphenated cs
           | [] \<Rightarrow> [HYPHEN])"

text \<open>\<open>cut.rsplit("-", 1)[0]\<close>, for a text that contains a hyphen.\<close>

definition before_last_hyphen :: "string \<Rightarrow> string" where
  "before_last_hyphen s = rev (tl (dropWhile (\<lambda>c. c \<noteq> HYPHEN) (rev s)))"

definition truncate_on_boundary :: "string \<Rightarrow> string" where
  "truncate_on_boundary slug =
     (let cut = take MAX_SLUG_LENGTH slug
      in if slug ! MAX_SLUG_LENGTH = HYPHEN \<or> HYPHEN \<notin> set cut
         then strip_chars (\<lambda>c. c = HYPHEN) cut
         else before_last_hyphen cut)"

definition slugify :: "string \<Rightarrow> domain_error + string" where
  "slugify name =
     (let slug = strip_chars (\<lambda>c. c = HYPHEN) (hyphenated (py_lower (concat (map ascii_only name))));
          slug = (if length slug > MAX_SLUG_LENGTH then truncate_on_boundary slug else slug)
      in if slug = [] then Inl (InvalidProjectSlug (Some ''cannot_derive_from_name'')) else Inr slug)"

text \<open>\<^verbatim>\<open>^[a-z0-9]+(-[a-z0-9]+)*$\<close>\<close>

definition SLUG_FORMAT :: "string \<Rightarrow> bool" where
  "SLUG_FORMAT s = list_all (\<lambda>word. word \<noteq> [] \<and> list_all is_lower_alnum word) (split_char HYPHEN s)"

definition normalize_slug :: "string \<Rightarrow> domain_error + string" where
  "normalize_slug raw =
     (let slug = py_lower (py_strip raw)
      in if length slug > MAX_SLUG_LENGTH \<or> \<not> SLUG_FORMAT slug then Inl (InvalidProjectSlug None)
         else Inr slug)"

section \<open>Settings\<close>

datatype cloud_provider = AWS | GCP | AZURE

fun provider_value :: "cloud_provider \<Rightarrow> string" where
  "provider_value AWS = ''aws''"
| "provider_value GCP = ''gcp''"
| "provider_value AZURE = ''azure''"

record project_settings =
  ps_cloud_provider :: "cloud_provider option"
  ps_currency :: string

text \<open>\<^verbatim>\<open>^[A-Z]{3}$\<close>\<close>

definition CURRENCY :: "string \<Rightarrow> bool" where
  "CURRENCY s \<longleftrightarrow> length s = 3 \<and> list_all is_upper_ascii s"

definition ProjectSettings :: "cloud_provider option \<Rightarrow> string \<Rightarrow> domain_error + project_settings" where
  "ProjectSettings provider currency =
     rbind (ensure (CURRENCY currency) (InvalidProjectSettings ''currency'' None)) (\<lambda>_.
     Inr \<lparr>ps_cloud_provider = provider, ps_currency = currency\<rparr>)"

text \<open>
  \<open>str.upper()\<close> as far as a currency code can tell: the sharp s becomes two letters, and the other
  letters outside ASCII never become one of A to Z.
\<close>

definition upper_ascii :: "string \<Rightarrow> string" where
  "upper_ascii s = concat (map (\<lambda>c. if code c = 223 then ''SS'' else [upper_char c]) s)"

text \<open>\<open>raw.get(key)\<close>, with \<open>None\<close> for a key that is absent.\<close>

definition settings_from_dict :: "(string \<times> json) list \<Rightarrow> domain_error + project_settings" where
  "settings_from_dict raw =
     (case sort (filter (\<lambda>k. k \<notin> {''cloud_provider'', ''currency''}) (map fst raw)) of
        k # _ \<Rightarrow> Inl (InvalidProjectSettings k (Some ''unknown''))
      | [] \<Rightarrow>
        rbind (case map_of raw ''cloud_provider'' of
                 None \<Rightarrow> Inr None
               | Some JNull \<Rightarrow> Inr None
               | Some v \<Rightarrow>
                   (case List.find (\<lambda>p. v = JText (provider_value p)) [AWS, GCP, AZURE] of
                      Some p \<Rightarrow> Inr (Some p)
                    | None \<Rightarrow> Inl (InvalidProjectSettings ''cloud_provider'' None))) (\<lambda>provider.
        case map_of raw ''currency'' of
          None \<Rightarrow> ProjectSettings provider ''USD''
        | Some (JText currency) \<Rightarrow> ProjectSettings provider (upper_ascii (py_strip currency))
        | Some _ \<Rightarrow> Inl (InvalidProjectSettings ''currency'' None)))"

definition settings_to_dict :: "project_settings \<Rightarrow> (string \<times> json) list" where
  "settings_to_dict s =
     [(''cloud_provider'', case ps_cloud_provider s of None \<Rightarrow> JNull | Some p \<Rightarrow> JText (provider_value p)),
      (''currency'', JText (ps_currency s))]"

section \<open>The architecture policy\<close>

definition MAX_POLICY_ENTRIES :: nat where "MAX_POLICY_ENTRIES = 100"
definition MAX_RETENTION_SECONDS :: int where "MAX_RETENTION_SECONDS = 10 * 366 * 86400"

definition SECURITY_FLAGS :: "string list" where
  "SECURITY_FLAGS =
     [''require_encryption_at_rest'', ''require_authentication_on_public'',
      ''require_authorization_on_sensitive'', ''prohibit_public_management_interfaces'',
      ''require_secret_rotation'', ''require_audit_logging'', ''require_data_classification'']"

definition OBSERVABILITY_FLAGS :: "string list" where
  "OBSERVABILITY_FLAGS =
     [''require_logs_on_critical'', ''require_traces_on_critical'', ''require_trace_propagation'',
      ''require_health_checks_on_critical'', ''require_alerting_on_critical'',
      ''require_structured_logs'', ''require_correlation_ids'', ''require_ownership'',
      ''require_telemetry_collection'']"

definition POLICY_FLAGS :: "string list" where
  "POLICY_FLAGS = ''require_tls'' # SECURITY_FLAGS @ OBSERVABILITY_FLAGS"

definition POLICY_FIELDS :: "string list" where
  "POLICY_FIELDS =
     [''allowed_technologies'', ''prohibited_technologies'', ''allowed_regions'', ''require_tls'',
      ''max_components'', ''approved_secret_sources''] @ SECURITY_FLAGS @
     [''required_metric_kinds_on_critical'', ''min_telemetry_retention_seconds''] @ OBSERVABILITY_FLAGS"

definition SECRET_SOURCE :: "string \<Rightarrow> bool" where
  "SECRET_SOURCE s \<longleftrightarrow> s \<in> set SECRET_SOURCES"

text \<open>A \<open>frozenset[str]\<close> is the sorted list of its elements.\<close>

record architecture_policy =
  ap_allowed_technologies :: "string list"
  ap_prohibited_technologies :: "string list"
  ap_allowed_regions :: "string list"
  ap_approved_secret_sources :: "string list"
  ap_required_metric_kinds :: "string list"
  ap_flags :: "(string \<times> bool) list"
  ap_min_telemetry_retention_seconds :: "int option"
  ap_max_components :: "int option"

definition policy_error :: "string \<Rightarrow> string \<Rightarrow> domain_error" where
  "policy_error field reason = InvalidArchitecturePolicy (Some field) reason"

text \<open>\<open>_names\<close>: an object is iterable too, and gives its keys.\<close>

definition policy_names :: "json \<Rightarrow> string \<Rightarrow> (string \<Rightarrow> bool) \<Rightarrow> domain_error + string list" where
  "policy_names raw field pattern =
     rbind (case raw of
              JList vs \<Rightarrow> Inr vs
            | JObj kvs \<Rightarrow> Inr (map (\<lambda>(k, _). JText k) kvs)
            | _ \<Rightarrow> Inl (policy_error field ''not_a_list'')) (\<lambda>items.
     rbind (ensure (length items \<le> MAX_POLICY_ENTRIES) (policy_error field ''too_many'')) (\<lambda>_.
     rbind (rmap (\<lambda>v. case v of
         JText t \<Rightarrow>
           (let name = py_lower (py_strip t)
            in if pattern name then Inr name else Inl (policy_error field ''invalid_value''))
       | _ \<Rightarrow> Inl (policy_error field ''invalid_value'')) items) (\<lambda>names.
     Inr (sorted_set names))))"

definition policy_flag :: "json \<Rightarrow> string \<Rightarrow> domain_error + (string \<times> bool)" where
  "policy_flag raw flag =
     (case raw of JBool b \<Rightarrow> Inr (flag, b) | _ \<Rightarrow> Inl (policy_error flag ''not_a_boolean''))"

definition policy_limit :: "json \<Rightarrow> string \<Rightarrow> int \<Rightarrow> domain_error + int option" where
  "policy_limit raw field most =
     (case raw of
        JNull \<Rightarrow> Inr None
      | JInt i \<Rightarrow> if 1 \<le> i \<and> i \<le> most then Inr (Some i) else Inl (policy_error field ''out_of_range'')
      | _ \<Rightarrow> Inl (policy_error field ''out_of_range''))"

text \<open>The constructor, from the value given for each field.\<close>

definition ArchitecturePolicy :: "(string \<Rightarrow> json) \<Rightarrow> domain_error + architecture_policy" where
  "ArchitecturePolicy raw =
     (let names = (\<lambda>field. policy_names (raw field) field) in
      rbind (names ''allowed_technologies'' TECHNOLOGY_NAME) (\<lambda>allowed.
      rbind (names ''prohibited_technologies'' TECHNOLOGY_NAME) (\<lambda>prohibited.
      rbind (names ''allowed_regions'' REGION) (\<lambda>regions.
      rbind (names ''approved_secret_sources'' SECRET_SOURCE) (\<lambda>sources.
      rbind (names ''required_metric_kinds_on_critical'' METRIC_KIND) (\<lambda>kinds.
      rbind (ensure (set allowed \<inter> set prohibited = {}) (policy_error ''prohibited_technologies'' ''also_allowed'')) (\<lambda>_.
      rbind (rmap (\<lambda>flag. policy_flag (raw flag) flag) POLICY_FLAGS) (\<lambda>flags.
      rbind (policy_limit (raw ''min_telemetry_retention_seconds'') ''min_telemetry_retention_seconds''
               MAX_RETENTION_SECONDS) (\<lambda>retention.
      rbind (policy_limit (raw ''max_components'') ''max_components'' (int MAX_NODES)) (\<lambda>limit.
      Inr \<lparr>ap_allowed_technologies = allowed, ap_prohibited_technologies = prohibited,
           ap_allowed_regions = regions, ap_approved_secret_sources = sources,
           ap_required_metric_kinds = kinds, ap_flags = flags,
           ap_min_telemetry_retention_seconds = retention, ap_max_components = limit\<rparr>))))))))))"

definition EMPTY_POLICY :: architecture_policy where
  "EMPTY_POLICY =
     \<lparr>ap_allowed_technologies = [], ap_prohibited_technologies = [], ap_allowed_regions = [],
      ap_approved_secret_sources = [], ap_required_metric_kinds = [],
      ap_flags = map (\<lambda>flag. (flag, False)) POLICY_FLAGS,
      ap_min_telemetry_retention_seconds = None, ap_max_components = None\<rparr>"

definition policy_is_empty :: "architecture_policy \<Rightarrow> bool" where
  "policy_is_empty p \<longleftrightarrow> p = EMPTY_POLICY"

definition policy_default :: "string \<Rightarrow> json" where
  "policy_default field =
     (if field \<in> set POLICY_FLAGS then JBool False
      else if field \<in> {''max_components'', ''min_telemetry_retention_seconds''} then JNull
      else JList [])"

definition policy_from_dict :: "json \<Rightarrow> domain_error + architecture_policy" where
  "policy_from_dict raw =
     (case raw of
        JObj kvs \<Rightarrow>
          (case sort (filter (\<lambda>k. k \<notin> set POLICY_FIELDS) (map fst kvs)) of
             k # _ \<Rightarrow> Inl (policy_error k ''unknown'')
           | [] \<Rightarrow> ArchitecturePolicy (\<lambda>field.
               case map_of kvs field of None \<Rightarrow> policy_default field | Some v \<Rightarrow> v))
      | _ \<Rightarrow> Inl (InvalidArchitecturePolicy None ''not_an_object''))"

definition names_json :: "string list \<Rightarrow> json" where
  "names_json names = JList (map JText (sort names))"

definition limit_json :: "int option \<Rightarrow> json" where
  "limit_json limit = (case limit of None \<Rightarrow> JNull | Some i \<Rightarrow> JInt i)"

definition flags_json :: "architecture_policy \<Rightarrow> string list \<Rightarrow> (string \<times> json) list" where
  "flags_json p flags =
     map (\<lambda>flag. (flag, JBool (case map_of (ap_flags p) flag of None \<Rightarrow> False | Some b \<Rightarrow> b))) flags"

definition policy_to_dict :: "architecture_policy \<Rightarrow> (string \<times> json) list" where
  "policy_to_dict p =
     [(''allowed_technologies'', names_json (ap_allowed_technologies p)),
      (''prohibited_technologies'', names_json (ap_prohibited_technologies p)),
      (''allowed_regions'', names_json (ap_allowed_regions p))] @
     flags_json p [''require_tls''] @
     [(''max_components'', limit_json (ap_max_components p)),
      (''approved_secret_sources'', names_json (ap_approved_secret_sources p))] @
     flags_json p SECURITY_FLAGS @
     [(''required_metric_kinds_on_critical'', names_json (ap_required_metric_kinds p)),
      (''min_telemetry_retention_seconds'', limit_json (ap_min_telemetry_retention_seconds p))] @
     flags_json p OBSERVABILITY_FLAGS"

end
