(* ===== verification/Workspace.thy ===== *)
theory Workspace
  imports Store Project_Values IR_Diff
begin

text \<open>
  The rows of projects, architectures, their revisions and layouts (persistence/models/project.py
  and architecture.py, as the entities the repositories return), and the workspace: these tables
  beside the database of accounts and organizations.  Of requirements and requirement sets only
  the columns these services read are here.  A revision's document is stored with it: \<open>rv_ir\<close>
  is the architecture, \<open>rv_snapshot\<close> the document written from it.
\<close>

section \<open>Projects\<close>

datatype project_status = ACTIVE_PROJECT | ARCHIVED_PROJECT

record project =
  p_id :: uuid
  p_organization_id :: uuid
  p_name :: string
  p_slug :: string
  p_description :: string
  p_status :: project_status
  p_settings :: project_settings
  p_created_by_user_id :: "uuid option"
  p_archived_at :: "instant option"
  p_deleted_at :: "instant option"
  p_created_at :: instant
  p_updated_at :: instant
  p_policy :: architecture_policy

section \<open>Architectures and revisions\<close>

datatype architecture_status = ACTIVE_ARCHITECTURE | ARCHIVED_ARCHITECTURE

fun architecture_status_value :: "architecture_status \<Rightarrow> string" where
  "architecture_status_value ACTIVE_ARCHITECTURE = ''active''"
| "architecture_status_value ARCHIVED_ARCHITECTURE = ''archived''"

record architecture =
  ar_id :: uuid
  ar_project_id :: uuid
  ar_name :: string
  ar_description :: string
  ar_status :: architecture_status
  ar_current_revision :: int
  ar_created_by_user_id :: "uuid option"
  ar_updated_by_user_id :: "uuid option"
  ar_archived_at :: "instant option"
  ar_deleted_at :: "instant option"
  ar_created_at :: instant
  ar_updated_at :: instant

datatype revision_source = FROM_USER | FROM_AI | FROM_DISCOVERY | FROM_IMPORT | FROM_SYSTEM

fun revision_source_value :: "revision_source \<Rightarrow> string" where
  "revision_source_value FROM_USER = ''user''"
| "revision_source_value FROM_AI = ''ai''"
| "revision_source_value FROM_DISCOVERY = ''discovery''"
| "revision_source_value FROM_IMPORT = ''import''"
| "revision_source_value FROM_SYSTEM = ''system''"

text \<open>
  A summary is stored whole, or cut and closed by U+2026, which is outside Latin-1:
  \<open>Cut s\<close> is \<open>s\<close> followed by that character.
\<close>

datatype summary_text = Whole string | Cut string

fun summary_length :: "summary_text \<Rightarrow> nat" where
  "summary_length (Whole s) = length s"
| "summary_length (Cut s) = length s + 1"

record new_revision =
  nr_architecture_id :: uuid
  nr_number :: int
  nr_parent_number :: "int option"
  nr_ir :: architecture_ir
  nr_content_hash :: string
  nr_source :: revision_source
  nr_summary :: summary_text
  nr_reason :: "string option"
  nr_created_by_user_id :: "uuid option"
  nr_requirement_set_id :: "uuid option"
  nr_restored_from :: "int option"

record revision =
  rv_id :: uuid
  rv_architecture_id :: uuid
  rv_number :: int
  rv_parent_number :: "int option"
  rv_ir :: architecture_ir
  rv_content_hash :: string
  rv_source :: revision_source
  rv_summary :: summary_text
  rv_reason :: "string option"
  rv_created_by_user_id :: "uuid option"
  rv_created_at :: instant
  rv_requirement_set_id :: "uuid option"
  rv_restored_from :: "int option"
  rv_snapshot :: "(string \<times> json) list"
  rv_stored_schema_version :: int

text \<open>\<open>Position\<close>: a float is a decimal number (every binary fraction is one), infinite or NaN.\<close>

record position =
  px :: decimal
  py :: decimal

record layout =
  ly_positions :: "(string \<times> position) list"
  ly_updated_by_user_id :: "uuid option"
  ly_updated_at :: "instant option"

section \<open>Requirements, as far as architectures refer to them\<close>

record requirement_row =
  q_id :: uuid
  q_project_id :: uuid
  q_version :: int
  q_deleted_at :: "instant option"

record requirement_set_row =
  qs_id :: uuid
  qs_project_id :: uuid

section \<open>The workspace\<close>

record workspace =
  identity :: db
  projects :: "project list"
  architectures :: "architecture list"
  revisions :: "revision list"
  layouts :: "(uuid \<times> layout) list"
  requirements :: "requirement_row list"
  requirement_sets :: "requirement_set_row list"

text \<open>An audit entry goes to the one audit log.\<close>

definition ws_audit ::
    "env \<Rightarrow> domain_error + audit_event \<Rightarrow> workspace \<Rightarrow> domain_error + workspace" where
  "ws_audit e event w =
     rbind (audit_record e event (identity w)) (\<lambda>d. Inr (w\<lparr>identity := d\<rparr>))"

end
