(* ===== verification/Projects.thy ===== *)
theory Projects
  imports Workspace
begin

text \<open>
  Projects: the entity with its lifecycle (core/domain/projects/entities.py), the repository
  (persistence/repositories/projects.py), the one gate every use case below a project passes
  (core/domain/requirements/access.py) and the service (project_service.py).  Each service method
  is a transaction on the workspace; a row lock has no counterpart, since transactions are
  functions here.
\<close>

section \<open>The entity\<close>

record new_project =
  np_organization_id :: uuid
  np_name :: string
  np_slug :: string
  np_description :: string
  np_settings :: project_settings
  np_created_by_user_id :: uuid

definition DEFAULT_SETTINGS :: project_settings where
  "DEFAULT_SETTINGS = \<lparr>ps_cloud_provider = None, ps_currency = ''USD''\<rparr>"

definition NewProject ::
    "uuid \<Rightarrow> uuid \<Rightarrow> string \<Rightarrow> string option \<Rightarrow> string \<Rightarrow> project_settings option \<Rightarrow> domain_error + new_project" where
  "NewProject org user_id name slug description settings =
     rbind (normalize_project_name name) (\<lambda>clean_name.
     rbind (case slug of None \<Rightarrow> slugify clean_name | Some s \<Rightarrow> normalize_slug s) (\<lambda>slug.
     rbind (normalize_project_description description) (\<lambda>description.
     Inr \<lparr>np_organization_id = org, np_name = clean_name, np_slug = slug, np_description = description,
          np_settings = (case settings of None \<Rightarrow> DEFAULT_SETTINGS | Some s \<Rightarrow> s),
          np_created_by_user_id = user_id\<rparr>)))"

definition p_is_archived :: "project \<Rightarrow> bool" where
  "p_is_archived p \<longleftrightarrow> p_status p = ARCHIVED_PROJECT"

definition p_is_deleted :: "project \<Rightarrow> bool" where
  "p_is_deleted p \<longleftrightarrow> p_deleted_at p \<noteq> None"

definition project_ensure_modifiable :: "project \<Rightarrow> domain_error + unit" where
  "project_ensure_modifiable p =
     (if p_is_deleted p then Inl ProjectNotFound
      else if p_is_archived p then Inl ProjectArchived else Inr ())"

definition with_changes ::
    "string option \<Rightarrow> string option \<Rightarrow> project_settings option \<Rightarrow> project \<Rightarrow> domain_error + project" where
  "with_changes name description settings p =
     rbind (project_ensure_modifiable p) (\<lambda>_.
     rbind (case name of None \<Rightarrow> Inr (p_name p) | Some s \<Rightarrow> normalize_project_name s) (\<lambda>name.
     rbind (case description of None \<Rightarrow> Inr (p_description p)
            | Some s \<Rightarrow> normalize_project_description s) (\<lambda>description.
     Inr (p\<lparr>p_name := name, p_description := description,
            p_settings := (case settings of None \<Rightarrow> p_settings p | Some s \<Rightarrow> s)\<rparr>))))"

definition with_policy :: "architecture_policy \<Rightarrow> project \<Rightarrow> domain_error + project" where
  "with_policy policy p = rbind (project_ensure_modifiable p) (\<lambda>_. Inr (p\<lparr>p_policy := policy\<rparr>))"

definition project_archive :: "instant \<Rightarrow> project \<Rightarrow> domain_error + project" where
  "project_archive at p =
     (if p_is_deleted p then Inl ProjectNotFound
      else if p_is_archived p then Inr p
      else Inr (p\<lparr>p_status := ARCHIVED_PROJECT, p_archived_at := Some at\<rparr>))"

definition project_restore :: "instant \<Rightarrow> project \<Rightarrow> domain_error + project" where
  "project_restore at p =
     (if p_is_deleted p then Inl ProjectNotFound
      else if \<not> p_is_archived p then Inr p
      else Inr (p\<lparr>p_status := ACTIVE_PROJECT, p_archived_at := None\<rparr>))"

definition project_delete :: "instant \<Rightarrow> project \<Rightarrow> domain_error + project" where
  "project_delete at p =
     (if p_is_deleted p then Inl ProjectNotFound
      else if \<not> p_is_archived p then Inl ProjectNotArchived
      else Inr (p\<lparr>p_deleted_at := Some at\<rparr>))"

section \<open>The repository\<close>

text \<open>
  The slug of a live project is unique in its organization
  (\<open>uq_projects_organization_id_slug_live\<close>).  Status and policy take the defaults of the table.
\<close>

definition projects_add :: "env \<Rightarrow> new_project \<Rightarrow> workspace \<Rightarrow> domain_error + (project \<times> workspace)" where
  "projects_add e np w =
     (let p = \<lparr>p_id = new_id e, p_organization_id = np_organization_id np, p_name = np_name np,
               p_slug = np_slug np, p_description = np_description np, p_status = ACTIVE_PROJECT,
               p_settings = np_settings np, p_created_by_user_id = Some (np_created_by_user_id np),
               p_archived_at = None, p_deleted_at = None, p_created_at = db_now e,
               p_updated_at = db_now e, p_policy = EMPTY_POLICY\<rparr>
      in if \<exists>q \<in> set (projects w). p_deleted_at q = None \<and>
              p_organization_id q = np_organization_id np \<and> p_slug q = np_slug np
         then Inl ProjectSlugTaken
         else if \<exists>q \<in> set (projects w). p_id q = new_id e then Inl IntegrityError
         else Inr (p, w\<lparr>projects := projects w @ [p]\<rparr>))"

definition projects_get_live :: "uuid \<Rightarrow> workspace \<Rightarrow> project option" where
  "projects_get_live i w = List.find (\<lambda>p. p_id p = i \<and> p_deleted_at p = None) (projects w)"

definition projects_save :: "env \<Rightarrow> project \<Rightarrow> workspace \<Rightarrow> domain_error + (project \<times> workspace)" where
  "projects_save e p w =
     (let f = (\<lambda>q. q\<lparr>p_name := p_name p, p_description := p_description p, p_settings := p_settings p,
                      p_policy := p_policy p, p_status := p_status p, p_archived_at := p_archived_at p,
                      p_deleted_at := p_deleted_at p, p_updated_at := db_now e\<rparr>)
      in case List.find (\<lambda>q. p_id q = p_id p) (projects w) of
           None \<Rightarrow> Inl LookupError
         | Some q \<Rightarrow> Inr (f q, w\<lparr>projects := update_where (\<lambda>q. p_id q = p_id p) f (projects w)\<rparr>))"

text \<open>The project, its live organization and the caller's membership, in one query.\<close>

definition projects_get_for_member :: "uuid \<Rightarrow> uuid \<Rightarrow> workspace \<Rightarrow> (project \<times> membership) option" where
  "projects_get_for_member i user_id w =
     (case projects_get_live i w of
        None \<Rightarrow> None
      | Some p \<Rightarrow>
         (case memberships_get_in_active_organization (p_organization_id p) user_id (identity w) of
            None \<Rightarrow> None
          | Some (_, m) \<Rightarrow> Some (p, m)))"

section \<open>Access\<close>

text \<open>\<open>project_access\<close>; \<open>lock\<close> is whether the caller passes a lock, that is, writes.\<close>

definition project_access ::
    "uuid \<Rightarrow> uuid \<Rightarrow> permission \<Rightarrow> bool \<Rightarrow> workspace \<Rightarrow> domain_error + (project \<times> membership)" where
  "project_access i user_id permission lock w =
     rbind (require_some (projects_get_for_member i user_id w) ProjectNotFound) (\<lambda>(p, m).
     rbind (require m permission) (\<lambda>_.
     rbind (if lock then project_ensure_modifiable p else Inr ()) (\<lambda>_.
     Inr (p, m))))"

section \<open>The service\<close>

definition project_resolve :: "uuid \<Rightarrow> uuid \<Rightarrow> workspace \<Rightarrow> domain_error + (project \<times> membership)" where
  "project_resolve i user_id w =
     rbind (require_some (projects_get_for_member i user_id w) ProjectNotFound) (\<lambda>(p, m).
     rbind (require m PROJECT_READ) (\<lambda>_. Inr (p, m)))"

definition project_event ::
    "audit_action \<Rightarrow> uuid \<Rightarrow> project \<Rightarrow> (string \<times> meta_value) list \<Rightarrow> domain_error + audit_event" where
  "project_event action user_id p metadata =
     AuditEvent action (Some user_id) (Some (p_organization_id p)) (Some ''project'') (Some (p_id p)) metadata"

definition project_create ::
    "env \<Rightarrow> membership \<Rightarrow> string \<Rightarrow> string option \<Rightarrow> string \<Rightarrow> project_settings option \<Rightarrow> workspace \<Rightarrow>
     (domain_error + project) \<times> workspace" where
  "project_create e m name slug description settings w =
     (case rbind (require m PROJECT_CREATE) (\<lambda>_.
           NewProject (m_organization_id m) (m_user_id m) name slug description settings) of
        Inl err \<Rightarrow> (Inl err, w)
      | Inr np \<Rightarrow> transaction (\<lambda>w.
          rbind (require_some (memberships_get_in_active_organization (m_organization_id m) (m_user_id m)
                   (identity w)) ProjectNotFound) (\<lambda>(_, current).
          rbind (require current PROJECT_CREATE) (\<lambda>_.
          rbind (projects_add e np w) (\<lambda>(p, w).
          rbind (ws_audit e (project_event PROJECT_CREATED (m_user_id m) p
                   [(''name'', MText (p_name p)), (''slug'', MText (p_slug p))]) w) (\<lambda>w.
          Inr (p, w)))))) w)"

definition project_update ::
    "env \<Rightarrow> uuid \<Rightarrow> uuid \<Rightarrow> string option \<Rightarrow> string option \<Rightarrow> project_settings option \<Rightarrow> workspace \<Rightarrow>
     (domain_error + (project \<times> membership)) \<times> workspace" where
  "project_update e i user_id name description settings w =
     (if name = None \<and> description = None \<and> settings = None then (Inl NothingToUpdate, w)
      else transaction (\<lambda>w.
        rbind (require_some (projects_get_for_member i user_id w) ProjectNotFound) (\<lambda>(p, m).
        rbind (require m PROJECT_UPDATE) (\<lambda>_.
        rbind (with_changes name description settings p) (\<lambda>changed.
        rbind (projects_save e changed w) (\<lambda>(saved, w).
        rbind (ws_audit e (project_event PROJECT_UPDATED user_id saved
                 [(''fields'', MList (map fst (filter snd
                    [(''name'', name \<noteq> None), (''description'', description \<noteq> None),
                     (''settings'', settings \<noteq> None)])))]) w) (\<lambda>w.
        Inr ((saved, m), w))))))) w)"

text \<open>The names of the fields whose written value changed, never the values.\<close>

definition policy_changes :: "architecture_policy \<Rightarrow> architecture_policy \<Rightarrow> string list" where
  "policy_changes old new =
     (let before = policy_to_dict old in
      sort (map fst (filter (\<lambda>(k, v). map_of before k \<noteq> Some v) (policy_to_dict new))))"

definition update_policy ::
    "env \<Rightarrow> uuid \<Rightarrow> uuid \<Rightarrow> architecture_policy \<Rightarrow> workspace \<Rightarrow>
     (domain_error + (project \<times> membership)) \<times> workspace" where
  "update_policy e i user_id policy = transaction (\<lambda>w.
     rbind (require_some (projects_get_for_member i user_id w) ProjectNotFound) (\<lambda>(p, m).
     rbind (require m PROJECT_POLICY_UPDATE) (\<lambda>_.
     rbind (with_policy policy p) (\<lambda>changed.
     if changed = p then Inr ((p, m), w)
     else
       rbind (projects_save e changed w) (\<lambda>(saved, w).
       rbind (ws_audit e (project_event PROJECT_POLICY_UPDATED user_id saved
                [(''fields'', MList (policy_changes (p_policy p) policy))]) w) (\<lambda>w.
       Inr ((saved, m), w)))))))"

definition project_transition ::
    "env \<Rightarrow> uuid \<Rightarrow> uuid \<Rightarrow> permission \<Rightarrow> audit_action \<Rightarrow>
     (instant \<Rightarrow> project \<Rightarrow> domain_error + project) \<Rightarrow> workspace \<Rightarrow>
     (domain_error + (project \<times> membership)) \<times> workspace" where
  "project_transition e i user_id permission action step = transaction (\<lambda>w.
     rbind (require_some (projects_get_for_member i user_id w) ProjectNotFound) (\<lambda>(p, m).
     rbind (require m permission) (\<lambda>_.
     rbind (step (now e) p) (\<lambda>target.
     if target = p then Inr ((p, m), w)
     else
       rbind (projects_save e target w) (\<lambda>(saved, w).
       rbind (ws_audit e (project_event action user_id saved [(''name'', MText (p_name saved))]) w) (\<lambda>w.
       Inr ((saved, m), w)))))))"

definition archive_project ::
    "env \<Rightarrow> uuid \<Rightarrow> uuid \<Rightarrow> workspace \<Rightarrow> (domain_error + (project \<times> membership)) \<times> workspace" where
  "archive_project e i user_id =
     project_transition e i user_id PROJECT_ARCHIVE PROJECT_ARCHIVED project_archive"

definition restore_project ::
    "env \<Rightarrow> uuid \<Rightarrow> uuid \<Rightarrow> workspace \<Rightarrow> (domain_error + (project \<times> membership)) \<times> workspace" where
  "restore_project e i user_id =
     project_transition e i user_id PROJECT_ARCHIVE PROJECT_RESTORED project_restore"

definition delete_project ::
    "env \<Rightarrow> uuid \<Rightarrow> uuid \<Rightarrow> workspace \<Rightarrow> (domain_error + (project \<times> membership)) \<times> workspace" where
  "delete_project e i user_id =
     project_transition e i user_id PROJECT_DELETE PROJECT_DELETED project_delete"

end
