(* ===== verification/Revisions.thy ===== *)
theory Revisions
  imports Projects IR_Commands
begin

text \<open>
  Architectures of a project and their immutable revisions: the entity with its lifecycle and layout
  rules (core/domain/architecture/entities.py), the exceptions (errors.py), the making and comparing
  of revisions (versions.py), and the check of requirement references
  (core/architecture_ir/validation.py).  The SHA-256 of a document is the argument \<open>sha\<close>.
\<close>

section \<open>Exceptions\<close>

text \<open>
  \<open>Domain\<close> and \<open>Content\<close> carry the exceptions of the other domains and of the IR through
  these services; \<open>InvalidRevision\<close> and \<open>InvalidLayout\<close> carry their details.
\<close>

datatype architecture_error =
    Domain domain_error
  | Content edit_error
  | ArchitectureUnchanged
  | InvalidRevision "string option" string
  | ArchitectureNotFound
  | ArchitectureRevisionNotFound
  | ArchitectureNameTaken
  | InvalidArchitectureMetadata string string
  | ArchitectureArchived
  | ArchitectureNotArchived
  | ArchitectureVersionConflict "int option"
  | InvalidLayout string "string option"
  | RequirementSetNotFound

definition refused_content :: "violation list \<Rightarrow> architecture_error" where
  "refused_content vs = Content (InvalidArchitecture vs)"

section \<open>Metadata and lifecycle\<close>

definition MAX_ARCHITECTURE_NAME_LENGTH :: nat where "MAX_ARCHITECTURE_NAME_LENGTH = 100"
definition MAX_ARCHITECTURE_DESCRIPTION_LENGTH :: nat where "MAX_ARCHITECTURE_DESCRIPTION_LENGTH = 2000"
definition MAX_COORDINATE :: decimal where "MAX_COORDINATE = Dec 1000000 0"

definition normalize_architecture_name :: "string \<Rightarrow> architecture_error + string" where
  "normalize_architecture_name raw =
     (let name = join '' '' (py_split raw)
      in if name = [] \<or> length name > MAX_ARCHITECTURE_NAME_LENGTH
         then Inl (InvalidArchitectureMetadata ''name'' ''length'')
         else if has_forbidden_characters name []
         then Inl (InvalidArchitectureMetadata ''name'' ''control_characters'')
         else Inr name)"

definition normalize_architecture_description :: "string \<Rightarrow> architecture_error + string" where
  "normalize_architecture_description raw =
     (let description = py_strip (py_replace CRLF [CHR 0x0A] raw)
      in if length description > MAX_ARCHITECTURE_DESCRIPTION_LENGTH
         then Inl (InvalidArchitectureMetadata ''description'' ''length'')
         else if has_forbidden_characters description [CHR 0x0A, CHR 0x09]
         then Inl (InvalidArchitectureMetadata ''description'' ''control_characters'')
         else Inr description)"

definition ar_is_archived :: "architecture \<Rightarrow> bool" where
  "ar_is_archived a \<longleftrightarrow> ar_status a = ARCHIVED_ARCHITECTURE"

definition ar_is_deleted :: "architecture \<Rightarrow> bool" where
  "ar_is_deleted a \<longleftrightarrow> ar_deleted_at a \<noteq> None"

definition architecture_ensure_modifiable :: "architecture \<Rightarrow> architecture_error + unit" where
  "architecture_ensure_modifiable a =
     (if ar_is_deleted a then Inl ArchitectureNotFound
      else if ar_is_archived a then Inl ArchitectureArchived else Inr ())"

definition with_metadata ::
    "string option \<Rightarrow> string option \<Rightarrow> uuid \<Rightarrow> architecture \<Rightarrow> architecture_error + architecture" where
  "with_metadata name description by_user a =
     rbind (architecture_ensure_modifiable a) (\<lambda>_.
     rbind (case name of None \<Rightarrow> Inr (ar_name a) | Some s \<Rightarrow> normalize_architecture_name s) (\<lambda>name.
     rbind (case description of None \<Rightarrow> Inr (ar_description a)
            | Some s \<Rightarrow> normalize_architecture_description s) (\<lambda>description.
     Inr (a\<lparr>ar_name := name, ar_description := description, ar_updated_by_user_id := Some by_user\<rparr>))))"

definition architecture_archive :: "instant \<Rightarrow> uuid \<Rightarrow> architecture \<Rightarrow> architecture_error + architecture" where
  "architecture_archive at by_user a =
     (if ar_is_deleted a then Inl ArchitectureNotFound
      else if ar_is_archived a then Inr a
      else Inr (a\<lparr>ar_status := ARCHIVED_ARCHITECTURE, ar_archived_at := Some at,
                  ar_updated_by_user_id := Some by_user\<rparr>))"

definition architecture_restore :: "uuid \<Rightarrow> architecture \<Rightarrow> architecture_error + architecture" where
  "architecture_restore by_user a =
     (if ar_is_deleted a then Inl ArchitectureNotFound
      else if \<not> ar_is_archived a then Inr a
      else Inr (a\<lparr>ar_status := ACTIVE_ARCHITECTURE, ar_archived_at := None,
                  ar_updated_by_user_id := Some by_user\<rparr>))"

definition architecture_delete :: "instant \<Rightarrow> uuid \<Rightarrow> architecture \<Rightarrow> architecture_error + architecture" where
  "architecture_delete at by_user a =
     (if ar_is_deleted a then Inl ArchitectureNotFound
      else if \<not> ar_is_archived a then Inl ArchitectureNotArchived
      else Inr (a\<lparr>ar_deleted_at := Some at, ar_updated_by_user_id := Some by_user\<rparr>))"

section \<open>Layout\<close>

definition Position :: "decimal \<Rightarrow> decimal \<Rightarrow> architecture_error + position" where
  "Position x y =
     rbind (rmap (\<lambda>v. rbind (ensure (is_finite v) (InvalidLayout ''invalid_position'' None)) (\<lambda>_.
                      ensure (dec_le (dec_abs v) MAX_COORDINATE) (InvalidLayout ''position_out_of_range'' None)))
              [x, y]) (\<lambda>_.
     Inr \<lparr>px = x, py = y\<rparr>)"

definition check_positions :: "(string \<times> position) list \<Rightarrow> string list \<Rightarrow> architecture_error + unit" where
  "check_positions positions node_ids =
     rbind (ensure (length positions \<le> MAX_NODES) (InvalidLayout ''too_many'' None)) (\<lambda>_.
     rbind (rmap (\<lambda>(i, _).
         rbind (ensure (ELEMENT_ID i) (InvalidLayout ''invalid_node_id'' None)) (\<lambda>_.
         ensure (i \<in> set node_ids) (InvalidLayout ''unknown_node'' (Some i)))) positions) (\<lambda>_.
     Inr ()))"

section \<open>Making revisions\<close>

definition MAX_REASON_LENGTH :: nat where "MAX_REASON_LENGTH = 500"
definition MAX_SUMMARY_LENGTH :: nat where "MAX_SUMMARY_LENGTH = 500"

text \<open>\<open>_reason\<close>: blank is no reason.\<close>

definition revision_reason :: "string option \<Rightarrow> architecture_error + string option" where
  "revision_reason raw =
     (case raw of
        None \<Rightarrow> Inr None
      | Some r \<Rightarrow>
          if py_strip r = [] then Inr None
          else let reason = clean_block r in
               case text_problems (Some reason) ''reason'' MAX_REASON_LENGTH True True of
                 [] \<Rightarrow> Inr (Some reason)
               | v # _ \<Rightarrow> Inl (InvalidRevision (Some ''reason'') (v_rule v)))"

definition plural :: "nat \<Rightarrow> string" where
  "plural n = (if n \<noteq> 1 then ''s'' else [])"

definition first_summary :: "architecture_ir \<Rightarrow> string" where
  "first_summary ir =
     (let ns = length (ir_nodes ir); cs = length (ir_connections ir)
      in ''Created with '' @ nat_str ns @ '' node'' @ plural ns @
         '' and '' @ nat_str cs @ '' connection'' @ plural cs @ ''.'')"

definition first_revision ::
    "(string \<Rightarrow> string) \<Rightarrow> uuid \<Rightarrow> architecture_ir \<Rightarrow> revision_source \<Rightarrow> uuid option \<Rightarrow> string option \<Rightarrow>
     uuid option \<Rightarrow> architecture_error + new_revision" where
  "first_revision sha i ir source created_by reason set_id =
     rbind (revision_reason reason) (\<lambda>reason.
     Inr \<lparr>nr_architecture_id = i, nr_number = 1, nr_parent_number = None, nr_ir = ir,
          nr_content_hash = content_hash sha ir, nr_source = source,
          nr_summary = Whole (first_summary ir), nr_reason = reason,
          nr_created_by_user_id = created_by, nr_requirement_set_id = set_id,
          nr_restored_from = None\<rparr>)"

definition bounded_summary :: "string \<Rightarrow> summary_text" where
  "bounded_summary s =
     (if length s > MAX_SUMMARY_LENGTH then Cut (take (MAX_SUMMARY_LENGTH - 1) s) else Whole s)"

definition next_revision ::
    "(string \<Rightarrow> string) \<Rightarrow> revision \<Rightarrow> architecture_ir \<Rightarrow> revision_source \<Rightarrow> uuid option \<Rightarrow> string option \<Rightarrow>
     uuid option \<Rightarrow> architecture_error + (new_revision \<times> architecture_diff)" where
  "next_revision sha parent ir source created_by reason set_id =
     (let changes = diff (rv_ir parent) ir in
      rbind (ensure (\<not> df_is_empty changes) ArchitectureUnchanged) (\<lambda>_.
      rbind (revision_reason reason) (\<lambda>reason.
      Inr (\<lparr>nr_architecture_id = rv_architecture_id parent, nr_number = rv_number parent + 1,
            nr_parent_number = Some (rv_number parent), nr_ir = ir,
            nr_content_hash = content_hash sha ir, nr_source = source,
            nr_summary = bounded_summary (df_summary changes), nr_reason = reason,
            nr_created_by_user_id = created_by,
            nr_requirement_set_id = (if set_id = None then rv_requirement_set_id parent else set_id),
            nr_restored_from = None\<rparr>, changes))))"

definition revision_label :: "revision \<Rightarrow> string" where
  "revision_label r = CHR ''v'' # int_str (rv_number r)"

definition restored_revision ::
    "(string \<Rightarrow> string) \<Rightarrow> revision \<Rightarrow> revision \<Rightarrow> uuid option \<Rightarrow> string option \<Rightarrow>
     architecture_error + (new_revision \<times> architecture_diff)" where
  "restored_revision sha current source created_by reason =
     rbind (ensure (rv_architecture_id source = rv_architecture_id current)
              (InvalidRevision None ''different_architectures'')) (\<lambda>_.
     rbind (next_revision sha current (rv_ir source) FROM_USER created_by reason
              (rv_requirement_set_id source)) (\<lambda>(new, changes).
     Inr (new\<lparr>nr_summary := bounded_summary
                (''Restored '' @ revision_label source @ '': '' @ df_summary changes),
              nr_restored_from := Some (rv_number source)\<rparr>, changes)))"

definition compare_revisions :: "revision \<Rightarrow> revision \<Rightarrow> architecture_error + architecture_diff" where
  "compare_revisions earlier later =
     rbind (ensure (rv_architecture_id earlier = rv_architecture_id later)
              (InvalidRevision None ''different_architectures'')) (\<lambda>_.
     Inr (diff (rv_ir earlier) (rv_ir later)))"

section \<open>Requirement references\<close>

definition referencing ::
    "architecture_ir \<Rightarrow> (element_type \<times> string option \<times> requirement_ref list) list" where
  "referencing ir =
     (ARCHITECTURE, None, ir_requirement_refs ir) #
     map (\<lambda>n. (NODE, Some (n_id n), n_requirement_refs n)) (ir_nodes ir) @
     map (\<lambda>c. (CONNECTION, Some (c_id c), c_requirement_refs c)) (ir_connections ir) @
     map (\<lambda>a. (ASSUMPTION, Some (as_id a), as_requirement_refs a)) (ir_assumptions ir)"

definition referenced_requirements :: "architecture_ir \<Rightarrow> uuid list" where
  "referenced_requirements ir =
     map rr_requirement_id (concat (map (\<lambda>(_, _, refs). refs) (referencing ir)))"

definition requirement_problem ::
    "(uuid \<rightharpoonup> int) \<Rightarrow> element_type \<Rightarrow> string option \<Rightarrow> requirement_ref \<Rightarrow> violation list" where
  "requirement_problem available element element_id ref =
     (case available (rr_requirement_id ref) of
        None \<Rightarrow>
          [ViolationAt ''unknown_requirement''
             (''Requirement '' @ uuid_str (rr_requirement_id ref) @ '' does not exist in this project.'')
             (Some ''requirement_refs'') element element_id]
      | Some current \<Rightarrow>
          (case rr_version ref of
             None \<Rightarrow> []
           | Some v \<Rightarrow>
               if v > current
               then [ViolationAt ''unknown_requirement_version''
                       (''Requirement '' @ uuid_str (rr_requirement_id ref) @ '' has no version '' @
                        int_str v @ '' (latest: '' @ int_str current @ '').'')
                       (Some ''requirement_refs'') element element_id]
               else []))"

definition requirement_problems :: "architecture_ir \<Rightarrow> (uuid \<rightharpoonup> int) \<Rightarrow> violation list" where
  "requirement_problems ir available =
     ordered (concat (map (\<lambda>(element, element_id, refs).
       concat (map (requirement_problem available element element_id) refs)) (referencing ir)))"

end
