(* ===== verification/Architectures.thy ===== *)
theory Architectures
  imports Revisions
begin

text \<open>
  The repository of architectures, their append-only revisions and layouts
  (persistence/repositories/architectures.py) and the service over it
  (core/domain/architecture/architecture_service.py).  The constraints of the tables that an insert
  could violate are checked by the insert (\<open>IntegrityError\<close>).  \<open>after\<close> is the work a caller
  lets commit with a content change.
\<close>

section \<open>The repository\<close>

definition revision_at :: "uuid \<Rightarrow> int \<Rightarrow> revision \<Rightarrow> bool" where
  "revision_at i n r \<longleftrightarrow> rv_architecture_id r = i \<and> rv_number r = n"

definition get_revision :: "uuid \<Rightarrow> int \<Rightarrow> workspace \<Rightarrow> revision option" where
  "get_revision i n w = List.find (revision_at i n) (revisions w)"

definition architectures_get :: "uuid \<Rightarrow> uuid \<Rightarrow> workspace \<Rightarrow> architecture option" where
  "architectures_get project i w =
     List.find (\<lambda>a. ar_id a = i \<and> ar_project_id a = project \<and> ar_deleted_at a = None) (architectures w)"

text \<open>\<open>uq_architectures_project_id_name_live\<close>, without the row itself.\<close>

definition name_taken :: "uuid \<Rightarrow> uuid \<Rightarrow> string \<Rightarrow> workspace \<Rightarrow> bool" where
  "name_taken project i name w \<longleftrightarrow>
     (\<exists>a \<in> set (architectures w). ar_id a \<noteq> i \<and> ar_deleted_at a = None \<and> ar_project_id a = project \<and>
        py_lower (ar_name a) = py_lower name)"

definition CONTENT_HASH :: "string \<Rightarrow> bool" where
  "CONTENT_HASH s \<longleftrightarrow> length s = 64 \<and> list_all (\<lambda>c. c \<in> set ''0123456789abcdef'') s"

text \<open>
  What \<open>architecture_revisions\<close> accepts: its keys, foreign keys and checks.  \<open>ir_object\<close> and
  \<open>source_valid\<close> hold by the types.  \<open>ir_size\<close> is left out: it bounds the text the database
  itself writes for the document (16 MiB), and that writing is not code of the repository; a document
  that is stored again, as a restore does, has the size with which it was accepted.
\<close>

definition revision_accepted :: "uuid \<Rightarrow> uuid \<Rightarrow> new_revision \<Rightarrow> workspace \<Rightarrow> bool" where
  "revision_accepted rid project nr w \<longleftrightarrow>
     (\<forall>r \<in> set (revisions w). rv_id r \<noteq> rid) \<and>
     get_revision (nr_architecture_id nr) (nr_number nr) w = None \<and>
     (\<exists>a \<in> set (architectures w). ar_id a = nr_architecture_id nr \<and> ar_project_id a = project) \<and>
     (\<forall>n \<in> set_option (nr_parent_number nr). get_revision (nr_architecture_id nr) n w \<noteq> None) \<and>
     (\<forall>n \<in> set_option (nr_restored_from nr).
        get_revision (nr_architecture_id nr) n w \<noteq> None \<and> n < nr_number nr) \<and>
     (\<forall>s \<in> set_option (nr_requirement_set_id nr).
        \<exists>q \<in> set (requirement_sets w). qs_id q = s \<and> qs_project_id q = project) \<and>
     1 \<le> nr_number nr \<and>
     (nr_number nr = 1 \<and> nr_parent_number nr = None \<or> nr_parent_number nr = Some (nr_number nr - 1)) \<and>
     1 \<le> ir_schema_version (nr_ir nr) \<and> CONTENT_HASH (nr_content_hash nr) \<and>
     1 \<le> summary_length (nr_summary nr) \<and> summary_length (nr_summary nr) \<le> MAX_SUMMARY_LENGTH \<and>
     (\<forall>s \<in> set_option (nr_reason nr). 1 \<le> length s \<and> length s \<le> MAX_REASON_LENGTH)"

definition revision_record :: "env \<Rightarrow> uuid \<Rightarrow> new_revision \<Rightarrow> revision" where
  "revision_record e rid nr =
     \<lparr>rv_id = rid, rv_architecture_id = nr_architecture_id nr, rv_number = nr_number nr,
      rv_parent_number = nr_parent_number nr, rv_ir = nr_ir nr, rv_content_hash = nr_content_hash nr,
      rv_source = nr_source nr, rv_summary = nr_summary nr, rv_reason = nr_reason nr,
      rv_created_by_user_id = nr_created_by_user_id nr, rv_created_at = db_now e,
      rv_requirement_set_id = nr_requirement_set_id nr, rv_restored_from = nr_restored_from nr,
      rv_snapshot = to_dict (nr_ir nr), rv_stored_schema_version = ir_schema_version (nr_ir nr)\<rparr>"

definition add_revision_row ::
    "env \<Rightarrow> uuid \<Rightarrow> uuid \<Rightarrow> new_revision \<Rightarrow> workspace \<Rightarrow> architecture_error + (revision \<times> workspace)" where
  "add_revision_row e rid project nr w =
     rbind (ensure (revision_accepted rid project nr w) (Domain IntegrityError)) (\<lambda>_.
     Inr (revision_record e rid nr, w\<lparr>revisions := revisions w @ [revision_record e rid nr]\<rparr>))"

record new_architecture =
  na_id :: uuid
  na_project_id :: uuid
  na_name :: string
  na_description :: string
  na_created_by_user_id :: "uuid option"

definition architectures_add ::
    "env \<Rightarrow> new_architecture \<Rightarrow> new_revision \<Rightarrow> workspace \<Rightarrow>
     architecture_error + (architecture \<times> revision \<times> workspace)" where
  "architectures_add e na first w =
     (let a = \<lparr>ar_id = na_id na, ar_project_id = na_project_id na, ar_name = na_name na,
               ar_description = na_description na, ar_status = ACTIVE_ARCHITECTURE,
               ar_current_revision = nr_number first,
               ar_created_by_user_id = na_created_by_user_id na,
               ar_updated_by_user_id = na_created_by_user_id na, ar_archived_at = None,
               ar_deleted_at = None, ar_created_at = db_now e, ar_updated_at = db_now e\<rparr>
      in rbind (ensure (\<not> name_taken (na_project_id na) (na_id na) (na_name na) w) ArchitectureNameTaken) (\<lambda>_.
         rbind (ensure (\<forall>b \<in> set (architectures w). ar_id b \<noteq> na_id na) (Domain IntegrityError)) (\<lambda>_.
         rbind (add_revision_row e (new_id2 e) (na_project_id na) first
                  (w\<lparr>architectures := architectures w @ [a]\<rparr>)) (\<lambda>(r, w).
         Inr (a, r, w)))))"

definition architectures_save ::
    "env \<Rightarrow> architecture \<Rightarrow> workspace \<Rightarrow> architecture_error + (architecture \<times> workspace)" where
  "architectures_save e a w =
     (let f = (\<lambda>b. b\<lparr>ar_name := ar_name a, ar_description := ar_description a, ar_status := ar_status a,
                      ar_archived_at := ar_archived_at a, ar_deleted_at := ar_deleted_at a,
                      ar_updated_by_user_id := ar_updated_by_user_id a, ar_updated_at := db_now e\<rparr>)
      in rbind (require_some (List.find (\<lambda>b. ar_id b = ar_id a) (architectures w)) (Domain LookupError)) (\<lambda>b.
         rbind (ensure (ar_project_id b = ar_project_id a) (Domain LookupError)) (\<lambda>_.
         rbind (ensure (\<not> (ar_deleted_at a = None \<and> name_taken (ar_project_id b) (ar_id a) (ar_name a) w))
                  ArchitectureNameTaken) (\<lambda>_.
         Inr (f b, w\<lparr>architectures := update_where (\<lambda>b. ar_id b = ar_id a) f (architectures w)\<rparr>)))))"

text \<open>The current revision moves only if it still is the parent.\<close>

definition add_revision ::
    "env \<Rightarrow> architecture \<Rightarrow> new_revision \<Rightarrow> workspace \<Rightarrow>
     architecture_error + (architecture \<times> revision \<times> workspace)" where
  "add_revision e a nr w =
     (let moving = (\<lambda>b. ar_id b = ar_id a \<and> Some (ar_current_revision b) = nr_parent_number nr);
          f = (\<lambda>b. b\<lparr>ar_current_revision := nr_number nr, ar_updated_at := db_now e,
                     ar_updated_by_user_id := nr_created_by_user_id nr\<rparr>)
      in rbind (add_revision_row e (new_id e) (ar_project_id a) nr w) (\<lambda>(r, w).
         rbind (require_some (List.find moving (architectures w)) (ArchitectureVersionConflict None)) (\<lambda>b.
         Inr (f b, r, w\<lparr>architectures := update_where moving f (architectures w)\<rparr>))))"

text \<open>Newest first, after the last row of the previous page.\<close>

definition list_for_project ::
    "uuid \<Rightarrow> architecture_status option \<Rightarrow> string option \<Rightarrow> (instant \<times> uuid) option \<Rightarrow> nat \<Rightarrow>
     workspace \<Rightarrow> architecture list" where
  "list_for_project project status search after limit w =
     take limit (sort_key (\<lambda>a. (- ar_created_at a, - int (ar_id a)))
       (filter (\<lambda>a. ar_project_id a = project \<and> ar_deleted_at a = None \<and>
                     (\<forall>s \<in> set_option status. ar_status a = s) \<and>
                     (\<forall>s \<in> set_option search. contains_text (py_lower (py_strip s)) (py_lower (ar_name a))) \<and>
                     (\<forall>(t, i) \<in> set_option after.
                        ar_created_at a < t \<or> (ar_created_at a = t \<and> ar_id a < i)))
          (architectures w)))"

definition list_revisions :: "uuid \<Rightarrow> int option \<Rightarrow> nat \<Rightarrow> workspace \<Rightarrow> revision list" where
  "list_revisions i before limit w =
     take limit (sort_key (\<lambda>r. - rv_number r)
       (filter (\<lambda>r. rv_architecture_id r = i \<and> (\<forall>n \<in> set_option before. rv_number r < n)) (revisions w)))"

definition get_layout :: "uuid \<Rightarrow> workspace \<Rightarrow> layout" where
  "get_layout i w =
     (case map_of (layouts w) i of
        None \<Rightarrow> \<lparr>ly_positions = [], ly_updated_by_user_id = None, ly_updated_at = None\<rparr>
      | Some l \<Rightarrow> l)"

definition save_layout_row ::
    "env \<Rightarrow> architecture \<Rightarrow> (string \<times> position) list \<Rightarrow> uuid \<Rightarrow> workspace \<Rightarrow> layout \<times> workspace" where
  "save_layout_row e a positions user_id w =
     (let l = \<lparr>ly_positions = sort_key fst positions, ly_updated_by_user_id = Some user_id,
               ly_updated_at = Some (db_now e)\<rparr>
      in (l, w\<lparr>layouts := AList.update (ar_id a) l (layouts w)\<rparr>))"

definition requirement_set_exists :: "uuid \<Rightarrow> uuid \<Rightarrow> workspace \<Rightarrow> bool" where
  "requirement_set_exists project i w \<longleftrightarrow>
     (\<exists>q \<in> set (requirement_sets w). qs_id q = i \<and> qs_project_id q = project)"

definition requirements_by_ids :: "uuid \<Rightarrow> uuid list \<Rightarrow> workspace \<Rightarrow> requirement_row list" where
  "requirements_by_ids project ids w =
     filter (\<lambda>q. q_project_id q = project \<and> q_deleted_at q = None \<and> q_id q \<in> set ids) (requirements w)"

section \<open>Parts of the service\<close>

definition write_access ::
    "uuid \<Rightarrow> uuid \<Rightarrow> permission \<Rightarrow> workspace \<Rightarrow> architecture_error + (project \<times> membership)" where
  "write_access project user_id permission w =
     map_error Domain (project_access project user_id permission True w)"

definition the_architecture :: "uuid \<Rightarrow> uuid \<Rightarrow> workspace \<Rightarrow> architecture_error + architecture" where
  "the_architecture project i w = require_some (architectures_get project i w) ArchitectureNotFound"

definition the_revision :: "architecture \<Rightarrow> int \<Rightarrow> workspace \<Rightarrow> architecture_error + revision" where
  "the_revision a n w = require_some (get_revision (ar_id a) n w) ArchitectureRevisionNotFound"

definition check_references ::
    "uuid \<Rightarrow> architecture_ir \<Rightarrow> uuid option \<Rightarrow> workspace \<Rightarrow> architecture_error + unit" where
  "check_references project ir set_id w =
     rbind (ensure (\<forall>s \<in> set_option set_id. requirement_set_exists project s w) RequirementSetNotFound) (\<lambda>_.
     let referenced = sorted_set (referenced_requirements ir);
         found = requirements_by_ids project referenced w;
         problems = requirement_problems ir (map_of (map (\<lambda>q. (q_id q, q_version q)) found))
     in if referenced = [] then Inr ()
        else ensure (problems = []) (refused_content problems))"

definition revision_facts :: "revision \<Rightarrow> (string \<times> meta_value) list" where
  "revision_facts r =
     [(''revision'', MInt (rv_number r)),
      (''source'', MText (revision_source_value (rv_source r))),
      (''node_count'', MInt (int (length (ir_nodes (rv_ir r))))),
      (''connection_count'', MInt (int (length (ir_connections (rv_ir r))))),
      (''content_sha256'', MText (rv_content_hash r))]"

definition change_counts :: "architecture_diff \<Rightarrow> (string \<times> meta_value) list" where
  "change_counts changes =
     map (\<lambda>kind. (''elements_'' @ change_value kind,
                  MInt (int (count_where (\<lambda>c. el_change c = kind) (df_changes changes)))))
       [ADDED, REMOVED, MODIFIED]"

definition record_architecture ::
    "env \<Rightarrow> project \<Rightarrow> audit_action \<Rightarrow> uuid \<Rightarrow> architecture \<Rightarrow> (string \<times> meta_value) list \<Rightarrow> workspace \<Rightarrow>
     architecture_error + workspace" where
  "record_architecture e p action user_id a facts w =
     map_error Domain (ws_audit e
       (AuditEvent action (Some user_id) (Some (p_organization_id p)) (Some ''architecture'') (Some (ar_id a))
          ((''project_id'', MText (uuid_str (ar_project_id a))) # facts)) w)"

section \<open>Reading and creating\<close>

definition architecture_version ::
    "uuid \<Rightarrow> uuid \<Rightarrow> uuid \<Rightarrow> int \<Rightarrow> workspace \<Rightarrow> architecture_error + (architecture \<times> revision \<times> layout)" where
  "architecture_version project i user_id n w =
     rbind (map_error Domain (project_access project user_id ARCHITECTURE_READ False w)) (\<lambda>_.
     rbind (the_architecture project i w) (\<lambda>a.
     rbind (the_revision a n w) (\<lambda>r.
     Inr (a, r, get_layout (ar_id a) w))))"

definition architecture_get ::
    "uuid \<Rightarrow> uuid \<Rightarrow> uuid \<Rightarrow> workspace \<Rightarrow> architecture_error + (architecture \<times> revision \<times> layout)" where
  "architecture_get project i user_id w =
     rbind (map_error Domain (project_access project user_id ARCHITECTURE_READ False w)) (\<lambda>_.
     rbind (the_architecture project i w) (\<lambda>a.
     rbind (the_revision a (ar_current_revision a) w) (\<lambda>r.
     Inr (a, r, get_layout (ar_id a) w))))"

definition architecture_compare ::
    "uuid \<Rightarrow> uuid \<Rightarrow> uuid \<Rightarrow> int \<Rightarrow> int \<Rightarrow> workspace \<Rightarrow>
     architecture_error + (revision \<times> revision \<times> architecture_diff)" where
  "architecture_compare project i user_id from_number to_number w =
     rbind (map_error Domain (project_access project user_id ARCHITECTURE_READ False w)) (\<lambda>_.
     rbind (the_architecture project i w) (\<lambda>a.
     rbind (the_revision a from_number w) (\<lambda>earlier.
     rbind (the_revision a to_number w) (\<lambda>later.
     rbind (compare_revisions earlier later) (\<lambda>changes.
     Inr (earlier, later, changes))))))"

text \<open>
  Pages (core/domain/pagination.py): one row more than the page is read, to know whether there is a
  next one; the cursor is the key of the last row (its opaque encoding is not modelled).
\<close>

definition MAX_PAGE_SIZE :: int where "MAX_PAGE_SIZE = 100"

definition page_size :: "int \<Rightarrow> nat" where
  "page_size limit = nat (max 1 (min limit MAX_PAGE_SIZE))"

definition page :: "nat \<Rightarrow> ('r \<Rightarrow> 'k) \<Rightarrow> 'r list \<Rightarrow> 'r list \<times> 'k option" where
  "page most key rows =
     (let items = take most rows
      in (items, if length rows > most then Some (key (last items)) else None))"

definition architecture_list ::
    "uuid \<Rightarrow> uuid \<Rightarrow> architecture_status option \<Rightarrow> string option \<Rightarrow> (instant \<times> uuid) option \<Rightarrow> int \<Rightarrow>
     workspace \<Rightarrow> architecture_error + (architecture list \<times> (instant \<times> uuid) option)" where
  "architecture_list project user_id status search after limit w =
     (let most = page_size limit;
          search = (case search of
                      None \<Rightarrow> None
                    | Some s \<Rightarrow> if s = [] \<or> py_strip s = [] then None else Some (py_strip s))
      in rbind (map_error Domain (project_access project user_id ARCHITECTURE_READ False w)) (\<lambda>_.
         Inr (page most (\<lambda>a. (ar_created_at a, ar_id a))
                (list_for_project project status search after (most + 1) w))))"

definition architecture_history ::
    "uuid \<Rightarrow> uuid \<Rightarrow> uuid \<Rightarrow> int option \<Rightarrow> int \<Rightarrow> workspace \<Rightarrow>
     architecture_error + (architecture \<times> revision list \<times> int option)" where
  "architecture_history project i user_id before limit w =
     (let most = page_size limit in
      rbind (map_error Domain (project_access project user_id ARCHITECTURE_READ False w)) (\<lambda>_.
      rbind (the_architecture project i w) (\<lambda>a.
      Inr (a, page most rv_number (list_revisions (ar_id a) before (most + 1) w)))))"

type_synonym after_write = "architecture \<Rightarrow> revision \<Rightarrow> workspace \<Rightarrow> architecture_error + workspace"

definition nothing_after :: after_write where
  "nothing_after a r w = Inr w"

definition starting_content ::
    "string \<Rightarrow> string \<Rightarrow> architecture_ir option \<Rightarrow> architecture_error + architecture_ir" where
  "starting_content name description ir =
     (case ir of
        Some content \<Rightarrow> Inr content
      | None \<Rightarrow> map_error refused_content (ArchitectureIR
          \<lparr>ir_name = name, ir_description = (if description = [] then None else Some description),
           ir_nodes = [], ir_connections = [], ir_assumptions = [], ir_decisions = [],
           ir_requirement_refs = [], ir_metadata = [], ir_provenance = None,
           ir_schema_version = IR_SCHEMA_VERSION\<rparr>))"

definition architecture_create ::
    "(string \<Rightarrow> string) \<Rightarrow> env \<Rightarrow> uuid \<Rightarrow> uuid \<Rightarrow> string \<Rightarrow> string \<Rightarrow> architecture_ir option \<Rightarrow>
     revision_source \<Rightarrow> string option \<Rightarrow> uuid option \<Rightarrow> after_write \<Rightarrow> workspace \<Rightarrow>
     (architecture_error + (architecture \<times> revision)) \<times> workspace" where
  "architecture_create sha e project user_id name description ir source reason set_id after w =
     (case rbind (normalize_architecture_name name) (\<lambda>name.
           rbind (normalize_architecture_description description) (\<lambda>description.
           rbind (starting_content name description ir) (\<lambda>content.
           rbind (first_revision sha (new_id e) content source (Some user_id) reason set_id) (\<lambda>first.
           Inr (name, description, content, first))))) of
        Inl err \<Rightarrow> (Inl err, w)
      | Inr (name, description, content, first) \<Rightarrow> transaction (\<lambda>w.
          rbind (write_access project user_id ARCHITECTURE_CREATE w) (\<lambda>(p, m).
          rbind (check_references project content set_id w) (\<lambda>_.
          rbind (architectures_add e
                   \<lparr>na_id = new_id e, na_project_id = project, na_name = name,
                    na_description = description, na_created_by_user_id = Some user_id\<rparr> first w) (\<lambda>(a, r, w).
          rbind (record_architecture e p ARCHITECTURE_CREATED user_id a (revision_facts r) w) (\<lambda>w.
          rbind (after a r w) (\<lambda>w.
          Inr ((a, r), w))))))) w)"

section \<open>Metadata and lifecycle\<close>

definition update_metadata ::
    "env \<Rightarrow> uuid \<Rightarrow> uuid \<Rightarrow> uuid \<Rightarrow> string option \<Rightarrow> string option \<Rightarrow> workspace \<Rightarrow>
     (architecture_error + architecture) \<times> workspace" where
  "update_metadata e project i user_id name description w =
     (if name = None \<and> description = None then (Inl (Domain NothingToUpdate), w)
      else transaction (\<lambda>w.
        rbind (write_access project user_id ARCHITECTURE_UPDATE w) (\<lambda>(p, m).
        rbind (the_architecture project i w) (\<lambda>a.
        rbind (with_metadata name description user_id a) (\<lambda>updated.
        let changed = (if ar_name updated \<noteq> ar_name a then [''name''] else []) @
                      (if ar_description updated \<noteq> ar_description a then [''description''] else [])
        in if changed = [] then Inr (a, w)
           else
             rbind (architectures_save e updated w) (\<lambda>(saved, w).
             rbind (record_architecture e p ARCHITECTURE_UPDATED user_id saved
                      [(''changed_fields'', MList changed)] w) (\<lambda>w.
             Inr (saved, w))))))) w)"

definition architecture_lifecycle ::
    "env \<Rightarrow> uuid \<Rightarrow> uuid \<Rightarrow> uuid \<Rightarrow> permission \<Rightarrow> audit_action \<Rightarrow>
     (architecture \<Rightarrow> architecture_error + architecture) \<Rightarrow> workspace \<Rightarrow>
     (architecture_error + architecture) \<times> workspace" where
  "architecture_lifecycle e project i user_id permission action change = transaction (\<lambda>w.
     rbind (write_access project user_id permission w) (\<lambda>(p, m).
     rbind (the_architecture project i w) (\<lambda>a.
     rbind (change a) (\<lambda>changed.
     if changed = a then Inr (a, w)
     else
       rbind (architectures_save e changed w) (\<lambda>(saved, w).
       rbind (record_architecture e p action user_id saved
                [(''status'', MText (architecture_status_value (ar_status saved)))] w) (\<lambda>w.
       Inr (saved, w)))))))"

definition archive_architecture ::
    "env \<Rightarrow> uuid \<Rightarrow> uuid \<Rightarrow> uuid \<Rightarrow> workspace \<Rightarrow> (architecture_error + architecture) \<times> workspace" where
  "archive_architecture e project i user_id =
     architecture_lifecycle e project i user_id ARCHITECTURE_UPDATE ARCHITECTURE_ARCHIVED
       (architecture_archive (now e) user_id)"

definition restore_architecture ::
    "env \<Rightarrow> uuid \<Rightarrow> uuid \<Rightarrow> uuid \<Rightarrow> workspace \<Rightarrow> (architecture_error + architecture) \<times> workspace" where
  "restore_architecture e project i user_id =
     architecture_lifecycle e project i user_id ARCHITECTURE_UPDATE ARCHITECTURE_RESTORED
       (architecture_restore user_id)"

definition delete_architecture ::
    "env \<Rightarrow> uuid \<Rightarrow> uuid \<Rightarrow> uuid \<Rightarrow> workspace \<Rightarrow> (architecture_error + architecture) \<times> workspace" where
  "delete_architecture e project i user_id =
     architecture_lifecycle e project i user_id permission.ARCHITECTURE_DELETE ARCHITECTURE_DELETED
       (architecture_delete (now e) user_id)"

section \<open>Content: a new revision\<close>

record revised =
  rd_architecture :: architecture
  rd_revision :: revision
  rd_changes :: architecture_diff
  rd_layout :: layout
  rd_created :: bool

definition NO_CHANGES :: architecture_diff where
  "NO_CHANGES = \<lparr>df_architecture = [], df_nodes = [], df_connections = [], df_assumptions = [],
                 df_decisions = []\<rparr>"

text \<open>
  \<open>_revise\<close>: \<open>load\<close> reads what \<open>build\<close> needs beside the parent, before the version check;
  only \<open>ArchitectureUnchanged\<close> of \<open>build\<close> is caught.
\<close>

definition revise ::
    "env \<Rightarrow> uuid \<Rightarrow> uuid \<Rightarrow> uuid \<Rightarrow> int \<Rightarrow> (architecture \<Rightarrow> workspace \<Rightarrow> architecture_error + 'x) \<Rightarrow>
     ('x \<Rightarrow> revision \<Rightarrow> architecture_error + (new_revision \<times> architecture_diff)) \<Rightarrow> uuid option \<Rightarrow>
     after_write \<Rightarrow> workspace \<Rightarrow> (architecture_error + revised) \<times> workspace" where
  "revise e project i user_id base load build set_id after = transaction (\<lambda>w.
     rbind (write_access project user_id ARCHITECTURE_UPDATE w) (\<lambda>(p, m).
     rbind (the_architecture project i w) (\<lambda>a.
     rbind (architecture_ensure_modifiable a) (\<lambda>_.
     rbind (load a w) (\<lambda>x.
     rbind (ensure (ar_current_revision a = base)
              (ArchitectureVersionConflict (Some (ar_current_revision a)))) (\<lambda>_.
     rbind (the_revision a base w) (\<lambda>parent.
     if build x parent = Inl ArchitectureUnchanged
     then rbind (after a parent w) (\<lambda>w.
          Inr (\<lparr>rd_architecture = a, rd_revision = parent, rd_changes = NO_CHANGES,
                rd_layout = get_layout (ar_id a) w, rd_created = False\<rparr>, w))
     else
       rbind (build x parent) (\<lambda>(new, changes).
       rbind (check_references project (nr_ir new) set_id w) (\<lambda>_.
       rbind (add_revision e a new w) (\<lambda>(a, r, w).
       rbind (record_architecture e p
                (if rv_restored_from r \<noteq> None then ARCHITECTURE_REVISION_RESTORED else ARCHITECTURE_REVISED)
                user_id a
                (revision_facts r @ change_counts changes @
                 (case rv_restored_from r of None \<Rightarrow> [] | Some n \<Rightarrow> [(''restored_from'', MInt n)])) w) (\<lambda>w.
       rbind (after a r w) (\<lambda>w.
       Inr (\<lparr>rd_architecture = a, rd_revision = r, rd_changes = changes,
             rd_layout = get_layout (ar_id a) w, rd_created = True\<rparr>, w)))))))))))))"

definition nothing_to_load :: "architecture \<Rightarrow> workspace \<Rightarrow> architecture_error + unit" where
  "nothing_to_load a w = Inr ()"

definition edit_provenance :: "env \<Rightarrow> uuid \<Rightarrow> architecture_error + provenance" where
  "edit_provenance e user_id =
     map_error refused_content (Provenance
       \<lparr>pv_source = USER_EDIT, pv_reference = None, pv_confidence = None, pv_verified = False,
        pv_inferred = False, pv_actor = Some (''user:'' @ uuid_str user_id),
        pv_recorded_at = Some (Aware (now e))\<rparr>)"

definition edited ::
    "(string \<Rightarrow> string) \<Rightarrow> command list \<Rightarrow> provenance \<Rightarrow> uuid \<Rightarrow> string option \<Rightarrow> unit \<Rightarrow> revision \<Rightarrow>
     architecture_error + (new_revision \<times> architecture_diff)" where
  "edited sha commands provenance user_id reason _ parent =
     rbind (map_error Content (apply_commands (rv_ir parent) commands (Some provenance))) (\<lambda>ir.
     next_revision sha parent ir FROM_USER (Some user_id) reason None)"

definition architecture_edit ::
    "(string \<Rightarrow> string) \<Rightarrow> env \<Rightarrow> uuid \<Rightarrow> uuid \<Rightarrow> uuid \<Rightarrow> int \<Rightarrow> command list \<Rightarrow> string option \<Rightarrow> workspace \<Rightarrow>
     (architecture_error + revised) \<times> workspace" where
  "architecture_edit sha e project i user_id base commands reason w =
     (case edit_provenance e user_id of
        Inl err \<Rightarrow> (Inl err, w)
      | Inr provenance \<Rightarrow>
          revise e project i user_id base nothing_to_load (edited sha commands provenance user_id reason)
            None nothing_after w)"

definition architecture_replace ::
    "(string \<Rightarrow> string) \<Rightarrow> env \<Rightarrow> uuid \<Rightarrow> uuid \<Rightarrow> uuid \<Rightarrow> int \<Rightarrow> architecture_ir \<Rightarrow> revision_source \<Rightarrow>
     string option \<Rightarrow> uuid option \<Rightarrow> after_write \<Rightarrow> workspace \<Rightarrow> (architecture_error + revised) \<times> workspace" where
  "architecture_replace sha e project i user_id base ir source reason set_id after =
     revise e project i user_id base nothing_to_load
       (\<lambda>_ parent. next_revision sha parent ir source (Some user_id) reason set_id) set_id after"

definition restore_revision ::
    "(string \<Rightarrow> string) \<Rightarrow> env \<Rightarrow> uuid \<Rightarrow> uuid \<Rightarrow> uuid \<Rightarrow> int \<Rightarrow> int \<Rightarrow> string option \<Rightarrow> workspace \<Rightarrow>
     (architecture_error + revised) \<times> workspace" where
  "restore_revision sha e project i user_id number base reason =
     revise e project i user_id base (\<lambda>a w. the_revision a number w)
       (\<lambda>source parent. restored_revision sha parent source (Some user_id) reason) None nothing_after"

definition save_layout ::
    "env \<Rightarrow> uuid \<Rightarrow> uuid \<Rightarrow> uuid \<Rightarrow> (string \<times> position) list \<Rightarrow> workspace \<Rightarrow>
     (architecture_error + layout) \<times> workspace" where
  "save_layout e project i user_id positions = transaction (\<lambda>w.
     rbind (write_access project user_id ARCHITECTURE_UPDATE w) (\<lambda>_.
     rbind (the_architecture project i w) (\<lambda>a.
     rbind (architecture_ensure_modifiable a) (\<lambda>_.
     rbind (the_revision a (ar_current_revision a) w) (\<lambda>current.
     rbind (check_positions positions (map n_id (ir_nodes (rv_ir current)))) (\<lambda>_.
     Inr (save_layout_row e a positions user_id w)))))))"

end
