(* ===== verification/Workspace_Props.thy ===== *)
theory Workspace_Props
  imports Architectures Accounts_Props
begin

text \<open>
  The invariant of the workspace and the order in which its rows progress, for every call of the
  project and architecture services and of the account and organization services beside them:
  each call keeps the invariant and only moves forward (the interface \<open>forward_service\<close>).
\<close>

section \<open>The invariant\<close>

text \<open>
  The constraints the tables declare (persistence/models/project.py, architecture.py), and what the
  services promise beyond them: the revisions of an architecture are numbered from 1 to its current
  one, each made from the one before it, and its hash and stored document are those of its content.
\<close>

definition project_row_ok :: "project \<Rightarrow> bool" where
  "project_row_ok p \<longleftrightarrow>
     (p_status p = ARCHIVED_PROJECT) = (p_archived_at p \<noteq> None) \<and>
     (p_deleted_at p \<noteq> None \<longrightarrow> p_status p = ARCHIVED_PROJECT) \<and>
     1 \<le> length (p_name p) \<and> length (p_name p) \<le> 100 \<and>
     1 \<le> length (p_slug p) \<and> length (p_slug p) \<le> 63 \<and> SLUG_FORMAT (p_slug p) \<and>
     length (p_description p) \<le> 2000"

definition p_live :: "project \<Rightarrow> bool" where
  "p_live p \<longleftrightarrow> p_deleted_at p = None"

definition projects_ok :: "project list \<Rightarrow> bool" where
  "projects_ok ps \<longleftrightarrow> unique_on (\<lambda>_. True) p_id ps \<and>
     unique_on p_live (\<lambda>p. (p_organization_id p, p_slug p)) ps \<and> (\<forall>p \<in> set ps. project_row_ok p)"

definition architecture_row_ok :: "architecture \<Rightarrow> bool" where
  "architecture_row_ok a \<longleftrightarrow>
     (ar_status a = ARCHIVED_ARCHITECTURE) = (ar_archived_at a \<noteq> None) \<and>
     (ar_deleted_at a \<noteq> None \<longrightarrow> ar_status a = ARCHIVED_ARCHITECTURE) \<and>
     1 \<le> length (ar_name a) \<and> length (ar_name a) \<le> 100 \<and> length (ar_description a) \<le> 2000"

definition ar_live :: "architecture \<Rightarrow> bool" where
  "ar_live a \<longleftrightarrow> ar_deleted_at a = None"

definition name_key :: "architecture \<Rightarrow> uuid \<times> string" where
  "name_key a = (ar_project_id a, py_lower (ar_name a))"

definition architectures_ok :: "architecture list \<Rightarrow> bool" where
  "architectures_ok as \<longleftrightarrow> unique_on (\<lambda>_. True) ar_id as \<and> unique_on ar_live name_key as \<and>
     (\<forall>a \<in> set as. architecture_row_ok a)"

definition history :: "uuid \<Rightarrow> revision list \<Rightarrow> revision list" where
  "history i rs = filter (\<lambda>r. rv_architecture_id r = i) rs"

definition revision_row_ok :: "(string \<Rightarrow> string) \<Rightarrow> revision \<Rightarrow> bool" where
  "revision_row_ok sha r \<longleftrightarrow>
     rv_parent_number r = (if rv_number r = 1 then None else Some (rv_number r - 1)) \<and>
     (\<forall>n \<in> set_option (rv_restored_from r). 1 \<le> n \<and> n < rv_number r) \<and>
     rv_content_hash r = content_hash sha (rv_ir r) \<and>
     rv_snapshot r = to_dict (rv_ir r) \<and> rv_stored_schema_version r = ir_schema_version (rv_ir r) \<and>
     1 \<le> rv_stored_schema_version r \<and> CONTENT_HASH (rv_content_hash r) \<and>
     1 \<le> summary_length (rv_summary r) \<and> summary_length (rv_summary r) \<le> 500"

definition revisions_ok :: "(string \<Rightarrow> string) \<Rightarrow> architecture list \<Rightarrow> revision list \<Rightarrow> bool" where
  "revisions_ok sha as rs \<longleftrightarrow>
     unique_on (\<lambda>_. True) rv_id rs \<and>
     (\<forall>r \<in> set rs. revision_row_ok sha r \<and> rv_architecture_id r \<in> ar_id ` set as) \<and>
     (\<forall>a \<in> set as. 1 \<le> ar_current_revision a \<and>
        map rv_number (history (ar_id a) rs) = [1..ar_current_revision a])"

definition set_in_project :: "workspace \<Rightarrow> revision \<Rightarrow> architecture \<Rightarrow> bool" where
  "set_in_project w r a \<longleftrightarrow>
     (\<forall>s \<in> set_option (rv_requirement_set_id r). requirement_set_exists (ar_project_id a) s w)"

definition ws_references_ok :: "workspace \<Rightarrow> bool" where
  "ws_references_ok w \<longleftrightarrow>
     ar_project_id ` set (architectures w) \<subseteq> p_id ` set (projects w) \<and>
     (\<forall>r \<in> set (revisions w). \<forall>a \<in> set (architectures w).
        ar_id a = rv_architecture_id r \<longrightarrow> set_in_project w r a) \<and>
     fst ` set (layouts w) \<subseteq> ar_id ` set (architectures w)"

definition ws_inv :: "(string \<Rightarrow> string) \<Rightarrow> workspace \<Rightarrow> bool" where
  "ws_inv sha w \<longleftrightarrow> db_inv (identity w) \<and> projects_ok (projects w) \<and>
     architectures_ok (architectures w) \<and> revisions_ok sha (architectures w) (revisions w) \<and>
     ws_references_ok w"

section \<open>Progress\<close>

definition project_le :: "project \<Rightarrow> project \<Rightarrow> bool" where
  "project_le p p' \<longleftrightarrow> p_id p' = p_id p \<and> p_organization_id p' = p_organization_id p \<and>
     p_slug p' = p_slug p \<and> p_created_by_user_id p' = p_created_by_user_id p \<and>
     p_created_at p' = p_created_at p \<and> (p_deleted_at p \<noteq> None \<longrightarrow> p' = p)"

definition architecture_le :: "architecture \<Rightarrow> architecture \<Rightarrow> bool" where
  "architecture_le a a' \<longleftrightarrow> ar_id a' = ar_id a \<and> ar_project_id a' = ar_project_id a \<and>
     ar_created_by_user_id a' = ar_created_by_user_id a \<and> ar_created_at a' = ar_created_at a \<and>
     ar_current_revision a \<le> ar_current_revision a' \<and> (ar_deleted_at a \<noteq> None \<longrightarrow> a' = a)"

definition ws_le :: "workspace \<Rightarrow> workspace \<Rightarrow> bool" where
  "ws_le w w' \<longleftrightarrow> progress (identity w) (identity w') \<and>
     rows_progress project_le (projects w) (projects w') \<and>
     rows_progress architecture_le (architectures w) (architectures w') \<and>
     (\<exists>new. revisions w' = revisions w @ new) \<and>
     set (requirement_sets w) \<subseteq> set (requirement_sets w')"

lemma project_le_refl [simp]: "project_le p p" and architecture_le_refl [simp]: "architecture_le a a"
  by (simp_all add: project_le_def architecture_le_def)

lemma project_le_trans: "project_le p q \<Longrightarrow> project_le q r \<Longrightarrow> project_le p r"
  unfolding project_le_def by (elim conjE, cases "p_deleted_at p = None"; simp)

lemma architecture_le_trans: "architecture_le a b \<Longrightarrow> architecture_le b c \<Longrightarrow> architecture_le a c"
  unfolding architecture_le_def by (elim conjE, cases "ar_deleted_at a = None"; simp)

lemma ws_le_refl [simp]: "ws_le w w"
  by (simp add: ws_le_def progress_refl rows_progress_refl)

lemma ws_le_trans:
  assumes "ws_le u v" "ws_le v w"
  shows "ws_le u w"
  unfolding ws_le_def
proof (intro conjI)
  show "progress (identity u) (identity w)"
    using assms by (auto simp: ws_le_def intro: progress_trans)
  show "rows_progress project_le (projects u) (projects w)"
    using assms by (auto simp: ws_le_def intro: rows_progress_trans project_le_trans)
  show "rows_progress architecture_le (architectures u) (architectures w)"
    using assms by (auto simp: ws_le_def intro: rows_progress_trans architecture_le_trans)
qed (use assms in \<open>auto simp: ws_le_def\<close>)

definition ws_good :: "(string \<Rightarrow> string) \<Rightarrow> workspace \<Rightarrow> workspace \<Rightarrow> bool" where
  "ws_good sha w0 w \<longleftrightarrow> ws_inv sha w \<and> ws_le w0 w"

lemma ws_goodI: "ws_good sha w0 w \<Longrightarrow> ws_inv sha w' \<Longrightarrow> ws_le w w' \<Longrightarrow> ws_good sha w0 w'"
  by (auto simp: ws_good_def intro: ws_le_trans)

section \<open>Audit entries and account calls\<close>

lemma references_identity [simp]: "ws_references_ok (w\<lparr>identity := d\<rparr>) = ws_references_ok w"
  by (simp add: ws_references_ok_def set_in_project_def requirement_set_exists_def)

lemma good_identity:
  assumes "ws_good sha w0 w" "good (identity w) d"
  shows "ws_good sha w0 (w\<lparr>identity := d\<rparr>)"
  by (rule ws_goodI[OF assms(1)])
    (use assms in \<open>auto simp: ws_good_def ws_inv_def ws_le_def good_def rows_progress_refl\<close>)

lemma good_audit:
  assumes "ws_good sha w0 w" "ws_audit e (AuditEvent a ac org rt ri meta) w = Inr w'"
  shows "ws_good sha w0 w'"
proof -
  obtain d where d: "audit_record e (AuditEvent a ac org rt ri meta) (identity w) = Inr d" "w' = w\<lparr>identity := d\<rparr>"
    using assms(2) by (auto simp: ws_audit_def outcome_simps)
  have "good (identity w) (identity w)" using assms(1) by (simp add: ws_good_def ws_inv_def good_def progress_refl)
  then have "good (identity w) d" by (rule good.audit[OF d(1)])
  with assms(1) d(2) show ?thesis by (simp add: good_identity)
qed

section \<open>Projects\<close>

lemma references_projects:
  assumes "ws_references_ok w" "p_id ` set (projects w) \<subseteq> p_id ` set ps"
  shows "ws_references_ok (w\<lparr>projects := ps\<rparr>)"
proof -
  from assms(1) have "ar_project_id ` set (architectures w) \<subseteq> p_id ` set (projects w)"
    by (simp add: ws_references_ok_def)
  then have "ar_project_id ` set (architectures w) \<subseteq> p_id ` set ps" using assms(2) by (rule subset_trans)
  with assms(1) show ?thesis by (simp add: ws_references_ok_def set_in_project_def requirement_set_exists_def)
qed

lemma good_projects:
  assumes "ws_good sha w0 w" "projects_ok ps" "rows_progress project_le (projects w) ps"
  shows "ws_good sha w0 (w\<lparr>projects := ps\<rparr>)"
proof (rule ws_goodI[OF assms(1)])
  have "p_id ` set (projects w) \<subseteq> p_id ` set ps"
    using assms(3) by (fastforce simp: rows_progress_def project_le_def image_iff)
  with assms(1,2) show "ws_inv sha (w\<lparr>projects := ps\<rparr>)"
    by (simp add: ws_good_def ws_inv_def references_projects)
qed (use assms(3) in \<open>simp add: ws_le_def rows_progress_refl\<close>)

lemma projects_save_good:
  assumes g: "ws_good sha w0 w" and p: "p \<in> set (projects w)" "p_deleted_at p = None"
    and q: "project_le p q" "project_row_ok q" and s: "projects_save e q w = Inr (r, w')"
  shows "ws_good sha w0 w'"
proof -
  let ?f = "\<lambda>x. x\<lparr>p_name := p_name q, p_description := p_description q, p_settings := p_settings q,
                      p_policy := p_policy q, p_status := p_status q, p_archived_at := p_archived_at q,
                      p_deleted_at := p_deleted_at q, p_updated_at := db_now e\<rparr>"
  let ?ps = "update_where (\<lambda>x. p_id x = p_id p) ?f (projects w)"
  have w': "w' = w\<lparr>projects := ?ps\<rparr>"
    using s q(1) by (auto simp: projects_save_def Let_def project_le_def split: option.splits)
  have ok: "projects_ok (projects w)" using g by (simp add: ws_good_def ws_inv_def)
  have same: "x = p" if "x \<in> set (projects w)" "p_id x = p_id p" for x
    using ok that p(1) by (auto simp: projects_ok_def dest: unique_on_same_key)
  have "projects_ok ?ps"
    unfolding projects_ok_def
  proof (intro conjI)
    show "unique_on (\<lambda>_. True) p_id ?ps"
      by (rule unique_on_update_where) (use ok in \<open>auto simp: projects_ok_def\<close>)
    show "unique_on p_live (\<lambda>p. (p_organization_id p, p_slug p)) ?ps"
      by (rule unique_on_update_where) (use ok p(2) same in \<open>auto simp: projects_ok_def p_live_def\<close>)
    show "\<forall>x \<in> set ?ps. project_row_ok x"
      by (rule ball_update_where)
        (use ok same q in \<open>auto simp: projects_ok_def project_row_ok_def project_le_def\<close>)
  qed
  moreover have "project_le p (?f p)" using q(1) p(2) by (simp add: project_le_def)
  then have "rows_progress project_le (projects w) ?ps"
    by (intro find_progress) (use ok p(1) in \<open>auto simp: projects_ok_def\<close>)
  ultimately show ?thesis unfolding w' by (rule good_projects[OF g])
qed

lemma projects_add_good:
  assumes g: "ws_good sha w0 w" and a: "projects_add e np w = Inr (p, w')"
    and np: "1 \<le> length (np_name np)" "length (np_name np) \<le> 100" "SLUG_FORMAT (np_slug np)"
      "1 \<le> length (np_slug np)" "length (np_slug np) \<le> 63" "length (np_description np) \<le> 2000"
  shows "ws_good sha w0 w'"
proof -
  have w': "w' = w\<lparr>projects := projects w @ [p]\<rparr>" and p: "project_row_ok p" "p_id p = new_id e"
      "p_organization_id p = np_organization_id np" "p_slug p = np_slug np"
    and free: "\<forall>q \<in> set (projects w). p_id q \<noteq> new_id e"
      "\<forall>q \<in> set (projects w). p_deleted_at q = None \<longrightarrow>
         (p_organization_id q, p_slug q) \<noteq> (np_organization_id np, np_slug np)"
    using a np by (auto simp: projects_add_def Let_def project_row_ok_def split: if_splits)
  have ok: "projects_ok (projects w)" using g by (simp add: ws_good_def ws_inv_def)
  have "projects_ok (projects w @ [p])"
    using ok p free by (auto simp: projects_ok_def unique_on_append p_live_def)
  then show ?thesis unfolding w' by (rule good_projects[OF g]) (simp add: rows_progress_append)
qed

section \<open>Architectures and revisions\<close>

lemma good_tables:
  assumes g: "ws_good sha w0 w" and as: "architectures_ok as" "revisions_ok sha as (revisions w @ new)"
    and le: "rows_progress architecture_le (architectures w) as"
    and refs: "ar_project_id ` set as \<subseteq> p_id ` set (projects w)"
      "\<And>r a. r \<in> set (revisions w @ new) \<Longrightarrow> a \<in> set as \<Longrightarrow> ar_id a = rv_architecture_id r \<Longrightarrow> set_in_project w r a"
  shows "ws_good sha w0 (w\<lparr>architectures := as, revisions := revisions w @ new\<rparr>)"
proof (rule ws_goodI[OF g])
  have inv: "ws_inv sha w" using g by (simp add: ws_good_def)
  have ids: "ar_id ` set (architectures w) \<subseteq> ar_id ` set as"
    using le by (fastforce simp: rows_progress_def architecture_le_def image_iff)
  have "fst ` set (layouts w) \<subseteq> ar_id ` set as"
    by (rule subset_trans[OF _ ids]) (use inv in \<open>simp add: ws_inv_def ws_references_ok_def\<close>)
  with refs have "ws_references_ok (w\<lparr>architectures := as, revisions := revisions w @ new\<rparr>)"
    by (simp add: ws_references_ok_def set_in_project_def requirement_set_exists_def)
  with inv as show "ws_inv sha (w\<lparr>architectures := as, revisions := revisions w @ new\<rparr>)"
    by (simp add: ws_inv_def)
qed (use le in \<open>simp add: ws_le_def rows_progress_refl\<close>)

lemma revisions_ok_cong:
  assumes "(\<lambda>a. (ar_id a, ar_current_revision a)) ` set as = (\<lambda>a. (ar_id a, ar_current_revision a)) ` set bs"
  shows "revisions_ok sha as rs = revisions_ok sha bs rs"
proof -
  let ?P = "\<lambda>(i, n). 1 \<le> n \<and> map rv_number (history i rs) = [1..n]"
  have eq: "revisions_ok sha as rs \<longleftrightarrow> unique_on (\<lambda>_. True) rv_id rs \<and>
      (\<forall>r \<in> set rs. revision_row_ok sha r \<and> rv_architecture_id r \<in> fst ` (\<lambda>a. (ar_id a, ar_current_revision a)) ` set as) \<and>
      (\<forall>x \<in> (\<lambda>a. (ar_id a, ar_current_revision a)) ` set as. ?P x)" for as
    by (simp add: revisions_ok_def image_image)
  show ?thesis by (simp only: eq assms)
qed

lemma name_not_taken:
  assumes "\<not> name_taken project i name w" "x \<in> set (architectures w)" "ar_id x \<noteq> i" "ar_live x"
  shows "name_key x \<noteq> (project, py_lower name)"
  using assms by (auto simp: name_taken_def name_key_def ar_live_def)

lemma architectures_save_good:
  assumes g: "ws_good sha w0 w" and a: "a \<in> set (architectures w)" "ar_deleted_at a = None"
    and b: "architecture_le a b" "architecture_row_ok b" and s: "architectures_save e b w = Inr (r, w')"
  shows "ws_good sha w0 w'"
proof -
  let ?f = "\<lambda>x. x\<lparr>ar_name := ar_name b, ar_description := ar_description b, ar_status := ar_status b,
                      ar_archived_at := ar_archived_at b, ar_deleted_at := ar_deleted_at b,
                      ar_updated_by_user_id := ar_updated_by_user_id b, ar_updated_at := db_now e\<rparr>"
  let ?as = "update_where (\<lambda>x. ar_id x = ar_id a) ?f (architectures w)"
  have id: "ar_id b = ar_id a" "ar_project_id b = ar_project_id a" using b(1) by (simp_all add: architecture_le_def)
  have w': "w' = w\<lparr>architectures := ?as\<rparr>"
    using s by (auto simp: architectures_save_def Let_def outcome_simps id)
  have inv: "ws_inv sha w" using g by (simp add: ws_good_def)
  have ok: "architectures_ok (architectures w)" using inv by (simp add: ws_inv_def)
  have same: "x = a" if "x \<in> set (architectures w)" "ar_id x = ar_id a" for x
    using ok that a(1) by (auto simp: architectures_ok_def dest: unique_on_same_key)
  have free: "ar_deleted_at b = None \<Longrightarrow> \<not> name_taken (ar_project_id a) (ar_id a) (ar_name b) w"
    using s same by (auto simp: architectures_save_def Let_def outcome_simps id dest: find_Some_mem)
  have "architectures_ok ?as"
    unfolding architectures_ok_def
  proof (intro conjI)
    show "unique_on (\<lambda>_. True) ar_id ?as"
      by (rule unique_on_update_where) (use ok in \<open>auto simp: architectures_ok_def\<close>)
    show "unique_on ar_live name_key ?as"
    proof (rule unique_on_update_one)
      fix r x assume "r \<in> set (architectures w)" "ar_id r = ar_id a" "x \<in> set (architectures w)"
        "ar_id x \<noteq> ar_id a" "ar_live (?f r)" "ar_live x"
      moreover then have "r = a" by (simp add: same)
      ultimately show "name_key x \<noteq> name_key (?f r)"
        using name_not_taken[OF free] by (simp add: ar_live_def name_key_def)
    qed (use ok in \<open>auto simp: architectures_ok_def\<close>)
    show "\<forall>x \<in> set ?as. architecture_row_ok x"
      by (rule ball_update_where) (use ok b in \<open>auto simp: architectures_ok_def architecture_row_ok_def\<close>)
  qed
  moreover have "revisions_ok sha ?as (revisions w @ [])"
    using inv revisions_ok_cong[OF rows_image[of "architectures w" _ "\<lambda>a. (ar_id a, ar_current_revision a)" ?f]]
    by (simp add: ws_inv_def)
  moreover have "architecture_le a (?f a)" using a(2) by (simp add: architecture_le_def)
  then have "rows_progress architecture_le (architectures w) ?as"
    by (intro find_progress) (use ok a(1) in \<open>auto simp: architectures_ok_def\<close>)
  moreover have "ar_project_id ` set ?as \<subseteq> p_id ` set (projects w)"
    using inv rows_image[of "architectures w" _ ar_project_id ?f] by (simp add: ws_inv_def ws_references_ok_def)
  moreover have "set_in_project w r x" if r: "r \<in> set (revisions w @ [])" and x: "x \<in> set ?as" and i: "ar_id x = rv_architecture_id r" for r x
  proof -
    obtain y where "y \<in> set (architectures w)" "ar_id y = ar_id x" "ar_project_id y = ar_project_id x"
      using x by (auto simp: set_update_where split: if_splits)
    with inv r i show ?thesis by (fastforce simp: ws_inv_def ws_references_ok_def set_in_project_def)
  qed
  ultimately have "ws_good sha w0 (w\<lparr>architectures := ?as, revisions := revisions w @ []\<rparr>)"
    by (rule good_tables[OF g])
  then show ?thesis by (simp add: w')
qed

lemma revision_numbers:
  assumes "revisions_ok sha as rs" "r \<in> set rs"
  shows "1 \<le> rv_number r"
proof -
  obtain a where a: "a \<in> set as" "ar_id a = rv_architecture_id r"
    using assms by (auto simp: revisions_ok_def)
  then have "r \<in> set (history (ar_id a) rs)" using assms(2) by (simp add: history_def)
  then have "rv_number r \<in> set (map rv_number (history (ar_id a) rs))" by simp
  with a(1) assms(1) show ?thesis by (simp add: revisions_ok_def)
qed

lemma get_revision_Some:
  "get_revision i n w = Some r \<Longrightarrow> r \<in> set (revisions w) \<and> rv_architecture_id r = i \<and> rv_number r = n"
  by (auto simp: get_revision_def revision_at_def dest: find_Some_mem)

lemma accepted_row:
  assumes ok: "revisions_ok sha as (revisions w)" and acc: "revision_accepted rid project nr w"
    and hash: "nr_content_hash nr = content_hash sha (nr_ir nr)"
  shows "revision_row_ok sha (revision_record e rid nr)"
proof -
  have pos: "1 \<le> n" if "get_revision i n w \<noteq> None" for i n
    using that ok by (auto dest: get_revision_Some revision_numbers)
  have "nr_parent_number nr = (if nr_number nr = 1 then None else Some (nr_number nr - 1))"
  proof (cases "nr_parent_number nr")
    case (Some n)
    with acc have "get_revision (nr_architecture_id nr) n w \<noteq> None" "n = nr_number nr - 1"
      by (auto simp: revision_accepted_def)
    moreover from this(1) have "1 \<le> n" by (rule pos)
    ultimately have "1 \<le> n" "n = nr_number nr - 1" by simp_all
    with Some show ?thesis by simp
  qed (use acc in \<open>simp add: revision_accepted_def\<close>)
  moreover have "\<forall>n \<in> set_option (nr_restored_from nr). 1 \<le> n \<and> n < nr_number nr"
    using acc pos unfolding revision_accepted_def by blast
  ultimately show ?thesis
    using acc hash by (simp add: revision_row_ok_def revision_record_def revision_accepted_def MAX_SUMMARY_LENGTH_def)
qed

lemma history_append: "history i (rs @ [r]) = history i rs @ (if rv_architecture_id r = i then [r] else [])"
  by (simp add: history_def)

lemma revision_record_simps [simp]:
  "rv_id (revision_record e rid nr) = rid"
  "rv_architecture_id (revision_record e rid nr) = nr_architecture_id nr"
  "rv_number (revision_record e rid nr) = nr_number nr"
  "rv_requirement_set_id (revision_record e rid nr) = nr_requirement_set_id nr"
  "rv_restored_from (revision_record e rid nr) = nr_restored_from nr"
  "rv_ir (revision_record e rid nr) = nr_ir nr"
  by (simp_all add: revision_record_def)

lemma accepted_set:
  assumes "revision_accepted rid project nr w"
  shows "\<forall>s \<in> set_option (nr_requirement_set_id nr). requirement_set_exists project s w"
  using assms by (simp add: revision_accepted_def requirement_set_exists_def)

lemma old_set_in_project:
  assumes "ws_inv sha w" "r \<in> set (revisions w)" "a \<in> set (architectures w)" "ar_id a = rv_architecture_id r"
    "ar_project_id b = ar_project_id a"
  shows "set_in_project w r b"
  using assms by (simp add: ws_inv_def ws_references_ok_def set_in_project_def)

lemma architectures_add_good:
  assumes g: "ws_good sha w0 w" and p: "na_project_id na \<in> p_id ` set (projects w)"
    and na: "1 \<le> length (na_name na)" "length (na_name na) \<le> 100" "length (na_description na) \<le> 2000"
    and nr: "nr_number nr = 1" "nr_architecture_id nr = na_id na" "nr_content_hash nr = content_hash sha (nr_ir nr)"
    and add: "architectures_add e na nr w = Inr (a, r, w')"
  shows "ws_good sha w0 w'"
proof -
  have inv: "ws_inv sha w" using g by (simp add: ws_good_def)
  have free: "\<not> name_taken (na_project_id na) (na_id na) (na_name na) w"
      "\<forall>b \<in> set (architectures w). ar_id b \<noteq> na_id na"
    and acc: "revision_accepted (new_id2 e) (na_project_id na) nr (w\<lparr>architectures := architectures w @ [a]\<rparr>)"
    and r: "r = revision_record e (new_id2 e) nr"
    and w': "w' = w\<lparr>architectures := architectures w @ [a], revisions := revisions w @ [r]\<rparr>"
    and a: "ar_id a = na_id na" "ar_project_id a = na_project_id na" "ar_name a = na_name na"
      "ar_current_revision a = 1" "architecture_row_ok a"
    using add na by (auto simp: architectures_add_def add_revision_row_def Let_def outcome_simps nr architecture_row_ok_def)
  let ?as = "architectures w @ [a]"
  have "name_key x \<noteq> name_key a" if "x \<in> set (architectures w)" "ar_live x" for x
    using name_not_taken[OF free(1) that(1) _ that(2)] free(2) that(1) a by (auto simp: name_key_def)
  then have "name_key a \<notin> name_key ` {x \<in> set (architectures w). ar_live x}" by (metis (mono_tags, lifting) imageE mem_Collect_eq)
  then have "architectures_ok ?as"
    using inv a free(2) by (auto simp: ws_inv_def architectures_ok_def unique_on_append)
  moreover have "revisions_ok sha ?as (revisions w @ [r])"
  proof -
    have none: "history (na_id na) (revisions w) = []"
      using inv free(2) by (auto simp: ws_inv_def revisions_ok_def history_def filter_empty_conv)
    have fresh: "\<forall>x \<in> set (revisions w). rv_id x \<noteq> new_id2 e" using acc by (simp add: revision_accepted_def)
    have "revisions_ok sha (architectures w) (revisions (w\<lparr>architectures := ?as\<rparr>))"
      using inv by (simp add: ws_inv_def)
    then have "revision_row_ok sha r" unfolding r by (rule accepted_row[OF _ acc nr(3)])
    moreover have "history (ar_id b) (revisions w @ [r]) = history (ar_id b) (revisions w)" if "b \<in> set (architectures w)" for b
      using free(2) that by (auto simp: history_append r nr)
    moreover have "history (ar_id a) (revisions w @ [r]) = [r]" using none by (simp add: history_append r nr a)
    ultimately show ?thesis
      using inv fresh by (auto simp: ws_inv_def revisions_ok_def unique_on_append r nr a)
  qed
  moreover have "rows_progress architecture_le (architectures w) ?as" by (simp add: rows_progress_append)
  moreover have "ar_project_id ` set ?as \<subseteq> p_id ` set (projects w)"
    using inv p a by (simp add: ws_inv_def ws_references_ok_def)
  moreover have "set_in_project w x b" if "x \<in> set (revisions w @ [r])" "b \<in> set ?as" "ar_id b = rv_architecture_id x" for x b
  proof (cases "x = r")
    case True
    then have "b = a" using that free(2) by (auto simp: r nr)
    with True accepted_set[OF acc] show ?thesis
      by (simp add: set_in_project_def r a requirement_set_exists_def)
  next
    case False
    then have x: "x \<in> set (revisions w)" using that(1) by simp
    then have "rv_architecture_id x \<noteq> na_id na"
      using inv free(2) by (auto simp: ws_inv_def revisions_ok_def)
    then have "b \<in> set (architectures w)" using that(2,3) a(1) by auto
    then show ?thesis by (rule old_set_in_project[OF inv x _ that(3) refl])
  qed
  ultimately show ?thesis unfolding w' by (rule good_tables[OF g])
qed

lemma add_revision_good:
  assumes g: "ws_good sha w0 w" and a: "a \<in> set (architectures w)" "ar_deleted_at a = None"
    and nr: "nr_architecture_id nr = ar_id a" "nr_content_hash nr = content_hash sha (nr_ir nr)"
    and add: "add_revision e a nr w = Inr (b, r, w')"
  shows "ws_good sha w0 w'"
proof -
  let ?f = "\<lambda>b. b\<lparr>ar_current_revision := nr_number nr, ar_updated_at := db_now e,
                     ar_updated_by_user_id := nr_created_by_user_id nr\<rparr>"
  let ?as = "update_where (\<lambda>x. ar_id x = ar_id a) ?f (architectures w)"
  have inv: "ws_inv sha w" using g by (simp add: ws_good_def)
  have ok: "architectures_ok (architectures w)" and rok: "revisions_ok sha (architectures w) (revisions w)"
    using inv by (simp_all add: ws_inv_def)
  then have unique: "unique_on (\<lambda>_. True) ar_id (architectures w)" by (simp add: architectures_ok_def)
  obtain c where acc: "revision_accepted (new_id e) (ar_project_id a) nr w" and r: "r = revision_record e (new_id e) nr"
    and c: "List.find (\<lambda>x. ar_id x = ar_id a \<and> Some (ar_current_revision x) = nr_parent_number nr) (architectures w) = Some c"
    and w': "w' = w\<lparr>revisions := revisions w @ [r],
       architectures := update_where (\<lambda>x. ar_id x = ar_id a \<and> Some (ar_current_revision x) = nr_parent_number nr) ?f (architectures w)\<rparr>"
    using add by (auto simp: add_revision_def add_revision_row_def Let_def outcome_simps)
  have "c = a" using find_Some_mem[OF c] a(1) unique by (auto dest: unique_on_same_key)
  then have parent: "nr_parent_number nr = Some (ar_current_revision a)" and pos: "1 \<le> ar_current_revision a"
    using find_Some_mem[OF c] a(1) rok by (auto simp: revisions_ok_def)
  have number: "nr_number nr = ar_current_revision a + 1"
    using acc parent by (auto simp: revision_accepted_def)
  have w': "w' = w\<lparr>architectures := ?as, revisions := revisions w @ [r]\<rparr>"
    using update_found[OF unique c, of ?f] w' \<open>c = a\<close> by simp
  have same: "x = a" if "x \<in> set (architectures w)" "ar_id x = ar_id a" for x
    using unique that a(1) by (auto dest: unique_on_same_key)
  have ids: "ar_id ` set ?as = ar_id ` set (architectures w)" by (rule rows_image) simp
  have "architectures_ok ?as"
    unfolding architectures_ok_def
  proof (intro conjI)
    show "unique_on (\<lambda>_. True) ar_id ?as"
      by (rule unique_on_update_where) (use ok in \<open>auto simp: architectures_ok_def\<close>)
    show "unique_on ar_live name_key ?as"
      by (rule unique_on_update_where) (use ok in \<open>auto simp: architectures_ok_def ar_live_def name_key_def\<close>)
    show "\<forall>x \<in> set ?as. architecture_row_ok x"
      by (rule ball_update_where) (use ok in \<open>auto simp: architectures_ok_def architecture_row_ok_def\<close>)
  qed
  moreover have "revisions_ok sha ?as (revisions w @ [r])"
    unfolding revisions_ok_def ids
  proof (intro conjI)
    show "unique_on (\<lambda>_. True) rv_id (revisions w @ [r])"
      using rok acc by (auto simp: revisions_ok_def unique_on_append revision_accepted_def r)
    show "\<forall>x \<in> set (revisions w @ [r]). revision_row_ok sha x \<and> rv_architecture_id x \<in> ar_id ` set (architectures w)"
      using rok accepted_row[OF rok acc nr(2), of e] a(1) by (auto simp: revisions_ok_def r nr)
    show "\<forall>x \<in> set ?as. 1 \<le> ar_current_revision x \<and>
        map rv_number (history (ar_id x) (revisions w @ [r])) = [1..ar_current_revision x]"
    proof
      fix x assume "x \<in> set ?as"
      then obtain y where y: "y \<in> set (architectures w)" "x = (if ar_id y = ar_id a then ?f y else y)"
        by (auto simp: set_update_where)
      have old: "1 \<le> ar_current_revision y \<and> map rv_number (history (ar_id y) (revisions w)) = [1..ar_current_revision y]"
        using rok y(1) by (simp add: revisions_ok_def)
      show "1 \<le> ar_current_revision x \<and> map rv_number (history (ar_id x) (revisions w @ [r])) = [1..ar_current_revision x]"
      proof (cases "ar_id y = ar_id a")
        case True
        then have "y = a" by (rule same[OF y(1)])
        with old y(2) show ?thesis by (simp add: history_append r nr number upto_rec2)
      qed (use old y(2) in \<open>simp add: history_append r nr\<close>)
    qed
  qed
  moreover have "architecture_le a (?f a)" using a(2) number by (simp add: architecture_le_def)
  then have "rows_progress architecture_le (architectures w) ?as"
    by (intro find_progress) (use unique a(1) in auto)
  moreover have "ar_project_id ` set ?as \<subseteq> p_id ` set (projects w)"
    using inv rows_image[of "architectures w" _ ar_project_id ?f] by (simp add: ws_inv_def ws_references_ok_def)
  moreover have "set_in_project w x b" if x: "x \<in> set (revisions w @ [r])" and b: "b \<in> set ?as" and i: "ar_id b = rv_architecture_id x" for x b
  proof -
    obtain y where y: "y \<in> set (architectures w)" "ar_id y = ar_id b" "ar_project_id b = ar_project_id y"
      using b by (auto simp: set_update_where split: if_splits)
    show ?thesis
    proof (cases "x = r")
      case True
      then have "y = a" using same[OF y(1)] y(2) i by (simp add: r nr)
      with True y(3) accepted_set[OF acc] show ?thesis by (simp add: set_in_project_def r)
    next
      case False
      with x have "x \<in> set (revisions w)" by simp
      then show ?thesis by (rule old_set_in_project[OF inv _ y(1) _ y(3)]) (use y(2) i in simp)
    qed
  qed
  ultimately show ?thesis unfolding w' by (rule good_tables[OF g])
qed

lemma save_layout_good:
  assumes "ws_good sha w0 w" "a \<in> set (architectures w)" "save_layout_row e a positions user_id w = (l, w')"
  shows "ws_good sha w0 w'"
proof (rule ws_goodI[OF assms(1)])
  have w': "\<exists>l. w' = w\<lparr>layouts := AList.update (ar_id a) l (layouts w)\<rparr>"
    using assms(3) by (auto simp: save_layout_row_def Let_def)
  then show "ws_le w w'" by (auto simp: ws_le_def rows_progress_refl)
  from w' obtain l where w': "w' = w\<lparr>layouts := AList.update (ar_id a) l (layouts w)\<rparr>" by blast
  have "fst ` set (AList.update (ar_id a) l (layouts w)) = insert (ar_id a) (fst ` set (layouts w))"
    using dom_update[of "ar_id a" l "layouts w"] by (simp add: dom_map_of_conv_image_fst)
  moreover have "insert (ar_id a) (fst ` set (layouts w)) \<subseteq> ar_id ` set (architectures w)"
    using assms(1,2) by (simp add: ws_good_def ws_inv_def ws_references_ok_def)
  ultimately have "fst ` set (layouts w') \<subseteq> ar_id ` set (architectures w')" by (simp add: w')
  moreover have "projects w' = projects w" "architectures w' = architectures w" "revisions w' = revisions w"
    "requirement_sets w' = requirement_sets w" "identity w' = identity w" by (simp_all add: w')
  ultimately show "ws_inv sha w'" using assms(1)
    by (simp add: ws_good_def ws_inv_def ws_references_ok_def set_in_project_def requirement_set_exists_def)
qed

end
