(* ===== verification/Slugs.thy ===== *)
theory Slugs
  imports Project_Values
begin

text \<open>
  What the normalization of project values guarantees: a slug made from a name matches the slug
  format and its length limit, wherever it was cut, and so does a slug that is given.
\<close>

section \<open>The slug format as an automaton\<close>

text \<open>\<open>slug_from need s\<close>: \<open>s\<close> continues a slug, and a letter or digit is due if \<open>need\<close>.\<close>

fun slug_from :: "bool \<Rightarrow> string \<Rightarrow> bool" where
  "slug_from need [] = (\<not> need)"
| "slug_from need (c # cs) =
     (if c = HYPHEN then \<not> need \<and> slug_from True cs else is_lower_alnum c \<and> slug_from False cs)"

lemma slug_parts:
  "slug_from True s = list_all (\<lambda>word. word \<noteq> [] \<and> list_all is_lower_alnum word) (split_char HYPHEN s) \<and>
   slug_from False s =
     (list_all is_lower_alnum (hd (split_char HYPHEN s)) \<and>
      list_all (\<lambda>word. word \<noteq> [] \<and> list_all is_lower_alnum word) (tl (split_char HYPHEN s)))"
proof (induction s)
  case (Cons c cs)
  have "split_char HYPHEN cs \<noteq> []" by (cases cs) (auto split: list.splits)
  with Cons show ?case by (cases "split_char HYPHEN cs") auto
qed simp

lemma SLUG_FORMAT_iff: "SLUG_FORMAT s = slug_from True s"
  by (simp add: SLUG_FORMAT_def slug_parts)

text \<open>Words joined by single hyphens.\<close>

definition spaced :: "string \<Rightarrow> bool" where
  "spaced s \<longleftrightarrow> successively (\<lambda>a b. \<not> (a = HYPHEN \<and> b = HYPHEN)) s \<and>
     list_all (\<lambda>c. c = HYPHEN \<or> is_lower_alnum c) s"

lemma spaced_append: "spaced (xs @ ys) \<Longrightarrow> spaced xs \<and> spaced ys"
  by (auto simp: spaced_def successively_append_iff)

lemma spaced_rev: "spaced (rev s) = spaced s"
proof -
  have eq: "(\<lambda>x y. \<not> (y = HYPHEN \<and> x = HYPHEN)) = (\<lambda>x y. \<not> (x = HYPHEN \<and> y = HYPHEN))" by blast
  show ?thesis by (simp only: eq spaced_def successively_rev list_all_iff set_rev)
qed

lemma spaced_dropWhile: "spaced s \<Longrightarrow> spaced (dropWhile p s)"
  using spaced_append[of "takeWhile p s" "dropWhile p s"] by simp

lemma spaced_take: "spaced s \<Longrightarrow> spaced (take n s)"
  using spaced_append[of "take n s" "drop n s"] by simp

lemma hyphen_not_alnum [simp]: "\<not> is_lower_alnum HYPHEN"
  by code_simp

lemma slug_from_spaced:
  "s \<noteq> [] \<Longrightarrow> spaced s \<Longrightarrow> last s \<noteq> HYPHEN \<Longrightarrow> need \<longrightarrow> hd s \<noteq> HYPHEN \<Longrightarrow> slug_from need s"
proof (induction s arbitrary: need)
  case (Cons c cs)
  show ?case
  proof (cases cs)
    case Nil
    with Cons.prems show ?thesis by (auto simp: spaced_def)
  next
    case (Cons d ds)
    with Cons.prems have "spaced cs" "last cs \<noteq> HYPHEN" "c = HYPHEN \<longrightarrow> hd cs \<noteq> HYPHEN"
      using spaced_append[of "[c]" cs] by (auto simp: spaced_def)
    moreover have "cs \<noteq> []" by (simp add: Cons)
    moreover have "c = HYPHEN \<or> is_lower_alnum c" using Cons.prems(2) by (simp add: spaced_def)
    ultimately show ?thesis using Cons.prems Cons.IH[of True] Cons.IH[of False] by auto
  qed
qed simp

section \<open>Slugs made from names\<close>

lemma hyphenated_Nil: "hyphenated s = [] \<longleftrightarrow> s = []"
  by (induction s rule: hyphenated.induct) (auto split: list.splits)

lemma spaced_hyphenated: "spaced (hyphenated s) \<and> (s \<noteq> [] \<and> is_lower_alnum (hd s) \<longrightarrow> hd (hyphenated s) \<noteq> HYPHEN)"
proof (induction s rule: hyphenated.induct)
  case (2 c cs)
  show ?case
  proof (cases cs)
    case Nil
    then show ?thesis by (auto simp: spaced_def)
  next
    case (Cons d ds)
    obtain e es where h: "hyphenated cs = e # es"
      using hyphenated_Nil[of cs] Cons by (cases "hyphenated cs") simp_all
    have "hyphenated (c # cs) =
        (if is_lower_alnum c then c # hyphenated cs
         else if is_lower_alnum d then HYPHEN # hyphenated cs else hyphenated cs)"
      by (simp add: Cons)
    moreover have "spaced (hyphenated cs) \<and> (is_lower_alnum d \<longrightarrow> e \<noteq> HYPHEN)"
      using 2 h by (cases "is_lower_alnum c"; cases "is_lower_alnum d") (simp_all add: Cons)
    ultimately show ?thesis by (auto simp: h spaced_def)
  qed
qed (simp add: spaced_def)

lemma spaced_strip:
  assumes "spaced s"
  defines "t \<equiv> strip_chars (\<lambda>c. c = HYPHEN) s"
  shows "spaced t" "t \<noteq> [] \<Longrightarrow> hd t \<noteq> HYPHEN" "t \<noteq> [] \<Longrightarrow> last t \<noteq> HYPHEN" "length t \<le> length s"
proof -
  let ?u = "dropWhile (\<lambda>c. c = HYPHEN) s"
  have t: "rev t = dropWhile (\<lambda>c. c = HYPHEN) (rev ?u)" by (simp add: t_def strip_chars_def)
  have "spaced (rev t)" unfolding t using assms(1) by (simp add: spaced_dropWhile spaced_rev)
  then show "spaced t" by (simp add: spaced_rev)
  have "length (rev t) \<le> length ?u" unfolding t by (metis length_dropWhile_le length_rev)
  then show "length t \<le> length s" using length_dropWhile_le[of "\<lambda>c. c = HYPHEN" s] by simp
  assume n: "t \<noteq> []"
  then have "rev t \<noteq> []" by simp
  then have "hd (rev t) \<noteq> HYPHEN" unfolding t by (rule hd_dropWhile)
  with n show "last t \<noteq> HYPHEN" by (simp add: hd_rev)
  obtain v where u: "?u = t @ v"
    using takeWhile_dropWhile_id[of "\<lambda>c. c = HYPHEN" "rev ?u"] t by (metis rev_append rev_rev_ident)
  with n have "?u \<noteq> []" by simp
  then have "hd ?u \<noteq> HYPHEN" by (rule hd_dropWhile)
  with n u show "hd t \<noteq> HYPHEN" by simp
qed

lemma truncated_slug:
  assumes s: "spaced s" "hd s \<noteq> HYPHEN" and long: "length s > MAX_SLUG_LENGTH"
  shows "spaced (truncate_on_boundary s) \<and> truncate_on_boundary s \<noteq> [] \<and>
    hd (truncate_on_boundary s) \<noteq> HYPHEN \<and> last (truncate_on_boundary s) \<noteq> HYPHEN \<and>
    length (truncate_on_boundary s) \<le> MAX_SLUG_LENGTH"
proof -
  let ?cut = "take MAX_SLUG_LENGTH s"
  have cut: "spaced ?cut" "?cut \<noteq> []" "hd ?cut \<noteq> HYPHEN" "length ?cut = MAX_SLUG_LENGTH"
    using s long by (auto simp: spaced_take MAX_SLUG_LENGTH_def hd_take)
  show ?thesis
  proof (cases "s ! MAX_SLUG_LENGTH = HYPHEN \<or> HYPHEN \<notin> set ?cut")
    case True
    then have e: "truncate_on_boundary s = strip_chars (\<lambda>c. c = HYPHEN) ?cut"
      by (simp add: truncate_on_boundary_def Let_def)
    have "dropWhile (\<lambda>c. c = HYPHEN) ?cut = ?cut" using cut(2,3) by (cases ?cut) auto
    moreover have "dropWhile (\<lambda>c. c = HYPHEN) (rev ?cut) \<noteq> []"
      unfolding dropWhile_eq_Nil_conv set_rev using cut(3) hd_in_set[OF cut(2)] by blast
    ultimately have "truncate_on_boundary s \<noteq> []" by (simp add: e strip_chars_def)
    with spaced_strip[OF cut(1)] cut(4) e show ?thesis by simp
  next
    case False
    obtain a b where ab: "rev ?cut = a @ HYPHEN # b" "HYPHEN \<notin> set a"
      using False split_list_first[of HYPHEN "rev ?cut"] by auto
    then have "dropWhile (\<lambda>c. c \<noteq> HYPHEN) (rev ?cut) = HYPHEN # b"
      by (simp add: dropWhile_append3 dropWhile_append)
    then have e: "truncate_on_boundary s = rev b"
      using False by (simp add: truncate_on_boundary_def Let_def before_last_hyphen_def)
    have c: "?cut = rev b @ HYPHEN # rev a" using ab(1) by (metis rev_append rev_rev_ident rev.simps(2) append_assoc append_Cons append_Nil)
    have "b \<noteq> []" using cut(3) unfolding c by auto
    moreover from this have "hd (rev b) \<noteq> HYPHEN" using cut(3) unfolding c by simp
    moreover have "spaced (rev b)" using cut(1) unfolding c by (rule spaced_append[THEN conjunct1])
    moreover have "last (rev b) \<noteq> HYPHEN"
      using cut(1) \<open>b \<noteq> []\<close> unfolding c spaced_def by (auto simp: successively_append_iff)
    moreover have "length (rev b) \<le> MAX_SLUG_LENGTH" using cut(4) unfolding c by simp
    ultimately show ?thesis by (simp add: e)
  qed
qed

lemma slugify_ok:
  assumes "slugify name = Inr s"
  shows "SLUG_FORMAT s" "1 \<le> length s" "length s \<le> MAX_SLUG_LENGTH"
proof -
  let ?h = "hyphenated (py_lower (concat (map ascii_only name)))"
  let ?t = "strip_chars (\<lambda>c. c = HYPHEN) ?h"
  have t: "spaced ?t" "?t \<noteq> [] \<Longrightarrow> hd ?t \<noteq> HYPHEN" "?t \<noteq> [] \<Longrightarrow> last ?t \<noteq> HYPHEN"
    using spaced_strip[of ?h] spaced_hyphenated by auto
  have s: "s = (if length ?t > MAX_SLUG_LENGTH then truncate_on_boundary ?t else ?t)" "s \<noteq> []"
    using assms by (auto simp: slugify_def Let_def split: if_splits)
  have "spaced s \<and> hd s \<noteq> HYPHEN \<and> last s \<noteq> HYPHEN \<and> length s \<le> MAX_SLUG_LENGTH"
  proof (cases "length ?t > MAX_SLUG_LENGTH")
    case True
    then have "?t \<noteq> []" by auto
    with truncated_slug[OF t(1) t(2) True] True s show ?thesis by simp
  next
    case False
    with t s show ?thesis by simp
  qed
  with s(2) show "SLUG_FORMAT s" "1 \<le> length s" "length s \<le> MAX_SLUG_LENGTH"
    by (auto simp: SLUG_FORMAT_iff Suc_le_eq intro: slug_from_spaced)
qed

lemma normalize_slug_ok:
  assumes "normalize_slug raw = Inr s"
  shows "SLUG_FORMAT s" "1 \<le> length s" "length s \<le> MAX_SLUG_LENGTH"
proof -
  show f: "SLUG_FORMAT s" and "length s \<le> MAX_SLUG_LENGTH"
    using assms by (auto simp: normalize_slug_def Let_def split: if_splits)
  from f show "1 \<le> length s" by (cases s) (auto simp: SLUG_FORMAT_iff)
qed

end
