(* ===== verification/Workspace_Calls.thy ===== *)
theory Workspace_Calls
  imports Workspace_Props Slugs
begin

text \<open>
  Every call of the project and architecture services keeps the invariant of the workspace and moves
  it forward; the calls of all services as one type, and their histories (\<open>forward_service\<close>).
\<close>

section \<open>Project calls\<close>

lemma get_for_member_Some:
  assumes "projects_get_for_member i user_id w = Some (p, m)"
  shows "p \<in> set (projects w) \<and> p_id p = i \<and> p_deleted_at p = None \<and>
    (\<exists>x. memberships_get_in_active_organization (p_organization_id p) user_id (identity w) = Some (x, m))"
  using assms by (auto simp: projects_get_for_member_def projects_get_live_def split: option.splits dest: find_Some_mem)

lemma good_in_transaction:
  "ws_good sha w0 w \<Longrightarrow> on_return (\<lambda>(r, w'). ws_good sha w0 w') (block w) \<Longrightarrow>
   ws_good sha w0 (snd (transaction block w))"
  by (rule transaction_keeps)

lemma good_row: "ws_good sha w0 w \<Longrightarrow> p \<in> set (projects w) \<Longrightarrow> project_row_ok p"
  by (simp add: ws_good_def ws_inv_def projects_ok_def)

lemma good_project_event:
  assumes "ws_good sha w0 w"
  shows "on_return (ws_good sha w0) (ws_audit e (project_event action user_id p meta) w)"
  using assms by (auto simp: project_event_def intro: on_returnI good_audit)

lemma with_changes_row:
  assumes "with_changes name description settings p = Inr q" "project_row_ok p"
  shows "project_le p q \<and> project_row_ok q"
  using assms
  by (auto simp: with_changes_def outcome_simps project_ensure_modifiable_def p_is_deleted_def p_is_archived_def
      project_le_def project_row_ok_def normalize_project_name_def normalize_project_description_def Let_def
      MAX_PROJECT_NAME_LENGTH_def MAX_PROJECT_DESCRIPTION_LENGTH_def Suc_le_eq split: option.splits if_splits)

lemma with_policy_row:
  assumes "with_policy ap p = Inr q" "project_row_ok p"
  shows "project_le p q \<and> project_row_ok q"
  using assms by (auto simp: with_policy_def outcome_simps project_ensure_modifiable_def p_is_deleted_def
      project_le_def project_row_ok_def split: if_splits)

lemma lifecycle_rows:
  assumes "project_row_ok p"
  shows "project_archive at p = Inr q \<Longrightarrow> project_le p q \<and> project_row_ok q"
    and "project_restore at p = Inr q \<Longrightarrow> project_le p q \<and> project_row_ok q"
    and "project_delete at p = Inr q \<Longrightarrow> project_le p q \<and> project_row_ok q"
  using assms by (auto simp: project_archive_def project_restore_def project_delete_def p_is_deleted_def
      p_is_archived_def project_le_def project_row_ok_def split: if_splits)

lemma NewProject_ok:
  assumes "NewProject org user_id name slug description settings = Inr np"
  shows "1 \<le> length (np_name np)" "length (np_name np) \<le> 100" "SLUG_FORMAT (np_slug np)"
    "1 \<le> length (np_slug np)" "length (np_slug np) \<le> 63" "length (np_description np) \<le> 2000"
proof -
  obtain n s d where n: "normalize_project_name name = Inr n"
    and s: "(case slug of None \<Rightarrow> slugify n | Some t \<Rightarrow> normalize_slug t) = Inr s"
    and d: "normalize_project_description description = Inr d"
    and np: "np_name np = n" "np_slug np = s" "np_description np = d"
    using assms by (auto simp: NewProject_def outcome_simps)
  show "1 \<le> length (np_name np)" "length (np_name np) \<le> 100"
    using n by (auto simp: np normalize_project_name_def Let_def MAX_PROJECT_NAME_LENGTH_def Suc_le_eq split: if_splits)
  show "length (np_description np) \<le> 2000"
    using d by (auto simp: np normalize_project_description_def Let_def MAX_PROJECT_DESCRIPTION_LENGTH_def split: if_splits)
  show "SLUG_FORMAT (np_slug np)" "1 \<le> length (np_slug np)" "length (np_slug np) \<le> 63"
    using s slugify_ok[of n s] normalize_slug_ok[of _ s] by (auto simp: np MAX_SLUG_LENGTH_def split: option.splits)
qed

text \<open>The shape every change of a project has: save, audit, return.\<close>

lemma save_and_record_good:
  assumes g: "ws_good sha w0 w" and p: "p \<in> set (projects w)" "p_deleted_at p = None" "project_le p q \<and> project_row_ok q"
  shows "on_return (\<lambda>(r, w'). ws_good sha w0 w')
    (rbind (projects_save e q w) (\<lambda>(saved, w).
     rbind (ws_audit e (project_event (action saved) user_id saved (meta saved)) w) (\<lambda>w. Inr (r saved, w))))"
proof (rule on_return_bind2I)
  fix saved w'
  assume "projects_save e q w = Inr (saved, w')"
  with g p have "ws_good sha w0 w'" by (blast intro: projects_save_good)
  from good_project_event[OF this]
  show "on_return (\<lambda>(r, w'). ws_good sha w0 w')
      (rbind (ws_audit e (project_event (action saved) user_id saved (meta saved)) w') (\<lambda>w. Inr (r saved, w)))"
    by (simp add: on_return_rbind)
qed

lemma project_transition_good:
  assumes g: "ws_good sha w0 w"
    and step: "\<And>p q. project_row_ok p \<Longrightarrow> step (now e) p = Inr q \<Longrightarrow> project_le p q \<and> project_row_ok q"
  shows "ws_good sha w0 (snd (project_transition e i user_id permission action step w))"
  unfolding project_transition_def
proof (rule good_in_transaction[OF g], rule on_return_bind2I, rule on_return_bindI, rule on_return_bindI, rule on_return_ifI, goal_cases)
  case (1 p m u q)
  then show ?case using g by simp
next
  case (2 p m u q)
  from 2(1) have p: "p \<in> set (projects w)" "p_deleted_at p = None"
    by (auto simp: outcome_simps dest: get_for_member_Some)
  show ?case by (rule save_and_record_good[OF g p step[OF good_row[OF g p(1)] 2(3)]])
qed

lemma project_create_good:
  assumes g: "ws_good sha w0 w"
  shows "ws_good sha w0 (snd (project_create e m name slug description settings w))"
proof (cases "rbind (require m PROJECT_CREATE) (\<lambda>_.
    NewProject (m_organization_id m) (m_user_id m) name slug description settings)")
  case (Inr np)
  then have np: "NewProject (m_organization_id m) (m_user_id m) name slug description settings = Inr np"
    by (simp add: outcome_simps)
  show ?thesis
    unfolding project_create_def Inr sum.case
  proof (rule good_in_transaction[OF g], intro on_return_intros, goal_cases)
    case (1 x current u p w')
    have "ws_good sha w0 w'" by (rule projects_add_good[OF g 1(3) NewProject_ok[OF np]])
    from on_returnD[OF good_project_event[OF this] 1(4)] show ?case by simp
  qed
qed (use g in \<open>simp add: project_create_def\<close>)

lemma project_update_good:
  assumes g: "ws_good sha w0 w"
  shows "ws_good sha w0 (snd (project_update e i user_id name description settings w))"
proof (cases "name = None \<and> description = None \<and> settings = None")
  case False
  show ?thesis
    unfolding project_update_def if_not_P[OF False]
  proof (rule good_in_transaction[OF g], rule on_return_bind2I, rule on_return_bindI, rule on_return_bindI, goal_cases)
    case (1 p m u q)
    from 1(1) have p: "p \<in> set (projects w)" "p_deleted_at p = None"
      by (auto simp: outcome_simps dest: get_for_member_Some)
    show ?case by (rule save_and_record_good[OF g p with_changes_row[OF 1(3) good_row[OF g p(1)]]])
  qed
qed (use g in \<open>simp add: project_update_def\<close>)

lemma update_policy_good:
  assumes g: "ws_good sha w0 w"
  shows "ws_good sha w0 (snd (update_policy e i user_id ap w))"
  unfolding update_policy_def
proof (rule good_in_transaction[OF g], rule on_return_bind2I, rule on_return_bindI, rule on_return_bindI, rule on_return_ifI, goal_cases)
  case (2 p m u q)
  from 2(1) have p: "p \<in> set (projects w)" "p_deleted_at p = None"
    by (auto simp: outcome_simps dest: get_for_member_Some)
  show ?case by (rule save_and_record_good[OF g p with_policy_row[OF 2(3) good_row[OF g p(1)]]])
qed (use g in simp)


section \<open>Architecture calls\<close>

lemma write_access_Inr:
  assumes "write_access project user_id permission w = Inr (p, m)"
  shows "p \<in> set (projects w)" "p_id p = project" "p_deleted_at p = None" "p_status p = ACTIVE_PROJECT"
    "projects_get_for_member project user_id w = Some (p, m)" "can m permission"
proof -
  have g: "projects_get_for_member project user_id w = Some (p, m)" and "can m permission"
    and "\<not> p_is_archived p"
    using assms by (auto simp: write_access_def project_access_def outcome_simps require_def
      project_ensure_modifiable_def split: if_splits)
  then show "projects_get_for_member project user_id w = Some (p, m)" "can m permission" "p_status p = ACTIVE_PROJECT"
    by (simp_all add: p_is_archived_def project_status.exhaust) (cases "p_status p"; simp)
  from get_for_member_Some[OF g] show "p \<in> set (projects w)" "p_id p = project" "p_deleted_at p = None" by simp_all
qed

lemma the_architecture_Inr:
  assumes "the_architecture project i w = Inr a"
  shows "a \<in> set (architectures w)" "ar_id a = i" "ar_project_id a = project" "ar_deleted_at a = None"
  using assms by (auto simp: the_architecture_def architectures_get_def outcome_simps dest: find_Some_mem)

lemma good_record:
  assumes "ws_good sha w0 w"
  shows "on_return (ws_good sha w0) (record_architecture e p action user_id a facts w)"
  unfolding record_architecture_def by (rule on_returnI, unfold map_error_Inr) (rule good_audit[OF assms])

lemma good_architecture_row: "ws_good sha w0 w \<Longrightarrow> a \<in> set (architectures w) \<Longrightarrow> architecture_row_ok a"
  by (simp add: ws_good_def ws_inv_def architectures_ok_def)

lemma name_ok:
  assumes "normalize_architecture_name raw = Inr n"
  shows "1 \<le> length n" "length n \<le> 100"
  using assms by (auto simp: normalize_architecture_name_def Let_def MAX_ARCHITECTURE_NAME_LENGTH_def Suc_le_eq split: if_splits)

lemma description_ok:
  assumes "normalize_architecture_description raw = Inr d"
  shows "length d \<le> 2000"
  using assms by (auto simp: normalize_architecture_description_def Let_def MAX_ARCHITECTURE_DESCRIPTION_LENGTH_def split: if_splits)

lemma with_metadata_row:
  assumes "with_metadata name description user_id a = Inr b" "architecture_row_ok a"
  shows "architecture_le a b \<and> architecture_row_ok b"
  using assms name_ok description_ok
  by (auto simp: with_metadata_def outcome_simps architecture_ensure_modifiable_def ar_is_deleted_def
      architecture_le_def architecture_row_ok_def split: option.splits if_splits)

lemma architecture_lifecycle_rows:
  assumes "architecture_row_ok a"
  shows "architecture_archive at user_id a = Inr b \<Longrightarrow> architecture_le a b \<and> architecture_row_ok b"
    and "architecture_restore user_id a = Inr b \<Longrightarrow> architecture_le a b \<and> architecture_row_ok b"
    and "architecture_delete at user_id a = Inr b \<Longrightarrow> architecture_le a b \<and> architecture_row_ok b"
  using assms by (auto simp: architecture_archive_def architecture_restore_def architecture_delete_def
      ar_is_deleted_def ar_is_archived_def architecture_le_def architecture_row_ok_def split: if_splits)

lemma save_architecture_good:
  assumes g: "ws_good sha w0 w" and a: "a \<in> set (architectures w)" "ar_deleted_at a = None"
    "architecture_le a b \<and> architecture_row_ok b"
  shows "on_return (\<lambda>(r, w'). ws_good sha w0 w')
    (rbind (architectures_save e b w) (\<lambda>(saved, w).
     rbind (record_architecture e p action user_id saved (facts saved) w) (\<lambda>w. Inr (saved, w))))"
proof (rule on_return_bind2I)
  fix saved w'
  assume "architectures_save e b w = Inr (saved, w')"
  with g a have "ws_good sha w0 w'" by (blast intro: architectures_save_good)
  from good_record[OF this]
  show "on_return (\<lambda>(r, w'). ws_good sha w0 w')
      (rbind (record_architecture e p action user_id saved (facts saved) w') (\<lambda>w. Inr (saved, w)))"
    by (simp add: on_return_rbind)
qed

lemma architecture_lifecycle_good:
  assumes g: "ws_good sha w0 w"
    and step: "\<And>a b. architecture_row_ok a \<Longrightarrow> change a = Inr b \<Longrightarrow> architecture_le a b \<and> architecture_row_ok b"
  shows "ws_good sha w0 (snd (architecture_lifecycle e project i user_id permission action change w))"
  unfolding architecture_lifecycle_def
proof (rule good_in_transaction[OF g], rule on_return_bind2I, rule on_return_bindI, rule on_return_bindI, rule on_return_ifI, goal_cases)
  case (2 p m a b)
  note a = the_architecture_Inr[OF 2(2)]
  show ?case by (rule save_architecture_good[OF g a(1,4) step[OF good_architecture_row[OF g a(1)] 2(3)]])
qed (use g in simp)

lemma update_metadata_good:
  assumes g: "ws_good sha w0 w"
  shows "ws_good sha w0 (snd (update_metadata e project i user_id name description w))"
proof (cases "name = None \<and> description = None")
  case False
  show ?thesis
    unfolding update_metadata_def if_not_P[OF False] Let_def
  proof (rule good_in_transaction[OF g], rule on_return_bind2I, rule on_return_bindI, rule on_return_bindI, rule on_return_ifI, goal_cases)
    case (2 p m a b)
    note a = the_architecture_Inr[OF 2(2)]
    show ?case by (rule save_architecture_good[OF g a(1,4) with_metadata_row[OF 2(3) good_architecture_row[OF g a(1)]]])
  qed (use g in simp)
qed (use g in \<open>simp add: update_metadata_def\<close>)

definition keeps_good :: "(string \<Rightarrow> string) \<Rightarrow> workspace \<Rightarrow> after_write \<Rightarrow> bool" where
  "keeps_good sha w0 after \<longleftrightarrow> (\<forall>a r v. ws_good sha w0 v \<longrightarrow> on_return (ws_good sha w0) (after a r v))"

lemma nothing_after_good [simp]: "keeps_good sha w0 nothing_after"
  by (simp add: keeps_good_def nothing_after_def)

lemma after_good:
  assumes "keeps_good sha w0 after" "ws_good sha w0 w"
  shows "on_return (\<lambda>(r, w'). ws_good sha w0 w') (rbind (after a r w) (\<lambda>w. Inr (result w, w)))"
  using assms by (simp add: on_return_rbind keeps_good_def)

lemma record_then_after_good:
  assumes "keeps_good sha w0 after" "ws_good sha w0 w"
  shows "on_return (\<lambda>(r, w'). ws_good sha w0 w')
    (rbind (record_architecture e p action user_id a facts w) (\<lambda>w.
     rbind (after a r w) (\<lambda>w. Inr (result w, w))))"
  by (rule on_return_bindI) (rule after_good[OF assms(1) on_returnD[OF good_record[OF assms(2)]]])

lemma architecture_create_good:
  assumes g: "ws_good sha w0 w" and after: "keeps_good sha w0 after"
  shows "ws_good sha w0 (snd (architecture_create sha e project user_id name description ir source reason set_id after w))"
proof (cases "rbind (normalize_architecture_name name) (\<lambda>name.
           rbind (normalize_architecture_description description) (\<lambda>description.
           rbind (starting_content name description ir) (\<lambda>content.
           rbind (first_revision sha (new_id e) content source (Some user_id) reason set_id) (\<lambda>first.
           Inr (name, description, content, first)))))")
  case (Inr x)
  obtain n d c nr where x: "x = (n, d, c, nr)" by (cases x) auto
  have n: "normalize_architecture_name name = Inr n" and d: "normalize_architecture_description description = Inr d"
    and nr: "first_revision sha (new_id e) c source (Some user_id) reason set_id = Inr nr"
    using Inr by (auto simp: outcome_simps x)
  have nr': "nr_number nr = 1" "nr_architecture_id nr = new_id e" "nr_content_hash nr = content_hash sha (nr_ir nr)"
    using nr by (auto simp: first_revision_def outcome_simps)
  show ?thesis
    unfolding architecture_create_def Inr x sum.case prod.case
  proof (rule good_in_transaction[OF g], rule on_return_bind2I, rule on_return_bindI, rule on_return_bindI, goal_cases)
    case (1 p m u arw)
    obtain a r w' where arw: "arw = (a, r, w')" by (cases arw) auto
    have "new_architecture.na_project_id \<lparr>na_id = new_id e, na_project_id = project, na_name = n, na_description = d,
        na_created_by_user_id = Some user_id\<rparr> \<in> p_id ` set (projects w)"
      using write_access_Inr(1,2)[OF 1(1)] by auto
    then have "ws_good sha w0 w'"
      by (rule architectures_add_good[OF g _ _ _ _ nr'(1) _ nr'(3) 1(3)[unfolded arw]])
        (simp_all add: name_ok[OF n] description_ok[OF d] nr'(2) del: One_nat_def)
    from record_then_after_good[OF after this] show ?case by (simp add: arw)
  qed
qed (use g in \<open>simp add: architecture_create_def\<close>)

text \<open>What a content change must build: the next revision of the architecture, with its hash.\<close>

definition builds_next ::
    "(string \<Rightarrow> string) \<Rightarrow> ('x \<Rightarrow> revision \<Rightarrow> architecture_error + (new_revision \<times> architecture_diff)) \<Rightarrow> bool" where
  "builds_next sha build \<longleftrightarrow>
     (\<forall>x parent nr changes. build x parent = Inr (nr, changes) \<longrightarrow>
        nr_architecture_id nr = rv_architecture_id parent \<and> nr_content_hash nr = content_hash sha (nr_ir nr))"

lemma next_revision_builds:
  "next_revision sha parent ir source user_id reason set_id = Inr (nr, changes) \<Longrightarrow>
   nr_architecture_id nr = rv_architecture_id parent \<and> nr_content_hash nr = content_hash sha (nr_ir nr)"
  by (auto simp: next_revision_def Let_def outcome_simps)

lemma builds [simp]:
  "builds_next sha (edited sha commands provenance user_id reason)"
  "builds_next sha (\<lambda>_ parent. next_revision sha parent ir source (Some user_id) reason set_id)"
  "builds_next sha (\<lambda>source parent. restored_revision sha parent source (Some user_id) reason)"
  by (auto simp: builds_next_def edited_def restored_revision_def outcome_simps dest!: next_revision_builds)

lemma revise_good:
  assumes g: "ws_good sha w0 w" and build: "builds_next sha build" and after: "keeps_good sha w0 after"
  shows "ws_good sha w0 (snd (revise e project i user_id base load build set_id after w))"
  unfolding revise_def
proof (rule good_in_transaction[OF g], rule on_return_bind2I, rule on_return_bindI, rule on_return_bindI,
    rule on_return_bindI, rule on_return_bindI, rule on_return_bindI, rule on_return_ifI, goal_cases)
  case (1 p m a u x v parent)
  show ?case by (rule after_good[OF after g])
next
  case (2 p m a u x v parent)
  note a = the_architecture_Inr[OF 2(2)]
  have parent: "rv_architecture_id parent = ar_id a"
    using 2(6) by (auto simp: the_revision_def outcome_simps dest: get_revision_Some)
  show ?case
  proof (rule on_return_bind2I, rule on_return_bindI, rule on_return_bindI, goal_cases)
    case (1 nr changes u' brw)
    obtain b r w' where brw: "brw = (b, r, w')" by (cases brw) auto
    have nr: "nr_architecture_id nr = rv_architecture_id parent" "nr_content_hash nr = content_hash sha (nr_ir nr)"
      using build 1(1) unfolding builds_next_def by blast+
    have "ws_good sha w0 w'"
      by (rule add_revision_good[OF g a(1,4) nr(1)[unfolded parent] nr(2) 1(3)[unfolded brw]])
    then show ?case unfolding brw prod.case by (rule record_then_after_good[OF after])
  qed
qed

lemma save_layout_call_good:
  assumes g: "ws_good sha w0 w"
  shows "ws_good sha w0 (snd (save_layout e project i user_id positions w))"
  unfolding save_layout_def
proof (rule good_in_transaction[OF g], rule on_return_bindI, rule on_return_bindI, rule on_return_bindI,
    rule on_return_bindI, rule on_return_bindI, goal_cases)
  case (1 pm a u r u')
  then show ?case
    using save_layout_good[OF g the_architecture_Inr(1)[OF 1(2)]] by (auto split: prod.splits)
qed


section \<open>All calls\<close>

text \<open>
  A call of one of the services, or what the services of requirements may do in between: their rows
  change in any way, and requirement sets are only added (they are referenced with \<open>RESTRICT\<close>).
\<close>

datatype ws_call =
    Account call
  | CreateProject membership string "string option" string "project_settings option"
  | UpdateProject uuid uuid "string option" "string option" "project_settings option"
  | UpdatePolicy uuid uuid architecture_policy
  | ArchiveProject uuid uuid
  | RestoreProject uuid uuid
  | DeleteProject uuid uuid
  | CreateArchitecture uuid uuid string string "architecture_ir option" revision_source "string option"
      "uuid option"
  | UpdateMetadata uuid uuid uuid "string option" "string option"
  | ArchiveArchitecture uuid uuid uuid
  | RestoreArchitecture uuid uuid uuid
  | DeleteArchitecture uuid uuid uuid
  | EditArchitecture uuid uuid uuid int "command list" "string option"
  | ReplaceArchitecture uuid uuid uuid int architecture_ir revision_source "string option" "uuid option"
  | RestoreRevision uuid uuid uuid int int "string option"
  | SaveLayout uuid uuid uuid "(string \<times> position) list"
  | RequirementsChange "requirement_row list" "requirement_set_row list"

record world =
  wd_ext :: ext
  wd_settings :: settings
  wd_sha :: "string \<Rightarrow> string"

definition ws_outcome :: "(architecture_error + 'a) \<times> workspace \<Rightarrow> (architecture_error + unit) \<times> workspace" where
  "ws_outcome p = (map_sum id (\<lambda>_. ()) (fst p), snd p)"

definition project_outcome :: "(domain_error + 'a) \<times> workspace \<Rightarrow> (architecture_error + unit) \<times> workspace" where
  "project_outcome p = (map_sum Domain (\<lambda>_. ()) (fst p), snd p)"

definition account_outcome ::
    "workspace \<Rightarrow> (domain_error + unit) \<times> db \<Rightarrow> (architecture_error + unit) \<times> workspace" where
  "account_outcome w p = (map_sum Domain id (fst p), w\<lparr>identity := snd p\<rparr>)"

fun ws_perform :: "world \<Rightarrow> env \<times> ws_call \<Rightarrow> workspace \<Rightarrow> (architecture_error + unit) \<times> workspace" where
  "ws_perform x (e, Account c) w = account_outcome w (perform (wd_ext x) (wd_settings x) (e, c) (identity w))"
| "ws_perform x (e, CreateProject m name slug description settings) w =
     project_outcome (project_create e m name slug description settings w)"
| "ws_perform x (e, UpdateProject i user_id name description settings) w =
     project_outcome (project_update e i user_id name description settings w)"
| "ws_perform x (e, UpdatePolicy i user_id ap) w = project_outcome (update_policy e i user_id ap w)"
| "ws_perform x (e, ArchiveProject i user_id) w = project_outcome (archive_project e i user_id w)"
| "ws_perform x (e, RestoreProject i user_id) w = project_outcome (restore_project e i user_id w)"
| "ws_perform x (e, DeleteProject i user_id) w = project_outcome (delete_project e i user_id w)"
| "ws_perform x (e, CreateArchitecture p user_id name description ir source reason set_id) w =
     ws_outcome (architecture_create (wd_sha x) e p user_id name description ir source reason set_id
       nothing_after w)"
| "ws_perform x (e, UpdateMetadata p i user_id name description) w =
     ws_outcome (update_metadata e p i user_id name description w)"
| "ws_perform x (e, ArchiveArchitecture p i user_id) w = ws_outcome (archive_architecture e p i user_id w)"
| "ws_perform x (e, RestoreArchitecture p i user_id) w = ws_outcome (restore_architecture e p i user_id w)"
| "ws_perform x (e, DeleteArchitecture p i user_id) w = ws_outcome (delete_architecture e p i user_id w)"
| "ws_perform x (e, EditArchitecture p i user_id base commands reason) w =
     ws_outcome (architecture_edit (wd_sha x) e p i user_id base commands reason w)"
| "ws_perform x (e, ReplaceArchitecture p i user_id base ir source reason set_id) w =
     ws_outcome (architecture_replace (wd_sha x) e p i user_id base ir source reason set_id nothing_after w)"
| "ws_perform x (e, RestoreRevision p i user_id number base reason) w =
     ws_outcome (restore_revision (wd_sha x) e p i user_id number base reason w)"
| "ws_perform x (e, SaveLayout p i user_id positions) w =
     ws_outcome (save_layout e p i user_id positions w)"
| "ws_perform x (e, RequirementsChange rows sets) w =
     (Inr (), w\<lparr>requirements := rows, requirement_sets := requirement_sets w @ sets\<rparr>)"

lemma snd_ws_outcome [simp]: "snd (ws_outcome p) = snd p" "snd (project_outcome q) = snd q"
    "snd (account_outcome w r) = w\<lparr>identity := snd r\<rparr>"
  by (simp_all add: ws_outcome_def project_outcome_def account_outcome_def)

lemma requirements_good:
  assumes "ws_good sha w0 w"
  shows "ws_good sha w0 (w\<lparr>requirements := rows, requirement_sets := requirement_sets w @ sets\<rparr>)"
proof (rule ws_goodI[OF assms])
  let ?w = "w\<lparr>requirements := rows, requirement_sets := requirement_sets w @ sets\<rparr>"
  have "set_in_project w r a \<Longrightarrow> set_in_project ?w r a" for r a
    by (auto simp: set_in_project_def requirement_set_exists_def)
  with assms show "ws_inv sha ?w"
    by (simp add: ws_good_def ws_inv_def ws_references_ok_def)
qed (simp add: ws_le_def rows_progress_refl)

lemma account_good:
  assumes "ws_good sha w0 w"
  shows "ws_good sha w0 (w\<lparr>identity := snd (perform ex st op (identity w))\<rparr>)"
  by (rule good_identity[OF assms perform_good]) (use assms in \<open>simp add: ws_good_def ws_inv_def\<close>)

lemma architecture_edit_good:
  assumes "ws_good sha w0 w"
  shows "ws_good sha w0 (snd (architecture_edit sha e p i user_id base commands reason w))"
  using assms by (auto simp: architecture_edit_def split: sum.split intro: revise_good)

lemma project_lifecycle_good:
  assumes g: "ws_good sha w0 w"
  shows "ws_good sha w0 (snd (archive_project e i user_id w))"
    "ws_good sha w0 (snd (restore_project e i user_id w))"
    "ws_good sha w0 (snd (delete_project e i user_id w))"
  unfolding archive_project_def restore_project_def delete_project_def
  by (rule project_transition_good[OF g], rule lifecycle_rows, assumption, assumption)+

lemma architecture_lifecycle_calls_good:
  assumes g: "ws_good sha w0 w"
  shows "ws_good sha w0 (snd (archive_architecture e p i user_id w))"
    "ws_good sha w0 (snd (restore_architecture e p i user_id w))"
    "ws_good sha w0 (snd (delete_architecture e p i user_id w))"
  unfolding archive_architecture_def restore_architecture_def delete_architecture_def
  by (rule architecture_lifecycle_good[OF g], rule architecture_lifecycle_rows, assumption, assumption)+

lemma content_calls_good:
  assumes g: "ws_good sha w0 w"
  shows "ws_good sha w0 (snd (architecture_replace sha e p i user_id base ir source reason set_id nothing_after w))"
    "ws_good sha w0 (snd (restore_revision sha e p i user_id number base reason w))"
    "ws_good sha w0 (snd (architecture_create sha e p user_id name description content source reason set_id nothing_after w))"
  unfolding architecture_replace_def restore_revision_def
  by (rule revise_good[OF g] architecture_create_good[OF g]; simp)+

lemmas ws_calls_good = account_good project_create_good project_update_good update_policy_good
  project_lifecycle_good update_metadata_good architecture_lifecycle_calls_good content_calls_good
  architecture_edit_good save_layout_call_good requirements_good

lemma ws_perform_good:
  assumes "ws_inv (wd_sha x) w"
  shows "ws_good (wd_sha x) w (snd (ws_perform x op w))"
proof -
  have g: "ws_good (wd_sha x) w w" using assms by (simp add: ws_good_def)
  obtain e c where op: "op = (e, c)" by (cases op)
  show ?thesis
    unfolding op
    by (cases c) (simp_all only: ws_perform.simps snd_ws_outcome snd_conv ws_calls_good[OF g])
qed

interpretation workspace_calls: forward_service "ws_perform x" "ws_inv (wd_sha x)" ws_le for x
  by unfold_locales (use ws_perform_good in \<open>auto simp: ws_good_def intro: ws_le_trans\<close>)

end
