(* ===== verification/Workspace_Theorems.thy ===== *)
theory Workspace_Theorems
  imports Workspace_Calls Identity_Theorems
begin

text \<open>
  The properties of projects and architectures: their revisions are numbered and kept after every
  history of calls, a call changes a project only for a member who may, and only that project, and
  what a change of content does on every branch.
\<close>

section \<open>Revisions\<close>

lemma ws_after:
  assumes "ws_inv (wd_sha x) w"
  shows "ws_inv (wd_sha x) (run_calls (ws_perform x) ops w)" "ws_le w (run_calls (ws_perform x) ops w)"
  using assms by (rule workspace_calls.run_calls_inv, rule workspace_calls.run_calls_le)

lemma history_rows:
  assumes "revisions_ok sha as rs" "a \<in> set as" "r \<in> set (history (ar_id a) rs)"
  shows "revision_row_ok sha r"
  using assms by (auto simp: revisions_ok_def history_def)

text \<open>What is promised of one architecture of a workspace and its revisions.\<close>

definition well_numbered :: "(string \<Rightarrow> string) \<Rightarrow> workspace \<Rightarrow> architecture \<Rightarrow> bool" where
  "well_numbered sha w a \<longleftrightarrow>
     1 \<le> ar_current_revision a \<and>
     map rv_number (history (ar_id a) (revisions w)) = [1..ar_current_revision a] \<and>
     (\<forall>r \<in> set (history (ar_id a) (revisions w)).
        rv_parent_number r = (if rv_number r = 1 then None else Some (rv_number r - 1)) \<and>
        rv_content_hash r = content_hash sha (rv_ir r) \<and> rv_snapshot r = to_dict (rv_ir r) \<and>
        (\<forall>n \<in> set_option (rv_restored_from r). 1 \<le> n \<and> n < rv_number r))"

lemma inv_well_numbered:
  assumes "ws_inv sha w" "a \<in> set (architectures w)"
  shows "well_numbered sha w a"
proof -
  have ok: "revisions_ok sha (architectures w) (revisions w)" using assms(1) by (simp add: ws_inv_def)
  then show ?thesis
    using assms(2) history_rows[OF ok assms(2)] by (auto simp: well_numbered_def revisions_ok_def revision_row_ok_def)
qed

lemma history_kept:
  assumes inv: "ws_inv sha w" "ws_inv sha w'" and le: "ws_le w w'" and a: "a \<in> set (architectures w)"
  shows "\<exists>a' new. a' \<in> set (architectures w') \<and> ar_id a' = ar_id a \<and> ar_project_id a' = ar_project_id a \<and>
    history (ar_id a) (revisions w') = history (ar_id a) (revisions w) @ new \<and>
    (ar_deleted_at a \<noteq> None \<longrightarrow> a' = a \<and> new = [])"
proof -
  obtain a' where a': "a' \<in> set (architectures w')" "architecture_le a a'"
    using le a by (auto simp: ws_le_def rows_progress_def)
  obtain more where more: "revisions w' = revisions w @ more" using le by (auto simp: ws_le_def)
  have ids: "ar_id a' = ar_id a" "ar_project_id a' = ar_project_id a" using a'(2) by (simp_all add: architecture_le_def)
  have split: "history (ar_id a) (revisions w') = history (ar_id a) (revisions w) @ history (ar_id a) more"
    by (simp add: more history_def)
  have "a' = a \<and> history (ar_id a) more = []" if deleted: "ar_deleted_at a \<noteq> None"
  proof -
    have "a' = a" using deleted a'(2) by (simp add: architecture_le_def)
    then show ?thesis
      using inv_well_numbered[OF inv(1) a] inv_well_numbered[OF inv(2) a'(1)] split by (simp add: well_numbered_def)
  qed
  with a'(1) ids split show ?thesis by (intro exI[of _ a'] exI[of _ "history (ar_id a) more"]) simp
qed

text \<open>C38. Start from a consistent workspace and let any calls of the services follow, in whatever
  order and with whatever outcome: the workspace is consistent again, and every architecture it then
  holds, those created on the way included, has revisions numbered 1, 2, ... up to its current one
  without gaps, each made from the one before it, with the hash and the document of its own content,
  and restoring only an earlier one; every revision belongs to an architecture.  Every architecture
  from before is still there in its project, its earlier revisions are all kept as they were and in
  front, and if it was deleted, it and its revisions have not changed at all.\<close>

theorem revisions_are_numbered_and_kept:
  assumes "ws_inv (wd_sha x) w"
  shows "ws_inv (wd_sha x) (run_calls (ws_perform x) ops w) \<and>
    (\<forall>a \<in> set (architectures (run_calls (ws_perform x) ops w)).
       well_numbered (wd_sha x) (run_calls (ws_perform x) ops w) a) \<and>
    (\<forall>r \<in> set (revisions (run_calls (ws_perform x) ops w)).
       rv_architecture_id r \<in> ar_id ` set (architectures (run_calls (ws_perform x) ops w))) \<and>
    (\<forall>a \<in> set (architectures w). \<exists>a' new.
       a' \<in> set (architectures (run_calls (ws_perform x) ops w)) \<and>
       ar_id a' = ar_id a \<and> ar_project_id a' = ar_project_id a \<and>
       history (ar_id a) (revisions (run_calls (ws_perform x) ops w)) =
         history (ar_id a) (revisions w) @ new \<and>
       (ar_deleted_at a \<noteq> None \<longrightarrow> a' = a \<and> new = []))"
proof -
  note after = ws_after[OF assms, of ops]
  have "\<forall>r \<in> set (revisions (run_calls (ws_perform x) ops w)).
      rv_architecture_id r \<in> ar_id ` set (architectures (run_calls (ws_perform x) ops w))"
    using after(1) by (simp add: ws_inv_def revisions_ok_def)
  with after(1) inv_well_numbered[OF after(1)] history_kept[OF assms after] show ?thesis by blast
qed

section \<open>Who changes what\<close>

text \<open>All that is stored of one project: its row, its architectures, their revisions and layouts.\<close>

definition architecture_ids :: "uuid \<Rightarrow> workspace \<Rightarrow> uuid set" where
  "architecture_ids i w = ar_id ` {a \<in> set (architectures w). ar_project_id a = i}"

definition project_view ::
    "uuid \<Rightarrow> workspace \<Rightarrow> project list \<times> architecture list \<times> revision list \<times> (uuid \<times> layout) list" where
  "project_view i w =
     (filter (\<lambda>p. p_id p = i) (projects w), filter (\<lambda>a. ar_project_id a = i) (architectures w),
      filter (\<lambda>r. rv_architecture_id r \<in> architecture_ids i w) (revisions w),
      filter (\<lambda>l. fst l \<in> architecture_ids i w) (layouts w))"

text \<open>The project a call is about, the user it acts for, and the permission it requires.\<close>

fun required :: "ws_call \<Rightarrow> (uuid \<times> uuid \<times> permission) option" where
  "required (UpdateProject i u _ _ _) = Some (i, u, PROJECT_UPDATE)"
| "required (UpdatePolicy i u _) = Some (i, u, PROJECT_POLICY_UPDATE)"
| "required (ArchiveProject i u) = Some (i, u, PROJECT_ARCHIVE)"
| "required (RestoreProject i u) = Some (i, u, PROJECT_ARCHIVE)"
| "required (DeleteProject i u) = Some (i, u, PROJECT_DELETE)"
| "required (CreateArchitecture i u _ _ _ _ _ _) = Some (i, u, ARCHITECTURE_CREATE)"
| "required (UpdateMetadata i _ u _ _) = Some (i, u, ARCHITECTURE_UPDATE)"
| "required (ArchiveArchitecture i _ u) = Some (i, u, ARCHITECTURE_UPDATE)"
| "required (RestoreArchitecture i _ u) = Some (i, u, ARCHITECTURE_UPDATE)"
| "required (DeleteArchitecture i _ u) = Some (i, u, permission.ARCHITECTURE_DELETE)"
| "required (EditArchitecture i _ u _ _ _) = Some (i, u, ARCHITECTURE_UPDATE)"
| "required (ReplaceArchitecture i _ u _ _ _ _ _) = Some (i, u, ARCHITECTURE_UPDATE)"
| "required (RestoreRevision i _ u _ _ _) = Some (i, u, ARCHITECTURE_UPDATE)"
| "required (SaveLayout i _ u _) = Some (i, u, ARCHITECTURE_UPDATE)"
| "required _ = None"

definition may :: "workspace \<Rightarrow> uuid \<Rightarrow> uuid \<Rightarrow> permission \<Rightarrow> bool" where
  "may w i user_id permission \<longleftrightarrow>
     (\<exists>p m. projects_get_for_member i user_id w = Some (p, m) \<and> can m permission \<and>
        (p_status p = ACTIVE_PROJECT \<or> permission \<in> {PROJECT_ARCHIVE, PROJECT_DELETE}))"

text \<open>Nothing of any other project changed.\<close>

definition confined :: "uuid \<Rightarrow> workspace \<Rightarrow> workspace \<Rightarrow> bool" where
  "confined j w w' \<longleftrightarrow> (\<forall>i. i \<noteq> j \<longrightarrow> project_view i w' = project_view i w)"

lemma confined_refl [simp]: "confined j w w"
  by (simp add: confined_def)

lemma view_identity [simp]: "project_view i (w\<lparr>identity := d\<rparr>) = project_view i w"
  by (simp add: project_view_def architecture_ids_def)

lemma confined_audit:
  "ws_audit e ev w = Inr w' \<Longrightarrow> confined j w0 w \<Longrightarrow> confined j w0 w'"
  by (auto simp: ws_audit_def outcome_simps confined_def)

text \<open>A transaction that returns has done its checks and stayed in its project; one that raises did nothing.\<close>

definition guarded :: "uuid \<Rightarrow> bool \<Rightarrow> workspace \<Rightarrow> workspace \<Rightarrow> bool" where
  "guarded j allowed w w' \<longleftrightarrow> w' = w \<or> (allowed \<and> confined j w w')"

lemma guarded_refl: "guarded j allowed w w"
  by (simp add: guarded_def)

lemma guarded_transaction:
  assumes "on_return (\<lambda>(r, w'). allowed \<and> confined j w w') (block w)"
  shows "guarded j allowed w (snd (transaction block w))"
  using assms by (cases "block w") (auto simp: transaction_def guarded_def)

lemma project_saved_confined:
  assumes "projects_save e q w = Inr (r, w')" "p_id q = j"
  shows "confined j w w'"
proof -
  have "filter (\<lambda>p. p_id p = i) (update_where (\<lambda>p. p_id p = j) f ps) = filter (\<lambda>p. p_id p = i) ps"
    if "i \<noteq> j" "\<And>p. p_id (f p) = p_id p" for i f and ps :: "project list"
    using that by (induction ps) (auto simp: update_where_def)
  with assms show ?thesis
    by (auto simp: projects_save_def Let_def confined_def project_view_def architecture_ids_def split: option.splits)
qed

lemma confined_tables:
  assumes as: "\<And>i. i \<noteq> j \<Longrightarrow> filter (\<lambda>a. ar_project_id a = i) (architectures w') = filter (\<lambda>a. ar_project_id a = i) (architectures w)"
    and rs: "revisions w' = revisions w @ new" "\<And>r i. r \<in> set new \<Longrightarrow> i \<noteq> j \<Longrightarrow> rv_architecture_id r \<notin> architecture_ids i w"
    and same: "projects w' = projects w" "layouts w' = layouts w"
  shows "confined j w w'"
  unfolding confined_def
proof (intro allI impI)
  fix i assume i: "i \<noteq> j"
  have ids: "architecture_ids i v = ar_id ` set (filter (\<lambda>a. ar_project_id a = i) (architectures v))" for v
    by (simp add: architecture_ids_def)
  have "architecture_ids i w' = architecture_ids i w" by (simp only: ids as[OF i])
  then show "project_view i w' = project_view i w"
    using as[OF i] rs i same by (simp add: project_view_def filter_empty_conv)
qed

lemma one_project:
  assumes "ws_inv sha w" "a \<in> set (architectures w)" "b \<in> set (architectures w)" "ar_id b = ar_id a"
  shows "b = a"
  using assms by (auto simp: ws_inv_def architectures_ok_def dest: unique_on_same_key)

lemma not_of_another_project:
  assumes "ws_inv sha w" "a \<in> set (architectures w)" "ar_project_id a = j" "i \<noteq> j"
  shows "ar_id a \<notin> architecture_ids i w"
proof
  assume "ar_id a \<in> architecture_ids i w"
  then obtain b where b: "b \<in> set (architectures w)" "ar_project_id b = i" "ar_id b = ar_id a"
    by (auto simp: architecture_ids_def)
  from one_project[OF assms(1,2) b(1,3)] b(2) assms(3,4) show False by simp
qed

lemma update_of_another_project:
  assumes "ws_inv sha w" "a \<in> set (architectures w)" "ar_project_id a = j" "i \<noteq> j"
    "\<And>x. q x \<Longrightarrow> ar_id x = ar_id a" "\<And>x. ar_project_id (f x) = ar_project_id x"
  shows "filter (\<lambda>a. ar_project_id a = i) (update_where q f (architectures w)) =
         filter (\<lambda>a. ar_project_id a = i) (architectures w)"
proof -
  have "filter (\<lambda>a. ar_project_id a = i) (update_where q f (architectures w)) =
      update_where q f (filter (\<lambda>a. ar_project_id a = i) (architectures w))"
    by (rule filter_update_where) (simp add: assms(6))
  also have "\<dots> = filter (\<lambda>a. ar_project_id a = i) (architectures w)"
    by (rule update_where_none) (use one_project[OF assms(1,2)] assms(3-5) in auto)
  finally show ?thesis .
qed

lemma architectures_save_confined:
  assumes "ws_inv sha w" "a \<in> set (architectures w)" "ar_project_id a = j" "ar_id b = ar_id a"
    and s: "architectures_save e b w = Inr (r, w')"
  shows "confined j w w'"
proof -
  obtain f where w': "w' = w\<lparr>architectures := update_where (\<lambda>x. ar_id x = ar_id a) f (architectures w)\<rparr>"
    and f: "\<And>x. ar_project_id (f x) = ar_project_id x"
    using s assms(4) by (auto simp: architectures_save_def Let_def outcome_simps)
  show ?thesis
    by (rule confined_tables[where new = "[]"])
      (use update_of_another_project[OF assms(1-3)] f in \<open>simp_all add: w'\<close>)
qed

lemma add_revision_confined:
  assumes inv: "ws_inv sha w" and a: "a \<in> set (architectures w)" "ar_project_id a = j"
    and nr: "nr_architecture_id nr = ar_id a" and add: "add_revision e a nr w = Inr (b, r, w')"
  shows "confined j w w'"
proof -
  let ?q = "\<lambda>x. ar_id x = ar_id a \<and> Some (ar_current_revision x) = nr_parent_number nr"
  let ?f = "\<lambda>b. b\<lparr>ar_current_revision := nr_number nr, ar_updated_at := db_now e,
                     ar_updated_by_user_id := nr_created_by_user_id nr\<rparr>"
  have w': "w' = w\<lparr>architectures := update_where ?q ?f (architectures w), revisions := revisions w @ [r]\<rparr>"
    and r: "rv_architecture_id r = ar_id a"
    using add nr by (auto simp: add_revision_def add_revision_row_def Let_def outcome_simps)
  show ?thesis
    by (rule confined_tables[where new = "[r]"])
      (use update_of_another_project[OF inv a, of _ ?q ?f] not_of_another_project[OF inv a] r in \<open>simp_all add: w'\<close>)
qed

lemma architectures_add_confined:
  assumes inv: "ws_inv sha w" and nr: "nr_architecture_id nr = na_id na"
    and add: "architectures_add e na nr w = Inr (a, r, w')"
  shows "confined (na_project_id na) w w'"
proof -
  have w': "w' = w\<lparr>architectures := architectures w @ [a], revisions := revisions w @ [r]\<rparr>"
    and free: "\<forall>b \<in> set (architectures w). ar_id b \<noteq> na_id na"
    and a: "ar_project_id a = na_project_id na" and r: "rv_architecture_id r = na_id na"
    using add nr by (auto simp: architectures_add_def add_revision_row_def Let_def outcome_simps)
  show ?thesis
    by (rule confined_tables[where new = "[r]"]) (use free a r in \<open>auto simp: w' architecture_ids_def\<close>)
qed

lemma save_layout_confined:
  assumes inv: "ws_inv sha w" and a: "a \<in> set (architectures w)" "ar_project_id a = j"
    and s: "save_layout_row e a positions user_id w = (l, w')"
  shows "confined j w w'"
  unfolding confined_def
proof (intro allI impI)
  fix i assume i: "i \<noteq> j"
  have "filter (\<lambda>l. fst l \<in> I) (AList.update k l kvs) = filter (\<lambda>l. fst l \<in> I) kvs" if "k \<notin> I" for I k and l :: layout and kvs
    using that by (induction kvs) auto
  then show "project_view i w' = project_view i w"
    using s not_of_another_project[OF inv a i]
    by (auto simp: save_layout_row_def Let_def project_view_def architecture_ids_def)
qed

lemma save_and_record_confined:
  assumes "p_id q = j" "allowed"
  shows "on_return (\<lambda>(r, w'). allowed \<and> confined j w w')
    (rbind (projects_save e q w) (\<lambda>(saved, w).
     rbind (ws_audit e (event saved) w) (\<lambda>w. Inr (r saved, w))))"
  by (rule on_return_bind2I, rule on_return_bindI)
    (use assms project_saved_confined confined_audit in fastforce)

lemma member_may:
  assumes "require_some (projects_get_for_member i user_id w) err = Inr (p, m)" "require m permission = Inr u"
    and "p_status p = ACTIVE_PROJECT \<or> permission \<in> {PROJECT_ARCHIVE, PROJECT_DELETE}"
  shows "may w i user_id permission"
  using assms by (auto simp: may_def outcome_simps require_def split: if_splits)

lemma member_project:
  "require_some (projects_get_for_member i user_id w) err = Inr (p, m) \<Longrightarrow> p_id p = i"
  by (auto simp: outcome_simps dest: get_for_member_Some)

lemma modifiable_active:
  assumes "project_ensure_modifiable p = Inr u"
  shows "p_status p = ACTIVE_PROJECT"
proof -
  from assms have "p_status p \<noteq> ARCHIVED_PROJECT"
    by (auto simp: project_ensure_modifiable_def p_is_archived_def split: if_splits)
  then show ?thesis by (cases "p_status p") simp_all
qed

lemma project_transition_guarded:
  assumes "permission \<in> {PROJECT_ARCHIVE, PROJECT_DELETE}" "\<And>at p q. step at p = Inr q \<Longrightarrow> p_id q = p_id p"
  shows "guarded i (may w i user_id permission) w (snd (project_transition e i user_id permission action step w))"
  unfolding project_transition_def
proof (rule guarded_transaction, rule on_return_bind2I, rule on_return_bindI, rule on_return_bindI, goal_cases)
  case (1 p m u q)
  have may: "may w i user_id permission" by (rule member_may[OF 1(1,2)]) (use assms(1) in simp)
  have "p_id q = i" using assms(2)[OF 1(3)] member_project[OF 1(1)] by simp
  from save_and_record_confined[OF this may] may show ?case by auto
qed

lemma project_lifecycle_guarded:
  "guarded i (may w i u PROJECT_ARCHIVE) w (snd (archive_project e i u w))"
  "guarded i (may w i u PROJECT_ARCHIVE) w (snd (restore_project e i u w))"
  "guarded i (may w i u PROJECT_DELETE) w (snd (delete_project e i u w))"
  unfolding archive_project_def restore_project_def delete_project_def
  by (rule project_transition_guarded; auto simp: project_archive_def project_restore_def project_delete_def split: if_splits)+

lemma project_update_guarded:
  "guarded i (may w i u PROJECT_UPDATE) w (snd (project_update e i u name description settings w))"
proof (cases "name = None \<and> description = None \<and> settings = None")
  case False
  show ?thesis
    unfolding project_update_def if_not_P[OF False]
  proof (rule guarded_transaction, rule on_return_bind2I, rule on_return_bindI, rule on_return_bindI, goal_cases)
    case (1 p m v q)
    have "project_ensure_modifiable p = Inr ()" "p_id q = p_id p" using 1(3) by (auto simp: with_changes_def outcome_simps)
    then have may: "may w i u PROJECT_UPDATE" and "p_id q = i"
      using member_may[OF 1(1,2)] member_project[OF 1(1)] by (simp_all add: modifiable_active)
    from save_and_record_confined[OF this(2) may] show ?case .
  qed
qed (simp add: project_update_def guarded_def)

lemma update_policy_guarded:
  "guarded i (may w i u PROJECT_POLICY_UPDATE) w (snd (update_policy e i u ap w))"
  unfolding update_policy_def
proof (rule guarded_transaction, rule on_return_bind2I, rule on_return_bindI, rule on_return_bindI, goal_cases)
  case (1 p m v q)
  have "project_ensure_modifiable p = Inr ()" "p_id q = p_id p" using 1(3) by (auto simp: with_policy_def outcome_simps)
  then have may: "may w i u PROJECT_POLICY_UPDATE" and "p_id q = i"
    using member_may[OF 1(1,2)] member_project[OF 1(1)] by (simp_all add: modifiable_active)
  from save_and_record_confined[OF this(2) may] may show ?case by auto
qed

text \<open>A project that is added has no architectures yet; the one call that adds one checks the permission.\<close>

lemma unknown_project_view:
  assumes inv: "ws_inv sha w" and i: "i \<notin> p_id ` set (projects w)"
  shows "project_view i w = ([], [], [], [])"
proof -
  have ps: "filter (\<lambda>p. p_id p = i) (projects w) = []" using i by (auto simp: filter_empty_conv)
  have "ar_project_id a \<noteq> i" if "a \<in> set (architectures w)" for a
    using inv i that by (auto simp: ws_inv_def ws_references_ok_def)
  then have as: "filter (\<lambda>a. ar_project_id a = i) (architectures w) = []" "architecture_ids i w = {}"
    by (auto simp: filter_empty_conv architecture_ids_def)
  from ps as show ?thesis by (simp add: project_view_def)
qed

lemma projects_add_view:
  assumes inv: "ws_inv sha w" and add: "projects_add e np w = Inr (p, w')"
  shows "new_id e \<notin> p_id ` set (projects w)" "p_id p = new_id e"
    "p_organization_id p = np_organization_id np" "p_created_by_user_id p = Some (np_created_by_user_id np)"
    "project_view (new_id e) w' = ([p], [], [], [])"
    "i \<noteq> new_id e \<Longrightarrow> project_view i w' = project_view i w"
proof -
  have w': "w' = w\<lparr>projects := projects w @ [p]\<rparr>" and fresh: "new_id e \<notin> p_id ` set (projects w)"
    and p: "p_id p = new_id e" "p_organization_id p = np_organization_id np"
      "p_created_by_user_id p = Some (np_created_by_user_id np)"
    using add by (auto simp: projects_add_def Let_def split: if_splits)
  show "new_id e \<notin> p_id ` set (projects w)" "p_id p = new_id e"
    "p_organization_id p = np_organization_id np" "p_created_by_user_id p = Some (np_created_by_user_id np)"
    by (fact fresh p)+
  have view: "project_view k w' = (fst (project_view k w) @ (if k = new_id e then [p] else []), snd (project_view k w))" for k
    using p(1) by (simp add: project_view_def architecture_ids_def w')
  show "project_view (new_id e) w' = ([p], [], [], [])" by (simp add: view unknown_project_view[OF inv fresh])
  show "project_view i w' = project_view i w" if "i \<noteq> new_id e" using that by (simp add: view)
qed

text \<open>What a call that creates a project must have checked, and all that it stores.\<close>

definition created_by_member :: "env \<Rightarrow> membership \<Rightarrow> uuid \<Rightarrow> workspace \<Rightarrow> workspace \<Rightarrow> bool" where
  "created_by_member e m i w w' \<longleftrightarrow>
     i = new_id e \<and> i \<notin> p_id ` set (projects w) \<and>
     (\<exists>x current. memberships_get_in_active_organization (m_organization_id m) (m_user_id m) (identity w) =
          Some (x, current) \<and> can current PROJECT_CREATE) \<and>
     (\<exists>p. project_view i w' = ([p], [], [], []) \<and> p_id p = i \<and>
          p_organization_id p = m_organization_id m \<and> p_created_by_user_id p = Some (m_user_id m))"

lemma project_create_view:
  assumes inv: "ws_inv sha w"
  shows "project_view i (snd (project_create e m name slug description settings w)) = project_view i w \<or>
    created_by_member e m i w (snd (project_create e m name slug description settings w))"
    (is "?same (snd ?r)")
proof (cases "rbind (require m PROJECT_CREATE) (\<lambda>_.
    NewProject (m_organization_id m) (m_user_id m) name slug description settings)")
  case (Inr np)
  then have np: "np_organization_id np = m_organization_id m" "np_created_by_user_id np = m_user_id m"
    by (auto simp: outcome_simps NewProject_def)
  show ?thesis
    unfolding project_create_def Inr sum.case
  proof (rule transaction_keeps[where P = ?same], simp, rule on_return_bind2I, rule on_return_bindI,
      rule on_return_bind2I, rule on_return_bindI, goal_cases)
    case (1 x current u p v v')
    have v': "project_view k v' = project_view k v" for k using 1(4) by (auto simp: ws_audit_def outcome_simps)
    have current: "memberships_get_in_active_organization (m_organization_id m) (m_user_id m) (identity w) = Some (x, current)"
        "can current PROJECT_CREATE" using 1(1,2) by (auto simp: outcome_simps require_def split: if_splits)
    note added = projects_add_view[OF inv 1(3)]
    show ?case
    proof (cases "i = new_id e")
      case True
      with added(1-5) np current v' show ?thesis by (auto simp: created_by_member_def)
    next
      case False
      from added(6)[OF this] v' show ?thesis by simp
    qed
  qed
qed (simp add: project_create_def)

section \<open>Architecture calls stay in their project\<close>

lemma write_may: "write_access i user_id permission w = Inr (p, m) \<Longrightarrow> may w i user_id permission"
  using write_access_Inr[of i user_id permission w p m] by (auto simp: may_def)

lemma record_confined:
  assumes "record_architecture e p action user_id a facts w = Inr w'" "confined j w0 w"
  shows "confined j w0 w'"
  using assms confined_audit unfolding record_architecture_def map_error_Inr by blast

lemma save_architecture_confined:
  assumes "ws_inv sha w" "a \<in> set (architectures w)" "ar_project_id a = j" "ar_id b = ar_id a" "allowed"
  shows "on_return (\<lambda>(r, w'). allowed \<and> confined j w w')
    (rbind (architectures_save e b w) (\<lambda>(saved, w).
     rbind (record_architecture e p action user_id saved (facts saved) w) (\<lambda>w. Inr (saved, w))))"
proof (rule on_return_bind2I, rule on_return_bindI)
  fix saved v v'
  assume "architectures_save e b w = Inr (saved, v)" "record_architecture e p action user_id saved (facts saved) v = Inr v'"
  then have "confined j w v'" by (blast intro: record_confined architectures_save_confined[OF assms(1-4)])
  with assms(5) show "on_return (\<lambda>(r, w'). allowed \<and> confined j w w') (Inr (saved, v'))" by simp
qed

lemma architecture_lifecycle_guarded:
  assumes "ws_inv sha w" "\<And>a b. change a = Inr b \<Longrightarrow> ar_id b = ar_id a"
  shows "guarded j (may w j u permission) w (snd (architecture_lifecycle e j i u permission action change w))"
  unfolding architecture_lifecycle_def
proof (rule guarded_transaction, rule on_return_bind2I, rule on_return_bindI, rule on_return_bindI, rule on_return_ifI, goal_cases)
  case (1 p m a b)
  with write_may[OF 1(1)] show ?case by simp
next
  case (2 p m a b)
  note a = the_architecture_Inr[OF 2(2)]
  show ?case by (rule save_architecture_confined[OF assms(1) a(1,3) assms(2)[OF 2(3)] write_may[OF 2(1)]])
qed

lemma architecture_lifecycle_calls_guarded:
  assumes "ws_inv sha w"
  shows "guarded j (may w j u ARCHITECTURE_UPDATE) w (snd (archive_architecture e j i u w))"
    "guarded j (may w j u ARCHITECTURE_UPDATE) w (snd (restore_architecture e j i u w))"
    "guarded j (may w j u permission.ARCHITECTURE_DELETE) w (snd (delete_architecture e j i u w))"
  unfolding archive_architecture_def restore_architecture_def delete_architecture_def
  by (rule architecture_lifecycle_guarded[OF assms];
      auto simp: architecture_archive_def architecture_restore_def architecture_delete_def split: if_splits)+

lemma update_metadata_guarded:
  assumes "ws_inv sha w"
  shows "guarded j (may w j u ARCHITECTURE_UPDATE) w (snd (update_metadata e j i u name description w))"
proof (cases "name = None \<and> description = None")
  case False
  show ?thesis
    unfolding update_metadata_def if_not_P[OF False] Let_def
  proof (rule guarded_transaction, rule on_return_bind2I, rule on_return_bindI, rule on_return_bindI, rule on_return_ifI, goal_cases)
    case (1 p m a b)
    with write_may[OF 1(1)] show ?case by simp
  next
    case (2 p m a b)
    note a = the_architecture_Inr[OF 2(2)]
    have "ar_id b = ar_id a" using 2(3) by (auto simp: with_metadata_def outcome_simps)
    then show ?case by (rule save_architecture_confined[OF assms a(1,3) _ write_may[OF 2(1)]])
  qed
qed (simp add: update_metadata_def guarded_def)

lemma architecture_create_guarded:
  assumes inv: "ws_inv sha w"
  shows "guarded j (may w j u ARCHITECTURE_CREATE) w
    (snd (architecture_create h e j u name description ir source reason set_id nothing_after w))"
proof (cases "rbind (normalize_architecture_name name) (\<lambda>name.
           rbind (normalize_architecture_description description) (\<lambda>description.
           rbind (starting_content name description ir) (\<lambda>content.
           rbind (first_revision h (new_id e) content source (Some u) reason set_id) (\<lambda>first.
           Inr (name, description, content, first)))))")
  case (Inr x)
  obtain n d c nr where x: "x = (n, d, c, nr)" by (cases x) auto
  have nr: "nr_architecture_id nr = new_id e"
    using Inr by (auto simp: outcome_simps x first_revision_def)
  show ?thesis
    unfolding architecture_create_def Inr x sum.case prod.case
  proof (rule guarded_transaction, rule on_return_bind2I, rule on_return_bindI, rule on_return_bindI, goal_cases)
    case (1 p m v arw)
    obtain a r w' where arw: "arw = (a, r, w')" by (cases arw) auto
    have "confined j w w'"
      using architectures_add_confined[OF inv _ 1(3)[unfolded arw]] nr by simp
    with write_may[OF 1(1)] show ?case
      unfolding arw prod.case nothing_after_def rbind.simps
      by (intro on_return_bindI) (auto intro: record_confined)
  qed
qed (simp add: architecture_create_def guarded_def)

lemma revise_guarded:
  assumes inv: "ws_inv sha w" and build: "builds_next h build"
  shows "guarded j (may w j u ARCHITECTURE_UPDATE) w (snd (revise e j i u base load build set_id nothing_after w))"
  unfolding revise_def nothing_after_def
proof (rule guarded_transaction, rule on_return_bind2I, rule on_return_bindI, rule on_return_bindI,
    rule on_return_bindI, rule on_return_bindI, rule on_return_bindI, rule on_return_ifI, goal_cases)
  case (1 p m a v x y parent)
  with write_may[OF 1(1)] show ?case by simp
next
  case (2 p m a v x y parent)
  note a = the_architecture_Inr[OF 2(2)]
  have parent: "rv_architecture_id parent = ar_id a"
    using 2(6) by (auto simp: the_revision_def outcome_simps dest: get_revision_Some)
  show ?case
  proof (rule on_return_bind2I, rule on_return_bindI, rule on_return_bindI, goal_cases)
    case (1 nr changes v' brw)
    obtain b r w' where brw: "brw = (b, r, w')" by (cases brw) auto
    have "nr_architecture_id nr = rv_architecture_id parent" using build 1(1) unfolding builds_next_def by blast
    then have "confined j w w'" by (intro add_revision_confined[OF inv a(1,3) _ 1(3)[unfolded brw]]) (simp add: parent)
    with write_may[OF 2(1)] show ?case
      unfolding brw prod.case rbind.simps by (intro on_return_bindI) (auto intro: record_confined)
  qed
qed

lemma save_layout_guarded:
  assumes inv: "ws_inv sha w"
  shows "guarded j (may w j u ARCHITECTURE_UPDATE) w (snd (save_layout e j i u positions w))"
  unfolding save_layout_def
proof (rule guarded_transaction, rule on_return_bindI, rule on_return_bindI, rule on_return_bindI,
    rule on_return_bindI, rule on_return_bindI, goal_cases)
  case (1 pm a v r v')
  have "may w j u ARCHITECTURE_UPDATE" using 1(1) by (cases pm) (auto intro: write_may)
  then show ?case
    using save_layout_confined[OF inv the_architecture_Inr(1,3)[OF 1(2)]] by (auto split: prod.splits)
qed

lemma content_calls_guarded:
  assumes inv: "ws_inv sha w"
  shows "guarded j (may w j u ARCHITECTURE_UPDATE) w
      (snd (architecture_replace h e j i u base ir source reason set_id nothing_after w))"
    "guarded j (may w j u ARCHITECTURE_UPDATE) w (snd (restore_revision h e j i u number base reason w))"
    "guarded j (may w j u ARCHITECTURE_UPDATE) w (snd (architecture_edit h e j i u base commands reason w))"
  unfolding architecture_replace_def restore_revision_def
  by (rule revise_guarded[OF inv builds(2)] revise_guarded[OF inv builds(3)])+
    (cases "edit_provenance e u"; simp add: architecture_edit_def guarded_refl revise_guarded[OF inv builds(1)])

lemmas calls_guarded = project_update_guarded update_policy_guarded project_lifecycle_guarded

lemmas architecture_calls_guarded = architecture_create_guarded update_metadata_guarded
  architecture_lifecycle_calls_guarded content_calls_guarded save_layout_guarded

lemma required_guarded:
  assumes "ws_inv sha w" "required c = Some (j, u, permission)"
  shows "guarded j (may w j u permission) w (snd (ws_perform x (e, c) w))"
  using assms(2) by (cases c) (auto simp: calls_guarded architecture_calls_guarded[OF assms(1)])

lemma not_required_view:
  assumes inv: "ws_inv (wd_sha x) w" and "required c = None"
  shows "project_view i (snd (ws_perform x (e, c) w)) = project_view i w \<or>
    (\<exists>m name slug description settings. c = CreateProject m name slug description settings \<and>
       created_by_member e m i w (snd (ws_perform x (e, c) w)))"
  using assms(2) project_create_view[OF inv, of i e]
  by (cases c) (simp_all, simp add: project_view_def architecture_ids_def)

text \<open>C39. If a call changes what is stored under a project id, be it the row of the project, an
  architecture, a revision or a layout, then either the call is about this very project, and the user
  it acts for is a member of the live organization that owns the live project, with a role that grants
  the permission of the call, and the project is active unless the call archives, restores or deletes
  it; or the call creates the project under a new id, for a user who is now a member of the live
  organization it is created in, with a role that grants creating projects, and the project's row is
  all that is stored of it.  So no call reaches another project, whatever ids it is given, and neither
  a call of the account and organization services nor a change of the requirement tables touches any
  project.\<close>

theorem changes_need_permission:
  assumes "ws_inv (wd_sha x) w"
    and "project_view i (snd (ws_perform x (e, c) w)) \<noteq> project_view i w"
  shows "(\<exists>user_id permission p y m. required c = Some (i, user_id, permission) \<and>
      p \<in> set (projects w) \<and> p_id p = i \<and> p_deleted_at p = None \<and>
      memberships_get_in_active_organization (p_organization_id p) user_id (identity w) = Some (y, m) \<and>
      can m permission \<and> (p_status p = ACTIVE_PROJECT \<or> permission \<in> {PROJECT_ARCHIVE, PROJECT_DELETE})) \<or>
    (\<exists>m name slug description settings. c = CreateProject m name slug description settings \<and>
      created_by_member e m i w (snd (ws_perform x (e, c) w)))"
proof (cases "required c")
  case None
  from not_required_view[OF assms(1) this] assms(2) show ?thesis by blast
next
  case (Some r)
  obtain j u perm where r: "r = (j, u, perm)" by (cases r)
  from required_guarded[OF assms(1) Some[unfolded r], of x e] assms(2)
  have may: "may w j u perm" and j: "j = i" by (auto simp: guarded_def confined_def)
  then obtain p m where p: "projects_get_for_member i u w = Some (p, m)" "can m perm"
      "p_status p = ACTIVE_PROJECT \<or> perm \<in> {PROJECT_ARCHIVE, PROJECT_DELETE}"
    by (auto simp: may_def)
  with get_for_member_Some[OF p(1)] Some r j show ?thesis by blast
qed

section \<open>Restoring a revision\<close>

lemma numbered_revision:
  assumes inv: "ws_inv sha w" and a: "a \<in> set (architectures w)" and n: "1 \<le> n" "n \<le> ar_current_revision a"
  shows "\<exists>r. get_revision (ar_id a) n w = Some r"
proof -
  have "n \<in> set (map rv_number (history (ar_id a) (revisions w)))"
    using inv a n by (simp add: ws_inv_def revisions_ok_def)
  then obtain r where "r \<in> set (revisions w)" "revision_at (ar_id a) n r"
    by (auto simp: history_def revision_at_def)
  then have "get_revision (ar_id a) n w \<noteq> None" unfolding get_revision_def find_None_iff_set by blast
  then show ?thesis by auto
qed

lemma current_positive: "ws_inv sha w \<Longrightarrow> a \<in> set (architectures w) \<Longrightarrow> 1 \<le> ar_current_revision a"
  by (simp add: ws_inv_def revisions_ok_def)

lemma no_later_revision:
  assumes inv: "ws_inv sha w" and a: "a \<in> set (architectures w)" and n: "ar_current_revision a < n"
  shows "get_revision (ar_id a) n w = None"
proof (cases "get_revision (ar_id a) n w")
  case (Some r)
  then have "r \<in> set (history (ar_id a) (revisions w))" "rv_number r = n"
    by (auto simp: history_def dest: get_revision_Some)
  then have "n \<in> set (map rv_number (history (ar_id a) (revisions w)))" by auto
  with inv a n show ?thesis by (simp add: ws_inv_def revisions_ok_def)
qed

lemma bounded_summary_length: "s \<noteq> [] \<Longrightarrow> 1 \<le> summary_length (bounded_summary s) \<and> summary_length (bounded_summary s) \<le> MAX_SUMMARY_LENGTH"
  by (cases s) (auto simp: bounded_summary_def MAX_SUMMARY_LENGTH_def)

lemma text_ok: "text_problems (Some t) field n True b = [] \<Longrightarrow> 1 \<le> length t \<and> length t \<le> n"
  by (cases t) (simp_all add: text_problems_def split: if_splits)

lemma revision_reason_bounds:
  assumes "revision_reason raw = Inr r"
  shows "\<forall>s \<in> set_option r. 1 \<le> length s \<and> length s \<le> MAX_REASON_LENGTH"
proof (cases raw)
  case (Some t)
  show ?thesis
  proof (cases "text_problems (Some (clean_block t)) ''reason'' MAX_REASON_LENGTH True True")
    case Nil
    from text_ok[OF Nil] assms Some show ?thesis
      by (cases "py_strip t = []") (auto simp: revision_reason_def Nil Let_def)
  next
    case (Cons v vs)
    with assms Some show ?thesis by (cases "py_strip t = []") (auto simp: revision_reason_def Let_def)
  qed
qed (use assms in \<open>auto simp: revision_reason_def\<close>)

lemma revision_keys_plain:
  "\<not> secret_key ''project_id''" "\<not> secret_key ''revision''" "\<not> secret_key ''source''"
  "\<not> secret_key ''node_count''" "\<not> secret_key ''connection_count''" "\<not> secret_key ''content_sha256''"
  "\<not> secret_key ''restored_from''" "\<not> secret_key ''elements_added''"
  "\<not> secret_key ''elements_removed''" "\<not> secret_key ''elements_modified''"
  by code_simp+

lemma recorded:
  assumes "\<forall>k \<in> fst ` set facts. \<not> secret_key k"
  shows "\<exists>d. record_architecture e p action user_id a facts w = Inr (w\<lparr>identity := d\<rparr>)"
  using audit_record_keys[of "(''project_id'', MText (uuid_str (ar_project_id a))) # facts" e action "Some user_id"
      "Some (p_organization_id p)" "Some ''architecture''" "Some (ar_id a)" "identity w"] assms revision_keys_plain(1)
  by (auto simp: record_architecture_def ws_audit_def)

lemma facts_plain:
  "\<forall>k \<in> fst ` set (revision_facts r @ change_counts changes @
      (case rv_restored_from r of None \<Rightarrow> [] | Some n \<Rightarrow> [(''restored_from'', MInt n)])). \<not> secret_key k"
  using revision_keys_plain by (auto simp: revision_facts_def change_counts_def split: option.splits)

definition continues :: "revision \<Rightarrow> new_revision \<Rightarrow> bool" where
  "continues parent nr \<longleftrightarrow>
     nr_architecture_id nr = rv_architecture_id parent \<and> nr_number nr = rv_number parent + 1 \<and>
     nr_parent_number nr = Some (rv_number parent) \<and>
     1 \<le> summary_length (nr_summary nr) \<and> summary_length (nr_summary nr) \<le> MAX_SUMMARY_LENGTH \<and>
     (\<forall>s \<in> set_option (nr_reason nr). 1 \<le> length s \<and> length s \<le> MAX_REASON_LENGTH)"

lemma df_summary_nonempty: "df_summary d \<noteq> []"
  by (simp add: df_summary_def)

lemma next_revision_continues:
  assumes "next_revision sha parent ir source user_id reason set_id = Inr (nr, changes)"
  shows "continues parent nr" "nr_ir nr = ir" "nr_content_hash nr = content_hash sha ir"
    "nr_restored_from nr = None" "changes = diff (rv_ir parent) ir"
    "nr_requirement_set_id nr = (if set_id = None then rv_requirement_set_id parent else set_id)"
proof -
  obtain r where r: "revision_reason reason = Inr r" and nr: "nr = \<lparr>nr_architecture_id = rv_architecture_id parent,
      nr_number = rv_number parent + 1, nr_parent_number = Some (rv_number parent), nr_ir = ir,
      nr_content_hash = content_hash sha ir, nr_source = source,
      nr_summary = bounded_summary (df_summary changes), nr_reason = r, nr_created_by_user_id = user_id,
      nr_requirement_set_id = (if set_id = None then rv_requirement_set_id parent else set_id),
      nr_restored_from = None\<rparr>" and c: "changes = diff (rv_ir parent) ir"
    using assms by (auto simp: next_revision_def Let_def outcome_simps)
  show "continues parent nr"
    using bounded_summary_length[OF df_summary_nonempty] revision_reason_bounds[OF r]
    unfolding continues_def nr by simp
qed (use assms in \<open>auto simp: next_revision_def Let_def outcome_simps\<close>)

lemma restored_revision_continues:
  assumes "restored_revision sha parent source user_id reason = Inr (nr, changes)"
  shows "continues parent nr" "nr_ir nr = rv_ir source" "nr_content_hash nr = content_hash sha (rv_ir source)"
    "nr_restored_from nr = Some (rv_number source)" "changes = diff (rv_ir parent) (rv_ir source)"
    "nr_requirement_set_id nr =
       (if rv_requirement_set_id source = None then rv_requirement_set_id parent else rv_requirement_set_id source)"
    "nr_created_by_user_id nr = user_id"
proof -
  obtain nr' s where n: "next_revision sha parent (rv_ir source) FROM_USER user_id reason (rv_requirement_set_id source) = Inr (nr', changes)"
    and nr: "nr = nr'\<lparr>nr_summary := bounded_summary s, nr_restored_from := Some (rv_number source)\<rparr>"
    and s: "s \<noteq> []"
    using assms by (auto simp: restored_revision_def outcome_simps)
  note c = next_revision_continues[OF n]
  show "continues parent nr" using c(1) bounded_summary_length[OF s] unfolding continues_def nr by simp
  show "nr_ir nr = rv_ir source" "nr_content_hash nr = content_hash sha (rv_ir source)"
    "nr_restored_from nr = Some (rv_number source)" "changes = diff (rv_ir parent) (rv_ir source)"
    "nr_requirement_set_id nr =
       (if rv_requirement_set_id source = None then rv_requirement_set_id parent else rv_requirement_set_id source)"
    using c(2-6) by (simp_all add: nr)
  show "nr_created_by_user_id nr = user_id"
    using n by (auto simp: nr next_revision_def Let_def outcome_simps)
qed

text \<open>The stored row of the architecture, moved to a new revision.\<close>

definition moved_to :: "env \<Rightarrow> int \<Rightarrow> uuid option \<Rightarrow> architecture \<Rightarrow> architecture" where
  "moved_to e n user_id a =
     a\<lparr>ar_current_revision := n, ar_updated_at := db_now e, ar_updated_by_user_id := user_id\<rparr>"

lemma moved_to_simps [simp]:
  "ar_id (moved_to e n u a) = ar_id a" "ar_project_id (moved_to e n u a) = ar_project_id a"
  "ar_deleted_at (moved_to e n u a) = ar_deleted_at a" "ar_current_revision (moved_to e n u a) = n"
  by (simp_all add: moved_to_def)

lemma find_updated:
  assumes "\<And>x. q (f x) = q x"
  shows "List.find q (update_where p f rows) = map_option (\<lambda>x. if p x then f x else x) (List.find q rows)"
  using assms by (induction rows) (auto simp: update_where_def)

lemma moved_is_read:
  assumes "the_architecture j i w = Inr a"
    and "architectures w' = update_where (\<lambda>x. ar_id x = i) (moved_to e n u) (architectures w)"
  shows "the_architecture j i w' = Inr (moved_to e n u a)"
proof -
  have "architectures_get j i w' = map_option (\<lambda>x. if ar_id x = i then moved_to e n u x else x) (architectures_get j i w)"
    unfolding architectures_get_def assms(2) by (rule find_updated) simp
  then show ?thesis
    using assms(1) the_architecture_Inr(2)[OF assms(1)] by (auto simp: the_architecture_def outcome_simps)
qed

lemma next_accepted:
  assumes inv: "ws_inv sha w" and a: "a \<in> set (architectures w)"
    and parent: "get_revision (ar_id a) (ar_current_revision a) w = Some parent"
    and c: "continues parent nr" and fresh: "\<forall>r \<in> set (revisions w). rv_id r \<noteq> rid"
    and restored: "\<forall>n \<in> set_option (nr_restored_from nr). 1 \<le> n \<and> n \<le> ar_current_revision a"
    and sets: "\<forall>s \<in> set_option (nr_requirement_set_id nr). requirement_set_exists (ar_project_id a) s w"
    and checks: "1 \<le> ir_schema_version (nr_ir nr)" "CONTENT_HASH (nr_content_hash nr)"
  shows "revision_accepted rid (ar_project_id a) nr w"
proof -
  have par: "rv_architecture_id parent = ar_id a" "rv_number parent = ar_current_revision a"
    using get_revision_Some[OF parent] by simp_all
  have nr: "nr_architecture_id nr = ar_id a" "nr_number nr = ar_current_revision a + 1"
      "nr_parent_number nr = Some (ar_current_revision a)"
    using c par by (simp_all add: continues_def)
  have "get_revision (ar_id a) n w \<noteq> None \<and> n < nr_number nr" if n: "n \<in> set_option (nr_restored_from nr)" for n
    using n restored numbered_revision[OF inv a, of n] nr(2) by auto
  moreover have "get_revision (ar_id a) (nr_number nr) w = None"
    using no_later_revision[OF inv a, of "nr_number nr"] nr(2) by simp
  ultimately show ?thesis
    using c fresh sets parent current_positive[OF inv a] a checks
    unfolding revision_accepted_def continues_def requirement_set_exists_def by (auto simp: nr par)
qed

lemma add_revision_moves:
  assumes inv: "ws_inv sha w" and a: "a \<in> set (architectures w)"
    and acc: "revision_accepted (new_id e) (ar_project_id a) nr w"
    and parent: "nr_parent_number nr = Some (ar_current_revision a)"
  shows "add_revision e a nr w =
    Inr (moved_to e (nr_number nr) (nr_created_by_user_id nr) a, revision_record e (new_id e) nr,
      w\<lparr>revisions := revisions w @ [revision_record e (new_id e) nr],
        architectures := update_where (\<lambda>x. ar_id x = ar_id a)
          (moved_to e (nr_number nr) (nr_created_by_user_id nr)) (architectures w)\<rparr>)"
proof -
  let ?q = "\<lambda>x. ar_id x = ar_id a \<and> Some (ar_current_revision x) = nr_parent_number nr"
  have u: "unique_on (\<lambda>_. True) ar_id (architectures w)" using inv by (simp add: ws_inv_def architectures_ok_def)
  have "List.find ?q (architectures w) \<noteq> None"
    unfolding find_None_iff_set using a parent by auto
  then obtain d where d: "List.find ?q (architectures w) = Some d" by auto
  then have "d = a" using find_Some_mem[OF d] a u by (auto dest: unique_on_same_key)
  have f: "moved_to e n v = (\<lambda>b. b\<lparr>ar_current_revision := n, ar_updated_at := db_now e, ar_updated_by_user_id := v\<rparr>)" for n v
    by (simp add: fun_eq_iff moved_to_def)
  show ?thesis
    using acc d update_found[OF u d, of "moved_to e (nr_number nr) (nr_created_by_user_id nr)"] \<open>d = a\<close>
    by (simp add: add_revision_def add_revision_row_def ensure_def require_some_def f)
qed

lemma revise_creates:
  assumes inv: "ws_inv sha w" and p: "write_access j u ARCHITECTURE_UPDATE w = Inr (p, m)"
    and a: "the_architecture j i w = Inr a" "ar_status a = ACTIVE_ARCHITECTURE"
    and x: "load a w = Inr x" and parent: "get_revision i (ar_current_revision a) w = Some parent"
    and b: "build x parent = Inr (nr, changes)" and refs: "check_references j (nr_ir nr) set_id w = Inr ()"
    and acc: "revision_accepted (new_id e) j nr w" and next_nr: "nr_parent_number nr = Some (ar_current_revision a)"
  shows "\<exists>d. revise e j i u (ar_current_revision a) load build set_id nothing_after w =
    (Inr \<lparr>rd_architecture = moved_to e (nr_number nr) (nr_created_by_user_id nr) a,
          rd_revision = revision_record e (new_id e) nr, rd_changes = changes,
          rd_layout = get_layout i w, rd_created = True\<rparr>,
     w\<lparr>revisions := revisions w @ [revision_record e (new_id e) nr],
       architectures := update_where (\<lambda>x. ar_id x = i)
         (moved_to e (nr_number nr) (nr_created_by_user_id nr)) (architectures w), identity := d\<rparr>)"
proof -
  note row = the_architecture_Inr[OF a(1)]
  let ?f = "moved_to e (nr_number nr) (nr_created_by_user_id nr)"
  let ?r = "revision_record e (new_id e) nr"
  let ?w = "w\<lparr>revisions := revisions w @ [?r], architectures := update_where (\<lambda>x. ar_id x = ar_id a) ?f (architectures w)\<rparr>"
  have add: "add_revision e a nr w = Inr (?f a, ?r, ?w)"
    using add_revision_moves[OF inv row(1) _ next_nr] acc row(3) by simp
  obtain db' where rec: "record_architecture e p
      (if rv_restored_from ?r \<noteq> None then ARCHITECTURE_REVISION_RESTORED else ARCHITECTURE_REVISED) u (?f a)
      (revision_facts ?r @ change_counts changes @
        (case rv_restored_from ?r of None \<Rightarrow> [] | Some n \<Rightarrow> [(''restored_from'', MInt n)])) ?w = Inr (?w\<lparr>identity := db'\<rparr>)"
    using recorded[OF facts_plain] by blast
  have act: "architecture_ensure_modifiable a = Inr ()"
    using a(2) row(4) by (simp add: architecture_ensure_modifiable_def ar_is_deleted_def ar_is_archived_def)
  have par_at: "the_revision a (ar_current_revision a) w = Inr parent"
    using parent row(2) by (simp add: the_revision_def require_some_def)
  have "revise e j i u (ar_current_revision a) load build set_id nothing_after w =
      (Inr \<lparr>rd_architecture = ?f a, rd_revision = ?r, rd_changes = changes,
            rd_layout = get_layout (ar_id (?f a)) (?w\<lparr>identity := db'\<rparr>), rd_created = True\<rparr>, ?w\<lparr>identity := db'\<rparr>)"
    unfolding revise_def transaction_def p a(1) act x par_at rbind.simps prod.case b refs ensure_def
    by (simp only: simp_thms if_True if_False rbind.simps prod.case sum.case sum.distinct refs add rec nothing_after_def)
  then show ?thesis by (intro exI[of _ db']) (simp add: row(2) get_layout_def)
qed

lemma revise_conflict:
  assumes "write_access j u ARCHITECTURE_UPDATE w = Inr (p, m)" "the_architecture j i w = Inr a"
    "ar_status a = ACTIVE_ARCHITECTURE" "load a w = Inr x" "base \<noteq> ar_current_revision a"
  shows "revise e j i u base load build set_id work w =
    (Inl (ArchitectureVersionConflict (Some (ar_current_revision a))), w)"
proof -
  have "architecture_ensure_modifiable a = Inr ()"
    using assms(3) the_architecture_Inr(4)[OF assms(2)]
    by (simp add: architecture_ensure_modifiable_def ar_is_deleted_def ar_is_archived_def)
  with assms show ?thesis by (simp add: revise_def transaction_def ensure_def)
qed

lemma revise_unchanged:
  assumes "write_access j u ARCHITECTURE_UPDATE w = Inr (p, m)" "the_architecture j i w = Inr a"
    "ar_status a = ACTIVE_ARCHITECTURE" "load a w = Inr x" "get_revision i (ar_current_revision a) w = Some parent"
    "build x parent = Inl ArchitectureUnchanged"
  shows "revise e j i u (ar_current_revision a) load build set_id nothing_after w =
    (Inr \<lparr>rd_architecture = a, rd_revision = parent, rd_changes = NO_CHANGES,
          rd_layout = get_layout i w, rd_created = False\<rparr>, w)"
proof -
  have "architecture_ensure_modifiable a = Inr ()"
    using assms(3) the_architecture_Inr(4)[OF assms(2)]
    by (simp add: architecture_ensure_modifiable_def ar_is_deleted_def ar_is_archived_def)
  moreover have "the_revision a (ar_current_revision a) w = Inr parent"
    using assms(5) the_architecture_Inr(2)[OF assms(2)] by (simp add: the_revision_def require_some_def)
  ultimately show ?thesis
    using assms the_architecture_Inr(2)[OF assms(2)]
    by (simp add: revise_def transaction_def ensure_def nothing_after_def)
qed

lemma set_of_revision:
  assumes "ws_inv sha w" "a \<in> set (architectures w)" "get_revision (ar_id a) n w = Some r"
  shows "\<forall>s \<in> set_option (rv_requirement_set_id r). requirement_set_exists (ar_project_id a) s w"
proof -
  have r: "r \<in> set (revisions w)" "ar_id a = rv_architecture_id r" using get_revision_Some[OF assms(3)] by simp_all
  from old_set_in_project[OF assms(1) r(1) assms(2) r(2) refl] show ?thesis by (simp only: set_in_project_def)
qed

lemma stored_row:
  assumes "ws_inv sha w" "get_revision i n w = Some r"
  shows "revision_row_ok sha r"
  using assms(1) get_revision_Some[OF assms(2)] by (simp add: ws_inv_def revisions_ok_def)

lemma stored_number:
  assumes inv: "ws_inv sha w" and a: "a \<in> set (architectures w)" and r: "get_revision (ar_id a) n w = Some r"
  shows "1 \<le> n" "n \<le> ar_current_revision a"
proof -
  show "1 \<le> n" using revision_numbers[of sha _ _ r] inv get_revision_Some[OF r] by (auto simp: ws_inv_def)
  show "n \<le> ar_current_revision a"
    using no_later_revision[OF inv a, of n] r by (cases "n \<le> ar_current_revision a") auto
qed

lemma get_appended:
  assumes "get_revision i n w = None" "revisions w' = revisions w @ [r]" "revision_at i n r"
  shows "get_revision i n w' = Some r"
  using assms by (simp add: get_revision_def find_append_None)

text \<open>What the tables hold after a revision of \<open>i\<close> with the content of another was added and made current.\<close>

definition restored_into :: "env \<Rightarrow> uuid \<Rightarrow> uuid \<Rightarrow> int \<Rightarrow> revision \<Rightarrow> workspace \<Rightarrow> revised \<Rightarrow> workspace \<Rightarrow> bool" where
  "restored_into e i u number source w rd w' \<longleftrightarrow>
     rd_created rd \<and> revisions w' = revisions w @ [rd_revision rd] \<and>
     architectures w' = update_where (\<lambda>x. ar_id x = i) (moved_to e number (Some u)) (architectures w) \<and>
     projects w' = projects w \<and> layouts w' = layouts w \<and> requirements w' = requirements w \<and>
     requirement_sets w' = requirement_sets w \<and>
     rv_architecture_id (rd_revision rd) = i \<and> rv_number (rd_revision rd) = number \<and>
     rv_parent_number (rd_revision rd) = Some (number - 1) \<and>
     rv_ir (rd_revision rd) = rv_ir source \<and> rv_content_hash (rd_revision rd) = rv_content_hash source \<and>
     rv_restored_from (rd_revision rd) = Some (rv_number source) \<and>
     rv_created_by_user_id (rd_revision rd) = Some u"

lemma restore_creates:
  assumes inv: "ws_inv sha w" and p: "write_access j u ARCHITECTURE_UPDATE w = Inr (p, m)"
    and a: "the_architecture j i w = Inr a" "ar_status a = ACTIVE_ARCHITECTURE"
    and current: "get_revision i (ar_current_revision a) w = Some current"
    and source: "get_revision i n w = Some source" and reason: "revision_reason reason = Inr r"
    and refs: "check_references j (rv_ir source) None w = Inr ()"
    and fresh: "\<forall>r \<in> set (revisions w). rv_id r \<noteq> new_id e"
    and differs: "\<not> df_is_empty (diff (rv_ir current) (rv_ir source))"
  shows "\<exists>rd w'. restore_revision sha e j i u n (ar_current_revision a) reason w = (Inr rd, w') \<and>
    restored_into e i u (ar_current_revision a + 1) source w rd w' \<and>
    rd_architecture rd = moved_to e (ar_current_revision a + 1) (Some u) a"
proof -
  note row = the_architecture_Inr[OF a(1)]
  have cur: "rv_architecture_id current = i" "rv_number current = ar_current_revision a"
      "rv_architecture_id source = i" "rv_number source = n"
    using get_revision_Some[OF source] get_revision_Some[OF current] by simp_all
  let ?build = "\<lambda>source parent. restored_revision sha parent source (Some u) reason"
  have load: "the_revision a n w = Inr source" using source row(2) by (simp add: the_revision_def require_some_def)
  obtain nr changes where b: "?build source current = Inr (nr, changes)"
    using cur differs reason by (simp add: restored_revision_def next_revision_def Let_def ensure_def)
  note built = restored_revision_continues[OF b]
  have nr: "nr_architecture_id nr = i" "nr_number nr = ar_current_revision a + 1"
      "nr_parent_number nr = Some (ar_current_revision a)"
    using built(1) cur by (simp_all add: continues_def)
  note ok = stored_row[OF inv source]
  have sets: "\<forall>s \<in> set_option (nr_requirement_set_id nr). requirement_set_exists j s w"
    using set_of_revision[OF inv row(1)] source current built(6) row(2,3) by auto
  have "revision_accepted (new_id e) (ar_project_id a) nr w"
    by (rule next_accepted[OF inv row(1) _ built(1) fresh])
      (use current row(2,3) built(2-4) sets ok stored_number[OF inv row(1), of n source] source cur(4)
        in \<open>auto simp: revision_row_ok_def\<close>)
  then obtain d where "revise e j i u (ar_current_revision a) (\<lambda>a w. the_revision a n w) ?build None nothing_after w =
      (Inr \<lparr>rd_architecture = moved_to e (nr_number nr) (nr_created_by_user_id nr) a,
            rd_revision = revision_record e (new_id e) nr, rd_changes = changes,
            rd_layout = get_layout i w, rd_created = True\<rparr>,
       w\<lparr>revisions := revisions w @ [revision_record e (new_id e) nr],
         architectures := update_where (\<lambda>x. ar_id x = i)
           (moved_to e (nr_number nr) (nr_created_by_user_id nr)) (architectures w), identity := d\<rparr>)"
    using revise_creates[where load = "\<lambda>a w. the_revision a n w" and build = ?build and set_id = None,
        OF inv p a load current b _ _ nr(3)] refs built(2) row(3) by auto
  then show ?thesis
    using built nr ok cur
    by (simp add: restore_revision_def restored_into_def revision_record_def revision_row_ok_def)
qed

text \<open>C40. A member who may edit an active architecture of a live, active project asks to restore one of
  its revisions, whose requirement references still resolve.  Asked from an outdated revision, this is
  refused with the number of the current one, and nothing changes.  If comparing finds no difference to
  the current content, nothing is created and nothing changes.  Otherwise exactly one revision is added,
  after all others: it has the next number, the one before it as its parent, the content and the hash of
  the restored one, the member as its author, and says which one it restores; the stored row of the
  architecture, and no other row, now points to it, and reading the architecture and its current revision
  yields them.  No constraint of the tables is violated on the way.\<close>

theorem restoring_a_revision:
  assumes inv: "ws_inv sha w" and p: "write_access j u ARCHITECTURE_UPDATE w = Inr (p, m)"
    and a: "the_architecture j i w = Inr a" "ar_status a = ACTIVE_ARCHITECTURE"
    and source: "get_revision i n w = Some source" and reason: "revision_reason reason = Inr r"
    and refs: "check_references j (rv_ir source) None w = Inr ()"
    and fresh: "\<forall>r \<in> set (revisions w). rv_id r \<noteq> new_id e"
  shows "\<exists>current. get_revision i (ar_current_revision a) w = Some current \<and>
    (if base \<noteq> ar_current_revision a
     then restore_revision sha e j i u n base reason w =
       (Inl (ArchitectureVersionConflict (Some (ar_current_revision a))), w)
     else if df_is_empty (diff (rv_ir current) (rv_ir source))
     then (\<exists>rd. restore_revision sha e j i u n base reason w = (Inr rd, w) \<and>
             \<not> rd_created rd \<and> rd_revision rd = current \<and> rd_architecture rd = a)
     else (\<exists>rd w'. restore_revision sha e j i u n base reason w = (Inr rd, w') \<and>
             restored_into e i u (ar_current_revision a + 1) source w rd w' \<and>
             the_architecture j i w' = Inr (rd_architecture rd) \<and>
             ar_current_revision (rd_architecture rd) = ar_current_revision a + 1 \<and>
             get_revision i (ar_current_revision a + 1) w' = Some (rd_revision rd)))"
proof -
  note row = the_architecture_Inr[OF a(1)]
  obtain current where c: "get_revision i (ar_current_revision a) w = Some current"
    using numbered_revision[OF inv row(1) current_positive[OF inv row(1)]] row(2) by auto
  have load: "the_revision a n w = Inr source" using source row(2) by (simp add: the_revision_def require_some_def)
  let ?build = "\<lambda>source parent. restored_revision sha parent source (Some u) reason"
  consider "base \<noteq> ar_current_revision a"
    | (empty) "base = ar_current_revision a" "df_is_empty (diff (rv_ir current) (rv_ir source))"
    | (new) "base = ar_current_revision a" "\<not> df_is_empty (diff (rv_ir current) (rv_ir source))" by blast
  then show ?thesis
  proof cases
    case 1
    then show ?thesis using c revise_conflict[OF p a, of "\<lambda>a w. the_revision a n w" source base] load
      by (simp add: restore_revision_def)
  next
    case empty
    have "?build source current = Inl ArchitectureUnchanged"
      using get_revision_Some[OF source] get_revision_Some[OF c] empty(2)
      by (simp add: restored_revision_def next_revision_def Let_def ensure_def)
    from revise_unchanged[where load = "\<lambda>a w. the_revision a n w" and build = ?build, OF p a load c this] c empty
    show ?thesis by (simp add: restore_revision_def)
  next
    case new
    from restore_creates[OF inv p a c source reason refs fresh new(2)] obtain rd w' where
      rd: "restore_revision sha e j i u n base reason w = (Inr rd, w')"
        "restored_into e i u (ar_current_revision a + 1) source w rd w'"
        "rd_architecture rd = moved_to e (ar_current_revision a + 1) (Some u) a" using new(1) by auto
    have "the_architecture j i w' = Inr (rd_architecture rd)"
      unfolding rd(3) by (rule moved_is_read[OF a(1)]) (use rd(2) in \<open>simp add: restored_into_def\<close>)
    moreover have "get_revision i (ar_current_revision a + 1) w = None"
      using no_later_revision[OF inv row(1), of "ar_current_revision a + 1"] row(2) by simp
    then have "get_revision i (ar_current_revision a + 1) w' = Some (rd_revision rd)"
      by (rule get_appended) (use rd(2) in \<open>simp_all add: restored_into_def revision_at_def\<close>)
    ultimately show ?thesis using c new rd by auto
  qed
qed

section \<open>A sample workspace\<close>

definition sample_sha :: "string \<Rightarrow> string" where
  "sample_sha s = replicate 64 (CHR ''a'')"

definition empty_ir :: "string \<Rightarrow> architecture_ir" where
  "empty_ir name = \<lparr>ir_name = name, ir_description = None, ir_nodes = [], ir_connections = [],
     ir_assumptions = [], ir_decisions = [], ir_requirement_refs = [], ir_metadata = [],
     ir_provenance = None, ir_schema_version = IR_SCHEMA_VERSION\<rparr>"

definition sample_project :: project where
  "sample_project = \<lparr>p_id = 20, p_organization_id = 7, p_name = ''Shop'', p_slug = ''shop'', p_description = [],
     p_status = ACTIVE_PROJECT, p_settings = DEFAULT_SETTINGS, p_created_by_user_id = Some 2,
     p_archived_at = None, p_deleted_at = None, p_created_at = 0, p_updated_at = 0, p_policy = EMPTY_POLICY\<rparr>"

definition sample_architecture :: architecture where
  "sample_architecture = \<lparr>ar_id = 30, ar_project_id = 20, ar_name = ''Shop'', ar_description = [],
     ar_status = ACTIVE_ARCHITECTURE, ar_current_revision = 2, ar_created_by_user_id = Some 2,
     ar_updated_by_user_id = Some 2, ar_archived_at = None, ar_deleted_at = None, ar_created_at = 0,
     ar_updated_at = 0\<rparr>"

definition sample_revision :: "int \<Rightarrow> string \<Rightarrow> revision" where
  "sample_revision n name = \<lparr>rv_id = nat (30 + n), rv_architecture_id = 30, rv_number = n,
     rv_parent_number = (if n = 1 then None else Some (n - 1)), rv_ir = empty_ir name,
     rv_content_hash = content_hash sample_sha (empty_ir name), rv_source = FROM_USER,
     rv_summary = Whole ''.'', rv_reason = None, rv_created_by_user_id = Some 2, rv_created_at = 0,
     rv_requirement_set_id = None, rv_restored_from = None, rv_snapshot = to_dict (empty_ir name),
     rv_stored_schema_version = IR_SCHEMA_VERSION\<rparr>"

definition sample_ws :: workspace where
  "sample_ws = \<lparr>identity = team_db, projects = [sample_project], architectures = [sample_architecture],
     revisions = [sample_revision 1 ''A'', sample_revision 2 ''B''], layouts = [], requirements = [],
     requirement_sets = []\<rparr>"

definition sample_world :: world where
  "sample_world = \<lparr>wd_ext = sample_ext, wd_settings = sample_settings, wd_sha = sample_sha\<rparr>"

lemma shop_slug: "SLUG_FORMAT ''shop''"
  by code_simp

lemma sample_hash: "CONTENT_HASH (sample_sha s)"
  by (simp add: CONTENT_HASH_def sample_sha_def list_all_iff)

lemma sample_ws_inv: "ws_inv sample_sha sample_ws"
proof -
  have "projects_ok [sample_project]"
    by (simp add: projects_ok_def project_row_ok_def sample_project_def unique_on_def shop_slug)
  moreover have "architectures_ok [sample_architecture]"
    by (simp add: architectures_ok_def architecture_row_ok_def sample_architecture_def unique_on_def)
  moreover have "revisions_ok sample_sha [sample_architecture] [sample_revision 1 ''A'', sample_revision 2 ''B'']"
    by (simp add: revisions_ok_def revision_row_ok_def sample_architecture_def sample_revision_def unique_on_def
        history_def upto.simps empty_ir_def IR_SCHEMA_VERSION_def content_hash_def sample_hash)
  moreover have "ws_references_ok sample_ws"
    by (simp add: ws_references_ok_def set_in_project_def sample_ws_def sample_revision_def sample_architecture_def
        sample_project_def)
  ultimately show ?thesis using team_db_inv by (simp add: ws_inv_def sample_ws_def)
qed

theorem revisions_are_numbered_and_kept_witness:
  "\<exists>w. w = run_calls (ws_perform sample_world)
       [(sample_env 5 50 ''s'', CreateArchitecture 20 2 ''New'' [] None FROM_USER None None),
        (sample_env 6 60 ''s'', ArchiveArchitecture 20 30 2), (sample_env 7 70 ''s'', DeleteArchitecture 20 30 2)] sample_ws \<and>
     (\<exists>a \<in> set (architectures w). ar_id a = 30 \<and> well_numbered sample_sha w a) \<and>
     list_all (well_numbered sample_sha w) (architectures w)"
proof -
  have sha: "wd_sha sample_world = sample_sha" by (simp add: sample_world_def)
  then have inv: "ws_inv (wd_sha sample_world) sample_ws" using sample_ws_inv by simp
  have a: "sample_architecture \<in> set (architectures sample_ws)" "ar_id sample_architecture = 30"
    by (simp_all add: sample_ws_def sample_architecture_def)
  note kept = revisions_are_numbered_and_kept[OF inv,
      of "[(sample_env 5 50 ''s'', CreateArchitecture 20 2 ''New'' [] None FROM_USER None None),
        (sample_env 6 60 ''s'', ArchiveArchitecture 20 30 2), (sample_env 7 70 ''s'', DeleteArchitecture 20 30 2)]",
      unfolded sha]
  show ?thesis
    unfolding list_all_iff by (intro exI conjI) (rule refl, use kept a in metis, use kept in blast)
qed

lemma sample_member: "projects_get_for_member 20 2 sample_ws =
    Some (sample_project, \<lparr>m_id = 71, m_organization_id = 7, m_user_id = 2, m_role = OWNER, m_created_at = 0\<rparr>)"
  by (simp add: projects_get_for_member_def projects_get_live_def sample_ws_def sample_project_def team_db_def
      memberships_get_in_active_organization_def organizations_get_active_def organization_live_def
      memberships_get_for_user_def member_of_def)

lemma owner_can: "can \<lparr>m_id = 71, m_organization_id = 7, m_user_id = 2, m_role = OWNER, m_created_at = 0\<rparr> p"
  by (simp add: can_def has_permission_def owner_permissions_all)

lemma sample_ws_simps: "projects sample_ws = [sample_project]" "identity sample_ws = team_db"
    "architectures sample_ws = [sample_architecture]"
    "revisions sample_ws = [sample_revision 1 ''A'', sample_revision 2 ''B'']"
    "p_deleted_at sample_project = None" "p_status sample_project = ACTIVE_PROJECT" "p_id sample_project = 20"
    "p_organization_id sample_project = 7"
  by (simp_all add: sample_ws_def sample_project_def)

lemma sample_project_archived:
  "\<exists>d. snd (archive_project (sample_env 5 50 ''s'') 20 2 sample_ws) =
     sample_ws\<lparr>projects := [sample_project\<lparr>p_status := ARCHIVED_PROJECT, p_archived_at := Some 5, p_updated_at := 5\<rparr>],
       identity := d\<rparr>"
proof -
  let ?q = "sample_project\<lparr>p_status := ARCHIVED_PROJECT, p_archived_at := Some 5\<rparr>"
  have "?q \<noteq> sample_project" by (simp add: sample_project_def)
  moreover have "projects_save (sample_env 5 50 ''s'') ?q sample_ws =
      Inr (?q\<lparr>p_updated_at := 5\<rparr>, sample_ws\<lparr>projects := [?q\<lparr>p_updated_at := 5\<rparr>]\<rparr>)"
    by (simp add: projects_save_def sample_ws_simps update_where_def sample_env_def)
  moreover obtain d where "ws_audit (sample_env 5 50 ''s'') (project_event PROJECT_ARCHIVED 2 (?q\<lparr>p_updated_at := 5\<rparr>)
      [(''name'', MText (p_name (?q\<lparr>p_updated_at := 5\<rparr>)))]) (sample_ws\<lparr>projects := [?q\<lparr>p_updated_at := 5\<rparr>]\<rparr>) =
      Inr (sample_ws\<lparr>projects := [?q\<lparr>p_updated_at := 5\<rparr>], identity := d\<rparr>)"
    by (auto simp: ws_audit_def project_event_def audit_record_def AuditEvent_def)
  ultimately show ?thesis
    by (auto simp: archive_project_def project_transition_def transaction_def sample_member require_some_def require_def
        owner_can project_archive_def p_is_deleted_def p_is_archived_def sample_ws_simps sample_env_def)
qed

theorem changes_need_permission_witness:
  "project_view 20 (snd (ws_perform sample_world (sample_env 5 50 ''s'', ArchiveProject 20 2) sample_ws)) \<noteq>
     project_view 20 sample_ws \<and>
   (\<exists>x m. memberships_get_in_active_organization 7 2 team_db = Some (x, m) \<and> can m PROJECT_ARCHIVE)"
proof -
  let ?c = "ArchiveProject 20 2" and ?e = "sample_env 5 50 ''s''"
  obtain d where "snd (archive_project ?e 20 2 sample_ws) =
     sample_ws\<lparr>projects := [sample_project\<lparr>p_status := ARCHIVED_PROJECT, p_archived_at := Some 5, p_updated_at := 5\<rparr>],
       identity := d\<rparr>" using sample_project_archived by blast
  then have changed: "project_view 20 (snd (ws_perform sample_world (?e, ?c) sample_ws)) \<noteq> project_view 20 sample_ws"
    by (simp add: project_view_def sample_ws_simps) (simp add: sample_project_def)
  have "ws_inv (wd_sha sample_world) sample_ws" using sample_ws_inv by (simp add: sample_world_def)
  from changes_need_permission[OF this changed] show ?thesis using changed by (auto simp: sample_ws_simps)
qed

lemma sample_differs: "\<not> df_is_empty (diff (empty_ir ''B'') (empty_ir ''A''))"
  by (simp add: df_is_empty_def diff_def field_changes_def own_dict_def empty_ir_def Let_def entries_def dict_get_def
      text_json_def WHOLE_def metadata_dict_def provenance_dict_def refs_dict_def filter_empty_conv)

theorem restoring_a_revision_witness:
  "\<exists>rd w'. restore_revision sample_sha (sample_env 5 50 ''s'') 20 30 2 1 2 None sample_ws = (Inr rd, w') \<and>
     rv_number (rd_revision rd) = 3 \<and> rv_ir (rd_revision rd) = empty_ir ''A'' \<and>
     rv_restored_from (rd_revision rd) = Some 1 \<and>
     (\<exists>b. the_architecture 20 30 w' = Inr b \<and> ar_current_revision b = 3)"
proof -
  have p: "write_access 20 2 ARCHITECTURE_UPDATE sample_ws =
      Inr (sample_project, \<lparr>m_id = 71, m_organization_id = 7, m_user_id = 2, m_role = OWNER, m_created_at = 0\<rparr>)"
    by (simp add: write_access_def project_access_def sample_member require_some_def require_def owner_can
        project_ensure_modifiable_def p_is_deleted_def p_is_archived_def sample_ws_simps)
  have a: "the_architecture 20 30 sample_ws = Inr sample_architecture" "ar_status sample_architecture = ACTIVE_ARCHITECTURE"
      "ar_current_revision sample_architecture = 2"
    by (simp_all add: the_architecture_def architectures_get_def sample_ws_simps require_some_def sample_architecture_def)
  have s: "get_revision 30 1 sample_ws = Some (sample_revision 1 ''A'')" "get_revision 30 2 sample_ws = Some (sample_revision 2 ''B'')"
    by (simp_all add: get_revision_def sample_ws_simps revision_at_def sample_revision_def)
  have ir: "rv_ir (sample_revision n name) = empty_ir name" for n name by (simp add: sample_revision_def)
  have refs: "check_references 20 (rv_ir (sample_revision 1 ''A'')) None sample_ws = Inr ()"
    by (simp add: check_references_def ensure_def referenced_requirements_def referencing_def ir empty_ir_def sorted_set_def)
  have fresh: "\<forall>r \<in> set (revisions sample_ws). rv_id r \<noteq> new_id (sample_env 5 50 ''s'')"
    by (simp add: sample_ws_simps sample_env_def sample_revision_def)
  have "revision_reason None = Inr None" by (simp add: revision_reason_def)
  from restoring_a_revision[OF sample_ws_inv p a(1,2) s(1) this refs fresh, of 2] show ?thesis
    by (auto simp: a(3) s(2) ir sample_differs restored_into_def) (auto simp: sample_revision_def)
qed

end
