(* ===== verification/Spec2Isabelle.thy ===== *)
theory Spec2Isabelle
  imports Identity_Theorems IR_Theorems IR_Diff_Theorems Mig_Theorems Workspace_Theorems
begin

text \<open>
  A verification development of the ArchitectOS back end: accounts, organizations and their
  storage, projects and their architectures with numbered revisions, the Architecture IR with its
  graph rules, queries, edits, comparison and canonical text, and migration plans with their
  sequencing, versions and review.

  \<^bold>\<open>Parts of the program and the theories that model them.\<close>

  \<^item> \<open>Base\<close> is the prelude: outcomes of code that may raise (\<open>rbind\<close>, \<open>ensure\<close>,
    \<open>rfold\<close>, \<open>rmap\<close>), database transactions with commit and rollback
    (\<open>persistence/unit_of_work.py\<close>), tables as lists of rows, and the interfaces
    \<open>service\<close> and \<open>forward_service\<close>: every call keeps an invariant of the database,
    and only moves forward in an order.
  \<^item> \<open>Py_Text\<close> and \<open>Text_Props\<close> hold the Python text operations the program uses
    (\<open>split\<close>, \<open>strip\<close>, \<open>replace\<close>, \<open>lower\<close>, \<open>repr\<close>, UUIDs as text) and
    \<open>core/domain/text.py\<close>.
  \<^item> \<open>Errors\<close> and \<open>Policy\<close>: the domain errors; roles, permissions and the membership
    checks (\<open>core/domain/organizations/permissions.py\<close>, \<open>membership_policy.py\<close>).
  \<^item> \<open>Store\<close>: the tables, the repository methods (\<open>persistence/repositories\<close>), row
    constraints and the audit trail.
  \<^item> \<open>Membership\<close> and \<open>Membership_Props\<close>: the organization, membership and invitation
    services (\<open>core/domain/organizations\<close>) and the invariant that every live organization has
    an owner.
  \<^item> \<open>Accounts\<close> and \<open>Accounts_Props\<close>: registration, sign-in, session rotation, password
    reset and change, account deletion (\<open>core/domain/identity\<close>); the invariant of the whole
    database and the order in which its rows progress.
  \<^item> \<open>Rotation_Props\<close>: only a refresh with a token of a session changes the tokens of that
    session; every other call keeps them.
  \<^item> \<open>Identity_Theorems\<close>: the properties of these services.
  \<^item> \<open>IR_Values\<close>, \<open>IR_Config\<close>, \<open>IR_Elements\<close>, \<open>IR_Model\<close>: the data of
    \<open>core/architecture_ir\<close> (\<open>values.py\<close>, \<open>errors.py\<close>, \<open>component.py\<close>,
    \<open>dependency.py\<close>, \<open>configuration.py\<close>, \<open>provenance.py\<close>, \<open>traceability.py\<close>,
    \<open>node.py\<close>, \<open>edge.py\<close>, \<open>model.py\<close>): every constructor as a function that normalizes
    its fields and returns the value or all violations, messages included.
  \<^item> \<open>IR_Contracts\<close>: the interface \<open>constructor\<close> and its interpretation for every
    constructor, with the normal forms of text, collections and decimals.
  \<^item> \<open>Worklist\<close>, \<open>IR_Topology\<close>: the exploration loop of \<open>topology.py\<close> and its
    queries; the interface \<open>worklist\<close> gives that exploration ends and finds exactly what is
    reachable.
  \<^item> \<open>IR_Graph\<close>: the declarative graph rules \<open>graph_ok\<close> and that the checks of
    \<open>model.py\<close> decide them.
  \<^item> \<open>IR_Commands\<close>, \<open>IR_Command_Props\<close>, \<open>IR_Edits\<close>, \<open>IR_Edit_Effects\<close>:
    \<open>commands.py\<close>, the interface \<open>configurable\<close> of nodes and connections, the invariant of a
    draft and the effect of single edits.
  \<^item> \<open>IR_Theorems\<close>: the properties of the IR.
  \<^item> \<open>IR_Writing\<close>: the canonical document of an architecture, its JSON text and its hash
    (\<open>to_dict\<close>, \<open>to_json\<close> and \<open>content_hash\<close> of \<open>serialization.py\<close>).
  \<^item> \<open>IR_Diff\<close>, \<open>IR_Diff_Props\<close>, \<open>IR_Diff_Theorems\<close>: the comparison of two
    architectures with its redaction of secrets (\<open>diff.py\<close>), and its properties.
  \<^item> \<open>Project_Values\<close>, \<open>Slugs\<close>: names, slugs, settings and the architecture policy of a
    project (\<open>core/domain/projects/value_objects.py\<close>, \<open>policies.py\<close>).
  \<^item> \<open>Workspace\<close>: the tables of projects, architectures, revisions, layouts and requirements
    beside those of \<open>Store\<close>, with their checks and constraints (\<open>persistence/models\<close>).
  \<^item> \<open>Projects\<close>: projects, their lifecycle, repository and service, and
    \<open>project_access\<close>, which every operation on a project's contents goes through.
  \<^item> \<open>Revisions\<close>, \<open>Architectures\<close>: \<open>core/domain/architecture\<close>: metadata, lifecycle,
    layouts, the making of first, next and restored revisions, the references to requirements, the
    repository and the service.
  \<^item> \<open>Workspace_Props\<close>, \<open>Workspace_Calls\<close>: the invariant of the workspace, the effect of
    every repository method and operation on it, and the calls of both services as an interpretation
    of \<open>forward_service\<close>.
  \<^item> \<open>Workspace_Theorems\<close>: the properties of projects and architectures.
  \<^item> \<open>Strong_Groups\<close> and \<open>Topological\<close>: the algorithms of
    \<open>engines/migration/dependency_graph.py\<close> over any graph: the iterative search for strongly
    connected groups (\<open>cycles\<close>), the ancestors, Kahn's order and the levels; each is proved
    against its declarative description.
  \<^item> \<open>Mig_Values\<close>, \<open>Mig_Parts\<close>, \<open>Mig_Plans\<close>: the data of
    \<open>core/domain/migrations\<close> (\<open>values.py\<close>, \<open>steps.py\<close>, \<open>plans.py\<close>,
    \<open>evidence.py\<close>): steps, risks, checkpoints, rollbacks, proposals, each constructor with its
    list of problems; the interface \<open>checked\<close> says what such a constructor guarantees.
  \<^item> \<open>Mig_Sequencing\<close>, \<open>Mig_Sequence_Props\<close>: the dependency graph of a plan's steps and
    \<open>engines/migration/sequencing.py\<close>: dependency findings, transition findings and stages.
  \<^item> \<open>Mig_Review\<close>, \<open>Mig_Review_Props\<close>: requests, plan versions and their status machine
    (\<open>entities.py\<close>), staleness, regeneration and review (\<open>versioning.py\<close>), the table of
    versions (\<open>persistence/repositories/migrations.py\<close>), and the invariant of every table that
    calls can produce.
  \<^item> \<open>Mig_Theorems\<close>: the properties of migration plans.

  \<^bold>\<open>State and effects.\<close>  A database is a record of tables, a service method a function from the
  database to an outcome and the next database.  An architecture is an immutable record; a dict is
  the list of its entries with distinct keys, in insertion order, or sorted where the code sorts it.
  Exceptions are values of sum types.  Clocks, random tokens, password hashing and mail are
  parameters (the environment of a call); what the code relies on is stated as hypotheses.

  \<^bold>\<open>Bounds and fuel.\<close>  Three loops could run forever in the model
  (\<open>partial_function\<close>): the exploration of the topology, the search for strongly connected
  groups and the gathering of ancestors; each is proved to end.  The other loops are recursive functions with
  termination proofs.  The digit loop of \<open>strip_zeros\<close> takes the number of digits as its bound,
  which is as many trailing zeros as a number can have.  Decimals round to 28 digits as Python's
  default context does.

  \<^bold>\<open>Choices.\<close>  Strings are Latin-1.  A UUID is a number below \<open>2^128\<close>, an instant a number of
  microseconds.  Values are typed, so checks of a value's Python type against its annotation have no
  counterpart.  Negative zero and the exponent limits of \<open>Decimal\<close> are not modelled.
  Interleavings of transactions are considered only where a property is about them.  Row locks
  have no counterpart: a call runs as one transaction.  SHA-256 and the fingerprint of a migration
  proposal are arguments of the definitions that use them.  A stored revision keeps its architecture:
  that reading its document back gives this architecture is not proved.  A summary that was cut ends in an
  ellipsis outside Latin-1, the constructor \<open>Cut\<close>.  A time without zone in a provenance is
  written as UTC.  Coordinates are decimals.  The requirement services appear only as a call that
  replaces the requirement rows in any way and adds requirement sets (\<open>RequirementsChange\<close>); it
  stands for all they may do to the columns read here, and their own authorization is not part of it.
  The size limit of a stored document (\<open>ir_size\<close>) is left out, since it bounds text the database
  writes.  A listing of revisions returns whole revisions where the code returns their summaries.
  Stored migration requests and proposals are kept as values; writing them as JSON and verifying their
  fingerprint when they are read is not modelled.  Hashing a password is a function of the password: the
  salt of the real hasher has no counterpart, and no property relies on two hashes of one password being equal.

  \<^bold>\<open>Not modelled.\<close>  The profile update and the listings of the identity services; reading
  an architecture from its document, its schema description and upgrade, and the check of a stored
  document; the listing of projects and the text of listing cursors; requirements and the engines
  (capacity, cost, reliability, security, observability, simulation, validation, drift, evolution), of
  which the manifest lists each with its reason; of migrations the planner with its patterns, the
  loading of evidence, the authorization and paging of the service, and the rendering as dicts; the
  HTTP layer, the AI agents and the web application.
\<close>

end
